(* ===== verification/Rs_Prelude.thy ===== *)
theory Rs_Prelude
  imports
    Complex_Main
    "HOL-Library.Word"
    "HOL-Library.Finite_Map"
    "HOL-Library.Char_ord"
    "HOL-Library.List_Lexorder"
    "HOL-Library.Monad_Syntax"
begin

text \<open>
  What every component shares: the names of the machine types, the string and integer
  operations of Rust's standard library that the sources call, finite maps for
  \<open>HashMap\<close> and \<open>DashMap\<close>, and two interfaces.

  \<^item> A Rust \<open>String\<close> is its UTF-8 bytes: a \<^typ>\<open>string\<close>, one \<^typ>\<open>char\<close> per byte, ordered
    bytewise as \<open>str::cmp\<close> orders it.
  \<^item> \<open>Result<T, E>\<close> is a sum, \<open>Inl\<close> the error.
  \<^item> A \<open>Duration\<close> and an \<open>Instant\<close> are naturals counting nanoseconds; where the code
    saturates, the saturation is written out.
  \<^item> \<open>op_invariant\<close> is the interface of a component whose operations keep an invariant;
    \<open>guarded_invariant\<close> the one of a component whose operations keep it under a condition on
    their arguments that the callers meet.
  \<^item> \<open>keyed_store\<close> is the interface of a map with insertion and removal, provided by finite
    maps here and by JSON objects in \<open>Json_Value\<close>.
\<close>

section \<open>Names of the machine types\<close>

type_synonym str = string
type_synonym u8 = "8 word"
type_synonym u16 = "16 word"
type_synonym u32 = "32 word"
type_synonym u64 = "64 word"
type_synonym i64 = "64 word"
type_synonym ('a, 'e) result = "'e + 'a"
type_synonym duration = nat
type_synonym instant = nat

named_theorems step_defs "the definitions of the operations of a component"
named_theorems inv_intros "introduction rules for component invariants"

section \<open>Operations that keep an invariant\<close>

text \<open>A run whose every step is one that the guard allows in the state it meets.\<close>

fun guarded :: "('op \<Rightarrow> 's \<Rightarrow> 's) \<Rightarrow> ('op \<Rightarrow> 's \<Rightarrow> bool) \<Rightarrow> 'op list \<Rightarrow> 's \<Rightarrow> bool" where
  "guarded step guard [] s = True"
| "guarded step guard (x # xs) s = (guard x s \<and> guarded step guard xs (step x s))"

locale guarded_invariant =
  fixes step :: "'op \<Rightarrow> 's \<Rightarrow> 's" and guard :: "'op \<Rightarrow> 's \<Rightarrow> bool" and inv :: "'s \<Rightarrow> bool"
  assumes guarded_step: "inv s \<Longrightarrow> guard x s \<Longrightarrow> inv (step x s)"
begin

lemma guarded_run: "inv s \<Longrightarrow> guarded step guard xs s \<Longrightarrow> inv (fold step xs s)"
  by (induction xs arbitrary: s) (simp_all add: guarded_step)

end

locale op_invariant =
  fixes step :: "'op \<Rightarrow> 's \<Rightarrow> 's" and inv :: "'s \<Rightarrow> bool"
  assumes step_inv: "inv s \<Longrightarrow> inv (step x s)"
begin

lemma run_inv: "inv s \<Longrightarrow> inv (fold step xs s)"
  by (induction xs arbitrary: s) (simp_all add: step_inv)

end

section \<open>Stores with keys\<close>

locale keyed_store =
  fixes get :: "'m \<Rightarrow> 'k \<Rightarrow> 'v option"
    and ins :: "'k \<Rightarrow> 'v \<Rightarrow> 'm \<Rightarrow> 'm"
    and del :: "'k \<Rightarrow> 'm \<Rightarrow> 'm"
  assumes get_ins: "get (ins k v m) k' = (if k' = k then Some v else get m k')"
    and get_del: "get (del k m) k' = (if k' = k then None else get m k')"
begin

lemma get_ins_same [simp]: "get (ins k v m) k = Some v"
  by (simp add: get_ins)

lemma get_del_same [simp]: "get (del k m) k = None"
  by (simp add: get_del)

lemma get_ins_all:
  "get (fold (\<lambda>(k, v). ins k v) kvs m) k = (case map_of (rev kvs) k of None \<Rightarrow> get m k | Some v \<Rightarrow> Some v)"
proof (induction kvs arbitrary: m)
  case Nil
  then show ?case by simp
next
  case (Cons kv kvs)
  show ?case
    by (cases kv) (auto simp: Cons.IH get_ins map_add_def split: option.splits)
qed

end

interpretation fm: keyed_store fmlookup fmupd fmdrop
  by unfold_locales auto

section \<open>Finite maps as hash maps\<close>

definition fmlen :: "('k, 'v) fmap \<Rightarrow> nat" where
  "fmlen m = fcard (fmdom m)"

definition fmpop :: "'k \<Rightarrow> ('k, 'v) fmap \<Rightarrow> 'v option \<times> ('k, 'v) fmap" where
  "fmpop k m = (fmlookup m k, fmdrop k m)"

definition fmremove_if :: "'k \<Rightarrow> ('v \<Rightarrow> bool) \<Rightarrow> ('k, 'v) fmap \<Rightarrow> ('k, 'v) fmap" where
  "fmremove_if k p m = (case fmlookup m k of Some v \<Rightarrow> if p v then fmdrop k m else m | None \<Rightarrow> m)"

lemma fmlen_empty [simp]: "fmlen fmempty = 0"
  by (simp add: fmlen_def)

lemma fmlen_upd: "fmlen (fmupd k v m) = (if fmlookup m k = None then Suc (fmlen m) else fmlen m)"
  by (auto simp: fmlen_def fcard_finsert_if fmlookup_dom_iff)

lemma fmlen_drop: "fmlen (fmdrop k m) = (if fmlookup m k = None then fmlen m else fmlen m - 1)"
  by (auto simp: fmlen_def fcard_fminus_fsingleton_if fmlookup_dom_iff)

lemma fmlen_0: "fmlen m = 0 \<longleftrightarrow> m = fmempty"
proof
  assume "fmlen m = 0"
  then have "fmdom m = {||}" by (simp add: fmlen_def)
  then show "m = fmempty" by (metis fmrestrict_fset_dom fmrestrict_fset_null)
qed simp

lemma fmlookup_remove_if:
  "fmlookup (fmremove_if k p m) k' =
     (if k' = k \<and> (\<exists>v. fmlookup m k = Some v \<and> p v) then None else fmlookup m k')"
  by (auto simp: fmremove_if_def split: option.splits)

section \<open>Strings\<close>

fun strip_prefix :: "str \<Rightarrow> str \<Rightarrow> str option" where
  "strip_prefix [] s = Some s"
| "strip_prefix (p # ps) [] = None"
| "strip_prefix (p # ps) (c # s) = (if p = c then strip_prefix ps s else None)"

definition starts_with :: "str \<Rightarrow> str \<Rightarrow> bool" where
  "starts_with s p = (strip_prefix p s \<noteq> None)"

definition ends_with :: "str \<Rightarrow> str \<Rightarrow> bool" where
  "ends_with s p = starts_with (rev s) (rev p)"

fun contains :: "str \<Rightarrow> str \<Rightarrow> bool" where
  "contains [] p = (p = [])"
| "contains (c # s) p = (starts_with (c # s) p \<or> contains s p)"

fun split_once :: "char \<Rightarrow> str \<Rightarrow> (str \<times> str) option" where
  "split_once d [] = None"
| "split_once d (c # s) =
     (if c = d then Some ([], s) else map_option (\<lambda>(a, b). (c # a, b)) (split_once d s))"

lemma strip_prefix_Some: "strip_prefix p s = Some r \<longleftrightarrow> s = p @ r"
  by (induction p s rule: strip_prefix.induct) auto

lemma strip_prefix_append [simp]: "strip_prefix p (p @ r) = Some r"
  by (simp add: strip_prefix_Some)

lemma starts_with_iff: "starts_with s p \<longleftrightarrow> (\<exists>r. s = p @ r)"
  by (auto simp: starts_with_def strip_prefix_Some)

lemma ends_with_iff: "ends_with s p \<longleftrightarrow> (\<exists>r. s = r @ p)"
proof
  assume "ends_with s p"
  then obtain r where "rev s = rev p @ r" by (auto simp: ends_with_def starts_with_iff)
  then have "s = rev r @ p" by (metis rev_append rev_rev_ident)
  then show "\<exists>r. s = r @ p" by blast
qed (auto simp: ends_with_def starts_with_iff)

lemma contains_iff: "contains s p \<longleftrightarrow> (\<exists>a b. s = a @ p @ b)"
proof (induction s)
  case Nil
  then show ?case by auto
next
  case (Cons c s)
  show ?case
  proof
    assume "contains (c # s) p"
    then consider r where "c # s = p @ r" | a b where "s = a @ p @ b"
      using Cons.IH by (auto simp: starts_with_iff)
    then show "\<exists>a b. c # s = a @ p @ b"
    proof cases
      case 1
      then have "c # s = [] @ p @ r" by simp
      then show ?thesis by blast
    next
      case 2
      then have "c # s = (c # a) @ p @ b" by simp
      then show ?thesis by blast
    qed
  next
    assume "\<exists>a b. c # s = a @ p @ b"
    then obtain a b where ab: "c # s = a @ p @ b" by blast
    show "contains (c # s) p"
    proof (cases a)
      case Nil
      with ab have "starts_with (c # s) p" by (simp add: starts_with_iff)
      then show ?thesis by simp
    next
      case (Cons x xs)
      with ab have "s = xs @ p @ b" by simp
      then have "\<exists>a b. s = a @ p @ b" by blast
      then show ?thesis using Cons.IH by simp
    qed
  qed
qed

lemma split_once_Some:
  "split_once d s = Some (a, b) \<longleftrightarrow> s = a @ d # b \<and> d \<notin> set a"
proof (induction s arbitrary: a)
  case Nil
  then show ?case by simp
next
  case (Cons c s)
  show ?case
  proof (cases "c = d")
    case True
    then show ?thesis by (cases a) auto
  next
    case False
    then show ?thesis using Cons.IH by (cases a) auto
  qed
qed

section \<open>Decimal numbers\<close>

definition digit :: "nat \<Rightarrow> char" where
  "digit d = char_of (48 + d)"

definition digit_value :: "char \<Rightarrow> nat option" where
  "digit_value c = (let n = of_char c in if 48 \<le> n \<and> n \<le> 57 then Some (n - 48) else None)"

fun nat_to_str :: "nat \<Rightarrow> str" where
  "nat_to_str n = (if n < 10 then [digit n] else nat_to_str (n div 10) @ [digit (n mod 10)])"

declare nat_to_str.simps [simp del]

fun parse_digits :: "nat \<Rightarrow> str \<Rightarrow> nat option" where
  "parse_digits acc [] = Some acc"
| "parse_digits acc (c # s) =
     (case digit_value c of None \<Rightarrow> None | Some d \<Rightarrow> parse_digits (10 * acc + d) s)"

definition parse_nat :: "str \<Rightarrow> nat option" where
  "parse_nat s = (if s = [] then None else parse_digits 0 s)"

lemma digit_value_digit [simp]: "d < 10 \<Longrightarrow> digit_value (digit d) = Some d"
  by (simp add: digit_value_def digit_def Let_def)

lemma parse_digits_append:
  "parse_digits acc (s @ t) = (case parse_digits acc s of None \<Rightarrow> None | Some n \<Rightarrow> parse_digits n t)"
  by (induction s arbitrary: acc) (auto split: option.splits)

lemma nat_to_str_nonempty [simp]: "nat_to_str n \<noteq> []"
  by (subst nat_to_str.simps) simp

lemma parse_digits_nat_to_str: "parse_digits 0 (nat_to_str n) = Some n"
proof (induction n rule: nat_to_str.induct)
  case (1 n)
  show ?case
  proof (cases "n < 10")
    case True
    then show ?thesis by (subst nat_to_str.simps) simp
  next
    case False
    then show ?thesis
      using "1.IH" by (subst nat_to_str.simps) (simp add: parse_digits_append)
  qed
qed

lemma parse_nat_to_str [simp]: "parse_nat (nat_to_str n) = Some n"
  by (simp add: parse_nat_def parse_digits_nat_to_str)

lemma nat_to_str_inj [simp]: "nat_to_str m = nat_to_str n \<longleftrightarrow> m = n"
  by (metis option.inject parse_nat_to_str)

lemma nat_to_str_small: "n < 10 \<Longrightarrow> nat_to_str n = [digit n]"
  by (subst nat_to_str.simps) simp

text \<open>
  \<open>str::parse::<i64>\<close>: one optional sign, at least one digit, nothing else, and a value that
  fits.  An \<open>i64\<close> is a 64-bit word read with \<^const>\<open>sint\<close>.
\<close>

definition i64_of_int :: "int \<Rightarrow> i64 option" where
  "i64_of_int i = (if - (2 ^ 63) \<le> i \<and> i < 2 ^ 63 then Some (word_of_int i) else None)"

definition parse_i64 :: "str \<Rightarrow> i64 option" where
  "parse_i64 s = (case s of
       [] \<Rightarrow> None
     | c # r \<Rightarrow>
         if c = CHR ''-'' then Option.bind (parse_nat r) (\<lambda>n. i64_of_int (- int n))
         else if c = CHR ''+'' then Option.bind (parse_nat r) (\<lambda>n. i64_of_int (int n))
         else Option.bind (parse_nat s) (\<lambda>n. i64_of_int (int n)))"

definition i64_to_str :: "i64 \<Rightarrow> str" where
  "i64_to_str w = (let i = sint w in
     if i < 0 then CHR ''-'' # nat_to_str (nat (- i)) else nat_to_str (nat i))"

lemma i64_of_int_sint [simp]: "i64_of_int (sint (w :: i64)) = Some w"
  using sint_ge [of w] sint_lt [of w] by (simp add: i64_of_int_def)

lemma digit_not_sign: "d < 10 \<Longrightarrow> digit d \<noteq> CHR ''-'' \<and> digit d \<noteq> CHR ''+''"
proof -
  assume d: "d < 10"
  have "of_char (digit d) = 48 + d" using d by (simp add: digit_def)
  then show ?thesis by auto
qed

lemma hd_nat_to_str: "\<exists>d r. d < 10 \<and> nat_to_str n = digit d # r"
proof (induction n rule: nat_to_str.induct)
  case (1 n)
  show ?case
  proof (cases "n < 10")
    case True
    then show ?thesis by (subst nat_to_str.simps) auto
  next
    case False
    then obtain d r where "d < 10" "nat_to_str (n div 10) = digit d # r" using "1.IH" by blast
    with False show ?thesis by (subst nat_to_str.simps) auto
  qed
qed

lemma parse_i64_to_str [simp]: "parse_i64 (i64_to_str w) = Some w"
proof (cases "sint w < 0")
  case True
  then show ?thesis by (simp add: i64_to_str_def parse_i64_def Let_def)
next
  case False
  obtain d r where dr: "d < 10" "nat_to_str (nat (sint w)) = digit d # r"
    using hd_nat_to_str by blast
  have "parse_nat (digit d # r) = Some (nat (sint w))"
    using dr(2) parse_nat_to_str by metis
  with False dr digit_not_sign [of d] show ?thesis
    by (simp add: i64_to_str_def parse_i64_def Let_def)
qed

section \<open>Saturating machine arithmetic\<close>

definition sat_inc_u32 :: "u32 \<Rightarrow> u32" where
  "sat_inc_u32 a = (if unat a + 1 < 2 ^ 32 then a + 1 else a)"

lemma unat_sat_inc_u32: "unat (sat_inc_u32 a) = min (2 ^ 32 - 1) (Suc (unat a))"
proof -
  have "unat a < 2 ^ LENGTH(32)" by (rule unsigned_less)
  then show ?thesis by (auto simp: sat_inc_u32_def unat_word_ariths)
qed

definition duration_max :: duration where
  "duration_max = (2 ^ 64 - 1) * 1000000000 + 999999999"

definition from_secs :: "nat \<Rightarrow> duration" where
  "from_secs s = s * 1000000000"

definition from_millis :: "nat \<Rightarrow> duration" where
  "from_millis ms = ms * 1000000"

definition as_millis :: "duration \<Rightarrow> nat" where
  "as_millis d = d div 1000000"

definition duration_saturating_mul :: "duration \<Rightarrow> u32 \<Rightarrow> duration" where
  "duration_saturating_mul d n = min duration_max (d * unat n)"

lemma from_millis_as_millis_le: "from_millis (as_millis d) \<le> d"
  by (simp add: from_millis_def as_millis_def)

section \<open>Lists\<close>

lemma fold_invariant_set:
  assumes "P s" and "\<And>x s. x \<in> set xs \<Longrightarrow> P s \<Longrightarrow> P (f x s)"
  shows "P (fold f xs s)"
  using assms by (induction xs arbitrary: s) auto

end
