(* ===== verification/Ddp_Backoff.thy ===== *)
theory Ddp_Backoff
  imports Rs_Prelude
begin

text \<open>
  The wait between connection attempts, \<open>rocketsocket-realtime/src/backoff.rs\<close>.

  The random generator is \<open>fastrand\<close>'s and a parameter: \<open>draw g n\<close> is a value of
  \<open>rng.u64(0..=n)\<close> and the generator afterwards; the bound of a delay rests on its documented
  range, \<open>fst (draw g n) \<le> n\<close>.
\<close>

section \<open>State and operations\<close>

record 'g backoff =
  bo_base :: duration
  bo_cap :: duration
  bo_attempt :: u32
  bo_rng :: 'g

definition DEFAULT_BASE :: duration where
  "DEFAULT_BASE = from_secs 1"

definition DEFAULT_CAP :: duration where
  "DEFAULT_CAP = from_secs 64"

definition with_limits :: "'g \<Rightarrow> duration \<Rightarrow> duration \<Rightarrow> 'g backoff" where
  "with_limits g base cap = \<lparr>bo_base = base, bo_cap = cap, bo_attempt = 0, bo_rng = g\<rparr>"

definition backoff_new :: "'g \<Rightarrow> 'g backoff" where
  "backoff_new g = with_limits g DEFAULT_BASE DEFAULT_CAP"

definition checked_shl_one :: "u32 \<Rightarrow> u32 option" where
  "checked_shl_one n = (if unat n < 32 then Some (push_bit (unat n) 1) else None)"

definition window :: "'g backoff \<Rightarrow> duration" where
  "window b = min (bo_cap b)
     (duration_saturating_mul (bo_base b)
       (case checked_shl_one (bo_attempt b - 1) of Some f \<Rightarrow> f | None \<Rightarrow> - 1))"

definition next_delay :: "('g \<Rightarrow> nat \<Rightarrow> nat \<times> 'g) \<Rightarrow> 'g backoff \<Rightarrow> duration \<times> 'g backoff" where
  "next_delay draw b =
     (let b' = b\<lparr>bo_attempt := sat_inc_u32 (bo_attempt b)\<rparr> in
      if bo_attempt b = 0 then (0, b')
      else
        let millis = min (2 ^ 64 - 1) (as_millis (window b)) in
        if millis = 0 then (0, b')
        else
          let (n, g) = draw (bo_rng b) millis in
          (from_millis n, b'\<lparr>bo_rng := g\<rparr>))"

definition reset :: "'g backoff \<Rightarrow> 'g backoff" where
  "reset b = b\<lparr>bo_attempt := 0\<rparr>"

text \<open>The delays of consecutive attempts.\<close>

fun delays :: "('g \<Rightarrow> nat \<Rightarrow> nat \<times> 'g) \<Rightarrow> nat \<Rightarrow> 'g backoff \<Rightarrow> duration list \<times> 'g backoff" where
  "delays draw 0 b = ([], b)"
| "delays draw (Suc n) b =
     (let (d, b') = next_delay draw b; (ds, b'') = delays draw n b' in (d # ds, b''))"

section \<open>The window\<close>

lemma unat_two_power: "n < 32 \<Longrightarrow> unat (2 ^ n :: u32) = 2 ^ n"
proof -
  assume "n < 32"
  then have "(2::nat) ^ n < 2 ^ LENGTH(32)" by (intro power_strict_increasing) simp_all
  then have "unat (of_nat (2 ^ n) :: u32) = 2 ^ n" by (simp only: unat_of_nat mod_less)
  then show ?thesis by simp
qed

lemma factor_unat:
  "unat (case checked_shl_one m of Some f \<Rightarrow> f | None \<Rightarrow> - 1) = (if unat m < 32 then 2 ^ unat m else 4294967295)"
  by (simp add: checked_shl_one_def push_bit_of_1 unat_two_power unsigned_minus_1_eq_mask mask_eq_exp_minus_1)

lemma unat_pred: "(a :: u32) \<noteq> 0 \<Longrightarrow> unat (a - 1) = unat a - 1"
  by (simp add: unat_minus_one)

lemma window_eq:
  assumes "bo_attempt b \<noteq> 0"
  shows "window b = min (bo_cap b) (min duration_max
    (bo_base b * (if unat (bo_attempt b) \<le> 32 then 2 ^ (unat (bo_attempt b) - 1) else 4294967295)))"
proof -
  have "unat (bo_attempt b) - 1 < 32 \<longleftrightarrow> unat (bo_attempt b) \<le> 32"
    using assms unat_gt_0 [of "bo_attempt b"] by linarith
  then show ?thesis
    by (simp add: window_def duration_saturating_mul_def factor_unat unat_pred [OF assms])
qed

lemma window_le_cap: "window b \<le> bo_cap b"
  by (simp add: window_def)

lemma window_le_double:
  assumes "bo_attempt b \<noteq> 0"
  shows "window b \<le> bo_base b * 2 ^ (unat (bo_attempt b) - 1)"
proof (cases "unat (bo_attempt b) \<le> 32")
  case True
  then show ?thesis by (simp add: window_eq [OF assms])
next
  case False
  then have "(2::nat) ^ 32 \<le> 2 ^ (unat (bo_attempt b) - 1)" by (intro power_increasing) simp_all
  then have "4294967295 \<le> (2::nat) ^ (unat (bo_attempt b) - 1)" by simp
  then have "bo_base b * 4294967295 \<le> bo_base b * 2 ^ (unat (bo_attempt b) - 1)"
    by (rule mult_le_mono2)
  with False show ?thesis by (simp only: window_eq [OF assms] if_False min.coboundedI2)
qed

lemma next_delay_attempt [simp]: "bo_attempt (snd (next_delay draw b)) = sat_inc_u32 (bo_attempt b)"
  by (simp add: next_delay_def Let_def split: prod.split)

lemma next_delay_limits [simp]:
  "bo_base (snd (next_delay draw b)) = bo_base b" "bo_cap (snd (next_delay draw b)) = bo_cap b"
  by (simp_all add: next_delay_def Let_def split: prod.split)

lemma next_delay_first: "bo_attempt b = 0 \<Longrightarrow> fst (next_delay draw b) = 0"
  by (simp add: next_delay_def)

lemma next_delay_le_window:
  assumes "\<And>g n. fst (draw g n) \<le> n"
  shows "fst (next_delay draw b) \<le> window b"
proof (cases "bo_attempt b = 0")
  case False
  let ?ms = "min (2 ^ 64 - 1) (as_millis (window b))"
  have "from_millis (fst (draw (bo_rng b) ?ms)) \<le> from_millis (as_millis (window b))"
    using assms [of "bo_rng b" ?ms] by (simp add: from_millis_def)
  also have "\<dots> \<le> window b" by (rule from_millis_as_millis_le)
  finally show ?thesis using False by (simp add: next_delay_def Let_def case_prod_unfold)
qed (simp add: next_delay_first)

section \<open>Runs of attempts\<close>

lemma delays_snd: "snd (delays draw n b) = ((\<lambda>b. snd (next_delay draw b)) ^^ n) b"
  by (induction n arbitrary: b) (simp_all add: case_prod_unfold Let_def funpow_Suc_right del: funpow.simps(2))

lemma delays_state:
  "bo_attempt (snd (delays draw n b)) = (sat_inc_u32 ^^ n) (bo_attempt b)"
  "bo_base (snd (delays draw n b)) = bo_base b" "bo_cap (snd (delays draw n b)) = bo_cap b"
  unfolding delays_snd by (induction n) simp_all

lemma attempt_count: "unat ((sat_inc_u32 ^^ n) a) = min (2 ^ 32 - 1) (unat a + n)"
proof (induction n)
  case 0
  have "unat a < 2 ^ LENGTH(32)" by (rule unsigned_less)
  then show ?case by simp
next
  case (Suc n)
  then show ?case by (simp add: unat_sat_inc_u32)
qed

lemma length_delays [simp]: "length (fst (delays draw n b)) = n"
  by (induction n arbitrary: b) (simp_all add: case_prod_unfold Let_def)

lemma nth_delay:
  assumes "k < n"
  shows "fst (delays draw n b) ! k = fst (next_delay draw (snd (delays draw k b)))"
  using assms
proof (induction n arbitrary: k b)
  case (Suc n)
  then show ?case
    by (cases k) (simp_all add: case_prod_unfold Let_def)
qed simp

text \<open>However long an outage lasts, the delay before the k-th attempt after a reset is at most the cap and at
  most the base doubled k - 1 times, and the first attempt is immediate.\<close>

lemma backoff_delays_bounded:
  assumes "\<And>g n. fst (draw g n) \<le> n" "bo_attempt b = 0" "k < n"
  shows "fst (delays draw n b) ! k \<le> min (bo_cap b) (if k = 0 then 0 else bo_base b * 2 ^ (k - 1))"
proof -
  let ?b = "snd (delays draw k b)"
  have at: "unat (bo_attempt ?b) = min (2 ^ 32 - 1) k"
    by (simp add: delays_state attempt_count assms(2))
  have le: "fst (delays draw n b) ! k \<le> window ?b"
    by (simp add: nth_delay [OF assms(3)] next_delay_le_window [OF assms(1)])
  have "fst (delays draw n b) ! k \<le> (if k = 0 then 0 else bo_base b * 2 ^ (k - 1))"
  proof (cases "k = 0")
    case True
    then show ?thesis using assms by (simp add: nth_delay next_delay_first)
  next
    case False
    with at have nz: "bo_attempt ?b \<noteq> 0" by (auto simp: min_def split: if_splits)
    have "(2::nat) ^ (unat (bo_attempt ?b) - 1) \<le> 2 ^ (k - 1)"
      using at by (intro power_increasing) simp_all
    then have "bo_base b * 2 ^ (unat (bo_attempt ?b) - 1) \<le> bo_base b * 2 ^ (k - 1)" by (rule mult_le_mono2)
    moreover have "window ?b \<le> bo_base b * 2 ^ (unat (bo_attempt ?b) - 1)"
      using window_le_double [OF nz] by (simp only: delays_state)
    ultimately have "fst (delays draw n b) ! k \<le> bo_base b * 2 ^ (k - 1)" using le by linarith
    with False show ?thesis by simp
  qed
  with le window_le_cap [of ?b] show ?thesis by (simp add: delays_state)
qed

lemma backoff_delays_bounded_witness:
  "fst (delays (\<lambda>(g :: nat) n. (n, g)) 3 (backoff_new 7)) ! 2 \<le> 64 * 1000000000"
  using backoff_delays_bounded [of "\<lambda>(g :: nat) n. (n, g)" "backoff_new 7" 2 3]
  by (simp add: backoff_new_def with_limits_def DEFAULT_CAP_def from_secs_def)

text \<open>Saturation never wraps into a short window: once the doubling has reached the cap, every later attempt
  draws from the whole cap, whatever the attempt counter has grown to.\<close>

lemma backoff_window_stays_at_cap:
  assumes "bo_cap b \<le> bo_base b * 2 ^ k" "k \<le> 31" "bo_cap b \<le> duration_max" "k < unat (bo_attempt b)"
  shows "window b = bo_cap b"
proof -
  have nz: "bo_attempt b \<noteq> 0" using assms(4) by auto
  let ?f = "if unat (bo_attempt b) \<le> 32 then 2 ^ (unat (bo_attempt b) - 1) else 4294967295 :: nat"
  have "2 ^ k \<le> ?f"
  proof (cases "unat (bo_attempt b) \<le> 32")
    case True
    have "(2::nat) ^ k \<le> 2 ^ (unat (bo_attempt b) - 1)" using assms(4) by (intro power_increasing) simp_all
    with True show ?thesis by simp
  next
    case False
    have "(2::nat) ^ k \<le> 2 ^ 31" using assms(2) by (intro power_increasing) simp_all
    with False show ?thesis by simp
  qed
  then have "bo_base b * 2 ^ k \<le> bo_base b * ?f" by (rule mult_le_mono2)
  then have "bo_cap b \<le> bo_base b * ?f" using assms(1) by linarith
  with assms(3) show ?thesis by (simp only: window_eq [OF nz] min.absorb1 min.boundedI)
qed

lemma backoff_window_stays_at_cap_witness:
  "window ((backoff_new ())\<lparr>bo_attempt := 200\<rparr>) = 64 * 1000000000"
  using backoff_window_stays_at_cap [of "(backoff_new ())\<lparr>bo_attempt := 200\<rparr>" 6]
  by (simp add: backoff_new_def with_limits_def DEFAULT_CAP_def DEFAULT_BASE_def from_secs_def duration_max_def)

lemma reset_attempt [simp]: "bo_attempt (reset b) = 0"
  by (simp add: reset_def)

end
