(* ===== verification/Ddp_Liveness.thy ===== *)
theory Ddp_Liveness
  imports Rs_Prelude
begin

text \<open>
  When to probe an idle connection and when to give it up,
  \<open>rocketsocket-realtime/src/liveness.rs\<close>.  Instants are naturals, so the saturating
  difference of two instants is the truncated difference.
\<close>

section \<open>State and operations\<close>

datatype liveness = Healthy | SendPing | Dead

record liveness_policy =
  lp_ping_after :: duration
  lp_dead_after :: duration
  lp_last_seen :: instant
  lp_ping_in_flight :: bool

definition DEFAULT_PING_AFTER :: duration where
  "DEFAULT_PING_AFTER = from_secs 25"

definition DEFAULT_DEAD_AFTER :: duration where
  "DEFAULT_DEAD_AFTER = from_secs 45"

text \<open>The assertion of the constructor is a panic: \<^const>\<open>None\<close>.\<close>

definition with_thresholds :: "duration \<Rightarrow> duration \<Rightarrow> instant \<Rightarrow> liveness_policy option" where
  "with_thresholds ping dead now =
     (if dead > ping then
        Some \<lparr>lp_ping_after = ping, lp_dead_after = dead, lp_last_seen = now, lp_ping_in_flight = False\<rparr>
      else None)"

definition liveness_new :: "instant \<Rightarrow> liveness_policy option" where
  "liveness_new now = with_thresholds DEFAULT_PING_AFTER DEFAULT_DEAD_AFTER now"

definition saw_traffic :: "instant \<Rightarrow> liveness_policy \<Rightarrow> liveness_policy" where
  "saw_traffic now p = p\<lparr>lp_last_seen := now, lp_ping_in_flight := False\<rparr>"

definition idle_for :: "instant \<Rightarrow> liveness_policy \<Rightarrow> duration" where
  "idle_for now p = now - lp_last_seen p"

definition poll :: "instant \<Rightarrow> liveness_policy \<Rightarrow> liveness \<times> liveness_policy" where
  "poll now p =
     (let idle = idle_for now p in
      if idle \<ge> lp_dead_after p then (Dead, p)
      else if idle \<ge> lp_ping_after p \<and> \<not> lp_ping_in_flight p then (SendPing, p\<lparr>lp_ping_in_flight := True\<rparr>)
      else (Healthy, p))"

definition next_deadline :: "instant \<Rightarrow> liveness_policy \<Rightarrow> instant" where
  "next_deadline now p =
     (let target = if lp_ping_in_flight p then lp_dead_after p else lp_ping_after p in
      lp_last_seen p + max target (idle_for now p))"

fun polls :: "instant list \<Rightarrow> liveness_policy \<Rightarrow> liveness list" where
  "polls [] p = []"
| "polls (t # ts) p = (let (l, p') = poll t p in l # polls ts p')"

section \<open>Invariant\<close>

datatype liveness_op = OpTraffic instant | OpPoll instant

fun liveness_step :: "liveness_op \<Rightarrow> liveness_policy \<Rightarrow> liveness_policy" where
  "liveness_step (OpTraffic t) p = saw_traffic t p"
| "liveness_step (OpPoll t) p = snd (poll t p)"

definition liveness_inv :: "liveness_policy \<Rightarrow> bool" where
  "liveness_inv p = (lp_ping_after p < lp_dead_after p)"

interpretation lv: op_invariant liveness_step liveness_inv
proof
  fix s x
  assume "liveness_inv s"
  then show "liveness_inv (liveness_step x s)"
    by (cases x) (auto simp: liveness_inv_def saw_traffic_def poll_def Let_def)
qed

lemma with_thresholds_inv: "with_thresholds a b t = Some p \<Longrightarrow> liveness_inv p"
  by (auto simp: with_thresholds_def liveness_inv_def split: if_splits)

section \<open>Polling\<close>

lemma poll_in_flight: "lp_ping_in_flight p \<Longrightarrow> fst (poll t p) \<noteq> SendPing \<and> snd (poll t p) = p"
  by (simp add: poll_def Let_def)

lemma polls_in_flight: "lp_ping_in_flight p \<Longrightarrow> SendPing \<notin> set (polls ts p)"
proof (induction ts)
  case (Cons t ts)
  then show ?case using poll_in_flight [OF Cons.prems, of t] by (cases "poll t p") auto
qed simp

lemma poll_cases:
  obtains "poll t p = (Dead, p)" | "poll t p = (Healthy, p)"
    | "poll t p = (SendPing, p\<lparr>lp_ping_in_flight := True\<rparr>)"
  unfolding poll_def Let_def by (metis (full_types))

text \<open>A silent stretch is probed at most once: of the polls between two frames, whenever they are made, at most
  one asks for a ping.\<close>

lemma one_probe_per_silence: "length (filter (\<lambda>l. l = SendPing) (polls ts p)) \<le> 1"
proof (induction ts arbitrary: p)
  case (Cons t ts)
  show ?case
  proof (cases rule: poll_cases [of t p])
    case 3
    have "SendPing \<notin> set (polls ts (p\<lparr>lp_ping_in_flight := True\<rparr>))"
      by (rule polls_in_flight) simp
    then have "filter (\<lambda>l. l = SendPing) (polls ts (p\<lparr>lp_ping_in_flight := True\<rparr>)) = []"
      by (auto simp: filter_empty_conv)
    with 3 show ?thesis by simp
  qed (use Cons in simp_all)
qed simp

text \<open>The deadline is exact: polling at any time before it changes nothing and reports health, and polling at it
  asks for a ping or reports death, death if a ping was already out.\<close>

lemma deadline_exact:
  assumes "liveness_inv p" "lp_last_seen p \<le> now" "now \<le> t" "t < next_deadline now p"
  shows "poll t p = (Healthy, p)
    \<and> fst (poll (next_deadline now p) p) = (if lp_ping_in_flight p \<or> lp_dead_after p \<le> idle_for now p then Dead else SendPing)"
  using assms
  by (auto simp: liveness_inv_def poll_def next_deadline_def idle_for_def Let_def max_def split: if_splits)

lemma deadline_exact_witness:
  "poll 24 \<lparr>lp_ping_after = 25, lp_dead_after = 45, lp_last_seen = 0, lp_ping_in_flight = False\<rparr> =
     (Healthy, \<lparr>lp_ping_after = 25, lp_dead_after = 45, lp_last_seen = 0, lp_ping_in_flight = False\<rparr>)"
  by (rule deadline_exact [where now = 0, THEN conjunct1]) (simp_all add: liveness_inv_def next_deadline_def idle_for_def)

end
