(* ===== verification/Json_Value.thy ===== *)
theory Json_Value
  imports Rs_Prelude
begin

text \<open>
  JSON values as the sources see them: the variants of \<open>serde_json::Value\<close> they match on,
  the accessors they call (\<open>as_str\<close>, \<open>as_bool\<close>, \<open>as_array\<close>, \<open>as_u64\<close>, \<open>as_i64\<close>,
  \<open>as_f64\<close>, \<open>get\<close>) and its \<open>Map\<close>, an ordered map from strings, kept here as the association
  list in key order that it iterates as.

  A number is an integer or a finite binary fraction; the fraction is a rational, so the two
  zeros of \<open>f64\<close> are one.

  The second half holds the reading of a member that the derive attributes of the sources ask
  for: a required member, and one marked \<open>#[serde(default)]\<close>, which absence and \<open>null\<close> both
  leave at \<open>None\<close>.
\<close>

section \<open>Values\<close>

datatype json_number = PosInt u64 | NegInt i64 | Float rat

datatype json =
    JNull
  | JBool bool
  | JNumber json_number
  | JString str
  | JArray "json list"
  | JObject "(str \<times> json) list"

type_synonym obj = "(str \<times> json) list"

definition obj_get :: "obj \<Rightarrow> str \<Rightarrow> json option" where
  "obj_get = map_of"

fun obj_insert :: "str \<Rightarrow> json \<Rightarrow> obj \<Rightarrow> obj" where
  "obj_insert k v [] = [(k, v)]"
| "obj_insert k v ((k', v') # m) =
     (if k < k' then (k, v) # (k', v') # m
      else if k = k' then (k, v) # m
      else (k', v') # obj_insert k v m)"

definition obj_remove :: "str \<Rightarrow> obj \<Rightarrow> obj" where
  "obj_remove k m = filter (\<lambda>(k', v). k' \<noteq> k) m"

definition obj_of :: "(str \<times> json) list \<Rightarrow> obj" where
  "obj_of kvs = fold (\<lambda>(k, v). obj_insert k v) kvs []"

definition obj_wf :: "obj \<Rightarrow> bool" where
  "obj_wf m = sorted_wrt (<) (map fst m)"

fun as_str :: "json \<Rightarrow> str option" where
  "as_str (JString s) = Some s"
| "as_str _ = None"

fun as_bool :: "json \<Rightarrow> bool option" where
  "as_bool (JBool b) = Some b"
| "as_bool _ = None"

fun as_array :: "json \<Rightarrow> json list option" where
  "as_array (JArray xs) = Some xs"
| "as_array _ = None"

fun as_object :: "json \<Rightarrow> obj option" where
  "as_object (JObject m) = Some m"
| "as_object _ = None"

fun as_u64 :: "json \<Rightarrow> u64 option" where
  "as_u64 (JNumber (PosInt n)) = Some n"
| "as_u64 _ = None"

fun as_i64 :: "json \<Rightarrow> i64 option" where
  "as_i64 (JNumber (PosInt n)) = (if unat n < 2 ^ 63 then Some n else None)"
| "as_i64 (JNumber (NegInt n)) = Some n"
| "as_i64 _ = None"

fun as_f64 :: "json \<Rightarrow> rat option" where
  "as_f64 (JNumber (PosInt n)) = Some (of_nat (unat n))"
| "as_f64 (JNumber (NegInt n)) = Some (of_int (sint n))"
| "as_f64 (JNumber (Float x)) = Some x"
| "as_f64 _ = None"

fun json_member :: "json \<Rightarrow> str \<Rightarrow> json option" where
  "json_member (JObject m) k = obj_get m k"
| "json_member _ k = None"

section \<open>Laws of the object map\<close>

lemma obj_get_insert: "obj_get (obj_insert k v m) k' = (if k' = k then Some v else obj_get m k')"
  by (induction k v m rule: obj_insert.induct) (auto simp: obj_get_def)

lemma obj_get_remove: "obj_get (obj_remove k m) k' = (if k' = k then None else obj_get m k')"
  by (induction m) (auto simp: obj_get_def obj_remove_def)

interpretation jo: keyed_store obj_get obj_insert obj_remove
  by unfold_locales (rule obj_get_insert, rule obj_get_remove)

lemma obj_get_Nil [simp]: "obj_get [] k = None"
  by (simp add: obj_get_def)

lemma obj_get_of: "obj_get (obj_of kvs) k = map_of (rev kvs) k"
  by (simp add: obj_of_def jo.get_ins_all split: option.splits)

lemma obj_keys_insert: "fst ` set (obj_insert k v m) = insert k (fst ` set m)"
  by (induction k v m rule: obj_insert.induct) auto

lemma obj_wf_insert: "obj_wf m \<Longrightarrow> obj_wf (obj_insert k v m)"
proof (induction k v m rule: obj_insert.induct)
  case (1 k v)
  then show ?case by (simp add: obj_wf_def)
next
  case (2 k v k' v' m)
  then have wf: "obj_wf m" and less: "\<And>x. x \<in> fst ` set m \<Longrightarrow> k' < x"
    by (auto simp: obj_wf_def)
  show ?case
  proof (cases "k < k'")
    case True
    then show ?thesis using "2.prems" less by (auto simp: obj_wf_def intro: less_trans)
  next
    case nlt: False
    show ?thesis
    proof (cases "k = k'")
      case True
      then show ?thesis using "2.prems" by (simp add: obj_wf_def)
    next
      case False
      with nlt have "k' < k" by simp
      have "x \<in> fst ` set (obj_insert k v m) \<Longrightarrow> k' < x" for x
        using less \<open>k' < k\<close> by (auto simp: obj_keys_insert)
      then show ?thesis
        using "2.IH" [OF nlt False wf] nlt False by (auto simp: obj_wf_def)
    qed
  qed
qed

lemma obj_wf_remove: "obj_wf m \<Longrightarrow> obj_wf (obj_remove k m)"
  by (induction m) (auto simp: obj_wf_def obj_remove_def)

lemma obj_wf_of [simp]: "obj_wf (obj_of kvs)"
proof -
  have "obj_wf (fold (\<lambda>(k, v). obj_insert k v) kvs m)" if "obj_wf m" for m
    using that by (induction kvs arbitrary: m) (auto simp: obj_wf_insert)
  then show ?thesis by (simp add: obj_of_def obj_wf_def)
qed

lemma obj_ext:
  assumes "obj_wf m" "obj_wf n" "obj_get m = obj_get n"
  shows "m = n"
proof -
  have dist: "distinct (map fst x)" if "obj_wf x" for x :: obj
    using that by (simp add: obj_wf_def strict_sorted_iff)
  have sets: "set m = set n"
    using assms map_of_inject_set [of m n] dist by (simp add: obj_get_def)
  have sorted: "sorted (map fst x)" if "obj_wf x" for x :: obj
    using that by (simp add: obj_wf_def strict_sorted_iff)
  show ?thesis
    using sets sorted [OF assms(1)] sorted [OF assms(2)] dist [OF assms(1)] dist [OF assms(2)]
    by (intro map_sorted_distinct_set_unique [of fst]) (simp_all add: distinct_map)
qed

section \<open>Reading the members of an object\<close>

definition req_field :: "(json \<Rightarrow> 'a option) \<Rightarrow> obj \<Rightarrow> str \<Rightarrow> 'a option" where
  "req_field dec m k = Option.bind (obj_get m k) dec"

definition opt_field :: "(json \<Rightarrow> 'a option) \<Rightarrow> obj \<Rightarrow> str \<Rightarrow> 'a option option" where
  "opt_field dec m k = (case obj_get m k of
       None \<Rightarrow> Some None
     | Some JNull \<Rightarrow> Some None
     | Some v \<Rightarrow> map_option Some (dec v))"

fun dec_list :: "(json \<Rightarrow> 'a option) \<Rightarrow> json list \<Rightarrow> 'a list option" where
  "dec_list dec [] = Some []"
| "dec_list dec (x # xs) =
     Option.bind (dec x) (\<lambda>y. Option.bind (dec_list dec xs) (\<lambda>ys. Some (y # ys)))"

definition dec_array :: "(json \<Rightarrow> 'a option) \<Rightarrow> json \<Rightarrow> 'a list option" where
  "dec_array dec v = Option.bind (as_array v) (dec_list dec)"

definition dec_value :: "json \<Rightarrow> json option" where
  "dec_value v = Some v"

definition opt_member :: "('a \<Rightarrow> json) \<Rightarrow> str \<Rightarrow> 'a option \<Rightarrow> (str \<times> json) list" where
  "opt_member enc k x = (case x of None \<Rightarrow> [] | Some y \<Rightarrow> [(k, enc y)])"

lemma dec_list_map: "(\<And>x. dec (enc x) = Some x) \<Longrightarrow> dec_list dec (map enc xs) = Some xs"
  by (induction xs) simp_all

lemma dec_array_strings [simp]: "dec_array as_str (JArray (map JString xs)) = Some xs"
  by (simp add: dec_array_def dec_list_map)

lemma opt_field_absent: "obj_get m k = None \<Longrightarrow> opt_field dec m k = Some None"
  by (simp add: opt_field_def)

lemma opt_field_value:
  "obj_get m k = Some v \<Longrightarrow> v \<noteq> JNull \<Longrightarrow> dec v = Some x \<Longrightarrow> opt_field dec m k = Some (Some x)"
  by (cases v) (simp_all add: opt_field_def)

end
