(* ===== verification/Ddp_Protocol.thy ===== *)
theory Ddp_Protocol
  imports Json_Value
begin

text \<open>
  The DDP wire protocol, \<open>rocketsocket-model/src/protocol.rs\<close>: the client's and the server's
  frames with the serialisation their serde attributes derive, the catch-all for frames that
  do not fit, the view of a \<open>changed\<close> frame as a stream event, and Meteor's errors.

  A frame is decoded from a JSON value: parsing the text of a frame into a value is
  \<open>serde_json\<close>'s and a parameter of the runner.  A struct with an optional member that the
  attributes skip when it is \<open>None\<close> encodes to an object without that key.
\<close>

section \<open>Constants\<close>

definition STREAM_PREFIX :: str where
  "STREAM_PREFIX = ''stream-''"

definition REASON_LOGGED_OUT :: str where
  "REASON_LOGGED_OUT = ''been logged out by the server''"

definition REASON_SESSION_EXPIRED :: str where
  "REASON_SESSION_EXPIRED = ''session has expired''"

definition CODE_TOO_MANY_REQUESTS :: str where
  "CODE_TOO_MANY_REQUESTS = ''too-many-requests''"

definition DDP_VERSION :: str where
  "DDP_VERSION = ''1''"

section \<open>Error codes and errors\<close>

datatype error_code = CodeNumber i64 | CodeString str

fun code_as_str :: "error_code \<Rightarrow> str option" where
  "code_as_str (CodeString c) = Some c"
| "code_as_str (CodeNumber n) = None"

fun code_as_number :: "error_code \<Rightarrow> i64 option" where
  "code_as_number (CodeNumber n) = Some n"
| "code_as_number (CodeString c) = None"

fun code_is :: "error_code \<Rightarrow> str \<Rightarrow> bool" where
  "code_is (CodeString v) code = (v = code)"
| "code_is (CodeNumber v) code = (parse_i64 code = Some v)"

fun code_to_string :: "error_code \<Rightarrow> str" where
  "code_to_string (CodeNumber n) = i64_to_str n"
| "code_to_string (CodeString c) = c"

fun code_to_json :: "error_code \<Rightarrow> json" where
  "code_to_json (CodeNumber n) = JNumber (if 0 \<le> sint n then PosInt n else NegInt n)"
| "code_to_json (CodeString c) = JString c"

definition code_of_json :: "json \<Rightarrow> error_code option" where
  "code_of_json v = (case as_i64 v of
       Some n \<Rightarrow> Some (CodeNumber n)
     | None \<Rightarrow> map_option CodeString (as_str v))"

record ddp_error =
  de_error :: error_code
  de_reason :: "str option"
  de_message :: "str option"
  de_error_type :: "str option"
  de_is_client_safe :: "bool option"
  de_details :: "json option"
  de_extra :: obj

definition ddp_error_keys :: "str list" where
  "ddp_error_keys = [''error'', ''reason'', ''message'', ''errorType'', ''isClientSafe'', ''details'']"

definition ddp_error_to_json :: "ddp_error \<Rightarrow> json" where
  "ddp_error_to_json e = JObject (obj_of
     ([(''error'', code_to_json (de_error e))]
      @ opt_member JString ''reason'' (de_reason e)
      @ opt_member JString ''message'' (de_message e)
      @ opt_member JString ''errorType'' (de_error_type e)
      @ opt_member JBool ''isClientSafe'' (de_is_client_safe e)
      @ opt_member id ''details'' (de_details e)
      @ de_extra e))"

definition ddp_error_of_json :: "json \<Rightarrow> ddp_error option" where
  "ddp_error_of_json v = do {
     m \<leftarrow> as_object v;
     code \<leftarrow> req_field code_of_json m ''error'';
     reason \<leftarrow> opt_field as_str m ''reason'';
     message \<leftarrow> opt_field as_str m ''message'';
     error_type \<leftarrow> opt_field as_str m ''errorType'';
     is_client_safe \<leftarrow> opt_field as_bool m ''isClientSafe'';
     details \<leftarrow> opt_field dec_value m ''details'';
     Some \<lparr>de_error = code, de_reason = reason, de_message = message, de_error_type = error_type,
       de_is_client_safe = is_client_safe, de_details = details,
       de_extra = filter (\<lambda>(k, _). k \<notin> set ddp_error_keys) m\<rparr>
   }"

definition has_code :: "ddp_error \<Rightarrow> str \<Rightarrow> bool" where
  "has_code e code =
     (if code_is (de_error e) code then True
      else (case code_as_str (de_error e) of
          None \<Rightarrow> False
        | Some text \<Rightarrow> ends_with text (''['' @ code @ '']'')))"

definition is_too_many_requests :: "ddp_error \<Rightarrow> bool" where
  "is_too_many_requests e = has_code e CODE_TOO_MANY_REQUESTS"

definition f64_as_u64 :: "rat \<Rightarrow> nat" where
  "f64_as_u64 x = min (2 ^ 64 - 1) (nat \<lfloor>x\<rfloor>)"

definition retry_after :: "ddp_error \<Rightarrow> duration option" where
  "retry_after e = do {
     d \<leftarrow> de_details e;
     v \<leftarrow> json_member d ''timeToReset'';
     millis \<leftarrow> (case as_u64 v of
         Some n \<Rightarrow> Some (unat n)
       | None \<Rightarrow> do {
           x \<leftarrow> as_f64 v;
           Some (if x \<le> 0 then 0 else f64_as_u64 x)
         });
     Some (from_millis millis)
   }"

definition expired_text :: "str \<Rightarrow> bool" where
  "expired_text text = (contains text REASON_LOGGED_OUT \<or> contains text REASON_SESSION_EXPIRED)"

definition is_expired_session :: "ddp_error \<Rightarrow> bool" where
  "is_expired_session e =
     ((case de_reason e of None \<Rightarrow> False | Some r \<Rightarrow> expired_text r)
      \<or> (case de_message e of None \<Rightarrow> False | Some m \<Rightarrow> expired_text m))"

definition describe :: "ddp_error \<Rightarrow> str" where
  "describe e = (case de_message e of
       Some m \<Rightarrow> m
     | None \<Rightarrow> (case de_reason e of Some r \<Rightarrow> r | None \<Rightarrow> code_to_string (de_error e)))"

definition ddp_error_to_string :: "ddp_error \<Rightarrow> str" where
  "ddp_error_to_string e = (case (de_message e, de_reason e) of
       (Some m, _) \<Rightarrow> m
     | (None, Some r) \<Rightarrow> r @ '' ['' @ code_to_string (de_error e) @ '']''
     | (None, None) \<Rightarrow> code_to_string (de_error e))"

section \<open>Client frames\<close>

datatype client_message =
    CConnect str "str list"
  | CMethod str str "json list"
  | CSub str str "json list"
  | CUnsub str
  | CPing "str option"
  | CPong "str option"

definition client_connect :: client_message where
  "client_connect = CConnect DDP_VERSION [DDP_VERSION]"

definition client_method :: "str \<Rightarrow> str \<Rightarrow> json list \<Rightarrow> client_message" where
  "client_method i m params = CMethod i m params"

definition client_sub :: "str \<Rightarrow> str \<Rightarrow> json list \<Rightarrow> client_message" where
  "client_sub i name params = CSub i name params"

fun client_id :: "client_message \<Rightarrow> str option" where
  "client_id (CMethod i _ _) = Some i"
| "client_id (CSub i _ _) = Some i"
| "client_id (CUnsub i) = Some i"
| "client_id (CPing i) = i"
| "client_id (CPong i) = i"
| "client_id (CConnect _ _) = None"

definition params_member :: "json list \<Rightarrow> (str \<times> json) list" where
  "params_member ps = (if ps = [] then [] else [(''params'', JArray ps)])"

fun client_to_json :: "client_message \<Rightarrow> json" where
  "client_to_json (CConnect version support) = JObject (obj_of
     [(''msg'', JString ''connect''), (''version'', JString version),
      (''support'', JArray (map JString support))])"
| "client_to_json (CMethod i m params) = JObject (obj_of
     ([(''msg'', JString ''method''), (''id'', JString i), (''method'', JString m)]
      @ params_member params))"
| "client_to_json (CSub i name params) = JObject (obj_of
     ([(''msg'', JString ''sub''), (''id'', JString i), (''name'', JString name)]
      @ params_member params))"
| "client_to_json (CUnsub i) = JObject (obj_of [(''msg'', JString ''unsub''), (''id'', JString i)])"
| "client_to_json (CPing i) = JObject (obj_of ((''msg'', JString ''ping'') # opt_member JString ''id'' i))"
| "client_to_json (CPong i) = JObject (obj_of ((''msg'', JString ''pong'') # opt_member JString ''id'' i))"

definition params_field :: "obj \<Rightarrow> json list option" where
  "params_field m = (case obj_get m ''params'' of None \<Rightarrow> Some [] | Some v \<Rightarrow> as_array v)"

definition client_of_json :: "json \<Rightarrow> client_message option" where
  "client_of_json v = do {
     m \<leftarrow> as_object v;
     t \<leftarrow> req_field as_str m ''msg'';
     (if t = ''connect'' then do {
        version \<leftarrow> req_field as_str m ''version'';
        support \<leftarrow> req_field (dec_array as_str) m ''support'';
        Some (CConnect version support) }
      else if t = ''method'' then do {
        i \<leftarrow> req_field as_str m ''id'';
        name \<leftarrow> req_field as_str m ''method'';
        params \<leftarrow> params_field m;
        Some (CMethod i name params) }
      else if t = ''sub'' then do {
        i \<leftarrow> req_field as_str m ''id'';
        name \<leftarrow> req_field as_str m ''name'';
        params \<leftarrow> params_field m;
        Some (CSub i name params) }
      else if t = ''unsub'' then map_option CUnsub (req_field as_str m ''id'')
      else if t = ''ping'' then map_option CPing (opt_field as_str m ''id'')
      else if t = ''pong'' then map_option CPong (opt_field as_str m ''id'')
      else None)
   }"

section \<open>Server frames\<close>

record unknown_message =
  unk_msg :: "str option"
  unk_rest :: obj

datatype server_message =
    SConnected str
  | SFailed str
  | SPing "str option"
  | SPong "str option"
  | SResult str "json option" "ddp_error option"
  | SUpdated "str list"
  | SNosub str "ddp_error option"
  | SReady "str list"
  | SAdded str str "obj option"
  | SChanged str str "obj option" "str list option"
  | SRemoved str str
  | SAddedBefore str str "obj option" "str option"
  | SMovedBefore str str "str option"
  | SError str "json option"
  | SUnknown unknown_message

definition MODELLED_TAGS :: "str list" where
  "MODELLED_TAGS = [''connected'', ''failed'', ''ping'', ''pong'', ''result'', ''updated'', ''nosub'',
     ''ready'', ''added'', ''changed'', ''removed'', ''addedBefore'', ''movedBefore'', ''error'']"

definition unknown_of_object :: "obj \<Rightarrow> unknown_message" where
  "unknown_of_object m = (case obj_get m ''msg'' of
       Some (JString t) \<Rightarrow> \<lparr>unk_msg = Some t, unk_rest = obj_remove ''msg'' m\<rparr>
     | _ \<Rightarrow> \<lparr>unk_msg = None, unk_rest = m\<rparr>)"

definition decode_lifecycle :: "str \<Rightarrow> obj \<Rightarrow> server_message option" where
  "decode_lifecycle t m =
     (if t = ''connected'' then map_option SConnected (req_field as_str m ''session'')
      else if t = ''failed'' then map_option SFailed (req_field as_str m ''version'')
      else if t = ''ping'' then map_option SPing (opt_field as_str m ''id'')
      else if t = ''pong'' then map_option SPong (opt_field as_str m ''id'')
      else None)"

definition decode_reply :: "str \<Rightarrow> obj \<Rightarrow> server_message option" where
  "decode_reply t m =
     (if t = ''result'' then do {
        i \<leftarrow> req_field as_str m ''id'';
        res \<leftarrow> opt_field dec_value m ''result'';
        err \<leftarrow> opt_field ddp_error_of_json m ''error'';
        Some (SResult i res err) }
      else if t = ''updated'' then map_option SUpdated (req_field (dec_array as_str) m ''methods'')
      else if t = ''nosub'' then do {
        i \<leftarrow> req_field as_str m ''id'';
        err \<leftarrow> opt_field ddp_error_of_json m ''error'';
        Some (SNosub i err) }
      else if t = ''ready'' then map_option SReady (req_field (dec_array as_str) m ''subs'')
      else if t = ''error'' then do {
        reason \<leftarrow> req_field as_str m ''reason'';
        offending \<leftarrow> opt_field dec_value m ''offendingMessage'';
        Some (SError reason offending) }
      else None)"

definition decode_document :: "str \<Rightarrow> obj \<Rightarrow> server_message option" where
  "decode_document t m =
     (if t \<in> {''added'', ''changed'', ''removed'', ''addedBefore'', ''movedBefore''} then do {
        c \<leftarrow> req_field as_str m ''collection'';
        i \<leftarrow> req_field as_str m ''id'';
        (if t = ''added'' then map_option (SAdded c i) (opt_field as_object m ''fields'')
         else if t = ''changed'' then do {
           flds \<leftarrow> opt_field as_object m ''fields'';
           cleared \<leftarrow> opt_field (dec_array as_str) m ''cleared'';
           Some (SChanged c i flds cleared) }
         else if t = ''removed'' then Some (SRemoved c i)
         else if t = ''addedBefore'' then do {
           flds \<leftarrow> opt_field as_object m ''fields'';
           before \<leftarrow> opt_field as_str m ''before'';
           Some (SAddedBefore c i flds before) }
         else map_option (SMovedBefore c i) (opt_field as_str m ''before'')) }
      else None)"

definition decode_variant :: "str \<Rightarrow> obj \<Rightarrow> server_message option" where
  "decode_variant t m = (case decode_lifecycle t m of
       Some x \<Rightarrow> Some x
     | None \<Rightarrow> (case decode_reply t m of Some x \<Rightarrow> Some x | None \<Rightarrow> decode_document t m))"

definition decode_typed :: "obj \<Rightarrow> server_message option" where
  "decode_typed m = Option.bind (req_field as_str m ''msg'') (\<lambda>t. decode_variant t m)"

definition server_of_json :: "json \<Rightarrow> server_message option" where
  "server_of_json v = (case v of
       JObject m \<Rightarrow> (case decode_typed m of
           Some x \<Rightarrow> Some x
         | None \<Rightarrow> Some (SUnknown (unknown_of_object m)))
     | _ \<Rightarrow> None)"

definition before_member :: "str option \<Rightarrow> str \<times> json" where
  "before_member b = (''before'', case b of None \<Rightarrow> JNull | Some s \<Rightarrow> JString s)"

definition document_head :: "str \<Rightarrow> str \<Rightarrow> str \<Rightarrow> (str \<times> json) list" where
  "document_head t c i = [(''msg'', JString t), (''collection'', JString c), (''id'', JString i)]"

fun server_to_json :: "server_message \<Rightarrow> json" where
  "server_to_json (SConnected s) = JObject (obj_of [(''msg'', JString ''connected''), (''session'', JString s)])"
| "server_to_json (SFailed v) = JObject (obj_of [(''msg'', JString ''failed''), (''version'', JString v)])"
| "server_to_json (SPing i) = JObject (obj_of ((''msg'', JString ''ping'') # opt_member JString ''id'' i))"
| "server_to_json (SPong i) = JObject (obj_of ((''msg'', JString ''pong'') # opt_member JString ''id'' i))"
| "server_to_json (SResult i res err) = JObject (obj_of
     ([(''msg'', JString ''result''), (''id'', JString i)]
      @ opt_member id ''result'' res @ opt_member ddp_error_to_json ''error'' err))"
| "server_to_json (SUpdated ms) = JObject (obj_of
     [(''msg'', JString ''updated''), (''methods'', JArray (map JString ms))])"
| "server_to_json (SNosub i err) = JObject (obj_of
     ([(''msg'', JString ''nosub''), (''id'', JString i)] @ opt_member ddp_error_to_json ''error'' err))"
| "server_to_json (SReady ss) = JObject (obj_of
     [(''msg'', JString ''ready''), (''subs'', JArray (map JString ss))])"
| "server_to_json (SAdded c i flds) = JObject (obj_of
     (document_head ''added'' c i @ opt_member JObject ''fields'' flds))"
| "server_to_json (SChanged c i flds cleared) = JObject (obj_of
     (document_head ''changed'' c i @ opt_member JObject ''fields'' flds
      @ opt_member (\<lambda>ks. JArray (map JString ks)) ''cleared'' cleared))"
| "server_to_json (SRemoved c i) = JObject (obj_of (document_head ''removed'' c i))"
| "server_to_json (SAddedBefore c i flds before) = JObject (obj_of
     (document_head ''addedBefore'' c i @ opt_member JObject ''fields'' flds @ [before_member before]))"
| "server_to_json (SMovedBefore c i before) = JObject (obj_of
     (document_head ''movedBefore'' c i @ [before_member before]))"
| "server_to_json (SError reason offending) = JObject (obj_of
     ([(''msg'', JString ''error''), (''reason'', JString reason)] @ opt_member id ''offendingMessage'' offending))"
| "server_to_json (SUnknown u) = JObject (obj_of (opt_member JString ''msg'' (unk_msg u) @ unk_rest u))"

fun is_malformed :: "server_message \<Rightarrow> bool" where
  "is_malformed (SUnknown u) = (case unk_msg u of None \<Rightarrow> False | Some t \<Rightarrow> t \<in> set MODELLED_TAGS)"
| "is_malformed _ = False"

fun correlation_id :: "server_message \<Rightarrow> str option" where
  "correlation_id (SResult i _ _) = Some i"
| "correlation_id (SNosub i _) = Some i"
| "correlation_id (SPing i) = i"
| "correlation_id (SPong i) = i"
| "correlation_id _ = None"

section \<open>Stream events\<close>

record raw_event =
  re_stream :: str
  re_event_name :: str
  re_args :: "json list"

fun as_stream_event :: "server_message \<Rightarrow> raw_event option" where
  "as_stream_event (SChanged collection _ flds _) = do {
     stream \<leftarrow> strip_prefix STREAM_PREFIX collection;
     fs \<leftarrow> flds;
     name \<leftarrow> Option.bind (obj_get fs ''eventName'') as_str;
     Some \<lparr>re_stream = stream, re_event_name = name,
       re_args = (case Option.bind (obj_get fs ''args'') as_array of None \<Rightarrow> [] | Some xs \<Rightarrow> xs)\<rparr>
   }"
| "as_stream_event _ = None"

definition event_collection :: "raw_event \<Rightarrow> str" where
  "event_collection e = STREAM_PREFIX @ re_stream e"

definition arity :: "raw_event \<Rightarrow> nat" where
  "arity e = length (re_args e)"

definition arg_raw :: "raw_event \<Rightarrow> nat \<Rightarrow> json option" where
  "arg_raw e n = (if n < length (re_args e) then Some (re_args e ! n) else None)"

definition arg :: "raw_event \<Rightarrow> nat \<Rightarrow> json option" where
  "arg e n = (case arg_raw e n of None \<Rightarrow> None | Some JNull \<Rightarrow> None | Some v \<Rightarrow> Some v)"

definition arg_str :: "raw_event \<Rightarrow> nat \<Rightarrow> str option" where
  "arg_str e n = Option.bind (arg e n) as_str"

definition arg_i64 :: "raw_event \<Rightarrow> nat \<Rightarrow> i64 option" where
  "arg_i64 e n = Option.bind (arg e n) as_i64"

definition arg_bool :: "raw_event \<Rightarrow> nat \<Rightarrow> bool option" where
  "arg_bool e n = Option.bind (arg e n) as_bool"

definition arg_as :: "(json \<Rightarrow> 'a option) \<Rightarrow> raw_event \<Rightarrow> nat \<Rightarrow> 'a option" where
  "arg_as dec e n = Option.bind (arg e n) dec"

section \<open>Looking a member up in an object built from its members\<close>

definition look :: "(str \<times> json) list \<Rightarrow> str \<Rightarrow> json option" where
  "look kvs k = map_of (rev kvs) k"

lemma look_Nil [simp]: "look [] k = None"
  by (simp add: look_def)

lemma look_Cons [simp]:
  "look ((k', v) # kvs) k = (case look kvs k of None \<Rightarrow> (if k = k' then Some v else None) | Some w \<Rightarrow> Some w)"
  by (simp add: look_def map_add_def split: option.splits)

lemma look_append [simp]:
  "look (xs @ ys) k = (case look ys k of None \<Rightarrow> look xs k | Some w \<Rightarrow> Some w)"
  by (simp add: look_def map_add_def split: option.splits)

lemma look_opt_member [simp]:
  "look (opt_member enc k' x) k = (if k = k' then map_option enc x else None)"
  by (cases x) (simp_all add: opt_member_def look_def)

lemma look_notin: "k \<notin> fst ` set kvs \<Longrightarrow> look kvs k = None"
  by (force simp: look_def map_of_eq_None_iff)

lemma look_wf: "obj_wf m \<Longrightarrow> look m k = obj_get m k"
  by (metis look_def obj_get_def obj_wf_def strict_sorted_iff map_of_inject_set set_rev
      distinct_rev rev_map)

lemma obj_get_of_look [simp]: "obj_get (obj_of kvs) k = look kvs k"
  by (simp add: look_def obj_get_of)

lemma obj_of_wf: "obj_wf m \<Longrightarrow> obj_of m = m"
  by (rule obj_ext) (simp_all add: fun_eq_iff look_wf)

lemma obj_get_filter:
  "obj_get (filter (\<lambda>(k, _). P k) m) k = (if P k then obj_get m k else None)"
  by (induction m) (auto simp: obj_get_def)

lemma obj_wf_filter: "obj_wf m \<Longrightarrow> obj_wf (filter P m)"
  by (induction m) (auto simp: obj_wf_def)

lemma opt_field_look:
  assumes "obj_get m k = map_option enc x"
    and "\<And>y. x = Some y \<Longrightarrow> enc y \<noteq> JNull \<and> dec (enc y) = Some y"
  shows "opt_field dec m k = Some x"
  using assms by (cases x) (auto simp: opt_field_absent intro: opt_field_value)

lemma look_params_member [simp]:
  "look (params_member ps) k = (if k = ''params'' \<and> ps \<noteq> [] then Some (JArray ps) else None)"
  by (simp add: params_member_def)

lemmas field_simps_json = req_field_def dec_value_def Option.bind_eq_Some_conv

section \<open>Round trips\<close>

lemma as_i64_code: "as_i64 (JNumber (if 0 \<le> sint n then PosInt n else NegInt n)) = Some n"
proof (cases "0 \<le> sint n")
  case True
  have "sint n < 2 ^ 63" using sint_lt [of n] by simp
  with True have "uint n = sint n" by (simp add: uint_sint take_bit_int_eq_self)
  with \<open>sint n < 2 ^ 63\<close> show ?thesis using True by (simp add: unat_eq_nat_uint nat_less_iff)
next
  case False
  then show ?thesis by simp
qed

lemma code_roundtrip [simp]: "code_of_json (code_to_json c) = Some c"
proof (cases c)
  case (CodeNumber n)
  then show ?thesis using as_i64_code [of n] by (simp add: code_of_json_def)
qed (simp add: code_of_json_def)

definition ddp_error_wf :: "ddp_error \<Rightarrow> bool" where
  "ddp_error_wf e = (obj_wf (de_extra e) \<and> de_details e \<noteq> Some JNull
     \<and> list_all (\<lambda>(k, _). k \<notin> set ddp_error_keys) (de_extra e))"

lemma ddp_error_roundtrip:
  assumes "ddp_error_wf e"
  shows "ddp_error_of_json (ddp_error_to_json e) = Some e"
proof -
  let ?kvs = "[(''error'', code_to_json (de_error e))]
      @ opt_member JString ''reason'' (de_reason e)
      @ opt_member JString ''message'' (de_message e)
      @ opt_member JString ''errorType'' (de_error_type e)
      @ opt_member JBool ''isClientSafe'' (de_is_client_safe e)
      @ opt_member id ''details'' (de_details e)"
  let ?m = "obj_of (?kvs @ de_extra e)"
  have extra: "look (de_extra e) k = None" if "k \<in> set ddp_error_keys" for k
    using assms that by (intro look_notin) (force simp: ddp_error_wf_def list_all_iff)
  have known: "obj_get ?m k = look (de_extra e) k" if "k \<notin> set ddp_error_keys" for k
    using that by (simp add: ddp_error_keys_def split: option.splits)
  have "filter (\<lambda>(k, _). k \<notin> set ddp_error_keys) ?m = de_extra e"
  proof (rule obj_ext)
    show "obj_wf (filter (\<lambda>(k, _). k \<notin> set ddp_error_keys) ?m)"
      by (rule obj_wf_filter) simp
    show "obj_wf (de_extra e)" using assms by (simp add: ddp_error_wf_def)
    show "obj_get (filter (\<lambda>(k, _). k \<notin> set ddp_error_keys) ?m) = obj_get (de_extra e)"
    proof
      fix k
      have "look (de_extra e) k = obj_get (de_extra e) k"
        using assms by (intro look_wf) (simp add: ddp_error_wf_def)
      then show "obj_get (filter (\<lambda>(k, _). k \<notin> set ddp_error_keys) ?m) k = obj_get (de_extra e) k"
        using extra [of k] known [of k] by (simp add: obj_get_filter del: obj_get_of_look)
    qed
  qed
  moreover have "req_field code_of_json ?m ''error'' = Some (de_error e)"
    by (simp add: req_field_def extra ddp_error_keys_def)
  moreover have "opt_field as_str ?m ''reason'' = Some (de_reason e)"
    by (rule opt_field_look [where enc = JString]) (simp_all add: extra ddp_error_keys_def split: option.splits)
  moreover have "opt_field as_str ?m ''message'' = Some (de_message e)"
    by (rule opt_field_look [where enc = JString]) (simp_all add: extra ddp_error_keys_def split: option.splits)
  moreover have "opt_field as_str ?m ''errorType'' = Some (de_error_type e)"
    by (rule opt_field_look [where enc = JString]) (simp_all add: extra ddp_error_keys_def split: option.splits)
  moreover have "opt_field as_bool ?m ''isClientSafe'' = Some (de_is_client_safe e)"
    by (rule opt_field_look [where enc = JBool]) (simp_all add: extra ddp_error_keys_def split: option.splits)
  moreover have "opt_field dec_value ?m ''details'' = Some (de_details e)"
    using assms
    by (intro opt_field_look [where enc = id]) (auto simp: extra ddp_error_keys_def dec_value_def ddp_error_wf_def option.map_id split: option.splits)
  ultimately show ?thesis
    unfolding ddp_error_of_json_def ddp_error_to_json_def by (simp del: obj_get_of_look look_append look_Cons)
qed


text \<open>Every frame the client can build is read back from its own serialisation as the same frame:
  the members that the attributes skip when they are empty are restored by their defaults.\<close>

lemma client_frame_roundtrip: "client_of_json (client_to_json x) = Some x"
proof (cases x)
  case (CConnect v ss)
  then show ?thesis by (simp add: client_of_json_def req_field_def)
next
  case (CMethod i m ps)
  then show ?thesis by (simp add: client_of_json_def req_field_def params_field_def split: option.splits)
next
  case (CSub i m ps)
  then show ?thesis by (simp add: client_of_json_def req_field_def params_field_def split: option.splits)
next
  case (CPing i)
  then show ?thesis
    by (simp add: client_of_json_def req_field_def opt_field_look [where enc = JString] split: option.splits)
next
  case (CPong i)
  then show ?thesis
    by (simp add: client_of_json_def req_field_def opt_field_look [where enc = JString] split: option.splits)
qed (simp_all add: client_of_json_def req_field_def split: option.splits)

lemma decode_typed_tag: "decode_typed m = Some x \<Longrightarrow> \<exists>t \<in> set MODELLED_TAGS. obj_get m ''msg'' = Some (JString t)"
proof -
  assume "decode_typed m = Some x"
  then obtain v t where v: "obj_get m ''msg'' = Some v" "as_str v = Some t" and t: "decode_variant t m = Some x"
    by (auto simp: decode_typed_def req_field_def Option.bind_eq_Some_conv)
  have "t \<in> set MODELLED_TAGS"
    using t by (auto simp: decode_variant_def decode_lifecycle_def decode_reply_def decode_document_def
        MODELLED_TAGS_def split: option.splits if_splits)
  moreover have "v = JString t" using v(2) by (cases v) simp_all
  ultimately show ?thesis using v(1) by blast
qed

definition server_wf :: "server_message \<Rightarrow> bool" where
  "server_wf x = (case x of
       SResult _ res err \<Rightarrow> res \<noteq> Some JNull \<and> pred_option ddp_error_wf err
     | SNosub _ err \<Rightarrow> pred_option ddp_error_wf err
     | SError _ offending \<Rightarrow> offending \<noteq> Some JNull
     | SUnknown u \<Rightarrow> obj_wf (unk_rest u)
         \<and> (case unk_msg u of
               None \<Rightarrow> (\<forall>t. obj_get (unk_rest u) ''msg'' \<noteq> Some (JString t))
             | Some t \<Rightarrow> obj_get (unk_rest u) ''msg'' = None
                 \<and> decode_variant t (obj_insert ''msg'' (JString t) (unk_rest u)) = None)
     | _ \<Rightarrow> True)"


lemma server_of_json_typed: "decode_typed m = Some x \<Longrightarrow> server_of_json (JObject m) = Some x"
  by (simp add: server_of_json_def)

lemma decode_typed_of:
  "look kvs ''msg'' = Some (JString t) \<Longrightarrow> decode_typed (obj_of kvs) = decode_variant t (obj_of kvs)"
  by (simp add: decode_typed_def req_field_def)

lemmas decode_defs = decode_variant_def decode_lifecycle_def decode_reply_def decode_document_def

lemma unknown_kept:
  assumes "obj_wf (unk_rest u)" "server_wf (SUnknown u)"
  shows "server_of_json (server_to_json (SUnknown u)) = Some (SUnknown u)"
proof (cases "unk_msg u")
  case None
  then have "server_to_json (SUnknown u) = JObject (unk_rest u)"
    using assms(1) by (simp add: opt_member_def obj_of_wf)
  moreover have "decode_typed (unk_rest u) = None"
    using assms(2) None decode_typed_tag by (force simp: server_wf_def)
  moreover have "unknown_of_object (unk_rest u) = u"
    using assms(2) None by (cases u) (auto simp: unknown_of_object_def server_wf_def split: option.splits json.splits)
  ultimately show ?thesis by (simp add: server_of_json_def)
next
  case (Some t)
  let ?m = "obj_of ((''msg'', JString t) # unk_rest u)"
  have wf: "obj_get (unk_rest u) ''msg'' = None" "decode_variant t (obj_insert ''msg'' (JString t) (unk_rest u)) = None"
    using assms(2) Some by (simp_all add: server_wf_def)
  have m: "?m = obj_insert ''msg'' (JString t) (unk_rest u)"
    by (rule obj_ext)
      (auto simp: fun_eq_iff obj_get_insert look_wf assms(1) obj_wf_insert wf(1) split: option.splits)
  have "decode_typed ?m = None"
    by (simp add: m decode_typed_def req_field_def wf(2))
  moreover have "unknown_of_object ?m = u"
  proof -
    have "obj_remove ''msg'' ?m = unk_rest u"
      by (rule obj_ext) (auto simp: fun_eq_iff obj_get_remove m obj_get_insert assms(1) obj_wf_insert obj_wf_remove wf(1))
    moreover have "obj_get ?m ''msg'' = Some (JString t)" by (simp add: m)
    ultimately show ?thesis using Some by (cases u) (simp add: unknown_of_object_def)
  qed
  ultimately show ?thesis using Some by (simp add: server_of_json_def opt_member_def)
qed

lemma ddp_error_not_null: "ddp_error_to_json e \<noteq> JNull"
  by (simp add: ddp_error_to_json_def)

lemma error_member_of:
  assumes "look kvs ''error'' = map_option ddp_error_to_json err" "pred_option ddp_error_wf err"
  shows "opt_field ddp_error_of_json (obj_of kvs) ''error'' = Some err"
  using assms
  by (intro opt_field_look [where enc = ddp_error_to_json])
    (auto simp: ddp_error_roundtrip ddp_error_not_null)

lemma value_member_of:
  "look kvs k \<noteq> Some JNull \<Longrightarrow> opt_field dec_value (obj_of kvs) k = Some (look kvs k)"
  by (auto simp: opt_field_def dec_value_def split: option.splits json.splits)

lemma result_roundtrip:
  assumes "server_wf (SResult i res err)"
  shows "server_of_json (server_to_json (SResult i res err)) = Some (SResult i res err)"
proof -
  let ?kvs = "[(''msg'', JString ''result''), (''id'', JString i)]
      @ opt_member id ''result'' res @ opt_member ddp_error_to_json ''error'' err"
  have res: "look ?kvs ''result'' = res" by (simp add: option.map_id split: option.splits)
  then have "opt_field dec_value (obj_of ?kvs) ''result'' = Some res"
    using assms value_member_of [of ?kvs "''result''"] by (simp add: server_wf_def)
  moreover have "opt_field ddp_error_of_json (obj_of ?kvs) ''error'' = Some err"
    using assms by (intro error_member_of) (simp_all add: server_wf_def split: option.splits)
  ultimately have "decode_typed (obj_of ?kvs) = Some (SResult i res err)"
    by (simp add: decode_typed_of decode_defs req_field_def del: append_Cons split: option.splits)
  then show ?thesis by (simp only: server_to_json.simps server_of_json_typed)
qed

lemma nosub_roundtrip:
  assumes "server_wf (SNosub i err)"
  shows "server_of_json (server_to_json (SNosub i err)) = Some (SNosub i err)"
proof -
  let ?kvs = "[(''msg'', JString ''nosub''), (''id'', JString i)] @ opt_member ddp_error_to_json ''error'' err"
  have "opt_field ddp_error_of_json (obj_of ?kvs) ''error'' = Some err"
    using assms by (intro error_member_of) (simp_all add: server_wf_def split: option.splits)
  then have "decode_typed (obj_of ?kvs) = Some (SNosub i err)"
    by (simp add: decode_typed_of decode_defs req_field_def del: append_Cons split: option.splits)
  then show ?thesis by (simp only: server_to_json.simps server_of_json_typed)
qed

lemma error_roundtrip:
  assumes "server_wf (SError reason offending)"
  shows "server_of_json (server_to_json (SError reason offending)) = Some (SError reason offending)"
proof -
  let ?kvs = "[(''msg'', JString ''error''), (''reason'', JString reason)] @ opt_member id ''offendingMessage'' offending"
  have v: "look ?kvs ''offendingMessage'' = offending" by (simp add: option.map_id split: option.splits)
  then have "opt_field dec_value (obj_of ?kvs) ''offendingMessage'' = Some offending"
    using assms value_member_of [of ?kvs "''offendingMessage''"] by (simp add: server_wf_def)
  then have "decode_typed (obj_of ?kvs) = Some (SError reason offending)"
    by (simp add: decode_typed_of decode_defs req_field_def del: append_Cons split: option.splits)
  then show ?thesis by (simp only: server_to_json.simps server_of_json_typed)
qed

lemma document_roundtrip:
  "server_of_json (server_to_json (SAdded c i flds)) = Some (SAdded c i flds)"
  "server_of_json (server_to_json (SChanged c i flds cleared)) = Some (SChanged c i flds cleared)"
  "server_of_json (server_to_json (SAddedBefore c i flds b)) = Some (SAddedBefore c i flds b)"
  "server_of_json (server_to_json (SMovedBefore c i b)) = Some (SMovedBefore c i b)"
  by (cases flds; cases cleared; cases b; simp add: server_of_json_def opt_member_def opt_field_def decode_typed_of
      decode_defs req_field_def document_head_def before_member_def)+

lemma heartbeat_roundtrip:
  "server_of_json (server_to_json (SPing id1)) = Some (SPing id1)"
  "server_of_json (server_to_json (SPong id1)) = Some (SPong id1)"
  by (cases id1; simp add: server_of_json_def opt_member_def opt_field_def decode_typed_of decode_defs req_field_def)+

lemma plain_roundtrip:
  "server_of_json (server_to_json (SConnected s)) = Some (SConnected s)"
  "server_of_json (server_to_json (SFailed s)) = Some (SFailed s)"
  "server_of_json (server_to_json (SUpdated ms)) = Some (SUpdated ms)"
  "server_of_json (server_to_json (SReady ms)) = Some (SReady ms)"
  "server_of_json (server_to_json (SRemoved s k)) = Some (SRemoved s k)"
  by (simp_all add: server_of_json_def decode_typed_of decode_defs req_field_def document_head_def)



lemma decode_variant_not_unknown: "decode_variant t m = Some x \<Longrightarrow> x \<noteq> SUnknown u"
proof -
  have "decode_lifecycle t m = Some x \<Longrightarrow> x \<noteq> SUnknown u"
    by (auto simp: decode_lifecycle_def split: if_splits)
  moreover have "decode_reply t m = Some x \<Longrightarrow> x \<noteq> SUnknown u"
    by (auto simp: decode_reply_def Option.bind_eq_Some_conv split: if_splits)
  moreover have "decode_document t m = Some x \<Longrightarrow> x \<noteq> SUnknown u"
    by (auto simp: decode_document_def Option.bind_eq_Some_conv split: if_splits)
  ultimately show "decode_variant t m = Some x \<Longrightarrow> x \<noteq> SUnknown u"
    by (simp add: decode_variant_def split: option.splits)
qed

lemma decode_typed_not_unknown: "decode_typed m = Some x \<Longrightarrow> x \<noteq> SUnknown u"
  by (auto simp: decode_typed_def Option.bind_eq_Some_conv dest: decode_variant_not_unknown)

text \<open>A frame that no typed variant fits is kept verbatim: serialising it gives back the object that was
  received, member for member, whether its \<open>msg\<close> was absent, of another type or unknown.\<close>

lemma unknown_frame_verbatim:
  assumes "obj_wf m" "server_of_json (JObject m) = Some (SUnknown u)"
  shows "server_to_json (SUnknown u) = JObject m"
proof -
  have "decode_typed m \<noteq> Some (SUnknown u)" using decode_typed_not_unknown by blast
  then have u: "u = unknown_of_object m"
    using assms(2) by (auto simp: server_of_json_def split: option.splits)
  consider t where "obj_get m ''msg'' = Some (JString t)" "u = \<lparr>unk_msg = Some t, unk_rest = obj_remove ''msg'' m\<rparr>"
    | "u = \<lparr>unk_msg = None, unk_rest = m\<rparr>"
    using u by (auto simp: unknown_of_object_def split: option.splits json.splits)
  then show ?thesis
  proof cases
    case (1 t)
    have "obj_of ((''msg'', JString t) # obj_remove ''msg'' m) = m"
    proof (rule obj_ext [OF _ assms(1)])
      show "obj_get (obj_of ((''msg'', JString t) # obj_remove ''msg'' m)) = obj_get m"
      proof
        fix k
        have "look (obj_remove ''msg'' m) k = (if k = ''msg'' then None else obj_get m k)"
          by (simp add: look_wf [OF obj_wf_remove [OF assms(1)]] obj_get_remove)
        then show "obj_get (obj_of ((''msg'', JString t) # obj_remove ''msg'' m)) k = obj_get m k"
          using 1(1) by (simp split: option.splits)
      qed
    qed simp
    with 1 show ?thesis by (simp add: opt_member_def)
  next
    case 2
    with assms(1) show ?thesis by (simp add: opt_member_def obj_of_wf)
  qed
qed

lemma unknown_frame_verbatim_witness:
  "server_to_json (SUnknown \<lparr>unk_msg = Some ''server_id'', unk_rest = [(''server_id'', JString ''0'')]\<rparr>)
     = JObject [(''msg'', JString ''server_id''), (''server_id'', JString ''0'')]"
  by (rule unknown_frame_verbatim)
    (simp_all add: obj_wf_def server_of_json_def decode_typed_def decode_defs req_field_def obj_get_def
      unknown_of_object_def obj_remove_def)

lemma modelled_tag_decodes:
  assumes "t \<in> set MODELLED_TAGS"
  shows "\<exists>m. decode_variant t m \<noteq> None"
proof -
  let ?m = "obj_of [(''session'', JString []), (''version'', JString []), (''collection'', JString []),
    (''id'', JString []), (''methods'', JArray []), (''subs'', JArray []), (''reason'', JString [])]"
  have str: "req_field as_str ?m k = Some []"
    if "k \<in> {''session'', ''version'', ''collection'', ''id'', ''reason''}" for k
    using that by (auto simp: req_field_def)
  have arr: "req_field (dec_array as_str) ?m ''methods'' = Some []" "req_field (dec_array as_str) ?m ''subs'' = Some []"
    by (simp_all add: req_field_def dec_array_def)
  have ident: "opt_field as_str ?m ''id'' = Some (Some [])"
    by (simp add: opt_field_def)
  have opt_obj: "opt_field as_object ?m ''fields'' = Some None" "opt_field (dec_array as_str) ?m ''cleared'' = Some None"
    "opt_field as_str ?m ''before'' = Some None" "opt_field dec_value ?m ''result'' = Some None"
    "opt_field ddp_error_of_json ?m ''error'' = Some None" "opt_field dec_value ?m ''offendingMessage'' = Some None"
    by (simp_all add: opt_field_absent)
  obtain m where m: "req_field as_str m ''session'' = Some []" "req_field as_str m ''version'' = Some []"
    "req_field as_str m ''collection'' = Some []" "req_field as_str m ''id'' = Some []" "req_field as_str m ''reason'' = Some []"
    "req_field (dec_array as_str) m ''methods'' = Some []" "req_field (dec_array as_str) m ''subs'' = Some []"
    "opt_field as_str m ''id'' = Some (Some [])"
    "opt_field as_object m ''fields'' = Some None" "opt_field (dec_array as_str) m ''cleared'' = Some None"
    "opt_field as_str m ''before'' = Some None" "opt_field dec_value m ''result'' = Some None"
    "opt_field ddp_error_of_json m ''error'' = Some None" "opt_field dec_value m ''offendingMessage'' = Some None"
    using str arr ident opt_obj by (meson insertI1 insertI2)
  have "decode_lifecycle t m \<noteq> None" if "t \<in> {''connected'', ''failed'', ''ping'', ''pong''}"
    using that m by (auto simp: decode_lifecycle_def)
  moreover have "decode_reply t m \<noteq> None" if "t \<in> {''result'', ''updated'', ''nosub'', ''ready'', ''error''}"
    using that m by (auto simp: decode_reply_def)
  moreover have "decode_document t m \<noteq> None"
    if "t \<in> {''added'', ''changed'', ''removed'', ''addedBefore'', ''movedBefore''}"
    using that m by (auto simp: decode_document_def)
  ultimately have "decode_variant t m \<noteq> None"
    using assms by (fastforce simp: decode_variant_def MODELLED_TAGS_def split: option.splits)
  then show ?thesis by blast
qed

text \<open>Malformed frames are recognised exactly: a decoded object is reported malformed when its \<open>msg\<close> is a tag
  that some payload decodes under but this payload does not; a tag outside the list never decodes.\<close>

lemma malformed_exact:
  assumes "server_of_json (JObject m) = Some x"
  shows "is_malformed x \<longleftrightarrow>
    (\<exists>t. obj_get m ''msg'' = Some (JString t) \<and> decode_variant t m = None \<and> (\<exists>m'. decode_variant t m' \<noteq> None))"
proof (cases "decode_typed m")
  case (Some y)
  then have "x = y" using assms by (simp add: server_of_json_def)
  moreover have "\<not> is_malformed y"
    using decode_typed_not_unknown [OF Some] by (metis is_malformed.elims(2))
  moreover have "\<nexists>t. obj_get m ''msg'' = Some (JString t) \<and> decode_variant t m = None"
    using Some by (auto simp: decode_typed_def req_field_def)
  ultimately show ?thesis by blast
next
  case None
  have tags: "t \<in> set MODELLED_TAGS" if "decode_variant t m' = Some z" for t m' z
    using that by (auto simp: decode_defs MODELLED_TAGS_def split: option.splits if_splits)
  have x: "x = SUnknown (unknown_of_object m)" using None assms by (simp add: server_of_json_def)
  have "is_malformed x \<longleftrightarrow> (\<exists>t. obj_get m ''msg'' = Some (JString t) \<and> t \<in> set MODELLED_TAGS)"
    by (auto simp: x unknown_of_object_def split: option.splits json.splits)
  moreover have "decode_variant t m = None" if "obj_get m ''msg'' = Some (JString t)" for t
    using None that by (simp add: decode_typed_def req_field_def)
  ultimately show ?thesis using tags modelled_tag_decodes by (metis not_None_eq)
qed

lemma malformed_exact_witness:
  "is_malformed (SUnknown \<lparr>unk_msg = Some ''nosub'', unk_rest = []\<rparr>)"
proof -
  have "server_of_json (JObject [(''msg'', JString ''nosub'')]) = Some (SUnknown \<lparr>unk_msg = Some ''nosub'', unk_rest = []\<rparr>)"
    by (simp add: server_of_json_def decode_typed_def decode_defs req_field_def obj_get_def
      unknown_of_object_def obj_remove_def)
  note this [THEN malformed_exact]
  moreover have "decode_variant ''nosub'' [(''msg'', JString ''nosub'')] = None"
    "decode_variant ''nosub'' [(''id'', JString ''1'')] \<noteq> None"
    by (simp_all add: decode_defs req_field_def obj_get_def opt_field_def)
  moreover have "obj_get [(''msg'', JString ''nosub'')] ''msg'' = Some (JString ''nosub'')"
    by (simp add: obj_get_def)
  ultimately show ?thesis by blast
qed

section \<open>Stream events and error codes\<close>

text \<open>A frame is a stream event exactly when it is a \<open>changed\<close> frame on a \<open>stream-\<close> collection whose
  fields name an event; the event is named by the collection and \<open>eventName\<close> alone, so frames that differ in the
  document id or in the cleared members are the same event, and arguments that are missing or not an array are none.\<close>

lemma stream_event_exact:
  "as_stream_event x = Some e \<longleftrightarrow>
    (\<exists>i flds cleared. x = SChanged (event_collection e) i (Some flds) cleared
       \<and> obj_get flds ''eventName'' = Some (JString (re_event_name e))
       \<and> re_args e = (case obj_get flds ''args'' of Some (JArray xs) \<Rightarrow> xs | _ \<Rightarrow> []))"
proof (cases x)
  case (SChanged c i flds cleared)
  have str: "as_str v = Some t \<longleftrightarrow> v = JString t" for v t by (cases v) simp_all
  have args: "(case Option.bind v as_array of None \<Rightarrow> [] | Some xs \<Rightarrow> xs) = (case v of Some (JArray xs) \<Rightarrow> xs | _ \<Rightarrow> [])"
    for v by (cases v) (auto split: json.splits)
  show ?thesis
    by (cases e) (auto simp: SChanged Option.bind_eq_Some_conv strip_prefix_Some event_collection_def str args)
qed simp_all

text \<open>A code survives the relay that flattens an error into its message: if an error without a message but
  with a reason is shown, and the text comes back as the string code of another error, that error still has the
  code, however the code was first given.\<close>

lemma relayed_code_kept:
  assumes "de_message e = None" "de_reason e = Some r" "de_error e' = CodeString (ddp_error_to_string e)"
  shows "has_code e' (code_to_string (de_error e))"
  using assms by (auto simp: has_code_def ddp_error_to_string_def ends_with_iff)

lemma relayed_code_kept_witness:
  "is_too_many_requests \<lparr>de_error = CodeString ''Slow down [too-many-requests]'', de_reason = None, de_message = None,
     de_error_type = None, de_is_client_safe = None, de_details = None, de_extra = []\<rparr>"
  using relayed_code_kept [of "\<lparr>de_error = CodeString CODE_TOO_MANY_REQUESTS, de_reason = Some ''Slow down'',
      de_message = None, de_error_type = None, de_is_client_safe = None, de_details = None, de_extra = []\<rparr>" "''Slow down''"
      "\<lparr>de_error = CodeString ''Slow down [too-many-requests]'', de_reason = None, de_message = None,
     de_error_type = None, de_is_client_safe = None, de_details = None, de_extra = []\<rparr>"]
  by (simp add: is_too_many_requests_def ddp_error_to_string_def CODE_TOO_MANY_REQUESTS_def)

lemma code_is_display: "code_is c (code_to_string c)"
  by (cases c) simp_all

lemma retry_after_whole:
  assumes "de_details e = Some d" "json_member d ''timeToReset'' = Some (JNumber (PosInt n))"
  shows "retry_after e = Some (from_millis (unat n))"
  using assms by (simp add: retry_after_def)

lemma retry_after_bounded: "retry_after e = Some d \<Longrightarrow> d \<le> duration_max"
proof -
  have "from_millis n \<le> duration_max" if "n < 2 ^ 64" for n
    using that by (simp add: from_millis_def duration_max_def)
  moreover have "unat (n :: u64) < 2 ^ 64" for n using unsigned_less [of n] by simp
  ultimately show "retry_after e = Some d \<Longrightarrow> d \<le> duration_max"
    by (auto simp: retry_after_def Option.bind_eq_Some_conv f64_as_u64_def min_def split: option.splits if_splits)
qed

end
