(* ===== verification/Ddp_Session.thy ===== *)
theory Ddp_Session
  imports Ddp_Protocol
begin

text \<open>
  The session state machine, \<open>rocketsocket-realtime/src/session.rs\<close>: the phase of one
  connection, the login call it waits for, and what each frame asks the connection to do.
\<close>

section \<open>State and operations\<close>

datatype phase = Disconnected | Handshaking | Authenticating | Ready | FatallyClosed

datatype fatal =
    VersionMismatch str str
  | SessionExpired str
  | LoginRejected str

datatype action =
    ASend client_message
  | ALogin
  | AResubscribe
  | AFatal fatal
  | AProtocolViolation "str option"

record session =
  ss_phase :: phase
  ss_proposed_version :: str
  ss_session_id :: "str option"
  ss_login_call :: "str option"

definition session_new :: "str \<Rightarrow> session" where
  "session_new v = \<lparr>ss_phase = Disconnected, ss_proposed_version = v, ss_session_id = None, ss_login_call = None\<rparr>"

definition is_fatal :: "session \<Rightarrow> bool" where
  "is_fatal s = (ss_phase s = FatallyClosed)"

definition session_connect :: "session \<Rightarrow> action \<times> session" where
  "session_connect s =
     (ASend client_connect, s\<lparr>ss_phase := Handshaking, ss_session_id := None, ss_login_call := None\<rparr>)"

definition expect_login :: "str \<Rightarrow> session \<Rightarrow> session" where
  "expect_login i s = s\<lparr>ss_login_call := Some i\<rparr>"

definition session_disconnected :: "session \<Rightarrow> session" where
  "session_disconnected s =
     s\<lparr>ss_phase := (if ss_phase s \<noteq> FatallyClosed then Disconnected else ss_phase s),
       ss_session_id := None, ss_login_call := None\<rparr>"

definition classify_login_failure :: "ddp_error \<Rightarrow> fatal" where
  "classify_login_failure e =
     (let text = (case de_reason e of
          Some r \<Rightarrow> r
        | None \<Rightarrow> (case de_message e of Some m \<Rightarrow> m | None \<Rightarrow> code_to_string (de_error e)))
      in if is_expired_session e then SessionExpired text else LoginRejected text)"

definition handle :: "server_message \<Rightarrow> session \<Rightarrow> action list \<times> session" where
  "handle x s =
     (if is_malformed x then
        ([AProtocolViolation (case x of SUnknown u \<Rightarrow> unk_msg u | _ \<Rightarrow> None)], s)
      else case x of
        SPing i \<Rightarrow> ([ASend (CPong i)], s)
      | SConnected sid \<Rightarrow> ([ALogin], s\<lparr>ss_session_id := Some sid, ss_phase := Authenticating\<rparr>)
      | SFailed v \<Rightarrow>
          ([AFatal (VersionMismatch (ss_proposed_version s) v)], s\<lparr>ss_phase := FatallyClosed\<rparr>)
      | SResult i _ err \<Rightarrow>
          if ss_login_call s = Some i then
            (case err of
               None \<Rightarrow> ([AResubscribe], s\<lparr>ss_login_call := None, ss_phase := Ready\<rparr>)
             | Some e \<Rightarrow> ([AFatal (classify_login_failure e)], s\<lparr>ss_login_call := None, ss_phase := FatallyClosed\<rparr>))
          else ([], s)
      | _ \<Rightarrow> ([], s))"

section \<open>Runs\<close>

datatype session_op = SoConnect | SoExpect str | SoDisconnected | SoHandle server_message

fun session_act :: "session_op \<Rightarrow> session \<Rightarrow> action list \<times> session" where
  "session_act SoConnect s = (let (a, s') = session_connect s in ([a], s'))"
| "session_act (SoExpect i) s = ([], expect_login i s)"
| "session_act SoDisconnected s = ([], session_disconnected s)"
| "session_act (SoHandle x) s = handle x s"

definition session_step :: "session_op \<Rightarrow> session \<Rightarrow> session" where
  "session_step x s = snd (session_act x s)"

fun session_run :: "session_op list \<Rightarrow> session \<Rightarrow> action list \<times> session" where
  "session_run [] s = ([], s)"
| "session_run (x # xs) s =
     (let (as, s') = session_act x s; (as', s'') = session_run xs s' in (as @ as', s''))"

definition session_inv :: "session \<Rightarrow> bool" where
  "session_inv s = (ss_session_id s \<noteq> None \<longrightarrow> ss_phase s \<notin> {Disconnected, Handshaking})"

lemma handle_cases:
  obtains (malformed) "is_malformed x" "handle x s = ([AProtocolViolation (case x of SUnknown u \<Rightarrow> unk_msg u | _ \<Rightarrow> None)], s)"
  | (ping) i where "x = SPing i" "handle x s = ([ASend (CPong i)], s)"
  | (connected) sid where "x = SConnected sid"
      "handle x s = ([ALogin], s\<lparr>ss_session_id := Some sid, ss_phase := Authenticating\<rparr>)"
  | (failed) v where "x = SFailed v"
      "handle x s = ([AFatal (VersionMismatch (ss_proposed_version s) v)], s\<lparr>ss_phase := FatallyClosed\<rparr>)"
  | (accepted) i res where "x = SResult i res None" "ss_login_call s = Some i"
      "handle x s = ([AResubscribe], s\<lparr>ss_login_call := None, ss_phase := Ready\<rparr>)"
  | (rejected) i res e where "x = SResult i res (Some e)" "ss_login_call s = Some i"
      "handle x s = ([AFatal (classify_login_failure e)], s\<lparr>ss_login_call := None, ss_phase := FatallyClosed\<rparr>)"
  | (other) "handle x s = ([], s)"
proof (cases "is_malformed x")
  case True
  then show thesis by (intro malformed) (simp_all add: handle_def)
next
  case wf: False
  show thesis
  proof (cases x)
    case (SResult i res err)
    show thesis
    proof (cases "ss_login_call s = Some i")
      case True
      then show thesis using SResult by (cases err) (auto simp: handle_def intro: accepted rejected)
    next
      case False
      then show thesis using SResult by (intro other) (simp add: handle_def)
    qed
  qed (use wf in \<open>auto simp: handle_def intro: ping connected failed other\<close>)
qed

interpretation se: op_invariant session_step session_inv
proof
  fix s x
  assume inv: "session_inv s"
  show "session_inv (session_step x s)"
  proof (cases x)
    case (SoHandle m)
    show ?thesis
      by (cases rule: handle_cases [of m s])
        (use inv SoHandle in \<open>simp_all add: session_step_def session_inv_def\<close>)
  qed (use inv in \<open>auto simp: session_step_def session_inv_def session_connect_def expect_login_def
      session_disconnected_def\<close>)
qed

lemma session_new_inv: "session_inv (session_new v)"
  by (simp add: session_inv_def session_new_def)

section \<open>Properties\<close>

definition is_login_verdict :: "action \<Rightarrow> bool" where
  "is_login_verdict a = (a = AResubscribe \<or> (\<exists>f. a = AFatal f \<and> (\<forall>v w. f \<noteq> VersionMismatch v w)))"

definition verdicts :: "action list \<Rightarrow> nat" where
  "verdicts as = length (filter is_login_verdict as)"

definition expects :: "session_op list \<Rightarrow> nat" where
  "expects xs = length (filter (\<lambda>x. \<exists>i. x = SoExpect i) xs)"

lemma classify_not_mismatch: "classify_login_failure e \<noteq> VersionMismatch v w"
  by (simp add: classify_login_failure_def Let_def)

lemma verdict_consumes:
  "verdicts (fst (session_act x s)) + (if ss_login_call (snd (session_act x s)) = None then 0 else 1)
     \<le> (if ss_login_call s = None then 0 else 1) + (if \<exists>i. x = SoExpect i then 1 else 0)"
proof (cases x)
  case (SoHandle m)
  show ?thesis
    by (cases rule: handle_cases [of m s])
      (simp_all add: SoHandle verdicts_def is_login_verdict_def)
qed (simp_all add: verdicts_def is_login_verdict_def session_connect_def expect_login_def session_disconnected_def)

lemma verdicts_run:
  "verdicts (fst (session_run xs s)) \<le> (if ss_login_call s = None then 0 else 1) + expects xs"
proof (induction xs arbitrary: s)
  case Nil
  then show ?case by (simp add: verdicts_def)
next
  case (Cons x xs)
  obtain as s' where a: "session_act x s = (as, s')" by force
  obtain as' s'' where r: "session_run xs s' = (as', s'')" by force
  have "verdicts as' \<le> (if ss_login_call s' = None then 0 else 1) + expects xs"
    using Cons.IH [of s'] r by simp
  moreover have "verdicts as + (if ss_login_call s' = None then 0 else 1)
      \<le> (if ss_login_call s = None then 0 else 1) + (if \<exists>i. x = SoExpect i then 1 else 0)"
    using verdict_consumes [of x s] a by simp
  moreover have "expects (x # xs) = (if \<exists>i. x = SoExpect i then 1 else 0) + expects xs"
    by (simp add: expects_def)
  moreover have "verdicts (as @ as') = verdicts as + verdicts as'" by (simp add: verdicts_def)
  ultimately show ?case by (simp add: a r)
qed

text \<open>One login, one verdict: whatever frames arrive in whatever order, a session asks to resubscribe or fails
  over its login at most once for each login call it was told to expect, so a repeated or stale \<open>result\<close> never
  resubscribes twice.\<close>

lemma one_verdict_per_login:
  "verdicts (fst (session_run xs (session_new v))) \<le> expects xs"
  using verdicts_run [of xs "session_new v"] by (simp add: session_new_def)

text \<open>C35: A session is ready only by its own login's accepted result: a frame that moves it to \<open>Ready\<close> is the
  error-free \<open>result\<close> of the expected login call, and the request to resubscribe is emitted then and only then.\<close>

lemma ready_only_by_login:
  assumes "handle x s = (as, s')"
  shows "(AResubscribe \<in> set as \<longleftrightarrow> (\<exists>i res. x = SResult i res None \<and> ss_login_call s = Some i))
    \<and> (AResubscribe \<in> set as \<longrightarrow> ss_phase s' = Ready \<and> ss_login_call s' = None)
    \<and> (ss_phase s' = Ready \<and> ss_phase s \<noteq> Ready \<longrightarrow> as = [AResubscribe])"
proof (cases rule: handle_cases [of x s])
  case other
  then show ?thesis using assms by (auto simp: handle_def)
next
  case malformed
  then show ?thesis using assms by auto
qed (use assms in auto)

lemma ready_only_by_login_witness:
  "ss_phase (snd (handle (SResult ''m0'' None None)
      \<lparr>ss_phase = Authenticating, ss_proposed_version = ''1'', ss_session_id = None, ss_login_call = Some ''m0''\<rparr>)) = Ready"
proof -
  let ?s = "\<lparr>ss_phase = Authenticating, ss_proposed_version = ''1'', ss_session_id = None, ss_login_call = Some ''m0''\<rparr>"
  have "handle (SResult ''m0'' None None) ?s = ([AResubscribe], ?s\<lparr>ss_phase := Ready, ss_login_call := None\<rparr>)"
    by (simp add: handle_def)
  from ready_only_by_login [OF this] this show ?thesis by simp
qed

text \<open>A terminal failure is reported and kept: a frame makes the session report a failure exactly when it leaves
  it fatally closed with that report alone, a disconnect keeps it so, and only a new connection attempt, a
  \<open>connected\<close> frame or the login's accepted result takes a session out of it.\<close>

lemma fatal_kept:
  "((\<exists>f. AFatal f \<in> set (fst (handle x s))) \<longrightarrow>
       is_fatal (snd (handle x s)) \<and> length (fst (handle x s)) = 1)
   \<and> (is_fatal (snd (handle x s)) \<and> \<not> is_fatal s \<longrightarrow> (\<exists>f. fst (handle x s) = [AFatal f]))
   \<and> (is_fatal s \<longrightarrow> is_fatal (session_disconnected s))
   \<and> (is_fatal s \<and> \<not> is_fatal (snd (handle x s)) \<longrightarrow>
        fst (handle x s) = [ALogin] \<or> fst (handle x s) = [AResubscribe])"
  by (cases rule: handle_cases [of x s])
    (simp_all add: is_fatal_def session_disconnected_def)

lemma fatal_kept_witness:
  "is_fatal (session_disconnected (snd (handle (SFailed ''2'') (session_new ''1''))))"
  using fatal_kept [of "SFailed ''2''" "session_new ''1''"] 
    fatal_kept [of "SReady []" "snd (handle (SFailed ''2'') (session_new ''1''))"]
  by (simp add: handle_def)

lemma ping_answered: "handle (SPing i) s = ([ASend (CPong i)], s)"
  by (simp add: handle_def)

lemma malformed_keeps: "is_malformed x \<Longrightarrow> snd (handle x s) = s"
  by (simp add: handle_def)

end
