(* ===== verification/Ddp_Correlate.thy ===== *)
theory Ddp_Correlate
  imports Ddp_Protocol
begin

text \<open>
  Matching replies to callers, \<open>rocketsocket-realtime/src/correlate.rs\<close>.

  A \<open>oneshot\<close> channel is a token \<open>'w\<close>: registering a call creates it, sending on it appends
  the token and the outcome to the list of deliveries, and \<open>alive\<close> says which tokens still
  have a receiver.  The hash map is a finite map, and a disconnect answers its entries in key
  order where the hash map has no order.  The counter is a \<open>u64\<close> that wraps; the freshness
  of an id is stated for as long as it has not.
\<close>

section \<open>State and operations\<close>

datatype call_error =
    CServer ddp_error
  | NotSent
  | Abandoned str

type_synonym outcome = "call_error + json"

record 'w pending =
  pd_epoch :: u64
  pd_sent :: bool
  pd_reply :: 'w

record 'w correlator =
  co_epoch :: u64
  co_next_id :: u64
  co_prefix :: str
  co_pending :: "(str, 'w pending) fmap"

datatype resolution = Delivered | Unknown | StaleEpoch | CallerGone

type_synonym 'w deliveries = "('w \<times> outcome) list"

definition epoch_next :: "u64 \<Rightarrow> u64" where
  "epoch_next e = e + 1"

definition correlator_new :: "str \<Rightarrow> 'w correlator" where
  "correlator_new p = \<lparr>co_epoch = 0, co_next_id = 0, co_prefix = p, co_pending = fmempty\<rparr>"

definition pending_count :: "'w correlator \<Rightarrow> nat" where
  "pending_count c = fmlen (co_pending c)"

definition call_id :: "str \<Rightarrow> u64 \<Rightarrow> str" where
  "call_id p n = p @ nat_to_str (unat n)"

definition register :: "'w \<Rightarrow> 'w correlator \<Rightarrow> str \<times> 'w correlator" where
  "register w c =
     (let i = call_id (co_prefix c) (co_next_id c) in
      (i, c\<lparr>co_next_id := co_next_id c + 1,
            co_pending := fmupd i \<lparr>pd_epoch = co_epoch c, pd_sent = False, pd_reply = w\<rparr> (co_pending c)\<rparr>))"

definition mark_sent :: "str \<Rightarrow> 'w correlator \<Rightarrow> 'w correlator" where
  "mark_sent i c = (case fmlookup (co_pending c) i of
       Some p \<Rightarrow> c\<lparr>co_pending := fmupd i (p\<lparr>pd_sent := True\<rparr>) (co_pending c)\<rparr>
     | None \<Rightarrow> c)"

definition send :: "('w \<Rightarrow> bool) \<Rightarrow> 'w \<Rightarrow> outcome \<Rightarrow> 'w deliveries" where
  "send alive w out = (if alive w then [(w, out)] else [])"

definition resolve ::
  "('w \<Rightarrow> bool) \<Rightarrow> str \<Rightarrow> (ddp_error + json) \<Rightarrow> 'w correlator \<Rightarrow> resolution \<times> 'w deliveries \<times> 'w correlator" where
  "resolve alive i out c = (case fmpop i (co_pending c) of
       (None, _) \<Rightarrow> (Unknown, [], c)
     | (Some p, rest) \<Rightarrow>
         let c' = c\<lparr>co_pending := rest\<rparr> in
         if pd_epoch p \<noteq> co_epoch c then (StaleEpoch, [], c')
         else if alive (pd_reply p)
           then (Delivered, send alive (pd_reply p) (map_sum CServer id out), c')
         else (CallerGone, [], c'))"

definition cancel :: "str \<Rightarrow> 'w correlator \<Rightarrow> bool \<times> 'w correlator" where
  "cancel i c = (fmlookup (co_pending c) i \<noteq> None, c\<lparr>co_pending := fmdrop i (co_pending c)\<rparr>)"

definition abandon :: "('w \<Rightarrow> bool) \<Rightarrow> (str, 'w pending) fmap \<Rightarrow> str \<Rightarrow> 'w deliveries" where
  "abandon alive m i = (case fmlookup m i of
       None \<Rightarrow> []
     | Some p \<Rightarrow> send alive (pd_reply p) (Inl (if pd_sent p then Abandoned i else NotSent)))"

definition disconnect :: "('w \<Rightarrow> bool) \<Rightarrow> 'w correlator \<Rightarrow> nat \<times> 'w deliveries \<times> 'w correlator" where
  "disconnect alive c =
     (let m = co_pending c in
      (fmlen m, concat (map (abandon alive m) (sorted_list_of_fset (fmdom m))),
       c\<lparr>co_pending := fmempty, co_epoch := epoch_next (co_epoch c)\<rparr>))"

section \<open>Invariant\<close>

text \<open>Every entry was registered in the current epoch under an id of this correlator's own.\<close>

definition co_inv :: "'w correlator \<Rightarrow> bool" where
  "co_inv c = (\<forall>i p. fmlookup (co_pending c) i = Some p \<longrightarrow>
     pd_epoch p = co_epoch c \<and> (\<exists>n. i = call_id (co_prefix c) n))"

datatype 'w co_op =
    CoRegister 'w
  | CoMarkSent str
  | CoResolve str "ddp_error + json"
  | CoCancel str
  | CoDisconnect

fun co_act :: "('w \<Rightarrow> bool) \<Rightarrow> 'w co_op \<Rightarrow> 'w correlator \<Rightarrow> 'w deliveries \<times> 'w correlator" where
  "co_act alive (CoRegister w) c = ([], snd (register w c))"
| "co_act alive (CoMarkSent i) c = ([], mark_sent i c)"
| "co_act alive (CoResolve i out) c = snd (resolve alive i out c)"
| "co_act alive (CoCancel i) c = ([], snd (cancel i c))"
| "co_act alive CoDisconnect c = snd (disconnect alive c)"

fun co_run :: "('w \<Rightarrow> bool) \<Rightarrow> 'w co_op list \<Rightarrow> 'w correlator \<Rightarrow> 'w deliveries \<times> 'w correlator" where
  "co_run alive [] c = ([], c)"
| "co_run alive (x # xs) c =
     (let (ds, c') = co_act alive x c; (ds', c'') = co_run alive xs c' in (ds @ ds', c''))"

lemma call_id_inj [simp]: "call_id p m = call_id p n \<longleftrightarrow> m = n"
  by (simp add: call_id_def unsigned_word_eqI word_unat_eq_iff)

lemma register_simps [simp]:
  "fst (register w c) = call_id (co_prefix c) (co_next_id c)"
  "co_epoch (snd (register w c)) = co_epoch c"
  "co_next_id (snd (register w c)) = co_next_id c + 1"
  "co_prefix (snd (register w c)) = co_prefix c"
  "co_pending (snd (register w c)) =
     fmupd (call_id (co_prefix c) (co_next_id c)) \<lparr>pd_epoch = co_epoch c, pd_sent = False, pd_reply = w\<rparr> (co_pending c)"
  by (simp_all add: register_def Let_def)

lemma mark_sent_simps [simp]:
  "co_epoch (mark_sent i c) = co_epoch c"
  "co_next_id (mark_sent i c) = co_next_id c"
  "co_prefix (mark_sent i c) = co_prefix c"
  "fmlookup (co_pending (mark_sent i c)) j =
     (if j = i then map_option (\<lambda>p. p\<lparr>pd_sent := True\<rparr>) (fmlookup (co_pending c) i) else fmlookup (co_pending c) j)"
  by (auto simp: mark_sent_def split: option.splits)

lemma resolve_simps [simp]:
  "co_epoch (snd (snd (resolve alive i out c))) = co_epoch c"
  "co_next_id (snd (snd (resolve alive i out c))) = co_next_id c"
  "co_prefix (snd (snd (resolve alive i out c))) = co_prefix c"
  "fmlookup (co_pending (snd (snd (resolve alive i out c)))) j = (if j = i then None else fmlookup (co_pending c) j)"
  by (auto simp: resolve_def fmpop_def Let_def split: option.splits)

lemma cancel_simps [simp]:
  "co_epoch (snd (cancel i c)) = co_epoch c"
  "co_next_id (snd (cancel i c)) = co_next_id c"
  "co_prefix (snd (cancel i c)) = co_prefix c"
  "co_pending (snd (cancel i c)) = fmdrop i (co_pending c)"
  by (simp_all add: cancel_def)

lemma disconnect_simps [simp]:
  "fst (disconnect alive c) = fmlen (co_pending c)"
  "co_epoch (snd (snd (disconnect alive c))) = co_epoch c + 1"
  "co_next_id (snd (snd (disconnect alive c))) = co_next_id c"
  "co_prefix (snd (snd (disconnect alive c))) = co_prefix c"
  "co_pending (snd (snd (disconnect alive c))) = fmempty"
  by (simp_all add: disconnect_def Let_def epoch_next_def)

interpretation co: op_invariant "\<lambda>x c. snd (co_act alive x c)" co_inv for alive :: "'w \<Rightarrow> bool"
proof
  fix c :: "'w correlator" and x
  assume inv: "co_inv c"
  show "co_inv (snd (co_act alive x c))"
    by (cases x) (use inv in \<open>auto simp: co_inv_def split: if_splits\<close>)
qed

lemma correlator_new_inv [simp]: "co_inv (correlator_new p)"
  by (simp add: co_inv_def correlator_new_def)

lemma co_run_fold: "snd (co_run alive xs c) = fold (\<lambda>x c. snd (co_act alive x c)) xs c"
  by (induction xs arbitrary: c) (simp_all add: case_prod_unfold Let_def)

lemma co_run_inv: "co_inv c \<Longrightarrow> co_inv (snd (co_run alive xs c))"
  by (simp add: co_run_fold co.run_inv)

lemma resolve_not_stale: "co_inv c \<Longrightarrow> fst (resolve alive i out c) \<noteq> StaleEpoch"
  by (auto simp: resolve_def fmpop_def co_inv_def Let_def split: option.splits)

section \<open>Deliveries\<close>

lemma resolve_deliveries:
  assumes "co_inv c"
  shows "fst (snd (resolve alive i out c)) = (case fmlookup (co_pending c) i of
      None \<Rightarrow> [] | Some p \<Rightarrow> send alive (pd_reply p) (map_sum CServer id out))"
  using assms by (auto simp: resolve_def fmpop_def co_inv_def send_def Let_def split: option.splits)

lemma disconnect_deliveries:
  "fst (snd (disconnect alive c)) = concat (map (abandon alive (co_pending c)) (sorted_list_of_fset (fmdom (co_pending c))))"
  by (simp add: disconnect_def Let_def)

lemma disconnect_delivered:
  "(w, out) \<in> set (fst (snd (disconnect alive c))) \<longleftrightarrow>
    (\<exists>i p. fmlookup (co_pending c) i = Some p \<and> w = pd_reply p \<and> alive w
       \<and> out = Inl (if pd_sent p then Abandoned i else NotSent))"
  by (auto simp: disconnect_deliveries abandon_def send_def fmlookup_dom_iff split: option.splits if_splits)
    (metis fmlookup_dom_iff option.distinct(1) option.inject)+

text \<open>The tokens that may still be answered.\<close>

definition waiting :: "'w correlator \<Rightarrow> 'w set" where
  "waiting c = {pd_reply p | i p. fmlookup (co_pending c) i = Some p}"

lemma waitingI: "fmlookup (co_pending c) i = Some p \<Longrightarrow> pd_reply p \<in> waiting c"
  by (auto simp: waiting_def)

lemma waitingE:
  assumes "w \<in> waiting c"
  obtains i p where "fmlookup (co_pending c) i = Some p" "pd_reply p = w"
  using assms by (auto simp: waiting_def)

definition own_tokens :: "'w correlator \<Rightarrow> bool" where
  "own_tokens c = (\<forall>i j p q. fmlookup (co_pending c) i = Some p \<longrightarrow> fmlookup (co_pending c) j = Some q \<longrightarrow>
     pd_reply p = pd_reply q \<longrightarrow> i = j)"

lemma abandon_tokens: "set (map fst (abandon alive m i)) \<subseteq> {w. \<exists>p. fmlookup m i = Some p \<and> pd_reply p = w}"
  by (cases "fmlookup m i") (auto simp: abandon_def send_def split: if_splits)

lemma abandon_short: "length (abandon alive m i) \<le> 1"
  by (simp add: abandon_def send_def split: option.splits)

lemma distinct_short: "length xs \<le> 1 \<Longrightarrow> distinct xs"
  by (cases xs rule: remdups_adj.cases) auto

lemma disconnect_once:
  assumes "own_tokens c"
  shows "distinct (map fst (fst (snd (disconnect alive c))))"
proof -
  have "distinct (concat (map (\<lambda>i. map fst (abandon alive (co_pending c) i)) is))" if "distinct is" for "is"
    using that
  proof (induction "is")
    case (Cons i "is")
    have "w \<notin> set (map fst (abandon alive (co_pending c) j))"
      if w: "w \<in> set (map fst (abandon alive (co_pending c) i))" and j: "j \<in> set is" for w j
    proof
      assume "w \<in> set (map fst (abandon alive (co_pending c) j))"
      then obtain p q where "fmlookup (co_pending c) i = Some p" "fmlookup (co_pending c) j = Some q"
          "pd_reply p = w" "pd_reply q = w"
        using w abandon_tokens [of alive "co_pending c"] by blast
      then have "i = j" using assms unfolding own_tokens_def by metis
      with j Cons.prems show False by simp
    qed
    then have "set (map fst (abandon alive (co_pending c) i))
        \<inter> set (concat (map (\<lambda>i. map fst (abandon alive (co_pending c) i)) is)) = {}"
      by fastforce
    moreover have "distinct (map fst (abandon alive (co_pending c) i))"
      using abandon_short by (intro distinct_short) simp
    ultimately show ?case using Cons by simp
  qed simp
  then show ?thesis
    by (simp add: disconnect_deliveries map_concat comp_def sorted_list_of_fset.rep_eq)
qed


lemma disconnect_tokens: "set (map fst (fst (snd (disconnect alive c)))) = {w \<in> waiting c. alive w}"
proof (rule set_eqI)
  fix w
  have "w \<in> set (map fst (fst (snd (disconnect alive c)))) \<longleftrightarrow>
      (\<exists>out. (w, out) \<in> set (fst (snd (disconnect alive c))))"
    by force
  also have "\<dots> \<longleftrightarrow> w \<in> {w \<in> waiting c. alive w}"
    unfolding disconnect_delivered by (auto simp: waiting_def)
  finally show "w \<in> set (map fst (fst (snd (disconnect alive c)))) \<longleftrightarrow> w \<in> {w \<in> waiting c. alive w}" .
qed

section \<open>Every caller is answered once\<close>

fun registered :: "'w co_op list \<Rightarrow> 'w list" where
  "registered [] = []"
| "registered (CoRegister w # xs) = w # registered xs"
| "registered (x # xs) = registered xs"

definition ledger :: "'w list \<Rightarrow> 'w deliveries \<Rightarrow> 'w correlator \<Rightarrow> bool" where
  "ledger reg ds c = (co_inv c \<and> unat (co_next_id c) = length reg
     \<and> (\<forall>i p. fmlookup (co_pending c) i = Some p \<longrightarrow> (\<exists>n. i = call_id (co_prefix c) n \<and> n < co_next_id c))
     \<and> own_tokens c \<and> distinct (map fst ds)
     \<and> set (map fst ds) \<inter> waiting c = {} \<and> set (map fst ds) \<union> waiting c \<subseteq> set reg)"

lemma ledger_shrink:
  assumes "ledger reg ds c" "co_inv c'" "co_next_id c' = co_next_id c" "co_prefix c' = co_prefix c"
    and sub: "\<And>i p. fmlookup (co_pending c') i = Some p \<Longrightarrow>
      \<exists>q. fmlookup (co_pending c) i = Some q \<and> pd_reply q = pd_reply p"
    and new: "distinct (map fst new)" "set (map fst new) \<subseteq> waiting c" "set (map fst new) \<inter> waiting c' = {}"
  shows "ledger reg (ds @ new) c'"
proof -
  have w: "waiting c' \<subseteq> waiting c" using sub by (metis subsetI waitingE waitingI)
  have "own_tokens c'"
    using assms(1) sub unfolding ledger_def own_tokens_def by metis
  moreover have "\<exists>n. i = call_id (co_prefix c') n \<and> n < co_next_id c'"
    if "fmlookup (co_pending c') i = Some p" for i p
    using assms(1,3,4) sub [OF that] by (auto simp: ledger_def)
  moreover have "distinct (map fst (ds @ new))"
    using assms(1) new(1,2) by (simp add: ledger_def) blast
  moreover have "set (map fst (ds @ new)) \<inter> waiting c' = {}" "set (map fst (ds @ new)) \<union> waiting c' \<subseteq> set reg"
    using assms(1) new w by (auto simp: ledger_def)
  ultimately show ?thesis
    using assms(1-3) unfolding ledger_def by simp
qed

lemma waiting_register:
  assumes "fmlookup (co_pending c) (call_id (co_prefix c) (co_next_id c)) = None"
  shows "waiting (snd (register w c)) = insert w (waiting c)"
proof -
  let ?i = "call_id (co_prefix c) (co_next_id c)" and ?c = "snd (register w c)"
  have "pd_reply p \<in> waiting ?c" if "fmlookup (co_pending c) i = Some p" for i p
  proof -
    have "fmlookup (co_pending ?c) i = Some p" using that assms by auto
    then show ?thesis by (rule waitingI)
  qed
  moreover have "w \<in> waiting ?c" using waitingI [of ?c ?i] by simp
  moreover have "v = w \<or> v \<in> waiting c" if "v \<in> waiting ?c" for v
    using that by (auto elim!: waitingE split: if_splits intro: waitingI)
  ultimately show ?thesis by (blast elim: waitingE)
qed

lemma ledger_register:
  assumes "ledger reg ds c" "w \<notin> set reg" "Suc (length reg) < 2 ^ 64"
  shows "ledger (reg @ [w]) ds (snd (register w c))"
proof -
  let ?i = "call_id (co_prefix c) (co_next_id c)"
  have fresh: "fmlookup (co_pending c) ?i = None"
    using assms(1) by (cases "fmlookup (co_pending c) ?i") (force simp: ledger_def)+
  have unew: "w \<notin> waiting c" using assms(1,2) by (auto simp: ledger_def)
  have "unat (co_next_id c + 1) = Suc (unat (co_next_id c))"
    using assms(1,3) by (simp add: ledger_def unat_word_ariths)
  moreover have "n < co_next_id c + 1" if "n < co_next_id c \<or> n = co_next_id c" for n
    using that calculation by (auto simp: word_less_nat_alt)
  moreover have "own_tokens (snd (register w c))"
    using assms(1) unew by (force simp: ledger_def own_tokens_def waiting_def)
  moreover have "co_inv (snd (register w c))"
    using assms(1) by (auto simp: ledger_def co_inv_def)
  ultimately show ?thesis
    using assms(1,2) by (auto simp: ledger_def waiting_register [OF fresh] image_iff split: if_splits) 
qed

lemma ledger_act:
  assumes "ledger reg ds c" "distinct (reg @ registered [x])" "length (reg @ registered [x]) < 2 ^ 64"
  shows "ledger (reg @ registered [x]) (ds @ fst (co_act alive x c)) (snd (co_act alive x c))"
proof -
  have inv: "co_inv (snd (co_act alive x c))"
    using assms(1) co.step_inv [of c alive x] by (simp add: ledger_def)
  have own: "own_tokens c" and cinv: "co_inv c" using assms(1) by (simp_all add: ledger_def)
  show ?thesis
  proof (cases x)
    case (CoRegister w)
    then show ?thesis using assms ledger_register [of reg ds c w] by simp
  next
    case (CoMarkSent i)
    have "ledger reg (ds @ []) (mark_sent i c)"
      by (rule ledger_shrink [OF assms(1)]) (use inv CoMarkSent in \<open>auto split: if_splits\<close>)
    then show ?thesis using CoMarkSent by simp
  next
    case (CoResolve i out)
    let ?c = "snd (snd (resolve alive i out c))" and ?ds = "fst (snd (resolve alive i out c))"
    have "set (map fst ?ds) \<inter> waiting ?c = {}"
      using own by (auto simp: resolve_deliveries [OF cinv] send_def waiting_def own_tokens_def
          split: option.splits if_splits) metis
    moreover have "set (map fst ?ds) \<subseteq> waiting c"
      by (cases "fmlookup (co_pending c) i") (auto simp: resolve_deliveries [OF cinv] send_def intro: waitingI)
    moreover have "distinct (map fst ?ds)"
      by (auto simp: resolve_deliveries [OF cinv] send_def split: option.splits)
    ultimately have "ledger reg (ds @ ?ds) ?c"
      by (intro ledger_shrink [OF assms(1)]) (use inv CoResolve in \<open>auto split: if_splits\<close>)
    then show ?thesis using CoResolve by simp
  next
    case (CoCancel i)
    have "ledger reg (ds @ []) (snd (cancel i c))"
      by (rule ledger_shrink [OF assms(1)]) (use inv CoCancel in \<open>auto split: if_splits\<close>)
    then show ?thesis using CoCancel by simp
  next
    case CoDisconnect
    have "ledger reg (ds @ fst (snd (disconnect alive c))) (snd (snd (disconnect alive c)))"
      by (rule ledger_shrink [OF assms(1)])
        (use inv CoDisconnect disconnect_once [OF own] disconnect_tokens [of alive c] in \<open>auto simp: waiting_def\<close>)
    then show ?thesis using CoDisconnect by simp
  qed
qed

lemma registered_Cons: "registered (x # xs) = registered [x] @ registered xs"
  by (cases x) simp_all

lemma ledger_run:
  assumes "ledger reg ds c" "distinct (reg @ registered xs)" "length (reg @ registered xs) < 2 ^ 64"
  shows "ledger (reg @ registered xs) (ds @ fst (co_run alive xs c)) (snd (co_run alive xs c))"
  using assms
proof (induction xs arbitrary: reg ds c)
  case (Cons x xs)
  have "ledger (reg @ registered [x]) (ds @ fst (co_act alive x c)) (snd (co_act alive x c))"
    using Cons.prems by (intro ledger_act) (auto simp: registered_Cons [of x xs])
  from Cons.IH [OF this] Cons.prems show ?case
    by (simp add: registered_Cons [of x xs] case_prod_unfold Let_def)
qed simp

lemma ledger_new: "ledger [] [] (correlator_new p)"
  by (simp add: ledger_def correlator_new_def co_inv_def own_tokens_def waiting_def)


text \<open>C25: Every caller is answered at most once and only callers are answered: over any sequence of registrations,
  acknowledgements, replies, cancellations and disconnects, with any receivers gone, the answered callers are
  pairwise distinct, all of them registered, and none of them still waits.\<close>

lemma answered_once:
  assumes "co_run alive xs (correlator_new p) = (ds, c)" "distinct (registered xs)" "length (registered xs) < 2 ^ 64"
  shows "distinct (map fst ds) \<and> set (map fst ds) \<subseteq> set (registered xs) \<and> set (map fst ds) \<inter> waiting c = {}"
  using ledger_run [OF ledger_new, of xs alive p] assms by (auto simp: ledger_def)

lemma answered_once_witness:
  "distinct (map fst (fst (co_run (\<lambda>w. True)
      [CoRegister (0::nat), CoRegister 1, CoMarkSent ''m0'', CoResolve ''m1'' (Inr JNull), CoDisconnect] (correlator_new ''m''))))"
  using answered_once [of "\<lambda>w. True"
      "[CoRegister (0::nat), CoRegister 1, CoMarkSent ''m0'', CoResolve ''m1'' (Inr JNull), CoDisconnect]" "''m''"]
  by (cases "co_run (\<lambda>w. True)
      [CoRegister (0::nat), CoRegister 1, CoMarkSent ''m0'', CoResolve ''m1'' (Inr JNull), CoDisconnect] (correlator_new ''m'')")
    simp

definition uncancelled :: "'w co_op list \<Rightarrow> bool" where
  "uncancelled xs = list_all (\<lambda>x. \<forall>i. x \<noteq> CoCancel i) xs"

lemma kept_act:
  assumes "co_inv c" "\<forall>i. x \<noteq> CoCancel i" "fmlookup (co_pending c) (call_id (co_prefix c) (co_next_id c)) = None"
  shows "waiting c \<union> set (registered [x]) \<subseteq> set (map fst (fst (co_act (\<lambda>w. True) x c))) \<union> waiting (snd (co_act (\<lambda>w. True) x c))"
proof (cases x)
  case (CoRegister w)
  then show ?thesis using waiting_register [OF assms(3), of w] by auto
next
  case (CoMarkSent i)
  have "pd_reply p \<in> waiting (mark_sent i c)" if "fmlookup (co_pending c) j = Some p" for j p
  proof -
    have "fmlookup (co_pending (mark_sent i c)) j = Some p \<or>
        fmlookup (co_pending (mark_sent i c)) j = Some (p\<lparr>pd_sent := True\<rparr>)" using that by auto
    then show ?thesis using waitingI by fastforce
  qed
  then show ?thesis using CoMarkSent by (auto elim!: waitingE)
next
  case (CoResolve i out)
  have "pd_reply p \<in> set (map fst (fst (snd (resolve (\<lambda>w. True) i out c)))) \<union> waiting (snd (snd (resolve (\<lambda>w. True) i out c)))"
    if "fmlookup (co_pending c) j = Some p" for j p
  proof (cases "j = i")
    case True
    with that show ?thesis by (simp add: resolve_deliveries [OF assms(1)] send_def)
  next
    case False
    with that have "fmlookup (co_pending (snd (snd (resolve (\<lambda>w. True) i out c)))) j = Some p" by simp
    then show ?thesis using waitingI by fast
  qed
  then show ?thesis using CoResolve by (auto elim!: waitingE)
next
  case CoDisconnect
  then show ?thesis using disconnect_tokens [of "\<lambda>w. True" c] by auto
qed (use assms in simp)

lemma kept_run:
  assumes "ledger reg ds c" "distinct (reg @ registered xs)" "length (reg @ registered xs) < 2 ^ 64" "uncancelled xs"
  shows "waiting c \<union> set (registered xs) \<subseteq> set (map fst (fst (co_run (\<lambda>w. True) xs c))) \<union> waiting (snd (co_run (\<lambda>w. True) xs c))"
  using assms
proof (induction xs arbitrary: reg ds c)
  case (Cons x xs)
  have fresh: "fmlookup (co_pending c) (call_id (co_prefix c) (co_next_id c)) = None"
    using Cons.prems(1) by (cases "fmlookup (co_pending c) (call_id (co_prefix c) (co_next_id c))") (force simp: ledger_def)+
  have "ledger (reg @ registered [x]) (ds @ fst (co_act (\<lambda>w. True) x c)) (snd (co_act (\<lambda>w. True) x c))"
    using Cons.prems by (intro ledger_act) (auto simp: registered_Cons [of x xs])
  from Cons.IH [OF this] Cons.prems
  have rest: "waiting (snd (co_act (\<lambda>w. True) x c)) \<union> set (registered xs)
      \<subseteq> set (map fst (fst (co_run (\<lambda>w. True) xs (snd (co_act (\<lambda>w. True) x c))))) \<union> waiting (snd (co_run (\<lambda>w. True) xs (snd (co_act (\<lambda>w. True) x c))))"
    by (simp add: registered_Cons [of x xs] uncancelled_def)
  have "waiting c \<union> set (registered [x]) \<subseteq> set (map fst (fst (co_act (\<lambda>w. True) x c))) \<union> waiting (snd (co_act (\<lambda>w. True) x c))"
    using Cons.prems fresh by (intro kept_act) (simp_all add: ledger_def uncancelled_def)
  with rest show ?case
    by (simp add: registered_Cons [of x xs] case_prod_unfold Let_def) blast
qed (simp add: registered.simps)

text \<open>C26: No caller is left hanging: when a run that cancels nothing ends with a disconnect, every caller that
  registered has been answered, exactly once.\<close>

lemma disconnect_answers_all:
  assumes "uncancelled xs" "distinct (registered xs)" "length (registered xs) < 2 ^ 64"
  shows "set (map fst (fst (co_run (\<lambda>w. True) (xs @ [CoDisconnect]) (correlator_new p)))) = set (registered xs)"
proof -
  let ?ys = "xs @ [CoDisconnect]"
  have reg: "registered ?ys = registered xs"
    by (induction xs rule: registered.induct) simp_all
  have "waiting (snd (co_run alive ?ys c)) = {}" for alive and c :: "'a correlator"
    by (simp add: co_run_fold waiting_def)
  then have "set (registered xs) \<subseteq> set (map fst (fst (co_run (\<lambda>w. True) ?ys (correlator_new p))))"
    using kept_run [OF ledger_new, of ?ys p] assms reg by (simp add: uncancelled_def)
  moreover have "set (map fst (fst (co_run (\<lambda>w. True) ?ys (correlator_new p)))) \<subseteq> set (registered xs)"
    using ledger_run [OF ledger_new, of ?ys "\<lambda>w. True" p] assms reg by (simp add: ledger_def)
  ultimately show ?thesis by blast
qed

lemma disconnect_answers_all_witness:
  "set (map fst (fst (co_run (\<lambda>w. True) ([CoRegister (0::nat), CoRegister 1, CoMarkSent ''m0''] @ [CoDisconnect]) (correlator_new ''m''))))
    = {0, 1}"
  by (subst disconnect_answers_all) (simp_all add: uncancelled_def)

text \<open>A disconnect tells sent from unsent: a live caller is told the call was never sent exactly when its
  entry was not marked sent, and otherwise that it may have run, under its own id; and the epoch that \<open>resolve\<close>
  checks can never differ, because the disconnect that advances it leaves no entry behind.\<close>

lemma disconnect_verdict:
  assumes "co_inv c"
  shows "((w, out) \<in> set (fst (snd (disconnect alive c))) \<longleftrightarrow>
      (\<exists>i p. fmlookup (co_pending c) i = Some p \<and> pd_reply p = w \<and> alive w
         \<and> out = Inl (if pd_sent p then Abandoned i else NotSent)))
    \<and> fst (resolve alive i r (snd (co_run alive xs c))) \<noteq> StaleEpoch"
  using resolve_not_stale [OF co_run_inv [OF assms]] by (auto simp: disconnect_delivered)

lemma disconnect_verdict_witness:
  "fst (resolve (\<lambda>w. True) ''m0'' (Inr JNull) (snd (co_run (\<lambda>w. True) [CoRegister (0::nat), CoDisconnect] (correlator_new ''m'')))) \<noteq> StaleEpoch"
  using disconnect_verdict [of "correlator_new ''m''" 0 "Inr JNull" "\<lambda>w. True" "''m0''" "Inr JNull" "[CoRegister (0::nat), CoDisconnect]"]
  by simp

end
