(* ===== verification/Ddp_Connection.thy ===== *)
theory Ddp_Connection
  imports Ddp_Backoff Ddp_Liveness Ddp_Session Ddp_Correlate
begin

text \<open>
  The connection runner, \<open>rocketsocket-realtime/src/connection.rs\<close>: one task that owns the
  socket, the two outgoing lanes, the two correlators, the session and the timers.

  What the runner awaits is an argument.  One poll of the runner gets a \<open>poll_env\<close>: the time,
  what the sink answers to each readiness check and send, what a flush, a read and a receive
  on the command channel answer if they are polled, and which callers still listen.  A whole
  connection is a list of polls, the life of the task a list of attempts.  One poll takes no
  time: every reading of the clock within it is \<open>pe_now\<close>.

  What the runner does to the outside is logged in its state: the events it broadcasts, the
  frames it hands to the current socket, the answers it sends to callers and the ids it tells
  them.  Parsing the text of a frame is \<open>serde_json\<close>'s, the parameter \<open>parse\<close>; an outgoing
  frame is kept as the JSON value whose text is sent.  Log output is left out.
\<close>

section \<open>Configuration\<close>

datatype credential = Resume str | Password str str

fun credential_params :: "credential \<Rightarrow> json list" where
  "credential_params (Resume token) = [JObject (obj_of [(''resume'', JString token)])]"
| "credential_params (Password user password) =
     [JObject (obj_of [(''user'', JObject (obj_of [(''username'', JString user)])),
        (''password'', JString password)])]"

record config =
  cf_url :: str
  cf_credential :: credential
  cf_connect_timeout :: duration
  cf_handshake_timeout :: duration
  cf_ping_after :: duration
  cf_dead_after :: duration
  cf_command_capacity :: nat
  cf_outbox_capacity :: nat
  cf_event_capacity :: nat
  cf_backoff_base :: duration
  cf_backoff_cap :: duration
  cf_stable_after :: duration

definition config_new :: "str \<Rightarrow> credential \<Rightarrow> config" where
  "config_new url credential =
     \<lparr>cf_url = url, cf_credential = credential, cf_connect_timeout = from_secs 15,
      cf_handshake_timeout = from_secs 20, cf_ping_after = DEFAULT_PING_AFTER,
      cf_dead_after = DEFAULT_DEAD_AFTER, cf_command_capacity = 64, cf_outbox_capacity = 256,
      cf_event_capacity = 1024, cf_backoff_base = DEFAULT_BASE, cf_backoff_cap = DEFAULT_CAP,
      cf_stable_after = from_secs 30\<rparr>"

section \<open>What the runner exchanges\<close>

datatype connection_state =
    CsDisconnected | CsConnecting | CsHandshaking | CsAuthenticating | CsReady | CsClosed | CsFatal

datatype event =
    EvConnecting u32
  | EvConnected str
  | EvReady u64
  | EvResubscribe u64
  | EvFrame server_message
  | EvDisconnected str
  | EvFatal fatal
  | EvLagged u64

text \<open>The receiving end of a reply: the login's own, or a caller's.\<close>

datatype caller = LoginCaller u64 | Caller nat

datatype command =
    CmdCall str "json list" nat
  | CmdSubscribe str "json list" nat
  | CmdUnsubscribe str
  | CmdShutdown

datatype mark = MarkMethod str | MarkSub str

record outbound =
  ob_frame :: json
  ob_mark :: "mark option"

datatype message =
    MText str
  | MClose "(str \<times> str) option"
  | MPing
  | MPong
  | MBinary nat
  | MRaw

datatype step =
    StFrame message
  | StEof
  | StFailed str
  | StCommand command
  | StHandlesDropped
  | StDeadline

datatype outcome = OutClosed str | OutShutdown | OutFatal fatal

datatype sink_answer = SinkPending | SinkError str | SinkReady "str option"

datatype flush_answer = FlushOk | FlushError str | FlushPending

datatype read_answer = ReadFrame message | ReadError str | ReadEof

record poll_env =
  pe_now :: instant
  pe_live :: "nat \<Rightarrow> bool"
  pe_acked :: "nat \<Rightarrow> bool"
  pe_sink :: "sink_answer list"
  pe_flush :: flush_answer
  pe_read :: "read_answer option"
  pe_command :: "command option option"

section \<open>State\<close>

record 'g runner =
  rn_config :: config
  rn_session :: session
  rn_methods :: "caller correlator"
  rn_subs :: "caller correlator"
  rn_liveness :: liveness_policy
  rn_backoff :: "'g backoff"
  rn_state :: connection_state
  rn_socket :: bool
  rn_priority :: "outbound list"
  rn_app :: "outbound list"
  rn_unflushed :: "mark list"
  rn_ready_at :: "instant option"
  rn_needs_flush :: bool
  rn_timer :: instant
  rn_handshake_deadline :: "instant option"
  rn_login_reply :: "u64 option"
  rn_fatal :: "fatal option"
  rn_shutdown :: bool
  rn_turn :: bool
  rn_events :: "event list"
  rn_wire :: "outbound list"
  rn_delivered :: "caller deliveries"
  rn_acks :: "(nat \<times> str) list"

definition runner_new :: "'g \<Rightarrow> instant \<Rightarrow> config \<Rightarrow> 'g runner option" where
  "runner_new g now cfg = map_option (\<lambda>lv.
     \<lparr>rn_config = cfg, rn_session = session_new DDP_VERSION,
      rn_methods = correlator_new ''m'', rn_subs = correlator_new ''s'',
      rn_liveness = lv, rn_backoff = with_limits g (cf_backoff_base cfg) (cf_backoff_cap cfg),
      rn_state = CsDisconnected, rn_socket = False, rn_priority = [], rn_app = [], rn_unflushed = [],
      rn_ready_at = None, rn_needs_flush = False, rn_timer = now, rn_handshake_deadline = None,
      rn_login_reply = None, rn_fatal = None, rn_shutdown = False, rn_turn = False,
      rn_events = [], rn_wire = [], rn_delivered = [], rn_acks = []\<rparr>)
     (with_thresholds (cf_ping_after cfg) (cf_dead_after cfg) now)"

definition spawn :: "'g \<Rightarrow> instant \<Rightarrow> config \<Rightarrow> 'g runner option" where
  "spawn g now cfg = runner_new g now (cfg\<lparr>cf_outbox_capacity := max 1 (cf_outbox_capacity cfg)\<rparr>)"

text \<open>A caller listens if its receiver is there; the login's is the one kept in the runner.\<close>

definition alive :: "(nat \<Rightarrow> bool) \<Rightarrow> 'g runner \<Rightarrow> caller \<Rightarrow> bool" where
  "alive live r w = (case w of LoginCaller n \<Rightarrow> rn_login_reply r = Some n | Caller n \<Rightarrow> live n)"

section \<open>The steps of the runner\<close>

definition set_state :: "connection_state \<Rightarrow> 'g runner \<Rightarrow> 'g runner" where
  "set_state st r = r\<lparr>rn_state := st\<rparr>"

definition emit :: "event \<Rightarrow> 'g runner \<Rightarrow> 'g runner" where
  "emit e r = r\<lparr>rn_events := rn_events r @ [e]\<rparr>"

definition deliver :: "caller deliveries \<Rightarrow> 'g runner \<Rightarrow> 'g runner" where
  "deliver ds r = r\<lparr>rn_delivered := rn_delivered r @ ds\<rparr>"

definition encode :: "client_message \<Rightarrow> json" where
  "encode x = client_to_json x"

definition push_priority :: "client_message \<Rightarrow> mark option \<Rightarrow> 'g runner \<Rightarrow> 'g runner" where
  "push_priority x m r = r\<lparr>rn_priority := rn_priority r @ [\<lparr>ob_frame = encode x, ob_mark = m\<rparr>]\<rparr>"

definition push_app :: "client_message \<Rightarrow> mark option \<Rightarrow> 'g runner \<Rightarrow> 'g runner" where
  "push_app x m r = r\<lparr>rn_app := rn_app r @ [\<lparr>ob_frame = encode x, ob_mark = m\<rparr>]\<rparr>"

fun state_of_phase :: "phase \<Rightarrow> connection_state" where
  "state_of_phase Disconnected = CsDisconnected"
| "state_of_phase Handshaking = CsHandshaking"
| "state_of_phase Authenticating = CsAuthenticating"
| "state_of_phase Ready = CsReady"
| "state_of_phase FatallyClosed = CsFatal"

definition sync_state :: "'g runner \<Rightarrow> 'g runner" where
  "sync_state r = set_state (state_of_phase (ss_phase (rn_session r))) r"

fun mark_one :: "mark \<Rightarrow> 'g runner \<Rightarrow> 'g runner" where
  "mark_one (MarkMethod i) r = r\<lparr>rn_methods := mark_sent i (rn_methods r)\<rparr>"
| "mark_one (MarkSub i) r = r\<lparr>rn_subs := mark_sent i (rn_subs r)\<rparr>"

definition mark_unflushed :: "'g runner \<Rightarrow> 'g runner" where
  "mark_unflushed r = (fold mark_one (rn_unflushed r) r)\<lparr>rn_unflushed := []\<rparr>"

definition runner_login :: "'g runner \<Rightarrow> 'g runner" where
  "runner_login r =
     (let n = co_next_id (rn_methods r);
          (i, ms) = register (LoginCaller n) (rn_methods r);
          r' = r\<lparr>rn_methods := ms, rn_session := expect_login i (rn_session r), rn_login_reply := Some n\<rparr>
      in push_priority (client_method i ''login'' (credential_params (cf_credential (rn_config r))))
           (Some (MarkMethod i)) r')"

fun apply_action :: "instant \<Rightarrow> action \<Rightarrow> 'g runner \<Rightarrow> 'g runner" where
  "apply_action now (ASend x) r = push_priority x None r"
| "apply_action now ALogin r = runner_login r"
| "apply_action now AResubscribe r =
     (let e = co_epoch (rn_methods r) in
      emit (EvResubscribe e) (emit (EvReady e)
        (sync_state (r\<lparr>rn_handshake_deadline := None, rn_ready_at := Some now\<rparr>))))"
| "apply_action now (AFatal f) r = r\<lparr>rn_fatal := Some f\<rparr>"
| "apply_action now (AProtocolViolation m) r = r"

definition resolve_method :: "(nat \<Rightarrow> bool) \<Rightarrow> str \<Rightarrow> (ddp_error + json) \<Rightarrow> 'g runner \<Rightarrow> 'g runner" where
  "resolve_method live i out r =
     (let (_, ds, ms) = resolve (alive live r) i out (rn_methods r) in deliver ds (r\<lparr>rn_methods := ms\<rparr>))"

definition resolve_sub :: "(nat \<Rightarrow> bool) \<Rightarrow> str \<Rightarrow> (ddp_error + json) \<Rightarrow> 'g runner \<Rightarrow> 'g runner" where
  "resolve_sub live i out r =
     (let (_, ds, ss) = resolve (alive live r) i out (rn_subs r) in deliver ds (r\<lparr>rn_subs := ss\<rparr>))"

fun correlate :: "(nat \<Rightarrow> bool) \<Rightarrow> server_message \<Rightarrow> 'g runner \<Rightarrow> 'g runner" where
  "correlate live (SResult i res err) r =
     resolve_method live i (case err of Some e \<Rightarrow> Inl e
       | None \<Rightarrow> Inr (case res of Some v \<Rightarrow> v | None \<Rightarrow> JNull)) r"
| "correlate live (SReady subs) r = fold (\<lambda>i. resolve_sub live i (Inr JNull)) subs r"
| "correlate live (SNosub i err) r =
     resolve_sub live i (case err of Some e \<Rightarrow> Inl e | None \<Rightarrow> Inr JNull) r"
| "correlate live _ r = r"

fun publish :: "server_message \<Rightarrow> 'g runner \<Rightarrow> 'g runner" where
  "publish (SConnected sid) r = emit (EvConnected sid) r"
| "publish (SAdded c i f) r = emit (EvFrame (SAdded c i f)) r"
| "publish (SChanged c i f d) r = emit (EvFrame (SChanged c i f d)) r"
| "publish (SRemoved c i) r = emit (EvFrame (SRemoved c i)) r"
| "publish (SAddedBefore c i f b) r = emit (EvFrame (SAddedBefore c i f b)) r"
| "publish (SMovedBefore c i b) r = emit (EvFrame (SMovedBefore c i b)) r"
| "publish (SError x v) r = emit (EvFrame (SError x v)) r"
| "publish _ r = r"

definition on_text :: "(str \<Rightarrow> json option) \<Rightarrow> instant \<Rightarrow> (nat \<Rightarrow> bool) \<Rightarrow> str \<Rightarrow> 'g runner \<Rightarrow> 'g runner" where
  "on_text parse now live text r = (case Option.bind (parse text) server_of_json of
       None \<Rightarrow> r
     | Some x \<Rightarrow>
         let (actions, s) = handle x (rn_session r) in
         publish x (correlate live x (fold (apply_action now) actions (r\<lparr>rn_session := s\<rparr>))))"

definition on_frame ::
  "(str \<Rightarrow> json option) \<Rightarrow> instant \<Rightarrow> (nat \<Rightarrow> bool) \<Rightarrow> message \<Rightarrow> 'g runner \<Rightarrow> outcome option \<times> 'g runner" where
  "on_frame parse now live frame r =
     (let r' = r\<lparr>rn_liveness := saw_traffic now (rn_liveness r)\<rparr> in
      case frame of
        MText text \<Rightarrow> (None, on_text parse now live text r')
      | MClose reason \<Rightarrow> (Some (OutClosed (case reason of
            None \<Rightarrow> ''the server sent a close frame''
          | Some (code, why) \<Rightarrow> ''the server closed with '' @ code @ '': '' @ why)), r')
      | MPing \<Rightarrow> (None, r')
      | MPong \<Rightarrow> (None, r')
      | MBinary n \<Rightarrow> (None, r')
      | MRaw \<Rightarrow> (None, r'))"

fun handle_command :: "(nat \<Rightarrow> bool) \<Rightarrow> command \<Rightarrow> 'g runner \<Rightarrow> 'g runner" where
  "handle_command acked (CmdCall m params w) r =
     (let (i, ms) = register (Caller w) (rn_methods r) in
      if \<not> acked w then r\<lparr>rn_methods := snd (cancel i ms)\<rparr>
      else push_app (client_method i m params) (Some (MarkMethod i))
             (r\<lparr>rn_methods := ms, rn_acks := rn_acks r @ [(w, i)]\<rparr>))"
| "handle_command acked (CmdSubscribe name params w) r =
     (let (i, ss) = register (Caller w) (rn_subs r) in
      if \<not> acked w then r\<lparr>rn_subs := snd (cancel i ss)\<rparr>
      else push_app (client_sub i name params) (Some (MarkSub i))
             (r\<lparr>rn_subs := ss, rn_acks := rn_acks r @ [(w, i)]\<rparr>))"
| "handle_command acked (CmdUnsubscribe i) r = push_app (CUnsub i) None r"
| "handle_command acked CmdShutdown r = r\<lparr>rn_shutdown := True\<rparr>"

section \<open>Deadlines\<close>

text \<open>
  A \<open>Duration\<close> as \<open>{:?}\<close> prints it: the largest unit that makes it at least one, the
  fraction without trailing zeros.
\<close>

fun pad_digits :: "nat \<Rightarrow> nat \<Rightarrow> str" where
  "pad_digits 0 n = []"
| "pad_digits (Suc w) n = pad_digits w (n div 10) @ [digit (n mod 10)]"

definition fmt_decimal :: "nat \<Rightarrow> nat \<Rightarrow> nat \<Rightarrow> str" where
  "fmt_decimal whole fraction width =
     (let ds = rev (dropWhile (\<lambda>c. c = CHR ''0'') (rev (pad_digits width fraction))) in
      nat_to_str whole @ (if ds = [] then [] else CHR ''.'' # ds))"

definition duration_debug :: "duration \<Rightarrow> str" where
  "duration_debug d =
     (if 1000000000 \<le> d then fmt_decimal (d div 1000000000) (d mod 1000000000) 9 @ ''s''
      else if 1000000 \<le> d then fmt_decimal (d div 1000000) (d mod 1000000) 6 @ ''ms''
      else if 1000 \<le> d then fmt_decimal (d div 1000) (d mod 1000) 3 @ [CHR 0xC2, CHR 0xB5, CHR ''s'']
      else nat_to_str d @ ''ns'')"

definition on_deadline :: "instant \<Rightarrow> 'g runner \<Rightarrow> outcome option \<times> 'g runner" where
  "on_deadline now r =
     (let r = (if ss_phase (rn_session r) = Ready then r\<lparr>rn_handshake_deadline := None\<rparr> else r) in
      if (case rn_handshake_deadline r of None \<Rightarrow> False | Some d \<Rightarrow> d \<le> now) then
        (Some (OutClosed (''the handshake did not complete within ''
           @ duration_debug (cf_handshake_timeout (rn_config r)))), r)
      else
        let (l, lv) = poll now (rn_liveness r); r = r\<lparr>rn_liveness := lv\<rparr> in
        case l of
          Healthy \<Rightarrow> (None, r)
        | SendPing \<Rightarrow> (None, push_priority (CPing None) None r)
        | Dead \<Rightarrow> (Some (OutClosed (''no traffic for '' @ duration_debug (cf_dead_after (rn_config r))
             @ ''; assuming the connection is dead'')), r))"

definition arm_timer :: "instant \<Rightarrow> 'g runner \<Rightarrow> 'g runner" where
  "arm_timer now r =
     (let liveness = next_deadline now (rn_liveness r) in
      r\<lparr>rn_timer := (case rn_handshake_deadline r of Some h \<Rightarrow> min liveness h | None \<Rightarrow> liveness)\<rparr>)"

section \<open>The end of a connection\<close>

definition settle :: "(nat \<Rightarrow> bool) \<Rightarrow> 'g runner \<Rightarrow> 'g runner" where
  "settle live r =
     (let r1 = mark_unflushed (r\<lparr>rn_priority := [], rn_app := []\<rparr>);
          r2 = r1\<lparr>rn_needs_flush := False, rn_login_reply := None, rn_handshake_deadline := None\<rparr>;
          (_, ds, ms) = disconnect (alive live r2) (rn_methods r2);
          (_, ds', ss) = disconnect (alive live r2) (rn_subs r2)
      in deliver (ds @ ds') (r2\<lparr>rn_methods := ms, rn_subs := ss\<rparr>))"

definition stable_reset :: "instant \<Rightarrow> 'g runner \<Rightarrow> 'g runner" where
  "stable_reset now r =
     (let r' = r\<lparr>rn_ready_at := None\<rparr> in
      case rn_ready_at r of
        None \<Rightarrow> r'
      | Some t \<Rightarrow>
          if cf_stable_after (rn_config r) \<le> now - t then r'\<lparr>rn_backoff := reset (rn_backoff r)\<rparr> else r')"

definition disconnected :: "str \<Rightarrow> instant \<Rightarrow> (nat \<Rightarrow> bool) \<Rightarrow> 'g runner \<Rightarrow> 'g runner" where
  "disconnected reason now live r =
     (let r1 = stable_reset now r;
          r2 = r1\<lparr>rn_session := session_disconnected (rn_session r1)\<rparr>
      in emit (EvDisconnected reason) (set_state CsDisconnected (settle live r2)))"

section \<open>One poll\<close>

definition pop_outbound :: "'g runner \<Rightarrow> outbound \<times> 'g runner" where
  "pop_outbound r = (case rn_priority r of
       x # xs \<Rightarrow> (x, r\<lparr>rn_priority := xs\<rparr>)
     | [] \<Rightarrow> (hd (rn_app r), r\<lparr>rn_app := tl (rn_app r)\<rparr>))"

definition handed :: "outbound \<Rightarrow> 'g runner \<Rightarrow> 'g runner" where
  "handed x r = r\<lparr>rn_wire := rn_wire r @ [x],
     rn_unflushed := rn_unflushed r @ (case ob_mark x of None \<Rightarrow> [] | Some m \<Rightarrow> [m]),
     rn_needs_flush := True\<rparr>"

fun write_loop :: "bool \<Rightarrow> sink_answer list \<Rightarrow> 'g runner \<Rightarrow> str option \<times> 'g runner" where
  "write_loop writable [] r = (None, r)"
| "write_loop writable (a # as) r =
     (if rn_priority r = [] \<and> \<not> (writable \<and> rn_app r \<noteq> []) then (None, r)
      else case a of
        SinkPending \<Rightarrow> (None, r)
      | SinkError e \<Rightarrow> (Some e, r)
      | SinkReady err \<Rightarrow>
          let (x, r') = pop_outbound r in
          (case err of Some e \<Rightarrow> (Some e, r') | None \<Rightarrow> write_loop writable as (handed x r')))"

definition flush_step :: "flush_answer \<Rightarrow> 'g runner \<Rightarrow> str option \<times> 'g runner" where
  "flush_step a r =
     (if rn_needs_flush r then
        (case a of
           FlushOk \<Rightarrow> (None, mark_unflushed (r\<lparr>rn_needs_flush := False\<rparr>))
         | FlushError e \<Rightarrow> (Some e, r)
         | FlushPending \<Rightarrow> (None, r))
      else (None, r))"

fun poll_read :: "read_answer option \<Rightarrow> step option" where
  "poll_read None = None"
| "poll_read (Some (ReadFrame x)) = Some (StFrame x)"
| "poll_read (Some (ReadError e)) = Some (StFailed e)"
| "poll_read (Some ReadEof) = Some StEof"

fun poll_commands :: "command option option \<Rightarrow> step option" where
  "poll_commands None = None"
| "poll_commands (Some (Some c)) = Some (StCommand c)"
| "poll_commands (Some None) = Some StHandlesDropped"

definition first_ready :: "step option list \<Rightarrow> step option" where
  "first_ready xs = (case filter (\<lambda>x. x \<noteq> None) xs of [] \<Rightarrow> None | x # _ \<Rightarrow> x)"

definition poll_inputs :: "poll_env \<Rightarrow> 'g runner \<Rightarrow> step option \<times> 'g runner" where
  "poll_inputs env r =
     (let accept = length (rn_app r) < cf_outbox_capacity (rn_config r);
          r' = r\<lparr>rn_turn := \<not> rn_turn r\<rparr>;
          rd = poll_read (pe_read env);
          cm = (if accept then poll_commands (pe_command env) else None);
          tm = (if rn_timer r \<le> pe_now env then Some StDeadline else None)
      in (first_ready (if rn_turn r' then [rd, cm, tm] else [cm, rd, tm]), r'))"

definition poll_step :: "poll_env \<Rightarrow> 'g runner \<Rightarrow> step option \<times> 'g runner" where
  "poll_step env r =
     (case write_loop (ss_phase (rn_session r) = Ready) (pe_sink env) r of
        (Some e, r1) \<Rightarrow> (Some (StFailed e), r1)
      | (None, r1) \<Rightarrow> (case flush_step (pe_flush env) r1 of
          (Some e, r2) \<Rightarrow> (Some (StFailed e), r2)
        | (None, r2) \<Rightarrow> poll_inputs env r2))"

section \<open>One connection\<close>

definition handle_step :: "(str \<Rightarrow> json option) \<Rightarrow> poll_env \<Rightarrow> step \<Rightarrow> 'g runner \<Rightarrow> outcome option \<times> 'g runner" where
  "handle_step parse env st r = (case st of
       StFrame x \<Rightarrow> on_frame parse (pe_now env) (pe_live env) x r
     | StEof \<Rightarrow> (Some (OutClosed ''the server closed the socket''), r)
     | StFailed e \<Rightarrow> (Some (OutClosed (''socket error: '' @ e)), r)
     | StCommand c \<Rightarrow> (None, handle_command (pe_acked env) c r)
     | StHandlesDropped \<Rightarrow> (Some OutShutdown, r)
     | StDeadline \<Rightarrow> on_deadline (pe_now env) r)"

definition drive_iter :: "(str \<Rightarrow> json option) \<Rightarrow> poll_env \<Rightarrow> 'g runner \<Rightarrow> outcome option \<times> 'g runner" where
  "drive_iter parse env r = (case poll_step env r of
       (None, r') \<Rightarrow> (None, r')
     | (Some st, r') \<Rightarrow>
         let (out, r1) = handle_step parse env st r'; r2 = sync_state r1 in
         (case rn_fatal r2 of
            Some f \<Rightarrow> (Some (OutFatal f), r2\<lparr>rn_fatal := None\<rparr>)
          | None \<Rightarrow>
              if rn_shutdown r2 then (Some OutShutdown, r2)
              else (case out of
                Some x \<Rightarrow> (Some x, r2)
              | None \<Rightarrow> (None, arm_timer (pe_now env) r2))))"

definition drive_start :: "instant \<Rightarrow> 'g runner \<Rightarrow> 'g runner option" where
  "drive_start now r = map_option (\<lambda>lv.
     let r1 = r\<lparr>rn_socket := True, rn_wire := [], rn_liveness := lv,
           rn_handshake_deadline := Some (now + cf_handshake_timeout (rn_config r))\<rparr>;
         (a, s) = session_connect (rn_session r1)
     in arm_timer now (sync_state (apply_action now a (r1\<lparr>rn_session := s\<rparr>))))
     (with_thresholds (cf_ping_after (rn_config r)) (cf_dead_after (rn_config r)) now)"

fun drive_loop :: "(str \<Rightarrow> json option) \<Rightarrow> poll_env list \<Rightarrow> 'g runner \<Rightarrow> outcome option \<times> 'g runner" where
  "drive_loop parse [] r = (None, r)"
| "drive_loop parse (env # envs) r = (case drive_iter parse env r of
       (Some x, r') \<Rightarrow> (Some x, r')
     | (None, r') \<Rightarrow> drive_loop parse envs r')"

section \<open>The life of the task\<close>

text \<open>
  While the runner waits between attempts the environment answers each receive on the command
  channel, \<^const>\<open>None\<close> when every handle is gone; the end of the list is the end of the wait.
\<close>

fun idle :: "(nat \<Rightarrow> bool) \<Rightarrow> command option list \<Rightarrow> 'g runner \<Rightarrow> 'g runner" where
  "idle acked [] r = r"
| "idle acked (c # cs) r =
     (if length (rn_app r) < cf_outbox_capacity (rn_config r) then
        (case c of
           Some cmd \<Rightarrow>
             let r' = handle_command acked cmd r in
             if rn_shutdown r' then r' else idle acked cs r'
         | None \<Rightarrow> r\<lparr>rn_shutdown := True\<rparr>)
      else r)"

datatype open_answer = OpenOk | OpenFailed str | OpenTimeout

record attempt =
  at_acked :: "nat \<Rightarrow> bool"
  at_idle :: "command option list"
  at_open :: open_answer
  at_opened :: instant
  at_polls :: "poll_env list"
  at_ended :: instant
  at_live :: "nat \<Rightarrow> bool"

fun open_reason :: "open_answer \<Rightarrow> str option" where
  "open_reason OpenOk = None"
| "open_reason (OpenFailed e) = Some (''websocket handshake failed: '' @ e)"
| "open_reason OpenTimeout = Some ''websocket handshake timed out''"

text \<open>What an attempt leaves the loop with: to go on, to stop, or still running.\<close>

datatype verdict = GoOn | Stop | Running

definition finish_outcome :: "instant \<Rightarrow> (nat \<Rightarrow> bool) \<Rightarrow> outcome \<Rightarrow> 'g runner \<Rightarrow> verdict \<times> 'g runner" where
  "finish_outcome now live out r = (case out of
       OutClosed reason \<Rightarrow> (GoOn, disconnected reason now live (r\<lparr>rn_socket := False\<rparr>))
     | OutShutdown \<Rightarrow>
         let r1 = settle live (r\<lparr>rn_socket := False\<rparr>) in
         (Stop, set_state CsClosed (r1\<lparr>rn_session := session_disconnected (rn_session r1)\<rparr>))
     | OutFatal f \<Rightarrow> (Stop, emit (EvFatal f) (set_state CsFatal (settle live (r\<lparr>rn_socket := False\<rparr>)))))"

definition begin_attempt :: "('g \<Rightarrow> nat \<Rightarrow> nat \<times> 'g) \<Rightarrow> attempt \<Rightarrow> 'g runner \<Rightarrow> 'g runner" where
  "begin_attempt draw a r =
     (let (delay, b) = next_delay draw (rn_backoff r); r1 = r\<lparr>rn_backoff := b\<rparr> in
      if delay \<noteq> 0 then idle (at_acked a) (at_idle a) (set_state CsDisconnected r1) else r1)"

definition run_attempt ::
  "('g \<Rightarrow> nat \<Rightarrow> nat \<times> 'g) \<Rightarrow> (str \<Rightarrow> json option) \<Rightarrow> attempt \<Rightarrow> 'g runner \<Rightarrow> (verdict \<times> 'g runner) option" where
  "run_attempt draw parse a r =
     (let r1 = begin_attempt draw a r in
      if rn_shutdown r1 then Some (Stop, r1)
      else
        let n = bo_attempt (rn_backoff r1);
            r2 = emit (EvConnecting (if n = 0 then 0 else n - 1)) (set_state CsConnecting r1)
        in (case open_reason (at_open a) of
              Some reason \<Rightarrow> Some (GoOn, disconnected reason (at_ended a) (at_live a) r2)
            | None \<Rightarrow> map_option (\<lambda>r3.
                case drive_loop parse (at_polls a) r3 of
                  (None, r4) \<Rightarrow> (Running, r4)
                | (Some out, r4) \<Rightarrow> finish_outcome (at_ended a) (at_live a) out r4)
                (drive_start (at_opened a) r2)))"

definition finish :: "(nat \<Rightarrow> bool) \<Rightarrow> 'g runner \<Rightarrow> 'g runner" where
  "finish live r = settle live (if rn_state r \<in> {CsFatal, CsClosed} then r else set_state CsClosed r)"

fun run :: "('g \<Rightarrow> nat \<Rightarrow> nat \<times> 'g) \<Rightarrow> (str \<Rightarrow> json option) \<Rightarrow> attempt list \<Rightarrow> 'g runner
    \<Rightarrow> (verdict \<times> 'g runner) option" where
  "run draw parse [] r = Some (Running, r)"
| "run draw parse (a # as) r =
     (if rn_shutdown r then Some (Stop, finish (at_live a) r)
      else (case run_attempt draw parse a r of
          None \<Rightarrow> None
        | Some (GoOn, r') \<Rightarrow> run draw parse as r'
        | Some (Running, r') \<Rightarrow> Some (Running, r')
        | Some (Stop, r') \<Rightarrow> Some (Stop, finish (at_live a) r')))"

section \<open>The caller's side\<close>

text \<open>
  What a handle makes of a command: whether the channel took it, what came back for the
  acknowledgement, and what came on the reply channel, \<^const>\<open>None\<close> for a dropped sender.
\<close>

definition pending_of :: "bool \<Rightarrow> str option \<Rightarrow> call_error + str" where
  "pending_of accepted ack = (if \<not> accepted then Inl NotSent
     else case ack of None \<Rightarrow> Inl NotSent | Some i \<Rightarrow> Inr i)"

definition await_reply :: "bool \<Rightarrow> str option \<Rightarrow> Ddp_Correlate.outcome option \<Rightarrow> call_error + json" where
  "await_reply accepted ack reply = (case pending_of accepted ack of
       Inl e \<Rightarrow> Inl e
     | Inr _ \<Rightarrow> (case reply of Some out \<Rightarrow> out | None \<Rightarrow> Inl NotSent))"

definition subscribe_reply :: "bool \<Rightarrow> str option \<Rightarrow> Ddp_Correlate.outcome option \<Rightarrow> call_error + str" where
  "subscribe_reply accepted ack reply = (case pending_of accepted ack of
       Inl e \<Rightarrow> Inl e
     | Inr i \<Rightarrow> (case reply of Some (Inr v) \<Rightarrow> Inr i | Some (Inl e) \<Rightarrow> Inl e | None \<Rightarrow> Inl NotSent))"

section \<open>Truncation\<close>

definition is_char_boundary :: "str \<Rightarrow> nat \<Rightarrow> bool" where
  "is_char_boundary s n = (n = 0 \<or> n = length s
     \<or> (n < length s \<and> \<not> (128 \<le> (of_char (s ! n) :: nat) \<and> of_char (s ! n) < (192 :: nat))))"

fun boundary_below :: "str \<Rightarrow> nat \<Rightarrow> nat" where
  "boundary_below s 0 = 0"
| "boundary_below s (Suc n) = (if is_char_boundary s (Suc n) then Suc n else boundary_below s n)"

definition truncate_text :: "str \<Rightarrow> str" where
  "truncate_text s =
     (if length s \<le> 256 then s
      else take (boundary_below s 256) s @ [CHR 0xE2, CHR 0x80, CHR 0xA6])"

end
