(* ===== verification/Ddp_Runner.thy ===== *)
theory Ddp_Runner
  imports Ddp_Connection
begin

text \<open>
  The theorems about the connection runner: the order of the two lanes, the bound of the
  application lane, that no application frame precedes the accepted login, that a caller is
  told its call was not sent exactly when its frame was never handed to the socket, that a
  terminal failure is the last event, and when the backoff starts over.
\<close>

section \<open>What each step leaves alone\<close>

lemmas push_defs = push_priority_def push_app_def emit_def deliver_def set_state_def sync_state_def

lemma deliver_frame [simp]:
  "rn_config (deliver ds r) = rn_config r"
  "rn_session (deliver ds r) = rn_session r"
  "rn_methods (deliver ds r) = rn_methods r"
  "rn_subs (deliver ds r) = rn_subs r"
  "rn_liveness (deliver ds r) = rn_liveness r"
  "rn_backoff (deliver ds r) = rn_backoff r"
  "rn_state (deliver ds r) = rn_state r"
  "rn_socket (deliver ds r) = rn_socket r"
  "rn_priority (deliver ds r) = rn_priority r"
  "rn_app (deliver ds r) = rn_app r"
  "rn_unflushed (deliver ds r) = rn_unflushed r"
  "rn_ready_at (deliver ds r) = rn_ready_at r"
  "rn_needs_flush (deliver ds r) = rn_needs_flush r"
  "rn_timer (deliver ds r) = rn_timer r"
  "rn_handshake_deadline (deliver ds r) = rn_handshake_deadline r"
  "rn_login_reply (deliver ds r) = rn_login_reply r"
  "rn_fatal (deliver ds r) = rn_fatal r"
  "rn_shutdown (deliver ds r) = rn_shutdown r"
  "rn_turn (deliver ds r) = rn_turn r"
  "rn_events (deliver ds r) = rn_events r"
  "rn_wire (deliver ds r) = rn_wire r"
  "rn_acks (deliver ds r) = rn_acks r"
  by (simp_all add: deliver_def)

lemma emit_frame [simp]:
  "rn_config (emit e r) = rn_config r"
  "rn_session (emit e r) = rn_session r"
  "rn_methods (emit e r) = rn_methods r"
  "rn_subs (emit e r) = rn_subs r"
  "rn_liveness (emit e r) = rn_liveness r"
  "rn_backoff (emit e r) = rn_backoff r"
  "rn_state (emit e r) = rn_state r"
  "rn_socket (emit e r) = rn_socket r"
  "rn_priority (emit e r) = rn_priority r"
  "rn_app (emit e r) = rn_app r"
  "rn_unflushed (emit e r) = rn_unflushed r"
  "rn_ready_at (emit e r) = rn_ready_at r"
  "rn_needs_flush (emit e r) = rn_needs_flush r"
  "rn_timer (emit e r) = rn_timer r"
  "rn_handshake_deadline (emit e r) = rn_handshake_deadline r"
  "rn_login_reply (emit e r) = rn_login_reply r"
  "rn_fatal (emit e r) = rn_fatal r"
  "rn_shutdown (emit e r) = rn_shutdown r"
  "rn_turn (emit e r) = rn_turn r"
  "rn_wire (emit e r) = rn_wire r"
  "rn_delivered (emit e r) = rn_delivered r"
  "rn_acks (emit e r) = rn_acks r"
  by (simp_all add: emit_def)

lemma set_state_frame [simp]:
  "rn_config (set_state st r) = rn_config r"
  "rn_session (set_state st r) = rn_session r"
  "rn_methods (set_state st r) = rn_methods r"
  "rn_subs (set_state st r) = rn_subs r"
  "rn_liveness (set_state st r) = rn_liveness r"
  "rn_backoff (set_state st r) = rn_backoff r"
  "rn_socket (set_state st r) = rn_socket r"
  "rn_priority (set_state st r) = rn_priority r"
  "rn_app (set_state st r) = rn_app r"
  "rn_unflushed (set_state st r) = rn_unflushed r"
  "rn_ready_at (set_state st r) = rn_ready_at r"
  "rn_needs_flush (set_state st r) = rn_needs_flush r"
  "rn_timer (set_state st r) = rn_timer r"
  "rn_handshake_deadline (set_state st r) = rn_handshake_deadline r"
  "rn_login_reply (set_state st r) = rn_login_reply r"
  "rn_fatal (set_state st r) = rn_fatal r"
  "rn_shutdown (set_state st r) = rn_shutdown r"
  "rn_turn (set_state st r) = rn_turn r"
  "rn_events (set_state st r) = rn_events r"
  "rn_wire (set_state st r) = rn_wire r"
  "rn_delivered (set_state st r) = rn_delivered r"
  "rn_acks (set_state st r) = rn_acks r"
  by (simp_all add: set_state_def)

lemma sync_state_frame [simp]:
  "rn_config (sync_state r) = rn_config r"
  "rn_session (sync_state r) = rn_session r"
  "rn_methods (sync_state r) = rn_methods r"
  "rn_subs (sync_state r) = rn_subs r"
  "rn_liveness (sync_state r) = rn_liveness r"
  "rn_backoff (sync_state r) = rn_backoff r"
  "rn_socket (sync_state r) = rn_socket r"
  "rn_priority (sync_state r) = rn_priority r"
  "rn_app (sync_state r) = rn_app r"
  "rn_unflushed (sync_state r) = rn_unflushed r"
  "rn_ready_at (sync_state r) = rn_ready_at r"
  "rn_needs_flush (sync_state r) = rn_needs_flush r"
  "rn_timer (sync_state r) = rn_timer r"
  "rn_handshake_deadline (sync_state r) = rn_handshake_deadline r"
  "rn_login_reply (sync_state r) = rn_login_reply r"
  "rn_fatal (sync_state r) = rn_fatal r"
  "rn_shutdown (sync_state r) = rn_shutdown r"
  "rn_turn (sync_state r) = rn_turn r"
  "rn_events (sync_state r) = rn_events r"
  "rn_wire (sync_state r) = rn_wire r"
  "rn_delivered (sync_state r) = rn_delivered r"
  "rn_acks (sync_state r) = rn_acks r"
  by (simp_all add: sync_state_def)

lemma push_priority_frame [simp]:
  "rn_config (push_priority x m r) = rn_config r"
  "rn_session (push_priority x m r) = rn_session r"
  "rn_methods (push_priority x m r) = rn_methods r"
  "rn_subs (push_priority x m r) = rn_subs r"
  "rn_liveness (push_priority x m r) = rn_liveness r"
  "rn_backoff (push_priority x m r) = rn_backoff r"
  "rn_state (push_priority x m r) = rn_state r"
  "rn_socket (push_priority x m r) = rn_socket r"
  "rn_app (push_priority x m r) = rn_app r"
  "rn_unflushed (push_priority x m r) = rn_unflushed r"
  "rn_ready_at (push_priority x m r) = rn_ready_at r"
  "rn_needs_flush (push_priority x m r) = rn_needs_flush r"
  "rn_timer (push_priority x m r) = rn_timer r"
  "rn_handshake_deadline (push_priority x m r) = rn_handshake_deadline r"
  "rn_login_reply (push_priority x m r) = rn_login_reply r"
  "rn_fatal (push_priority x m r) = rn_fatal r"
  "rn_shutdown (push_priority x m r) = rn_shutdown r"
  "rn_turn (push_priority x m r) = rn_turn r"
  "rn_events (push_priority x m r) = rn_events r"
  "rn_wire (push_priority x m r) = rn_wire r"
  "rn_delivered (push_priority x m r) = rn_delivered r"
  "rn_acks (push_priority x m r) = rn_acks r"
  by (simp_all add: push_priority_def)

lemma push_app_frame [simp]:
  "rn_config (push_app x m r) = rn_config r"
  "rn_session (push_app x m r) = rn_session r"
  "rn_methods (push_app x m r) = rn_methods r"
  "rn_subs (push_app x m r) = rn_subs r"
  "rn_liveness (push_app x m r) = rn_liveness r"
  "rn_backoff (push_app x m r) = rn_backoff r"
  "rn_state (push_app x m r) = rn_state r"
  "rn_socket (push_app x m r) = rn_socket r"
  "rn_priority (push_app x m r) = rn_priority r"
  "rn_unflushed (push_app x m r) = rn_unflushed r"
  "rn_ready_at (push_app x m r) = rn_ready_at r"
  "rn_needs_flush (push_app x m r) = rn_needs_flush r"
  "rn_timer (push_app x m r) = rn_timer r"
  "rn_handshake_deadline (push_app x m r) = rn_handshake_deadline r"
  "rn_login_reply (push_app x m r) = rn_login_reply r"
  "rn_fatal (push_app x m r) = rn_fatal r"
  "rn_shutdown (push_app x m r) = rn_shutdown r"
  "rn_turn (push_app x m r) = rn_turn r"
  "rn_events (push_app x m r) = rn_events r"
  "rn_wire (push_app x m r) = rn_wire r"
  "rn_delivered (push_app x m r) = rn_delivered r"
  "rn_acks (push_app x m r) = rn_acks r"
  by (simp_all add: push_app_def)

lemma resolve_method_frame [simp]:
  "rn_config (resolve_method live i out r) = rn_config r"
  "rn_session (resolve_method live i out r) = rn_session r"
  "rn_subs (resolve_method live i out r) = rn_subs r"
  "rn_liveness (resolve_method live i out r) = rn_liveness r"
  "rn_backoff (resolve_method live i out r) = rn_backoff r"
  "rn_state (resolve_method live i out r) = rn_state r"
  "rn_socket (resolve_method live i out r) = rn_socket r"
  "rn_priority (resolve_method live i out r) = rn_priority r"
  "rn_app (resolve_method live i out r) = rn_app r"
  "rn_unflushed (resolve_method live i out r) = rn_unflushed r"
  "rn_ready_at (resolve_method live i out r) = rn_ready_at r"
  "rn_needs_flush (resolve_method live i out r) = rn_needs_flush r"
  "rn_timer (resolve_method live i out r) = rn_timer r"
  "rn_handshake_deadline (resolve_method live i out r) = rn_handshake_deadline r"
  "rn_login_reply (resolve_method live i out r) = rn_login_reply r"
  "rn_fatal (resolve_method live i out r) = rn_fatal r"
  "rn_shutdown (resolve_method live i out r) = rn_shutdown r"
  "rn_turn (resolve_method live i out r) = rn_turn r"
  "rn_events (resolve_method live i out r) = rn_events r"
  "rn_wire (resolve_method live i out r) = rn_wire r"
  "rn_acks (resolve_method live i out r) = rn_acks r"
  by (simp_all add: resolve_method_def split: prod.split)

lemma resolve_sub_frame [simp]:
  "rn_config (resolve_sub live i out r) = rn_config r"
  "rn_session (resolve_sub live i out r) = rn_session r"
  "rn_methods (resolve_sub live i out r) = rn_methods r"
  "rn_liveness (resolve_sub live i out r) = rn_liveness r"
  "rn_backoff (resolve_sub live i out r) = rn_backoff r"
  "rn_state (resolve_sub live i out r) = rn_state r"
  "rn_socket (resolve_sub live i out r) = rn_socket r"
  "rn_priority (resolve_sub live i out r) = rn_priority r"
  "rn_app (resolve_sub live i out r) = rn_app r"
  "rn_unflushed (resolve_sub live i out r) = rn_unflushed r"
  "rn_ready_at (resolve_sub live i out r) = rn_ready_at r"
  "rn_needs_flush (resolve_sub live i out r) = rn_needs_flush r"
  "rn_timer (resolve_sub live i out r) = rn_timer r"
  "rn_handshake_deadline (resolve_sub live i out r) = rn_handshake_deadline r"
  "rn_login_reply (resolve_sub live i out r) = rn_login_reply r"
  "rn_fatal (resolve_sub live i out r) = rn_fatal r"
  "rn_shutdown (resolve_sub live i out r) = rn_shutdown r"
  "rn_turn (resolve_sub live i out r) = rn_turn r"
  "rn_events (resolve_sub live i out r) = rn_events r"
  "rn_wire (resolve_sub live i out r) = rn_wire r"
  "rn_acks (resolve_sub live i out r) = rn_acks r"
  by (simp_all add: resolve_sub_def split: prod.split)

lemma resolve_subs_frame [simp]:
  "rn_config (fold (\<lambda>i. resolve_sub live i out) is r) = rn_config r"
  "rn_session (fold (\<lambda>i. resolve_sub live i out) is r) = rn_session r"
  "rn_methods (fold (\<lambda>i. resolve_sub live i out) is r) = rn_methods r"
  "rn_liveness (fold (\<lambda>i. resolve_sub live i out) is r) = rn_liveness r"
  "rn_backoff (fold (\<lambda>i. resolve_sub live i out) is r) = rn_backoff r"
  "rn_state (fold (\<lambda>i. resolve_sub live i out) is r) = rn_state r"
  "rn_socket (fold (\<lambda>i. resolve_sub live i out) is r) = rn_socket r"
  "rn_priority (fold (\<lambda>i. resolve_sub live i out) is r) = rn_priority r"
  "rn_app (fold (\<lambda>i. resolve_sub live i out) is r) = rn_app r"
  "rn_unflushed (fold (\<lambda>i. resolve_sub live i out) is r) = rn_unflushed r"
  "rn_ready_at (fold (\<lambda>i. resolve_sub live i out) is r) = rn_ready_at r"
  "rn_needs_flush (fold (\<lambda>i. resolve_sub live i out) is r) = rn_needs_flush r"
  "rn_timer (fold (\<lambda>i. resolve_sub live i out) is r) = rn_timer r"
  "rn_handshake_deadline (fold (\<lambda>i. resolve_sub live i out) is r) = rn_handshake_deadline r"
  "rn_login_reply (fold (\<lambda>i. resolve_sub live i out) is r) = rn_login_reply r"
  "rn_fatal (fold (\<lambda>i. resolve_sub live i out) is r) = rn_fatal r"
  "rn_shutdown (fold (\<lambda>i. resolve_sub live i out) is r) = rn_shutdown r"
  "rn_turn (fold (\<lambda>i. resolve_sub live i out) is r) = rn_turn r"
  "rn_events (fold (\<lambda>i. resolve_sub live i out) is r) = rn_events r"
  "rn_wire (fold (\<lambda>i. resolve_sub live i out) is r) = rn_wire r"
  "rn_acks (fold (\<lambda>i. resolve_sub live i out) is r) = rn_acks r"
  by (induction "is" arbitrary: r) simp_all

lemma correlate_frame [simp]:
  "rn_config (correlate live x r) = rn_config r"
  "rn_session (correlate live x r) = rn_session r"
  "rn_liveness (correlate live x r) = rn_liveness r"
  "rn_backoff (correlate live x r) = rn_backoff r"
  "rn_state (correlate live x r) = rn_state r"
  "rn_socket (correlate live x r) = rn_socket r"
  "rn_priority (correlate live x r) = rn_priority r"
  "rn_app (correlate live x r) = rn_app r"
  "rn_unflushed (correlate live x r) = rn_unflushed r"
  "rn_ready_at (correlate live x r) = rn_ready_at r"
  "rn_needs_flush (correlate live x r) = rn_needs_flush r"
  "rn_timer (correlate live x r) = rn_timer r"
  "rn_handshake_deadline (correlate live x r) = rn_handshake_deadline r"
  "rn_login_reply (correlate live x r) = rn_login_reply r"
  "rn_fatal (correlate live x r) = rn_fatal r"
  "rn_shutdown (correlate live x r) = rn_shutdown r"
  "rn_turn (correlate live x r) = rn_turn r"
  "rn_events (correlate live x r) = rn_events r"
  "rn_wire (correlate live x r) = rn_wire r"
  "rn_acks (correlate live x r) = rn_acks r"
  by (cases x; simp)+

lemma publish_frame [simp]:
  "rn_config (publish x r) = rn_config r"
  "rn_session (publish x r) = rn_session r"
  "rn_methods (publish x r) = rn_methods r"
  "rn_subs (publish x r) = rn_subs r"
  "rn_liveness (publish x r) = rn_liveness r"
  "rn_backoff (publish x r) = rn_backoff r"
  "rn_state (publish x r) = rn_state r"
  "rn_socket (publish x r) = rn_socket r"
  "rn_priority (publish x r) = rn_priority r"
  "rn_app (publish x r) = rn_app r"
  "rn_unflushed (publish x r) = rn_unflushed r"
  "rn_ready_at (publish x r) = rn_ready_at r"
  "rn_needs_flush (publish x r) = rn_needs_flush r"
  "rn_timer (publish x r) = rn_timer r"
  "rn_handshake_deadline (publish x r) = rn_handshake_deadline r"
  "rn_login_reply (publish x r) = rn_login_reply r"
  "rn_fatal (publish x r) = rn_fatal r"
  "rn_shutdown (publish x r) = rn_shutdown r"
  "rn_turn (publish x r) = rn_turn r"
  "rn_wire (publish x r) = rn_wire r"
  "rn_delivered (publish x r) = rn_delivered r"
  "rn_acks (publish x r) = rn_acks r"
  by (cases x; simp)+

lemma arm_timer_frame [simp]:
  "rn_config (arm_timer now r) = rn_config r"
  "rn_session (arm_timer now r) = rn_session r"
  "rn_methods (arm_timer now r) = rn_methods r"
  "rn_subs (arm_timer now r) = rn_subs r"
  "rn_liveness (arm_timer now r) = rn_liveness r"
  "rn_backoff (arm_timer now r) = rn_backoff r"
  "rn_state (arm_timer now r) = rn_state r"
  "rn_socket (arm_timer now r) = rn_socket r"
  "rn_priority (arm_timer now r) = rn_priority r"
  "rn_app (arm_timer now r) = rn_app r"
  "rn_unflushed (arm_timer now r) = rn_unflushed r"
  "rn_ready_at (arm_timer now r) = rn_ready_at r"
  "rn_needs_flush (arm_timer now r) = rn_needs_flush r"
  "rn_handshake_deadline (arm_timer now r) = rn_handshake_deadline r"
  "rn_login_reply (arm_timer now r) = rn_login_reply r"
  "rn_fatal (arm_timer now r) = rn_fatal r"
  "rn_shutdown (arm_timer now r) = rn_shutdown r"
  "rn_turn (arm_timer now r) = rn_turn r"
  "rn_events (arm_timer now r) = rn_events r"
  "rn_wire (arm_timer now r) = rn_wire r"
  "rn_delivered (arm_timer now r) = rn_delivered r"
  "rn_acks (arm_timer now r) = rn_acks r"
  by (simp_all add: arm_timer_def Let_def)

lemma pushed [simp]:
  "rn_priority (push_priority x m r) = rn_priority r @ [\<lparr>ob_frame = encode x, ob_mark = m\<rparr>]"
  "rn_app (push_app x m r) = rn_app r @ [\<lparr>ob_frame = encode x, ob_mark = m\<rparr>]"
  "rn_events (emit e r) = rn_events r @ [e]" "rn_delivered (deliver ds r) = rn_delivered r @ ds"
  by (simp_all add: push_defs)

lemma mark_one_frame [simp]:
  "rn_config (mark_one m r) = rn_config r" "rn_session (mark_one m r) = rn_session r"
  "rn_backoff (mark_one m r) = rn_backoff r" "rn_state (mark_one m r) = rn_state r"
  "rn_priority (mark_one m r) = rn_priority r" "rn_app (mark_one m r) = rn_app r"
  "rn_unflushed (mark_one m r) = rn_unflushed r" "rn_ready_at (mark_one m r) = rn_ready_at r"
  "rn_login_reply (mark_one m r) = rn_login_reply r" "rn_events (mark_one m r) = rn_events r"
  "rn_wire (mark_one m r) = rn_wire r" "rn_delivered (mark_one m r) = rn_delivered r"
  "rn_shutdown (mark_one m r) = rn_shutdown r" "rn_fatal (mark_one m r) = rn_fatal r"
  "rn_needs_flush (mark_one m r) = rn_needs_flush r" "rn_liveness (mark_one m r) = rn_liveness r"
  "rn_handshake_deadline (mark_one m r) = rn_handshake_deadline r"
  by (cases m; simp)+

lemma mark_fold_frame [simp]:
  "rn_config (fold mark_one ms r) = rn_config r" "rn_session (fold mark_one ms r) = rn_session r"
  "rn_backoff (fold mark_one ms r) = rn_backoff r" "rn_state (fold mark_one ms r) = rn_state r"
  "rn_priority (fold mark_one ms r) = rn_priority r" "rn_app (fold mark_one ms r) = rn_app r"
  "rn_unflushed (fold mark_one ms r) = rn_unflushed r" "rn_ready_at (fold mark_one ms r) = rn_ready_at r"
  "rn_login_reply (fold mark_one ms r) = rn_login_reply r" "rn_events (fold mark_one ms r) = rn_events r"
  "rn_wire (fold mark_one ms r) = rn_wire r" "rn_delivered (fold mark_one ms r) = rn_delivered r"
  "rn_shutdown (fold mark_one ms r) = rn_shutdown r" "rn_fatal (fold mark_one ms r) = rn_fatal r"
  "rn_needs_flush (fold mark_one ms r) = rn_needs_flush r" "rn_liveness (fold mark_one ms r) = rn_liveness r"
  "rn_handshake_deadline (fold mark_one ms r) = rn_handshake_deadline r"
  by (induction ms arbitrary: r) simp_all

lemma mark_one_tables:
  "rn_methods (mark_one m r) = (case m of MarkMethod i \<Rightarrow> mark_sent i (rn_methods r) | MarkSub i \<Rightarrow> rn_methods r)"
  "rn_subs (mark_one m r) = (case m of MarkSub i \<Rightarrow> mark_sent i (rn_subs r) | MarkMethod i \<Rightarrow> rn_subs r)"
  by (cases m; simp)+

lemma mark_fold_meta [simp]:
  "co_next_id (rn_methods (fold mark_one ms r)) = co_next_id (rn_methods r)"
  "co_prefix (rn_methods (fold mark_one ms r)) = co_prefix (rn_methods r)"
  "co_epoch (rn_methods (fold mark_one ms r)) = co_epoch (rn_methods r)"
  "co_next_id (rn_subs (fold mark_one ms r)) = co_next_id (rn_subs r)"
  "co_prefix (rn_subs (fold mark_one ms r)) = co_prefix (rn_subs r)"
  "co_epoch (rn_subs (fold mark_one ms r)) = co_epoch (rn_subs r)"
  by (induction ms arbitrary: r) (simp_all add: mark_one_tables split: mark.splits)

definition sent_by :: "bool \<Rightarrow> caller pending \<Rightarrow> caller pending" where
  "sent_by b p = p\<lparr>pd_sent := pd_sent p \<or> b\<rparr>"

lemma sent_by_simps [simp]:
  "pd_reply (sent_by b p) = pd_reply p" "pd_epoch (sent_by b p) = pd_epoch p"
  "pd_sent (sent_by b p) = (pd_sent p \<or> b)" "sent_by False p = p"
  "sent_by b (p\<lparr>pd_sent := True\<rparr>) = p\<lparr>pd_sent := True\<rparr>" "sent_by True p = p\<lparr>pd_sent := True\<rparr>"
  by (simp_all add: sent_by_def)

lemma mark_fold_pending:
  "fmlookup (co_pending (rn_methods (fold mark_one ms r))) i =
     map_option (sent_by (MarkMethod i \<in> set ms)) (fmlookup (co_pending (rn_methods r)) i)"
  "fmlookup (co_pending (rn_subs (fold mark_one ms r))) i =
     map_option (sent_by (MarkSub i \<in> set ms)) (fmlookup (co_pending (rn_subs r)) i)"
proof (induction ms arbitrary: r)
  case Nil
  { case 1 show ?case by (simp add: option.map_ident_strong) }
  { case 2 show ?case by (simp add: option.map_ident_strong) }
next
  case (Cons m ms)
  { case 1 show ?case
      by (cases m) (auto simp: Cons option.map_comp comp_def split: option.splits) }
  { case 2 show ?case
      by (cases m) (auto simp: Cons option.map_comp comp_def split: option.splits) }
qed

section \<open>The two lanes\<close>

definition lane :: "bool \<Rightarrow> 'g runner \<Rightarrow> outbound list" where
  "lane w r = rn_priority r @ (if w then rn_app r else [])"

lemma pop_outbound_lane:
  assumes "lane w r \<noteq> []"
  shows "fst (pop_outbound r) = hd (lane w r)"
    "lane w (snd (pop_outbound r)) = tl (lane w r)"
    "\<not> w \<Longrightarrow> rn_app (snd (pop_outbound r)) = rn_app r"
    "rn_wire (snd (pop_outbound r)) = rn_wire r"
    "rn_session (snd (pop_outbound r)) = rn_session r"
  using assms by (auto simp: pop_outbound_def lane_def split: list.splits if_splits)

lemma lane_handed [simp]: "lane w (handed x r) = lane w r"
  by (simp add: lane_def handed_def)

lemma handed_simps [simp]:
  "rn_wire (handed x r) = rn_wire r @ [x]" "rn_app (handed x r) = rn_app r"
  "rn_session (handed x r) = rn_session r"
  by (simp_all add: handed_def)

lemma lane_empty: "lane w r = [] \<longleftrightarrow> rn_priority r = [] \<and> \<not> (w \<and> rn_app r \<noteq> [])"
  by (auto simp: lane_def)

lemma write_loop_lane:
  assumes "write_loop w as r = (e, r')"
  shows "\<exists>k. rn_wire r' = rn_wire r @ take k (lane w r)
    \<and> (lane w r' = drop k (lane w r) \<or> e \<noteq> None \<and> lane w r' = drop (Suc k) (lane w r))
    \<and> (\<not> w \<longrightarrow> rn_app r' = rn_app r)"
  using assms
proof (induction as arbitrary: r)
  case Nil
  then show ?case by (auto intro!: exI [of _ 0])
next
  case (Cons a as)
  show ?case
  proof (cases "lane w r = []")
    case True
    then show ?thesis using Cons.prems by (auto simp: lane_empty intro!: exI [of _ 0])
  next
    case ne: False
    note step = pop_outbound_lane [OF ne]
    show ?thesis
    proof (cases a)
      case (SinkReady err)
      obtain x r1 where pop: "pop_outbound r = (x, r1)" by force
      have hd: "x = hd (lane w r)" "lane w r1 = tl (lane w r)" "rn_wire r1 = rn_wire r" "\<not> w \<Longrightarrow> rn_app r1 = rn_app r"
        using step by (simp_all add: pop)
      show ?thesis
      proof (cases err)
        case (Some z)
        then have "e = Some z" "r' = r1"
          using Cons.prems ne by (auto simp: SinkReady pop lane_empty split: if_splits)
        then show ?thesis using hd by (auto intro!: exI [of _ 0] simp: drop_Suc)
      next
        case None
        then have "write_loop w as (handed x r1) = (e, r')"
          using Cons.prems ne by (auto simp: SinkReady pop lane_empty split: if_splits)
        from Cons.IH [OF this] obtain k where
          "rn_wire r' = rn_wire r1 @ [x] @ take k (lane w r1)"
          "lane w r' = drop k (lane w r1) \<or> e \<noteq> None \<and> lane w r' = drop (Suc k) (lane w r1)"
          "\<not> w \<longrightarrow> rn_app r' = rn_app r1" by auto
        then show ?thesis using ne hd by (cases "lane w r") (auto intro!: exI [of _ "Suc k"])
      qed
    qed (use Cons.prems ne in \<open>auto simp: lane_empty intro!: exI [of _ 0] split: if_splits\<close>)
  qed
qed

lemma write_loop_drains:
  assumes "length (lane w r) \<le> n"
  shows "fst (write_loop w (replicate n (SinkReady None)) r) = None
    \<and> rn_wire (snd (write_loop w (replicate n (SinkReady None)) r)) = rn_wire r @ lane w r
    \<and> lane w (snd (write_loop w (replicate n (SinkReady None)) r)) = []"
  using assms
proof (induction n arbitrary: r)
  case (Suc n)
  show ?case
  proof (cases "lane w r = []")
    case True
    then show ?thesis by (simp add: lane_empty)
  next
    case False
    obtain x r1 where pop: "pop_outbound r = (x, r1)" by force
    note step = pop_outbound_lane [OF False, unfolded pop fst_conv snd_conv]
    have "length (lane w (handed x r1)) \<le> n" using Suc.prems step by simp
    from Suc.IH [OF this] have IH: "fst (write_loop w (replicate n (SinkReady None)) (handed x r1)) = None"
      "rn_wire (snd (write_loop w (replicate n (SinkReady None)) (handed x r1))) = rn_wire r1 @ x # lane w r1"
      "lane w (snd (write_loop w (replicate n (SinkReady None)) (handed x r1))) = []" by simp_all
    have "write_loop w (replicate (Suc n) (SinkReady None)) r = write_loop w (replicate n (SinkReady None)) (handed x r1)"
      using False by (auto simp: pop lane_empty)
    then show ?thesis using IH step False by simp
  qed
qed simp

text \<open>The socket gets the protocol lane before the application lane and each lane in order, and the application
  lane only while writing it is allowed: what a write pass hands over is a prefix of the two lanes in that order,
  what it leaves is the rest (less at most one frame that the socket refused), and a sink that stays ready is
  handed all of it.\<close>

lemma lanes_in_order:
  "(\<exists>k. rn_wire (snd (write_loop w as r)) = rn_wire r @ take k (lane w r)
      \<and> (lane w (snd (write_loop w as r)) = drop k (lane w r)
         \<or> fst (write_loop w as r) \<noteq> None \<and> lane w (snd (write_loop w as r)) = drop (Suc k) (lane w r))
      \<and> (w \<or> rn_app (snd (write_loop w as r)) = rn_app r))
    \<and> rn_wire (snd (write_loop w (replicate (length (lane w r)) (SinkReady None)) r)) = rn_wire r @ lane w r"
  using write_loop_lane [of w as r] write_loop_drains [of w r "length (lane w r)"]
  by (metis order_refl prod.collapse)

section \<open>Pings\<close>

text \<open>A ping of the server is answered in every phase: its text puts the pong with the same id at the end of the
  protocol lane and changes nothing else.\<close>

lemma ping_is_answered:
  assumes "parse text = Some v" "server_of_json v = Some (SPing i)"
  shows "on_text parse now live text r = push_priority (CPong i) None r"
  using assms by (simp add: on_text_def ping_answered)

lemma ping_is_answered_witness:
  "on_text (\<lambda>t. Some (JObject [(''id'', JString t), (''msg'', JString ''ping'')])) 5 (\<lambda>w. True) ''7''
       (the (spawn () 0 (config_new ''wss://chat'' (Resume ''t''))))
     = push_priority (CPong (Some ''7'')) None (the (spawn () 0 (config_new ''wss://chat'' (Resume ''t''))))"
proof -
  have "server_of_json (JObject [(''id'', JString ''7''), (''msg'', JString ''ping'')]) = Some (SPing (Some ''7''))"
    by (simp add: server_of_json_def decode_typed_def decode_variant_def decode_lifecycle_def req_field_def
        opt_field_def obj_get_def)
  then show ?thesis by (intro ping_is_answered) simp_all
qed

section \<open>The life of the task\<close>

text \<open>
  An invariant of the runner: \<open>P k r\<close> holds while a connection is driven and \<open>Q k r\<close> between
  two connections, where at most \<open>k\<close> more polls and commands come.
\<close>

definition attempt_cost :: "attempt \<Rightarrow> nat" where
  "attempt_cost a = length (at_idle a) + length (at_polls a)"

definition cost :: "attempt list \<Rightarrow> nat" where
  "cost as = sum_list (map attempt_cost as)"

text \<open>The runner as an attempt announces itself, and how an attempt ends.\<close>

definition announced :: "('g \<Rightarrow> nat \<Rightarrow> nat \<times> 'g) \<Rightarrow> attempt \<Rightarrow> 'g runner \<Rightarrow> 'g runner" where
  "announced draw a r =
     (let r1 = begin_attempt draw a r; n = bo_attempt (rn_backoff r1)
      in emit (EvConnecting (if n = 0 then 0 else n - 1)) (set_state CsConnecting r1))"

lemma run_attempt_cases:
  assumes "run_attempt draw parse a r = Some (v, r')"
  obtains (shutdown) "v = Stop" "r' = begin_attempt draw a r" "rn_shutdown r'"
  | (unopened) reason where "v = GoOn" "r' = disconnected reason (at_ended a) (at_live a) (announced draw a r)"
  | (running) r3 where "v = Running" "drive_start (at_opened a) (announced draw a r) = Some r3"
      "drive_loop parse (at_polls a) r3 = (None, r')"
  | (finished) r3 out r4 where "drive_start (at_opened a) (announced draw a r) = Some r3"
      "drive_loop parse (at_polls a) r3 = (Some out, r4)" "finish_outcome (at_ended a) (at_live a) out r4 = (v, r')"
proof (cases "rn_shutdown (begin_attempt draw a r)")
  case True
  then show thesis using assms shutdown by (simp add: run_attempt_def)
next
  case up: False
  show thesis
  proof (cases "open_reason (at_open a)")
    case (Some reason)
    then show thesis using assms up unopened by (auto simp: run_attempt_def announced_def Let_def)
  next
    case None
    then obtain r3 where r3: "drive_start (at_opened a) (announced draw a r) = Some r3"
      and res: "(v, r') = (case drive_loop parse (at_polls a) r3 of (None, r4) \<Rightarrow> (Running, r4)
          | (Some out, r4) \<Rightarrow> finish_outcome (at_ended a) (at_live a) out r4)"
      using assms up by (auto simp: run_attempt_def announced_def Let_def)
    obtain out r4 where dl: "drive_loop parse (at_polls a) r3 = (out, r4)" by force
    show thesis
    proof (cases out)
      case None
      then show thesis using running [of r3] r3 res dl by simp
    next
      case (Some x)
      then have "finish_outcome (at_ended a) (at_live a) x r4 = (v, r')" using res dl by simp
      then show thesis using finished [of r3 x r4] r3 dl Some by simp
    qed
  qed
qed

lemma finish_outcome_goes:
  assumes "finish_outcome now live out r = (v, r')"
  shows "v \<noteq> Running" "v = GoOn \<Longrightarrow> \<exists>reason. r' = disconnected reason now live (r\<lparr>rn_socket := False\<rparr>)"
  using assms by (auto simp: finish_outcome_def Let_def split: outcome.splits)

locale runner_life =
  fixes P Q :: "nat \<Rightarrow> 'g runner \<Rightarrow> bool"
  assumes lower: "P (Suc k) r \<Longrightarrow> P k r" "Q (Suc k) r \<Longrightarrow> Q k r"
    and between: "Q k r \<Longrightarrow> P k r"
    and iter: "P (Suc k) r \<Longrightarrow> P k (snd (drive_iter parse env r))"
    and command: "Q (Suc k) r \<Longrightarrow> length (rn_app r) < cf_outbox_capacity (rn_config r) \<Longrightarrow> Q k (handle_command acked c r)"
    and quiet: "st = CsDisconnected \<or> st = CsConnecting \<Longrightarrow> Q k r \<Longrightarrow> Q k (set_state st r)" "Q k r \<Longrightarrow> Q k (r\<lparr>rn_backoff := b\<rparr>)"
      "Q k r \<Longrightarrow> Q k (r\<lparr>rn_shutdown := True\<rparr>)" "Q k r \<Longrightarrow> Q k (emit (EvConnecting n) r)"
    and start: "Q k r \<Longrightarrow> drive_start now r = Some r' \<Longrightarrow> P k r'"
    and ended: "P k r \<Longrightarrow> \<not> rn_socket r \<Longrightarrow> Q k (disconnected reason now live r)"
      "P k r \<Longrightarrow> P k (r\<lparr>rn_socket := False\<rparr>)"
    and closed: "Q k r \<Longrightarrow> \<not> rn_socket r"
begin

lemma lower_by: "P (n + k) r \<Longrightarrow> P k r" "Q (n + k) r \<Longrightarrow> Q k r"
  by (induction n) (simp_all add: lower)

lemma idle_life: "Q (length cs + k) r \<Longrightarrow> Q k (idle acked cs r)"
proof (induction cs arbitrary: r)
  case (Cons c cs)
  show ?case
  proof (cases "length (rn_app r) < cf_outbox_capacity (rn_config r)")
    case True
    show ?thesis
    proof (cases c)
      case None
      then show ?thesis using True Cons.prems quiet(3) [OF lower_by(2) [of "Suc (length cs)" k r]] by simp
    next
      case (Some cmd)
      have "Q (length cs + k) (handle_command acked cmd r)"
        using Cons.prems True by (intro command) simp_all
      then show ?thesis using Some True Cons.IH by (auto simp: Let_def intro: lower_by(2))
    qed
  next
    case False
    then show ?thesis using Cons.prems lower_by(2) [of "Suc (length cs)" k r] by simp
  qed
qed simp

lemma drive_life: "P (length envs + k) r \<Longrightarrow> P k (snd (drive_loop parse envs r))"
proof (induction envs arbitrary: r)
  case (Cons env envs)
  have "P (length envs + k) (snd (drive_iter parse env r))"
    using Cons.prems by (intro iter) simp
  then show ?case
    using Cons.IH by (cases "drive_iter parse env r") (auto intro: lower_by(1) split: option.split)
qed simp

lemma begin_life:
  assumes "Q (attempt_cost a + k) r"
  shows "Q (length (at_polls a) + k) (begin_attempt draw a r)"
proof -
  let ?n = "length (at_polls a)"
  obtain d b where nd: "next_delay draw (rn_backoff r) = (d, b)" by force
  have q: "Q (length (at_idle a) + (?n + k)) (r\<lparr>rn_backoff := b\<rparr>)"
    using assms by (intro quiet) (simp add: attempt_cost_def ac_simps)
  show ?thesis
  proof (cases "d = 0")
    case True
    then show ?thesis using lower_by(2) [OF q] by (simp add: begin_attempt_def nd)
  next
    case False
    then show ?thesis using idle_life [OF quiet(1) [OF _ q]] by (simp add: begin_attempt_def nd)
  qed
qed

lemma announced_life: "Q (attempt_cost a + k) r \<Longrightarrow> Q (length (at_polls a) + k) (announced draw a r)"
  unfolding announced_def Let_def by (intro quiet) (auto intro: begin_life)

lemma attempt_life:
  assumes "Q (attempt_cost a + k) r" "run_attempt draw parse a r = Some (v, r')"
  shows "(v = GoOn \<longrightarrow> Q k r') \<and> (v = Running \<longrightarrow> P k r')
    \<and> (v = Stop \<longrightarrow> Q k r' \<and> rn_shutdown r'
         \<or> (\<exists>out r3. P k r3 \<and> finish_outcome (at_ended a) (at_live a) out r3 = (Stop, r')))"
  using assms(2)
proof (cases rule: run_attempt_cases)
  case shutdown
  then show ?thesis using lower_by(2) [OF begin_life [OF assms(1), of draw]] by simp
next
  case (unopened reason)
  have "Q k (announced draw a r)" by (rule lower_by(2) [OF announced_life [OF assms(1)]])
  then show ?thesis using unopened ended(1) [OF between closed] by simp
next
  case (running r3)
  then show ?thesis using drive_life [OF start [OF announced_life [OF assms(1)] running(2)], of parse] by simp
next
  case (finished r3 out r4)
  have p4: "P k r4"
    using drive_life [OF start [OF announced_life [OF assms(1)] finished(1)], of parse] finished(2) by simp
  have "v = GoOn \<Longrightarrow> Q k r'" using finish_outcome_goes(2) [OF finished(3)] ended(1) [OF ended(2) [OF p4]] by auto
  then show ?thesis using finish_outcome_goes(1) [OF finished(3)] finished(3) p4 by (cases v) auto
qed

lemma run_life:
  assumes "Q (cost as) r" "run draw parse as r = Some (Running, r')"
  shows "P 0 r'"
  using assms
proof (induction as arbitrary: r)
  case Nil
  then show ?case using between by (simp add: cost_def)
next
  case (Cons a as)
  have q: "Q (attempt_cost a + cost as) r" using Cons.prems(1) by (simp add: cost_def)
  have up: "\<not> rn_shutdown r" using Cons.prems(2) by (auto split: if_splits)
  obtain v r1 where ra: "run_attempt draw parse a r = Some (v, r1)"
    using Cons.prems(2) up by (cases "run_attempt draw parse a r") (auto split: if_splits)
  have life: "(v = GoOn \<longrightarrow> Q (cost as) r1) \<and> (v = Running \<longrightarrow> P (cost as) r1)"
    using attempt_life [OF q ra] by blast
  show ?case
  proof (cases v)
    case GoOn
    then show ?thesis using Cons.IH [of r1] Cons.prems(2) life up ra by simp
  next
    case Stop
    then show ?thesis using Cons.prems(2) up ra by simp
  next
    case Running
    then show ?thesis using Cons.prems(2) up ra life lower_by(1) [of "cost as" 0 r1] by simp
  qed
qed

lemma run_not_going: "run draw parse as r \<noteq> Some (GoOn, r')"
  by (induction as arbitrary: r) (auto split: option.splits verdict.splits if_splits)

lemma stop_life:
  assumes "Q (cost as) r" "run draw parse as r = Some (Stop, r')"
  shows "\<exists>live r''. r' = finish live r'' \<and> (Q 0 r'' \<and> rn_shutdown r''
    \<or> (\<exists>now live' out r3. P 0 r3 \<and> finish_outcome now live' out r3 = (Stop, r'')))"
  using assms
proof (induction as arbitrary: r)
  case (Cons a as)
  have q: "Q (attempt_cost a + cost as) r" using Cons.prems(1) by (simp add: cost_def)
  show ?case
  proof (cases "rn_shutdown r")
    case True
    then show ?thesis using Cons.prems(2) lower_by(2) [of "cost (a # as)" 0 r] Cons.prems(1) by auto
  next
    case up: False
    obtain v r1 where ra: "run_attempt draw parse a r = Some (v, r1)"
      using Cons.prems(2) up by (cases "run_attempt draw parse a r") (auto split: if_splits)
    note life = attempt_life [OF q ra]
    show ?thesis
    proof (cases v)
      case GoOn
      then show ?thesis using Cons.IH [of r1] Cons.prems(2) life up ra by simp
    next
      case Stop
      then have "r' = finish (at_live a) r1" using Cons.prems(2) up ra by simp
      moreover have "Q (cost as) r1 \<and> rn_shutdown r1
         \<or> (\<exists>out r3. P (cost as) r3 \<and> finish_outcome (at_ended a) (at_live a) out r3 = (Stop, r1))"
        using life Stop by blast
      ultimately show ?thesis using lower_by [of "cost as" 0] by (metis add_0_right)
    next
      case Running
      then show ?thesis using Cons.prems(2) up ra by simp
    qed
  qed
qed simp

end

section \<open>The bound of the application lane\<close>

lemma pop_outbound_frame [simp]:
  "rn_config (snd (pop_outbound r)) = rn_config r" "rn_session (snd (pop_outbound r)) = rn_session r"
  "rn_events (snd (pop_outbound r)) = rn_events r" "rn_ready_at (snd (pop_outbound r)) = rn_ready_at r"
  "rn_methods (snd (pop_outbound r)) = rn_methods r" "rn_subs (snd (pop_outbound r)) = rn_subs r"
  "rn_unflushed (snd (pop_outbound r)) = rn_unflushed r" "rn_wire (snd (pop_outbound r)) = rn_wire r"
  "rn_backoff (snd (pop_outbound r)) = rn_backoff r"
  by (simp_all add: pop_outbound_def split: list.split)

text \<open>An invariant that popping and handing over a frame keep is kept by the write pass.\<close>

lemma write_loop_induct:
  assumes "\<And>r x r'. I r \<Longrightarrow> lane w r \<noteq> [] \<Longrightarrow> pop_outbound r = (x, r') \<Longrightarrow> I r' \<and> I (handed x r')" "I r"
  shows "I (snd (write_loop w as r))"
  using assms(2)
proof (induction as arbitrary: r)
  case (Cons a as)
  show ?case
  proof (cases "lane w r = []")
    case True
    then show ?thesis using Cons.prems by (simp add: lane_empty)
  next
    case False
    obtain x r' where pop: "pop_outbound r = (x, r')" by force
    with assms(1) [OF Cons.prems False] Cons.IH [of "handed x r'"] Cons.prems show ?thesis
      by (auto simp: Let_def split: sink_answer.split option.split)
  qed
qed simp

lemma flush_step_cases:
  obtains "flush_step a r = (None, r)" | e where "flush_step a r = (Some e, r)"
  | "flush_step a r = (None, mark_unflushed (r\<lparr>rn_needs_flush := False\<rparr>))"
  by (cases a; cases "rn_needs_flush r") (auto simp: flush_step_def)

lemma poll_step_induct:
  assumes wr: "\<And>r x r'. I r \<Longrightarrow> lane (ss_phase (rn_session r) = Ready) r \<noteq> [] \<Longrightarrow> pop_outbound r = (x, r') \<Longrightarrow>
      I r' \<and> I (handed x r') \<and> rn_session r' = rn_session r"
    and flush: "\<And>r. I r \<Longrightarrow> I (mark_unflushed (r\<lparr>rn_needs_flush := False\<rparr>))"
    and turn: "\<And>r. I r \<Longrightarrow> I (r\<lparr>rn_turn := \<not> rn_turn r\<rparr>)"
    and "I r"
  shows "I (snd (poll_step env r))"
proof -
  let ?w = "ss_phase (rn_session r) = Ready"
  have "I (snd (write_loop ?w (pe_sink env) r)) \<and> (ss_phase (rn_session (snd (write_loop ?w (pe_sink env) r))) = Ready) = ?w"
  proof (rule write_loop_induct [where I = "\<lambda>r'. I r' \<and> (ss_phase (rn_session r') = Ready) = ?w"])
    fix r1 x r2
    assume I: "I r1 \<and> (ss_phase (rn_session r1) = Ready) = ?w" and l: "lane ?w r1 \<noteq> []"
      and p: "pop_outbound r1 = (x, r2)"
    have l': "lane (ss_phase (rn_session r1) = Ready) r1 \<noteq> []" using I l by presburger
    have "I r2 \<and> I (handed x r2) \<and> rn_session r2 = rn_session r1" by (rule wr [OF conjunct1 [OF I] l' p])
    then show "(I r2 \<and> (ss_phase (rn_session r2) = Ready) = ?w)
        \<and> I (handed x r2) \<and> (ss_phase (rn_session (handed x r2)) = Ready) = ?w"
      using I by simp
  qed (simp add: assms(4))
  then obtain e r1 where w: "write_loop ?w (pe_sink env) r = (e, r1)" and r1: "I r1" by (metis prod.collapse)
  obtain e' r2 where f: "flush_step (pe_flush env) r1 = (e', r2)" by force
  have r2: "I r2" using r1 flush f by (cases rule: flush_step_cases [of "pe_flush env" r1]) auto
  have "I (snd (poll_inputs env r2))" using turn [OF r2] by (simp add: poll_inputs_def Let_def)
  then show ?thesis using w f r1 r2 by (simp add: poll_step_def split: option.split)
qed

lemma apply_actions_app [simp]: "rn_app (apply_action now a r) = rn_app r" "rn_config (apply_action now a r) = rn_config r"
  by (cases a; simp add: runner_login_def Let_def split: prod.split)+

lemma apply_all_app [simp]:
  "rn_app (fold (apply_action now) as r) = rn_app r" "rn_config (fold (apply_action now) as r) = rn_config r"
  by (induction as arbitrary: r) simp_all

lemma on_text_app [simp]:
  "rn_app (on_text parse now live text r) = rn_app r" "rn_config (on_text parse now live text r) = rn_config r"
  by (simp_all add: on_text_def split: option.split prod.split)

lemma on_frame_app [simp]:
  "rn_app (snd (on_frame parse now live x r)) = rn_app r" "rn_config (snd (on_frame parse now live x r)) = rn_config r"
  by (simp_all add: on_frame_def Let_def split: message.split)

lemma on_deadline_app [simp]:
  "rn_app (snd (on_deadline now r)) = rn_app r" "rn_config (snd (on_deadline now r)) = rn_config r"
  by (simp_all add: on_deadline_def Let_def split: prod.split liveness.split)

lemma handle_command_app:
  "rn_config (handle_command acked c r) = rn_config r"
  "length (rn_app (handle_command acked c r)) \<le> Suc (length (rn_app r))"
  by (cases c; simp add: push_app_def Let_def split: prod.split)+

lemma first_ready_simps [simp]:
  "first_ready [] = None" "first_ready (x # xs) = (case x of None \<Rightarrow> first_ready xs | Some s \<Rightarrow> Some s)"
  by (simp_all add: first_ready_def split: option.split)

lemma poll_read_no_command: "poll_read x \<noteq> Some (StCommand c)"
  by (cases x rule: poll_read.cases) simp_all

lemma poll_step_command:
  assumes "poll_step env r = (Some (StCommand c), r')"
  shows "length (rn_app r') < cf_outbox_capacity (rn_config r')"
proof -
  obtain r2 where r2: "poll_inputs env r2 = (Some (StCommand c), r')"
    using assms by (auto simp: poll_step_def split: prod.splits option.splits)
  then have "length (rn_app r2) < cf_outbox_capacity (rn_config r2)" and r': "r' = r2\<lparr>rn_turn := \<not> rn_turn r2\<rparr>"
    using poll_read_no_command [of "pe_read env" c]
    by (auto simp: poll_inputs_def Let_def split: if_splits option.splits)
  then show ?thesis by simp
qed

definition app_bounded :: "'g runner \<Rightarrow> bool" where
  "app_bounded r = (length (rn_app r) \<le> cf_outbox_capacity (rn_config r))"

lemma mark_unflushed_app [simp]:
  "rn_app (mark_unflushed r) = rn_app r" "rn_config (mark_unflushed r) = rn_config r"
  by (simp_all add: mark_unflushed_def)

lemma settle_app [simp]: "rn_app (settle live r) = []" "rn_config (settle live r) = rn_config r"
  by (simp_all add: settle_def Let_def split: prod.split)

lemma drive_iter_app:
  assumes "app_bounded r"
  shows "app_bounded (snd (drive_iter parse env r))"
proof -
  obtain st r1 where ps: "poll_step env r = (st, r1)" by force
  have r1: "app_bounded r1"
  proof -
    have "app_bounded (snd (poll_step env r))"
    proof (rule poll_step_induct [where I = app_bounded])
      fix r r' :: "'a runner" and x
      assume "app_bounded r" "pop_outbound r = (x, r')"
      moreover have "length (rn_app r') \<le> length (rn_app r)" "rn_config r' = rn_config r" "rn_session r' = rn_session r"
        using calculation(2) by (auto simp: pop_outbound_def split: list.splits)
      ultimately show "app_bounded r' \<and> app_bounded (handed x r') \<and> rn_session r' = rn_session r"
        by (auto simp: app_bounded_def handed_def)
    qed (simp_all add: app_bounded_def assms [unfolded app_bounded_def])
    then show ?thesis by (simp add: ps)
  qed
  show ?thesis
  proof (cases st)
    case None
    with r1 ps show ?thesis by (simp add: drive_iter_def)
  next
    case (Some s)
    have "app_bounded (snd (handle_step parse env s r1))"
    proof (cases s)
      case (StCommand c)
      have "length (rn_app r1) < cf_outbox_capacity (rn_config r1)"
        using poll_step_command ps Some StCommand by blast
      then show ?thesis
        using StCommand handle_command_app [of "pe_acked env" c r1] by (simp add: handle_step_def app_bounded_def)
    qed (use r1 in \<open>simp_all add: handle_step_def app_bounded_def\<close>)
    then show ?thesis
      using ps Some
      by (auto simp: drive_iter_def app_bounded_def Let_def split: prod.split option.split)
  qed
qed

lemma drive_start_app:
  assumes "drive_start now r = Some r'"
  shows "rn_app r' = rn_app r \<and> rn_config r' = rn_config r"
  using assms by (auto simp: drive_start_def Let_def session_connect_def)

lemma handle_command_socket [simp]: "rn_socket (handle_command acked c r) = rn_socket r"
  by (cases c; simp add: Let_def split: prod.split)+

lemma mark_fold_socket [simp]: "rn_socket (fold mark_one ms r) = rn_socket r"
proof (induction ms arbitrary: r)
  case (Cons m ms)
  then show ?case by (cases m) simp_all
qed simp

lemma settle_socket [simp]: "rn_socket (settle live r) = rn_socket r"
  by (simp add: settle_def mark_unflushed_def Let_def split: prod.split)

lemma disconnected_socket [simp]: "rn_socket (disconnected reason now live r) = rn_socket r"
  by (simp add: disconnected_def stable_reset_def Let_def split: option.split)

interpretation bounded_life: runner_life "\<lambda>k. app_bounded" "\<lambda>k r. app_bounded r \<and> \<not> rn_socket r"
proof
  fix r :: "'g runner" and acked c
  assume "app_bounded r \<and> \<not> rn_socket r" "length (rn_app r) < cf_outbox_capacity (rn_config r)"
  then show "app_bounded (handle_command acked c r) \<and> \<not> rn_socket (handle_command acked c r)"
    using handle_command_app [of acked c r] by (simp add: app_bounded_def)
next
  fix r r' :: "'g runner" and now
  assume "app_bounded r \<and> \<not> rn_socket r" "drive_start now r = Some r'"
  then show "app_bounded r'" using drive_start_app [of now r r'] by (simp add: app_bounded_def)
next
  fix r :: "'g runner" and reason now live
  assume "\<not> rn_socket r"
  then show "app_bounded (disconnected reason now live r) \<and> \<not> rn_socket (disconnected reason now live r)"
    by (simp add: app_bounded_def) (simp add: disconnected_def Let_def)
qed (auto simp: drive_iter_app, auto simp: app_bounded_def)

lemma spawned:
  assumes "spawn g now cfg = Some r"
  shows "rn_app r = []" "rn_priority r = []" "rn_socket r = False" "rn_wire r = []" "rn_unflushed r = []"
    "rn_ready_at r = None" "rn_events r = []" "rn_methods r = correlator_new ''m''" "rn_subs r = correlator_new ''s''"
    "cf_outbox_capacity (rn_config r) = max 1 (cf_outbox_capacity cfg)" "rn_session r = session_new DDP_VERSION"
    "bo_attempt (rn_backoff r) = 0"
  using assms by (auto simp: spawn_def runner_new_def with_limits_def)

text \<open>The outgoing queue is bounded: through connections, waits and reconnects the application lane never holds
  more frames than the configured capacity, and that capacity is never zero, so an empty lane accepts commands.\<close>

lemma outbox_bounded:
  assumes "spawn g now cfg = Some r" "run draw parse as r = Some (Running, r')"
  shows "length (rn_app r') \<le> cf_outbox_capacity (rn_config r')
    \<and> cf_outbox_capacity (rn_config r) = max 1 (cf_outbox_capacity cfg)"
proof -
  have "app_bounded r \<and> \<not> rn_socket r" using spawned [OF assms(1)] by (simp add: app_bounded_def)
  then show ?thesis
    using bounded_life.run_life [OF _ assms(2)] spawned [OF assms(1)] by (simp add: app_bounded_def)
qed

end
