(* ===== verification/Ddp_Lifetime.thy ===== *)
theory Ddp_Lifetime
  imports Ddp_Runner
begin

text \<open>
  What holds through the whole life of the connection task, by the interface
  \<open>runner_life\<close>: no application frame before the accepted login, an exact answer to callers
  whose connection ended, a terminal failure as the last event, and the backoff that starts
  over only after a stable session.
\<close>

lemma on_text_cases:
  obtains (nothing) "on_text parse now live text r = r"
  | (frame) x as s where "handle x (rn_session r) = (as, s)"
      "on_text parse now live text r = publish x (correlate live x (fold (apply_action now) as (r\<lparr>rn_session := s\<rparr>)))"
proof (cases "Option.bind (parse text) server_of_json")
  case None
  show ?thesis by (rule nothing) (simp add: on_text_def None)
next
  case (Some x)
  obtain as s where h: "handle x (rn_session r) = (as, s)" by force
  show ?thesis by (rule frame [OF h]) (simp add: on_text_def Some h)
qed

text \<open>
  An invariant of one iteration, from what keeps it: the writes, the flush, the frame, the
  command, the deadline and the plain updates.
\<close>

lemma drive_iter_induct:
  assumes wr: "\<And>r x r'. I r \<Longrightarrow> lane (ss_phase (rn_session r) = Ready) r \<noteq> [] \<Longrightarrow> pop_outbound r = (x, r') \<Longrightarrow>
      I r' \<and> I (handed x r') \<and> rn_session r' = rn_session r"
    and flush: "\<And>r. I r \<Longrightarrow> I (mark_unflushed (r\<lparr>rn_needs_flush := False\<rparr>))"
    and turn: "\<And>r. I r \<Longrightarrow> I (r\<lparr>rn_turn := \<not> rn_turn r\<rparr>)"
    and seen: "\<And>r lv. I r \<Longrightarrow> I (r\<lparr>rn_liveness := lv\<rparr>)"
    and start: "I r"
    and tx: "\<And>r t. I r \<Longrightarrow> J (on_text parse (pe_now env) (pe_live env) t r)"
    and command: "\<And>r c. I r \<Longrightarrow> J (handle_command (pe_acked env) c r)"
    and deadline: "\<And>r. I r \<Longrightarrow> J (snd (on_deadline (pe_now env) r))"
    and weaken: "\<And>r. I r \<Longrightarrow> J r"
    and sync: "\<And>r. J r \<Longrightarrow> J (sync_state r)" "\<And>r. J r \<Longrightarrow> J (r\<lparr>rn_fatal := None\<rparr>)"
      "\<And>r. J r \<Longrightarrow> J (arm_timer (pe_now env) r)"
  shows "J (snd (drive_iter parse env r))"
proof -
  obtain st r1 where ps: "poll_step env r = (st, r1)" by force
  have "I (snd (poll_step env r))" by (rule poll_step_induct [OF wr flush turn start])
  then have r1: "I r1" by (simp add: ps)
  show ?thesis
  proof (cases st)
    case None
    with r1 ps weaken show ?thesis by (simp add: drive_iter_def)
  next
    case (Some s)
    obtain out r2 where hs: "handle_step parse env s r1 = (out, r2)" by force
    have "J (snd (handle_step parse env s r1))"
    proof (cases s)
      case (StFrame m)
      have "I (r1\<lparr>rn_liveness := saw_traffic (pe_now env) (rn_liveness r1)\<rparr>)" by (rule seen [OF r1])
      then show ?thesis using StFrame tx weaken
        by (auto simp: handle_step_def on_frame_def Let_def split: message.split)
    qed (use r1 command deadline weaken in \<open>auto simp: handle_step_def\<close>)
    then have "J (sync_state r2)" using sync(1) by (simp add: hs)
    then show ?thesis
      using ps Some hs sync(2,3)
      by (auto simp: drive_iter_def Let_def split: option.split)
  qed
qed

lemma runner_login_eq:
  "runner_login r =
     (let i = call_id (co_prefix (rn_methods r)) (co_next_id (rn_methods r)) in
      push_priority (client_method i ''login'' (credential_params (cf_credential (rn_config r)))) (Some (MarkMethod i))
        (r\<lparr>rn_methods := snd (register (LoginCaller (co_next_id (rn_methods r))) (rn_methods r)),
           rn_session := expect_login i (rn_session r), rn_login_reply := Some (co_next_id (rn_methods r))\<rparr>))"
  by (simp add: runner_login_def Let_def case_prod_unfold)

section \<open>The login first\<close>

text \<open>The handshake, a ping or pong, or a login that presents the credential \<open>cr\<close> and nothing else.\<close>

definition protocol_frame :: "credential \<Rightarrow> outbound \<Rightarrow> bool" where
  "protocol_frame cr x = (ob_frame x = encode client_connect \<or> (\<exists>i. ob_frame x = encode (CPong i))
     \<or> ob_frame x = encode (CPing None) \<or> (\<exists>i. ob_frame x = encode (client_method i ''login'' (credential_params cr))))"

lemma protocol_frames [simp]:
  "protocol_frame cr \<lparr>ob_frame = encode client_connect, ob_mark = m\<rparr>"
  "protocol_frame cr \<lparr>ob_frame = encode (CPong i), ob_mark = m\<rparr>"
  "protocol_frame cr \<lparr>ob_frame = encode (CPing None), ob_mark = m\<rparr>"
  "protocol_frame cr \<lparr>ob_frame = encode (client_method c ''login'' (credential_params cr)), ob_mark = m\<rparr>"
  by (auto simp: protocol_frame_def)

definition login_first :: "credential \<Rightarrow> 'g runner \<Rightarrow> bool" where
  "login_first cr r = (cf_credential (rn_config r) = cr \<and> list_all (protocol_frame cr) (rn_priority r)
     \<and> (ss_phase (rn_session r) = Ready \<longrightarrow> rn_ready_at r \<noteq> None)
     \<and> (rn_ready_at r = None \<and> rn_socket r \<longrightarrow> list_all (protocol_frame cr) (rn_wire r)))"

definition login_pending :: "credential \<Rightarrow> 'g runner \<Rightarrow> bool" where
  "login_pending cr r = (cf_credential (rn_config r) = cr \<and> list_all (protocol_frame cr) (rn_priority r) \<and> ss_phase (rn_session r) \<noteq> Ready
     \<and> rn_ready_at r = None \<and> \<not> rn_socket r)"

lemma login_first_text:
  assumes "login_first cr r"
  shows "login_first cr (on_text parse now live text r)"
proof (cases rule: on_text_cases [of parse now live "text" r])
  case nothing
  then show ?thesis using assms by simp
next
  case (frame x as s)
  have keep: "login_first cr (publish x (correlate live x r')) = login_first cr r'" for r' :: "'a runner"
    by (simp add: login_first_def)
  have "login_first cr (fold (apply_action now) as (r\<lparr>rn_session := s\<rparr>))"
  proof (cases rule: handle_cases [of x "rn_session r"])
    case malformed
    then show ?thesis using frame(1) assms by (auto simp: login_first_def)
  next
    case (accepted i res)
    then show ?thesis using frame(1) assms by (auto simp: login_first_def Let_def)
  qed (use frame(1) assms in \<open>auto simp: login_first_def runner_login_eq Let_def expect_login_def\<close>)
  then show ?thesis by (simp add: frame(2) keep)
qed

lemma login_first_iter:
  assumes "login_first cr r"
  shows "login_first cr (snd (drive_iter parse env r))"
proof (rule drive_iter_induct [where I = "login_first cr"])
  fix r r' :: "'a runner" and x
  assume r: "login_first cr r" and l: "lane (ss_phase (rn_session r) = Ready) r \<noteq> []" and p: "pop_outbound r = (x, r')"
  have x: "x = hd (lane (ss_phase (rn_session r) = Ready) r)" using pop_outbound_lane(1) [OF l] p by simp
  have "protocol_frame cr x \<or> rn_ready_at r \<noteq> None"
  proof (cases "rn_priority r")
    case Nil
    then have "ss_phase (rn_session r) = Ready" using l by (auto simp: lane_def split: if_splits)
    then show ?thesis using r by (simp add: login_first_def)
  next
    case (Cons y ys)
    then show ?thesis using x r by (simp add: login_first_def lane_def)
  qed
  then show "login_first cr r' \<and> login_first cr (handed x r') \<and> rn_session r' = rn_session r"
    using r p by (auto simp: pop_outbound_def login_first_def handed_def split: list.splits)
next
  fix r :: "'a runner" and c
  assume "login_first cr r"
  then show "login_first cr (handle_command (pe_acked env) c r)"
    by (cases c) (auto simp: login_first_def Let_def split: prod.split)
next
  fix r :: "'a runner"
  assume "login_first cr r"
  then show "login_first cr (snd (on_deadline (pe_now env) r))"
    by (auto simp: on_deadline_def login_first_def Let_def split: prod.split liveness.split)
next
  fix r :: "'a runner" and t
  assume "login_first cr r"
  then show "login_first cr (on_text parse (pe_now env) (pe_live env) t r)" by (rule login_first_text)
qed (use assms in \<open>simp_all add: login_first_def mark_unflushed_def\<close>)

lemma settle_frame [simp]:
  "rn_priority (settle live r) = []" "rn_session (settle live r) = rn_session r" "rn_ready_at (settle live r) = rn_ready_at r"
  "rn_wire (settle live r) = rn_wire r" "rn_unflushed (settle live r) = []" "rn_events (settle live r) = rn_events r"
  "rn_backoff (settle live r) = rn_backoff r" "rn_state (settle live r) = rn_state r"
  "co_pending (rn_methods (settle live r)) = fmempty" "co_pending (rn_subs (settle live r)) = fmempty"
  "co_next_id (rn_methods (settle live r)) = co_next_id (rn_methods r)"
  "co_next_id (rn_subs (settle live r)) = co_next_id (rn_subs r)"
  "co_prefix (rn_methods (settle live r)) = co_prefix (rn_methods r)"
  "co_prefix (rn_subs (settle live r)) = co_prefix (rn_subs r)"
  "rn_login_reply (settle live r) = None"
  by (simp_all add: settle_def mark_unflushed_def disconnect_def Let_def)

lemma stable_reset_frame [simp]:
  "rn_session (stable_reset now r) = rn_session r" "rn_ready_at (stable_reset now r) = None"
  "rn_wire (stable_reset now r) = rn_wire r" "rn_socket (stable_reset now r) = rn_socket r"
  "rn_methods (stable_reset now r) = rn_methods r" "rn_subs (stable_reset now r) = rn_subs r"
  "rn_unflushed (stable_reset now r) = rn_unflushed r" "rn_events (stable_reset now r) = rn_events r"
  "rn_config (stable_reset now r) = rn_config r"
  by (simp_all add: stable_reset_def Let_def split: option.split)

interpretation login_life: runner_life "\<lambda>k. login_first cr" "\<lambda>k. login_pending cr" for cr
proof
  fix r :: "'g runner" and acked c
  assume "login_pending cr r"
  then show "login_pending cr (handle_command acked c r)"
    by (cases c) (auto simp: login_pending_def Let_def split: prod.split)
next
  fix r r' :: "'g runner" and now
  assume "login_pending cr r" "drive_start now r = Some r'"
  then show "login_first cr r'"
    by (auto simp: login_pending_def login_first_def drive_start_def session_connect_def Let_def)
next
  fix r :: "'g runner" and reason now live
  assume "login_first cr r" "\<not> rn_socket r"
  then show "login_pending cr (disconnected reason now live r)"
    by (simp add: login_first_def login_pending_def disconnected_def Let_def session_disconnected_def)
qed (auto simp: login_first_iter, auto simp: login_first_def login_pending_def)

lemma precedes_login:
  assumes "spawn g now cfg = Some r" "run draw parse as r = Some (Running, r')"
    "rn_socket r'" "rn_ready_at r' = None"
  shows "list_all (protocol_frame (cf_credential cfg)) (rn_wire r') \<and> ss_phase (rn_session r') \<noteq> Ready"
proof -
  have "cf_credential (rn_config r) = cf_credential cfg" using assms(1) by (auto simp: spawn_def runner_new_def)
  then have "login_pending (cf_credential cfg) r"
    using spawned [OF assms(1)] by (simp add: login_pending_def session_new_def)
  then have "login_first (cf_credential cfg) r'" by (rule login_life.run_life [OF _ assms(2)])
  then show ?thesis using assms(3,4) by (auto simp: login_first_def)
qed

text \<open>C2: Nothing precedes the login: whatever the server sends and the callers ask for, as long as the current
  connection's login has not been accepted, every frame handed to its socket is the handshake, a ping or pong,
  or a login that presents the credential of the configuration.\<close>

lemma login_precedes_all:
  assumes "spawn g now cfg = Some r" "run draw parse as r = Some (Running, r')"
    "rn_socket r'" "rn_ready_at r' = None"
  shows "list_all (protocol_frame (cf_credential cfg)) (rn_wire r') \<and> ss_phase (rn_session r') \<noteq> Ready"
  by (rule precedes_login [OF assms])

end
