(* ===== verification/Ddp_Calls.thy ===== *)
theory Ddp_Calls
  imports Ddp_Lifetime
begin

text \<open>
  What a caller is told when its connection ends.  The frames handed to the current socket
  are \<open>rn_wire\<close>; the invariant \<open>sent_exact\<close> ties the marks of the correlators and of the
  frames still unflushed to them, and an id is never reused while the counters have not
  wrapped, which the bound on the number of polls and commands gives.
\<close>

definition marks :: "outbound list \<Rightarrow> mark set" where
  "marks xs = {m. \<exists>x \<in> set xs. ob_mark x = Some m}"

lemma marks_simps [simp]:
  "marks [] = {}" "marks (xs @ ys) = marks xs \<union> marks ys"
  "marks (x # xs) = (case ob_mark x of None \<Rightarrow> {} | Some m \<Rightarrow> {m}) \<union> marks xs"
  by (auto simp: marks_def split: option.splits)

definition table_exact :: "(str \<Rightarrow> mark) \<Rightarrow> mark set \<Rightarrow> mark set \<Rightarrow> mark set \<Rightarrow> caller correlator \<Rightarrow> bool" where
  "table_exact M W U A c = (
     (\<forall>i p. fmlookup (co_pending c) i = Some p \<longrightarrow> ((pd_sent p \<or> M i \<in> U) = (M i \<in> W)))
     \<and> (\<forall>i. M i \<in> W \<union> A \<longrightarrow> (\<exists>n. i = call_id (co_prefix c) n \<and> n < co_next_id c)))"

definition sent_exact :: "'g runner \<Rightarrow> bool" where
  "sent_exact r = (
     let W = marks (rn_wire r); U = set (rn_unflushed r); A = marks (rn_priority r) \<union> marks (rn_app r) in
     U \<subseteq> W \<and> table_exact MarkMethod W U A (rn_methods r) \<and> table_exact MarkSub W U A (rn_subs r))"

definition no_wrap :: "nat \<Rightarrow> 'g runner \<Rightarrow> bool" where
  "no_wrap k r = (unat (co_next_id (rn_methods r)) + k < 2 ^ 64 \<and> unat (co_next_id (rn_subs r)) + k < 2 ^ 64)"

section \<open>What keeps a table exact\<close>

lemma word_less_Suc:
  "unat (a :: u64) + 1 < 2 ^ 64 \<Longrightarrow> n < a \<or> n = a \<Longrightarrow> n < a + 1"
proof -
  assume "unat a + 1 < 2 ^ 64" and n: "n < a \<or> n = a"
  then have "unat (a + 1) = Suc (unat a)" by (simp add: unat_word_ariths)
  with n show ?thesis by (auto simp: word_less_nat_alt)
qed

lemma unat_Suc: "unat (a :: u64) + k < 18446744073709551615 \<Longrightarrow> unat (a + 1) + k < 18446744073709551616"
  by (simp add: unat_word_ariths)

lemma table_register:
  assumes "table_exact M W U A c" "unat (co_next_id c) + 1 < 2 ^ 64" "U \<subseteq> W" "inj M"
  shows "table_exact M W U (insert (M (call_id (co_prefix c) (co_next_id c))) A) (snd (register w c))"
proof -
  let ?i = "call_id (co_prefix c) (co_next_id c)"
  have "M ?i \<notin> W"
  proof
    assume "M ?i \<in> W"
    then obtain n where "?i = call_id (co_prefix c) n" "n < co_next_id c"
      using assms(1) unfolding table_exact_def by blast
    then show False by simp
  qed
  with assms(3) have "M ?i \<notin> U" by blast
  then show ?thesis
    using assms \<open>M ?i \<notin> W\<close> word_less_Suc [OF assms(2)]
    by (auto simp: table_exact_def inj_eq split: if_splits)
qed

lemma table_shrink:
  assumes "table_exact M W U A c" "co_prefix c' = co_prefix c" "co_next_id c' = co_next_id c" "A' \<subseteq> A"
    and "\<And>i p. fmlookup (co_pending c') i = Some p \<Longrightarrow> fmlookup (co_pending c) i = Some p"
  shows "table_exact M W U A' c'"
  using assms(1,4) unfolding table_exact_def assms(2,3) by (meson UnCI UnE assms(5) subsetD)

lemma table_grow:
  assumes "table_exact M W U A c" "unat (co_next_id c) + 1 < 2 ^ 64" "co_prefix c' = co_prefix c"
    "co_next_id c' = co_next_id c + 1"
    and "\<And>i p. fmlookup (co_pending c') i = Some p \<Longrightarrow> fmlookup (co_pending c) i = Some p"
  shows "table_exact M W U A c'"
  using assms(1) word_less_Suc [OF assms(2)] unfolding table_exact_def assms(3,4)
  by (metis assms(5))

lemma table_other: "(\<And>i. M i \<noteq> m) \<Longrightarrow> table_exact M W U (insert m A) c = table_exact M W U A c"
  by (auto simp: table_exact_def)

lemma table_handed:
  assumes "table_exact M W U A c" "m \<in> A"
  shows "table_exact M (insert m W) (insert m U) A c"
  using assms by (auto simp: table_exact_def)

lemma table_flushed:
  assumes "table_exact M W U A c" "co_prefix c' = co_prefix c" "co_next_id c' = co_next_id c"
    and "\<And>i. fmlookup (co_pending c') i = map_option (sent_by (M i \<in> U)) (fmlookup (co_pending c) i)"
  shows "table_exact M W {} A c'"
  using assms by (auto simp: table_exact_def)

section \<open>What the steps do to the tables\<close>

lemma resolve_method_table:
  "co_next_id (rn_methods (resolve_method live i out r)) = co_next_id (rn_methods r)"
  "co_prefix (rn_methods (resolve_method live i out r)) = co_prefix (rn_methods r)"
  "fmlookup (co_pending (rn_methods (resolve_method live i out r))) j = Some p
     \<Longrightarrow> fmlookup (co_pending (rn_methods r)) j = Some p"
  by (auto simp: resolve_method_def case_prod_unfold Let_def split: if_splits)

lemma resolve_sub_table:
  "co_next_id (rn_subs (resolve_sub live i out r)) = co_next_id (rn_subs r)"
  "co_prefix (rn_subs (resolve_sub live i out r)) = co_prefix (rn_subs r)"
  "fmlookup (co_pending (rn_subs (resolve_sub live i out r))) j = Some p
     \<Longrightarrow> fmlookup (co_pending (rn_subs r)) j = Some p"
  by (auto simp: resolve_sub_def case_prod_unfold Let_def split: if_splits)

lemma sent_exact_resolve_method: "sent_exact r \<Longrightarrow> sent_exact (resolve_method live i out r)"
  unfolding sent_exact_def Let_def by (auto intro: table_shrink resolve_method_table)

lemma sent_exact_resolve_sub: "sent_exact r \<Longrightarrow> sent_exact (resolve_sub live i out r)"
  unfolding sent_exact_def Let_def by (auto intro: table_shrink resolve_sub_table)

lemma correlate_ids [simp]:
  "co_next_id (rn_methods (correlate live x r)) = co_next_id (rn_methods r)"
  "co_next_id (rn_subs (correlate live x r)) = co_next_id (rn_subs r)"
proof -
  have "co_next_id (rn_subs (fold (\<lambda>i. resolve_sub live i (Inr JNull)) ss r)) = co_next_id (rn_subs r)" for ss
    by (induction ss arbitrary: r) (simp_all add: resolve_sub_table)
  then show "co_next_id (rn_methods (correlate live x r)) = co_next_id (rn_methods r)"
    "co_next_id (rn_subs (correlate live x r)) = co_next_id (rn_subs r)"
    by (cases x; simp add: resolve_method_table resolve_sub_table)+
qed

lemma sent_exact_correlate: "sent_exact r \<Longrightarrow> sent_exact (correlate live x r)"
proof -
  assume r: "sent_exact r"
  have "sent_exact (fold (\<lambda>i. resolve_sub live i (Inr JNull)) ss r)" for ss
    using r by (induction ss arbitrary: r) (simp_all add: sent_exact_resolve_sub)
  then show ?thesis
    using r by (cases x) (auto intro: sent_exact_resolve_method sent_exact_resolve_sub)
qed

text \<open>Fields the invariant does not read.\<close>

lemma sent_exact_cong:
  assumes "rn_wire r' = rn_wire r" "rn_unflushed r' = rn_unflushed r" "marks (rn_priority r') = marks (rn_priority r)"
    "rn_app r' = rn_app r" "rn_methods r' = rn_methods r" "rn_subs r' = rn_subs r"
  shows "sent_exact r' = sent_exact r"
  using assms by (simp add: sent_exact_def)

lemma sent_exact_login:
  assumes "sent_exact r" "unat (co_next_id (rn_methods r)) + 1 < 2 ^ 64"
  shows "sent_exact (runner_login r)"
proof -
  let ?A = "marks (rn_priority r) \<union> marks (rn_app r)"
  let ?m = "MarkMethod (call_id (co_prefix (rn_methods r)) (co_next_id (rn_methods r)))"
  have "table_exact MarkMethod (marks (rn_wire r)) (set (rn_unflushed r)) (insert ?m ?A)
      (snd (register (LoginCaller (co_next_id (rn_methods r))) (rn_methods r)))"
    using assms by (intro table_register) (simp_all add: sent_exact_def Let_def inj_def)
  moreover have "table_exact MarkSub (marks (rn_wire r)) (set (rn_unflushed r)) (insert ?m ?A) (rn_subs r)"
    using assms by (simp add: table_other sent_exact_def Let_def)
  ultimately show ?thesis
    using assms(1) by (simp add: sent_exact_def runner_login_eq Let_def)
qed

lemma sent_exact_text:
  assumes "sent_exact r" "unat (co_next_id (rn_methods r)) + 1 < 2 ^ 64"
  shows "sent_exact (on_text parse now live t r)"
proof (cases rule: on_text_cases [of parse now live t r])
  case nothing
  then show ?thesis using assms by simp
next
  case (frame x as s)
  have keep: "sent_exact (publish x (correlate live x r'))" if "sent_exact r'" for r' :: "'a runner"
    using sent_exact_correlate [OF that] by (simp add: sent_exact_def)
  have r: "sent_exact (r\<lparr>rn_session := s\<rparr>)" using assms by (simp add: sent_exact_def)
  have "sent_exact (fold (apply_action now) as (r\<lparr>rn_session := s\<rparr>))"
  proof (cases rule: handle_cases [of x "rn_session r"])
    case malformed
    then show ?thesis using frame(1) r by auto
  next
    case (connected sid)
    then show ?thesis using frame(1) sent_exact_login [OF r] assms(2) by auto
  qed (use frame(1) r in \<open>auto simp: Let_def sent_exact_def\<close>)
  then show ?thesis by (simp add: frame(2) keep)
qed

lemma no_wrap_text:
  assumes "no_wrap (Suc k) r"
  shows "no_wrap k (on_text parse now live t r)"
proof (cases rule: on_text_cases [of parse now live t r])
  case nothing
  then show ?thesis using assms by (simp add: no_wrap_def)
next
  case (frame x as s)
  have "no_wrap k (fold (apply_action now) as (r\<lparr>rn_session := s\<rparr>))"
  proof (cases rule: handle_cases [of x "rn_session r"])
    case malformed
    then show ?thesis using frame(1) assms by (auto simp: no_wrap_def)
  next
    case (connected sid)
    then show ?thesis using frame(1) assms by (auto simp: no_wrap_def runner_login_eq Let_def unat_Suc)
  qed (use frame(1) assms in \<open>auto simp: Let_def no_wrap_def\<close>)
  then show ?thesis by (simp add: frame(2) no_wrap_def)
qed

lemma sent_exact_call:
  assumes "sent_exact r" "unat (co_next_id (rn_methods r)) + 1 < 2 ^ 64" "unat (co_next_id (rn_subs r)) + 1 < 2 ^ 64"
  shows "sent_exact (handle_command acked c r)"
proof -
  let ?A = "marks (rn_priority r) \<union> marks (rn_app r)"
  let ?M = "MarkMethod (call_id (co_prefix (rn_methods r)) (co_next_id (rn_methods r)))"
  let ?S = "MarkSub (call_id (co_prefix (rn_subs r)) (co_next_id (rn_subs r)))"
  have sub: "set (rn_unflushed r) \<subseteq> marks (rn_wire r)" using assms(1) by (simp add: sent_exact_def Let_def)
  have tm: "table_exact MarkMethod (marks (rn_wire r)) (set (rn_unflushed r)) ?A (rn_methods r)"
    and ts: "table_exact MarkSub (marks (rn_wire r)) (set (rn_unflushed r)) ?A (rn_subs r)"
    using assms(1) by (simp_all add: sent_exact_def Let_def)
  show ?thesis
  proof (cases c)
    case (CmdCall m ps w)
    show ?thesis
    proof (cases "acked w")
      case True
      have "table_exact MarkMethod (marks (rn_wire r)) (set (rn_unflushed r)) (insert ?M ?A)
          (snd (register (Caller w) (rn_methods r)))"
        using tm assms(2) sub by (intro table_register) (simp_all add: inj_def)
      moreover have "table_exact MarkSub (marks (rn_wire r)) (set (rn_unflushed r)) (insert ?M ?A) (rn_subs r)"
        using ts by (simp add: table_other)
      ultimately show ?thesis using True CmdCall sub by (simp add: sent_exact_def case_prod_unfold Let_def)
    next
      case False
      let ?c = "snd (cancel (fst (register (Caller w) (rn_methods r))) (snd (register (Caller w) (rn_methods r))))"
      have "table_exact MarkMethod (marks (rn_wire r)) (set (rn_unflushed r)) ?A ?c"
        by (rule table_grow [OF tm assms(2)]) (auto split: if_splits)
      then show ?thesis using False CmdCall sub ts by (simp add: sent_exact_def case_prod_unfold Let_def)
    qed
  next
    case (CmdSubscribe n ps w)
    show ?thesis
    proof (cases "acked w")
      case True
      have "table_exact MarkSub (marks (rn_wire r)) (set (rn_unflushed r)) (insert ?S ?A)
          (snd (register (Caller w) (rn_subs r)))"
        using ts assms(3) sub by (intro table_register) (simp_all add: inj_def)
      moreover have "table_exact MarkMethod (marks (rn_wire r)) (set (rn_unflushed r)) (insert ?S ?A) (rn_methods r)"
        using tm by (simp add: table_other)
      ultimately show ?thesis using True CmdSubscribe sub by (simp add: sent_exact_def case_prod_unfold Let_def)
    next
      case False
      let ?c = "snd (cancel (fst (register (Caller w) (rn_subs r))) (snd (register (Caller w) (rn_subs r))))"
      have "table_exact MarkSub (marks (rn_wire r)) (set (rn_unflushed r)) ?A ?c"
        by (rule table_grow [OF ts assms(3)]) (auto split: if_splits)
      then show ?thesis using False CmdSubscribe sub tm by (simp add: sent_exact_def case_prod_unfold Let_def)
    qed
  qed (use assms(1) in \<open>simp_all add: sent_exact_def\<close>)
qed

lemma no_wrap_call: "no_wrap (Suc k) r \<Longrightarrow> no_wrap k (handle_command acked c r)"
  by (cases c) (auto simp: no_wrap_def case_prod_unfold Let_def unat_Suc)

section \<open>Through the life of the task\<close>

definition driving :: "nat \<Rightarrow> 'g runner \<Rightarrow> bool" where
  "driving k r = (sent_exact r \<and> no_wrap k r)"

definition resting :: "nat \<Rightarrow> 'g runner \<Rightarrow> bool" where
  "resting k r = (driving k r \<and> \<not> rn_socket r \<and> rn_unflushed r = []
     \<and> (\<forall>i p. fmlookup (co_pending (rn_methods r)) i = Some p \<longrightarrow> MarkMethod i \<notin> marks (rn_wire r))
     \<and> (\<forall>i p. fmlookup (co_pending (rn_subs r)) i = Some p \<longrightarrow> MarkSub i \<notin> marks (rn_wire r)))"

lemma driving_cong:
  assumes "rn_wire r' = rn_wire r" "rn_unflushed r' = rn_unflushed r" "marks (rn_priority r') = marks (rn_priority r)"
    "rn_app r' = rn_app r" "rn_methods r' = rn_methods r" "rn_subs r' = rn_subs r"
  shows "driving k r' = driving k r"
  using sent_exact_cong [OF assms] assms by (simp add: driving_def no_wrap_def)

lemma driving_pop:
  assumes "driving k r" "lane w r \<noteq> []" "pop_outbound r = (x, r')"
  shows "driving k r' \<and> driving k (handed x r')"
proof -
  let ?A = "marks (rn_priority r) \<union> marks (rn_app r)" and ?A' = "marks (rn_priority r') \<union> marks (rn_app r')"
  have A: "?A' \<subseteq> ?A" "\<forall>m. ob_mark x = Some m \<longrightarrow> m \<in> ?A"
    using assms(2,3) by (auto simp: pop_outbound_def lane_def neq_Nil_conv split: list.splits if_splits)
  have same: "rn_wire r' = rn_wire r" "rn_unflushed r' = rn_unflushed r" "rn_methods r' = rn_methods r" "rn_subs r' = rn_subs r"
    using pop_outbound_frame [of r] assms(3) by simp_all
  have ex: "set (rn_unflushed r) \<subseteq> marks (rn_wire r)"
    "table_exact MarkMethod (marks (rn_wire r)) (set (rn_unflushed r)) ?A (rn_methods r)"
    "table_exact MarkSub (marks (rn_wire r)) (set (rn_unflushed r)) ?A (rn_subs r)"
    using assms(1) by (simp_all add: driving_def sent_exact_def Let_def)
  have d: "driving k r'"
    using assms(1) same ex A(1) unfolding driving_def sent_exact_def Let_def no_wrap_def
    by (auto intro: table_shrink)
  moreover have "driving k (handed x r')"
  proof (cases "ob_mark x")
    case None
    then show ?thesis using d by (simp add: driving_def sent_exact_def no_wrap_def handed_def)
  next
    case (Some m)
    have "table_exact MarkMethod (insert m (marks (rn_wire r))) (insert m (set (rn_unflushed r))) ?A' (rn_methods r)"
      "table_exact MarkSub (insert m (marks (rn_wire r))) (insert m (set (rn_unflushed r))) ?A' (rn_subs r)"
      using table_handed [OF ex(2), of m] table_handed [OF ex(3), of m] A Some by (auto intro: table_shrink)
    then show ?thesis using Some same ex(1) d
      by (auto simp: driving_def sent_exact_def no_wrap_def handed_def Let_def)
  qed
  ultimately show ?thesis by blast
qed

lemma driving_flush:
  assumes "driving k r"
  shows "driving k (mark_unflushed r)"
proof -
  let ?A = "marks (rn_priority r) \<union> marks (rn_app r)"
  have ex: "table_exact MarkMethod (marks (rn_wire r)) (set (rn_unflushed r)) ?A (rn_methods r)"
    "table_exact MarkSub (marks (rn_wire r)) (set (rn_unflushed r)) ?A (rn_subs r)"
    using assms by (simp_all add: driving_def sent_exact_def Let_def)
  have "table_exact MarkMethod (marks (rn_wire r)) {} ?A (rn_methods (fold mark_one (rn_unflushed r) r))"
    "table_exact MarkSub (marks (rn_wire r)) {} ?A (rn_subs (fold mark_one (rn_unflushed r) r))"
    by (rule table_flushed [OF ex(1)], simp_all add: mark_fold_pending)
      (rule table_flushed [OF ex(2)], simp_all add: mark_fold_pending)
  then show ?thesis
    using assms by (simp add: driving_def sent_exact_def no_wrap_def mark_unflushed_def Let_def)
qed

lemma no_wrap_one: "no_wrap (Suc k) r \<Longrightarrow>
    unat (co_next_id (rn_methods r)) + 1 < 2 ^ 64 \<and> unat (co_next_id (rn_subs r)) + 1 < 2 ^ 64"
  by (simp add: no_wrap_def)

lemma driving_text: "driving (Suc k) r \<Longrightarrow> driving k (on_text parse now live t r)"
  unfolding driving_def using sent_exact_text no_wrap_text no_wrap_one by metis

lemma driving_call: "driving (Suc k) r \<Longrightarrow> driving k (handle_command acked c r)"
  unfolding driving_def using sent_exact_call no_wrap_call no_wrap_one by metis

lemma driving_iter:
  assumes "driving (Suc k) r"
  shows "driving k (snd (drive_iter parse env r))"
proof (rule drive_iter_induct [where I = "driving (Suc k)"])
  fix r r' :: "'a runner" and x
  assume "driving (Suc k) r" "lane (ss_phase (rn_session r) = Ready) r \<noteq> []" "pop_outbound r = (x, r')"
  then show "driving (Suc k) r' \<and> driving (Suc k) (handed x r') \<and> rn_session r' = rn_session r"
    using driving_pop pop_outbound_frame(2) [of r] by fastforce
next
  fix r :: "'a runner"
  assume "driving (Suc k) r"
  then show "driving (Suc k) (mark_unflushed (r\<lparr>rn_needs_flush := False\<rparr>))"
    by (intro driving_flush) (simp add: driving_def sent_exact_def no_wrap_def)
next
  fix r :: "'a runner" and t
  assume "driving (Suc k) r"
  then show "driving k (on_text parse (pe_now env) (pe_live env) t r)"
    by (rule driving_text)
next
  fix r :: "'a runner" and c
  assume "driving (Suc k) r"
  then show "driving k (handle_command (pe_acked env) c r)"
    by (rule driving_call)
next
  fix r :: "'a runner"
  assume "driving (Suc k) r"
  then show "driving k (snd (on_deadline (pe_now env) r))"
    by (auto simp: on_deadline_def driving_def sent_exact_def no_wrap_def Let_def split: prod.split liveness.split)
qed (use assms in \<open>simp_all add: driving_def sent_exact_def no_wrap_def\<close>)

lemma command_wire [simp]: "rn_wire (handle_command acked c r) = rn_wire r"
  "rn_unflushed (handle_command acked c r) = rn_unflushed r"
  by (cases c; simp add: case_prod_unfold Let_def)+

lemma fresh_not_marked:
  assumes "table_exact M W U A c"
  shows "M (call_id (co_prefix c) (co_next_id c)) \<notin> W"
proof
  assume "M (call_id (co_prefix c) (co_next_id c)) \<in> W"
  then obtain n where "call_id (co_prefix c) (co_next_id c) = call_id (co_prefix c) n" "n < co_next_id c"
    using assms unfolding table_exact_def by blast
  then show False by simp
qed

lemma resting_command:
  assumes "resting (Suc k) r"
  shows "resting k (handle_command acked c r)"
proof -
  have d: "driving k (handle_command acked c r)"
    using assms driving_call [of k r acked c] unfolding resting_def by blast
  have "MarkMethod (call_id (co_prefix (rn_methods r)) (co_next_id (rn_methods r))) \<notin> marks (rn_wire r)"
    "MarkSub (call_id (co_prefix (rn_subs r)) (co_next_id (rn_subs r))) \<notin> marks (rn_wire r)"
    using assms fresh_not_marked by (auto simp: resting_def driving_def sent_exact_def Let_def)
  then show ?thesis
    using assms d by (cases c) (auto simp: resting_def case_prod_unfold Let_def split: if_splits)
qed

lemma resting_start:
  assumes "resting k r" "drive_start now r = Some r'"
  shows "driving k r'"
proof -
  let ?A = "marks (rn_priority r) \<union> marks (rn_app r)"
  have "table_exact MarkMethod {} {} ?A (rn_methods r)" "table_exact MarkSub {} {} ?A (rn_subs r)"
    using assms(1) by (auto simp: resting_def driving_def sent_exact_def table_exact_def Let_def)
  then have "driving k (r\<lparr>rn_wire := []\<rparr>)"
    using assms(1) by (simp add: resting_def driving_def sent_exact_def no_wrap_def Let_def)
  then show ?thesis
    using assms(2) by (auto simp: drive_start_def session_connect_def Let_def driving_def sent_exact_def no_wrap_def)
qed

lemma resting_disconnected:
  assumes "driving k r" "\<not> rn_socket r"
  shows "resting k (disconnected reason now live r)"
  using assms
  by (auto simp: resting_def driving_def sent_exact_def no_wrap_def table_exact_def disconnected_def Let_def)

interpretation call_life: runner_life driving resting
proof
  fix k and r :: "'g runner" and acked c
  assume "resting (Suc k) r"
  then show "resting k (handle_command acked c r)" by (rule resting_command)
next
  fix k and r r' :: "'g runner" and now
  assume "resting k r" "drive_start now r = Some r'"
  then show "driving k r'" by (rule resting_start)
next
  fix k and r :: "'g runner" and reason now live
  assume "driving k r" "\<not> rn_socket r"
  then show "resting k (disconnected reason now live r)" by (rule resting_disconnected)
qed (auto simp: driving_iter, auto simp: driving_def resting_def sent_exact_def no_wrap_def)

lemma settle_deliveries:
  "rn_delivered (settle live r) = rn_delivered r
     @ fst (snd (disconnect (\<lambda>w. \<exists>n. w = Caller n \<and> live n) (rn_methods (mark_unflushed r))))
     @ fst (snd (disconnect (\<lambda>w. \<exists>n. w = Caller n \<and> live n) (rn_subs (mark_unflushed r))))"
proof -
  have al: "alive live (x\<lparr>rn_needs_flush := False, rn_login_reply := None, rn_handshake_deadline := None\<rparr>)
      = (\<lambda>w. \<exists>n. w = Caller n \<and> live n)" for x :: "'a runner"
    by (auto simp: alive_def fun_eq_iff split: caller.split)
  have tables: "rn_methods (mark_unflushed (r\<lparr>rn_priority := [], rn_app := []\<rparr>)) = rn_methods (mark_unflushed r)
      \<and> rn_subs (mark_unflushed (r\<lparr>rn_priority := [], rn_app := []\<rparr>)) = rn_subs (mark_unflushed r)"
  proof -
    have "rn_methods (fold mark_one ms (r\<lparr>rn_priority := [], rn_app := []\<rparr>)) = rn_methods (fold mark_one ms r)
        \<and> rn_subs (fold mark_one ms (r\<lparr>rn_priority := [], rn_app := []\<rparr>)) = rn_subs (fold mark_one ms r)" for ms
    proof (induction ms arbitrary: r)
      case (Cons m ms)
      have "mark_one m (r\<lparr>rn_priority := [], rn_app := []\<rparr>) = (mark_one m r)\<lparr>rn_priority := [], rn_app := []\<rparr>"
        by (cases m) simp_all
      then show ?case using Cons by simp
    qed simp
    then show ?thesis by (simp add: mark_unflushed_def)
  qed
  show ?thesis
    by (simp add: settle_def Let_def case_prod_unfold al tables) (simp add: mark_unflushed_def)
qed

lemma ex_map_option: "(\<exists>p. map_option f x = Some p \<and> R p) \<longleftrightarrow> (\<exists>q. x = Some q \<and> R (f q))"
  by (cases x) auto

lemma flushed_lookup:
  "fmlookup (co_pending (rn_methods (mark_unflushed r))) i =
     map_option (sent_by (MarkMethod i \<in> set (rn_unflushed r))) (fmlookup (co_pending (rn_methods r)) i)"
  "fmlookup (co_pending (rn_subs (mark_unflushed r))) i =
     map_option (sent_by (MarkSub i \<in> set (rn_unflushed r))) (fmlookup (co_pending (rn_subs r)) i)"
  by (simp_all add: mark_unflushed_def mark_fold_pending)

lemma settled_methods:
  "(w, out) \<in> set (fst (snd (disconnect al (rn_methods (mark_unflushed r))))) \<longleftrightarrow>
    (\<exists>i p. fmlookup (co_pending (rn_methods r)) i = Some p \<and> w = pd_reply p \<and> al w
       \<and> out = Inl (if pd_sent p \<or> MarkMethod i \<in> set (rn_unflushed r) then Abandoned i else NotSent))"
  unfolding disconnect_delivered flushed_lookup ex_map_option sent_by_simps ..

lemma settled_subs:
  "(w, out) \<in> set (fst (snd (disconnect al (rn_subs (mark_unflushed r))))) \<longleftrightarrow>
    (\<exists>i p. fmlookup (co_pending (rn_subs r)) i = Some p \<and> w = pd_reply p \<and> al w
       \<and> out = Inl (if pd_sent p \<or> MarkSub i \<in> set (rn_unflushed r) then Abandoned i else NotSent))"
  unfolding disconnect_delivered flushed_lookup ex_map_option sent_by_simps ..


end
