(* ===== verification/Ddp_Ending.thy ===== *)
theory Ddp_Ending
  imports Ddp_Lifetime
begin

text \<open>
  How the connection task ends and how it comes back: the terminal failure as the last event,
  every table settled, and the backoff that starts over only after a stable session.
\<close>

section \<open>The last event\<close>

definition no_fatal :: "'g runner \<Rightarrow> bool" where
  "no_fatal r = (\<forall>f. EvFatal f \<notin> set (rn_events r))"

definition no_fatal_yet :: "'g runner \<Rightarrow> bool" where
  "no_fatal_yet r = (no_fatal r \<and> rn_state r \<noteq> CsFatal \<and> \<not> rn_socket r)"

lemma no_fatal_text:
  assumes "no_fatal r"
  shows "no_fatal (on_text parse now live t r)"
proof (cases rule: on_text_cases [of parse now live t r])
  case nothing
  then show ?thesis using assms by simp
next
  case (frame x as s)
  have keep: "no_fatal r' \<Longrightarrow> no_fatal (publish x (correlate live x r'))" for r' :: "'a runner"
    by (cases x) (auto simp: no_fatal_def)
  have act: "no_fatal r' \<Longrightarrow> no_fatal (apply_action now a r')" for a and r' :: "'a runner"
    by (cases a) (auto simp: no_fatal_def runner_login_eq Let_def)
  have "no_fatal r' \<Longrightarrow> no_fatal (fold (apply_action now) as r')" for r' :: "'a runner"
    by (rule fold_invariant_set [where P = no_fatal]) (use act in auto)
  then show ?thesis using frame(2) keep assms by (simp add: no_fatal_def)
qed

lemma no_fatal_iter:
  assumes "no_fatal r"
  shows "no_fatal (snd (drive_iter parse env r))"
proof (rule drive_iter_induct [where I = no_fatal])
  fix r r' :: "'a runner" and x
  assume "no_fatal r" "pop_outbound r = (x, r')"
  then show "no_fatal r' \<and> no_fatal (handed x r') \<and> rn_session r' = rn_session r"
    using pop_outbound_frame [of r] by (simp add: no_fatal_def handed_def)
next
  fix r :: "'a runner" and c
  assume "no_fatal r"
  then show "no_fatal (handle_command (pe_acked env) c r)"
    by (cases c) (auto simp: no_fatal_def Let_def split: prod.split)
next
  fix r :: "'a runner"
  assume "no_fatal r"
  then show "no_fatal (snd (on_deadline (pe_now env) r))"
    by (auto simp: on_deadline_def no_fatal_def Let_def split: prod.split liveness.split)
qed (use assms no_fatal_text in \<open>simp_all add: no_fatal_def mark_unflushed_def\<close>)

lemma disconnected_frame:
  "rn_events (disconnected reason now live r) = rn_events r @ [EvDisconnected reason]"
  "rn_state (disconnected reason now live r) = CsDisconnected"
  "rn_ready_at (disconnected reason now live r) = None"
  "rn_backoff (disconnected reason now live r) = rn_backoff (stable_reset now r)"
  by (simp_all add: disconnected_def Let_def) (simp add: set_state_def)

interpretation ending_life: runner_life "\<lambda>k. no_fatal" "\<lambda>k. no_fatal_yet"
proof
  fix r :: "'g runner" and acked c
  assume "no_fatal_yet r"
  then show "no_fatal_yet (handle_command acked c r)"
    by (cases c) (auto simp: no_fatal_yet_def no_fatal_def Let_def split: prod.split)
next
  fix r r' :: "'g runner" and now
  assume "no_fatal_yet r" "drive_start now r = Some r'"
  then show "no_fatal r'"
    by (auto simp: no_fatal_yet_def no_fatal_def drive_start_def session_connect_def Let_def)
next
  fix r :: "'g runner" and reason now live
  assume "no_fatal r" "\<not> rn_socket r"
  then show "no_fatal_yet (disconnected reason now live r)"
    by (simp add: no_fatal_yet_def no_fatal_def disconnected_frame)
qed (auto simp: no_fatal_iter, auto simp: no_fatal_def no_fatal_yet_def set_state_def)

lemma finish_frame [simp]:
  "rn_events (finish live r) = rn_events r" "rn_priority (finish live r) = []" "rn_app (finish live r) = []"
  "co_pending (rn_methods (finish live r)) = fmempty" "co_pending (rn_subs (finish live r)) = fmempty"
  "rn_state (finish live r) = (if rn_state r = CsFatal then CsFatal else CsClosed)"
  by (auto simp: finish_def set_state_def)

text \<open>C4: When the task ends, nothing is left behind and the end is told once: its state is closed or fatal, both
  lanes are empty and no caller waits; it is fatal exactly if a terminal failure was broadcast, and that was the
  last event of the stream.\<close>

lemma task_ends_settled:
  assumes "spawn g now cfg = Some r0" "run draw parse as r0 = Some (Stop, r)"
  shows "rn_state r \<in> {CsFatal, CsClosed} \<and> rn_priority r = [] \<and> rn_app r = []
    \<and> co_pending (rn_methods r) = fmempty \<and> co_pending (rn_subs r) = fmempty
    \<and> (rn_state r = CsFatal \<longleftrightarrow> (\<exists>f es. rn_events r = es @ [EvFatal f]))
    \<and> (\<forall>f es es'. rn_events r = es @ EvFatal f # es' \<longrightarrow> es' = [])"
proof -
  have "no_fatal_yet r0"
    using spawned [OF assms(1)] assms(1) by (auto simp: no_fatal_yet_def no_fatal_def spawn_def runner_new_def)
  from ending_life.stop_life [OF this assms(2)] obtain live r1 where r: "r = finish live r1" and
    fin: "no_fatal_yet r1 \<and> rn_shutdown r1 \<or>
      (\<exists>now live' out r3. no_fatal r3 \<and> finish_outcome now live' out r3 = (Stop, r1))" by blast
  consider (closed) "no_fatal r1" "rn_state r1 \<noteq> CsFatal"
    | (fatal) f es where "rn_events r1 = es @ [EvFatal f]" "\<forall>f'. EvFatal f' \<notin> set es" "rn_state r1 = CsFatal"
    using fin
  proof
    assume "no_fatal_yet r1 \<and> rn_shutdown r1"
    then show ?thesis using that(1) by (simp add: no_fatal_yet_def)
  next
    assume "\<exists>now live' out r3. no_fatal r3 \<and> finish_outcome now live' out r3 = (Stop, r1)"
    then obtain now live' out r3 where r3: "no_fatal r3" "finish_outcome now live' out r3 = (Stop, r1)" by blast
    then show ?thesis
      using that by (cases out) (auto simp: finish_outcome_def no_fatal_def Let_def set_state_def)
  qed
  then show ?thesis
  proof cases
    case closed
    then show ?thesis by (auto simp: r no_fatal_def)
  next
    case (fatal f es)
    have "es' = []" if "es @ [EvFatal f] = as @ EvFatal f' # es'" for as f' es'
    proof (rule ccontr)
      assume "es' \<noteq> []"
      then have "EvFatal f' \<in> set es" using that by (cases es' rule: rev_cases) auto
      with fatal(2) show False by blast
    qed
    with fatal show ?thesis by (auto simp: r)
  qed
qed

section \<open>The backoff\<close>

definition session_seen :: "nat \<Rightarrow> instant set \<Rightarrow> 'g backoff \<Rightarrow> config \<Rightarrow> 'g runner \<Rightarrow> bool" where
  "session_seen n T b c r = (rn_backoff r = b \<and> rn_config r = c \<and> n \<le> length (rn_events r)
     \<and> (\<forall>t. rn_ready_at r = Some t \<longrightarrow> t \<in> T \<and> (\<exists>e. EvReady e \<in> set (drop n (rn_events r)))))"

lemma session_seen_text:
  assumes "session_seen n T b c r" "now \<in> T"
  shows "session_seen n T b c (on_text parse now live t r)"
proof (cases rule: on_text_cases [of parse now live t r])
  case nothing
  then show ?thesis using assms by simp
next
  case (frame x as s)
  have keep: "session_seen n T b c r' \<Longrightarrow> session_seen n T b c (publish x (correlate live x r'))" for r' :: "'a runner"
    by (cases x) (auto simp: session_seen_def)
  have act: "session_seen n T b c r' \<Longrightarrow> session_seen n T b c (apply_action now a r')" for a and r' :: "'a runner"
    using assms(2) by (cases a) (auto simp: session_seen_def runner_login_eq Let_def)
  have "session_seen n T b c r' \<Longrightarrow> session_seen n T b c (fold (apply_action now) as r')" for r' :: "'a runner"
    by (rule fold_invariant_set [where P = "session_seen n T b c"]) (use act in auto)
  moreover have "session_seen n T b c (r\<lparr>rn_session := s\<rparr>)" using assms(1) by (simp add: session_seen_def)
  ultimately show ?thesis unfolding frame(2) by (intro keep)
qed

lemma session_seen_iter:
  assumes "session_seen n T b c r" "pe_now env \<in> T"
  shows "session_seen n T b c (snd (drive_iter parse env r))"
proof (rule drive_iter_induct [where I = "session_seen n T b c"])
  fix r r' :: "'a runner" and x
  assume "session_seen n T b c r" "pop_outbound r = (x, r')"
  then show "session_seen n T b c r' \<and> session_seen n T b c (handed x r') \<and> rn_session r' = rn_session r"
    using pop_outbound_frame [of r] by (simp add: session_seen_def handed_def)
next
  fix r :: "'a runner" and cm
  assume "session_seen n T b c r"
  then show "session_seen n T b c (handle_command (pe_acked env) cm r)"
    by (cases cm) (auto simp: session_seen_def Let_def split: prod.split)
next
  fix r :: "'a runner"
  assume "session_seen n T b c r"
  then show "session_seen n T b c (snd (on_deadline (pe_now env) r))"
    by (auto simp: on_deadline_def session_seen_def Let_def split: prod.split liveness.split)
next
  fix r :: "'a runner" and t
  assume "session_seen n T b c r"
  then show "session_seen n T b c (on_text parse (pe_now env) (pe_live env) t r)"
    by (rule session_seen_text [OF _ assms(2)])
qed (use assms(1) in \<open>simp_all add: session_seen_def mark_unflushed_def\<close>)

lemma session_seen_loop:
  assumes "session_seen n T b c r" "pe_now ` set envs \<subseteq> T"
  shows "session_seen n T b c (snd (drive_loop parse envs r))"
  using assms
proof (induction envs arbitrary: r)
  case (Cons env envs)
  then have "session_seen n T b c (snd (drive_iter parse env r))" by (intro session_seen_iter) auto
  with Cons show ?case by (cases "drive_iter parse env r") (auto split: option.split)
qed simp

lemma idle_frame [simp]:
  "rn_backoff (idle acked cs r) = rn_backoff r" "rn_config (idle acked cs r) = rn_config r"
  "rn_ready_at (idle acked cs r) = rn_ready_at r" "rn_events (idle acked cs r) = rn_events r"
proof -
  have "rn_backoff (handle_command acked c r) = rn_backoff r \<and> rn_config (handle_command acked c r) = rn_config r
    \<and> rn_ready_at (handle_command acked c r) = rn_ready_at r \<and> rn_events (handle_command acked c r) = rn_events r"
    for c and r :: "'a runner"
    by (cases c) (auto simp: Let_def split: prod.split)
  then have "rn_backoff (idle acked cs r) = rn_backoff r \<and> rn_config (idle acked cs r) = rn_config r
    \<and> rn_ready_at (idle acked cs r) = rn_ready_at r \<and> rn_events (idle acked cs r) = rn_events r"
    by (induction cs arbitrary: r) (auto simp: Let_def split: option.split)
  then show "rn_backoff (idle acked cs r) = rn_backoff r" "rn_config (idle acked cs r) = rn_config r"
    "rn_ready_at (idle acked cs r) = rn_ready_at r" "rn_events (idle acked cs r) = rn_events r" by simp_all
qed

lemma begin_attempt_frame [simp]:
  "bo_attempt (rn_backoff (begin_attempt draw a r)) = sat_inc_u32 (bo_attempt (rn_backoff r))"
  "rn_config (begin_attempt draw a r) = rn_config r" "rn_ready_at (begin_attempt draw a r) = rn_ready_at r"
  "rn_events (begin_attempt draw a r) = rn_events r"
proof -
  obtain d b where nd: "next_delay draw (rn_backoff r) = (d, b)" by force
  then have "bo_attempt b = sat_inc_u32 (bo_attempt (rn_backoff r))"
    using next_delay_attempt [of draw "rn_backoff r"] by simp
  then show "bo_attempt (rn_backoff (begin_attempt draw a r)) = sat_inc_u32 (bo_attempt (rn_backoff r))"
    "rn_config (begin_attempt draw a r) = rn_config r" "rn_ready_at (begin_attempt draw a r) = rn_ready_at r"
    "rn_events (begin_attempt draw a r) = rn_events r"
    by (simp_all add: begin_attempt_def nd Let_def)
qed

lemma stable_reset_attempt:
  "bo_attempt (rn_backoff (stable_reset now r)) =
     (if \<exists>t. rn_ready_at r = Some t \<and> cf_stable_after (rn_config r) \<le> now - t then 0 else bo_attempt (rn_backoff r))"
  by (auto simp: stable_reset_def Let_def split: option.split)

lemma announced_frame:
  "bo_attempt (rn_backoff (announced draw a r)) = sat_inc_u32 (bo_attempt (rn_backoff r))"
  "rn_config (announced draw a r) = rn_config r" "rn_ready_at (announced draw a r) = rn_ready_at r"
  "length (rn_events r) \<le> length (rn_events (announced draw a r))"
  by (simp_all add: announced_def Let_def)

lemma attempt_goes_on:
  assumes "run_attempt draw parse a r = Some (GoOn, r')"
  obtains (unopened) reason where "r' = disconnected reason (at_ended a) (at_live a) (announced draw a r)"
  | (closed) r3 reason r4 where "drive_start (at_opened a) (announced draw a r) = Some r3"
      "drive_loop parse (at_polls a) r3 = (Some (OutClosed reason), r4)"
      "r' = disconnected reason (at_ended a) (at_live a) (r4\<lparr>rn_socket := False\<rparr>)"
  using assms
proof (cases rule: run_attempt_cases)
  case (finished r3 out r4)
  then show thesis using closed by (cases out) (auto simp: finish_outcome_def Let_def)
qed (use unopened in auto)

lemma session_ready_attempt:
  assumes "session_seen n T b c r" "rn_ready_at r = Some t"
  shows "\<exists>e. EvReady e \<in> set (drop n (rn_events r)) \<and> t \<in> T"
  using assms by (auto simp: session_seen_def)


end
