(* ===== verification/Ddp_Registry.thy ===== *)
theory Ddp_Registry
  imports Ddp_Protocol
begin

text \<open>
  The subscription registry, \<open>rocketsocket-realtime/src/subscription.rs\<close>: what a client is
  subscribed to, kept across reconnects, with the reverse index that routes stream events.

  \<open>reg_abs\<close> is the abstract registry: a map from ids to what was subscribed.  The operations
  refine its operations, and the reverse index is exactly the inverse of it.
\<close>

section \<open>State and operations\<close>

record stream_key =
  sk_stream :: str
  sk_event :: str

definition publication :: "stream_key \<Rightarrow> str" where
  "publication k = ''stream-'' @ sk_stream k"

datatype sub_state = SubPending | SubReady | SubInactive

record entry =
  en_key :: stream_key
  en_params :: "json list"
  en_state :: sub_state

record registry =
  rg_by_id :: "(str, entry) fmap"
  rg_by_key :: "(stream_key, str list) fmap"

definition registry_new :: registry where
  "registry_new = \<lparr>rg_by_id = fmempty, rg_by_key = fmempty\<rparr>"

definition reg_len :: "registry \<Rightarrow> nat" where
  "reg_len r = fmlen (rg_by_id r)"

definition reg_is_empty :: "registry \<Rightarrow> bool" where
  "reg_is_empty r = (reg_len r = 0)"

definition subscribers :: "stream_key \<Rightarrow> registry \<Rightarrow> str list" where
  "subscribers k r = (case fmlookup (rg_by_key r) k of None \<Rightarrow> [] | Some ids \<Rightarrow> ids)"

definition reg_insert :: "str \<Rightarrow> stream_key \<Rightarrow> json list \<Rightarrow> registry \<Rightarrow> registry" where
  "reg_insert i k params r =
     \<lparr>rg_by_id = fmupd i \<lparr>en_key = k, en_params = params, en_state = SubPending\<rparr> (rg_by_id r),
      rg_by_key = fmupd k (subscribers k r @ [i]) (rg_by_key r)\<rparr>"

definition reg_state :: "str \<Rightarrow> registry \<Rightarrow> sub_state option" where
  "reg_state i r = map_option en_state (fmlookup (rg_by_id r) i)"

definition mark_ready :: "str \<Rightarrow> registry \<Rightarrow> bool \<times> registry" where
  "mark_ready i r = (case fmlookup (rg_by_id r) i of
       Some e \<Rightarrow> (True, r\<lparr>rg_by_id := fmupd i (e\<lparr>en_state := SubReady\<rparr>) (rg_by_id r)\<rparr>)
     | None \<Rightarrow> (False, r))"

definition reg_remove :: "str \<Rightarrow> registry \<Rightarrow> bool \<times> registry" where
  "reg_remove i r = (case fmlookup (rg_by_id r) i of
       None \<Rightarrow> (False, r)
     | Some e \<Rightarrow> (True,
         \<lparr>rg_by_id = fmdrop i (rg_by_id r),
          rg_by_key = (case fmlookup (rg_by_key r) (en_key e) of
              None \<Rightarrow> rg_by_key r
            | Some ids \<Rightarrow>
                let ids' = filter (\<lambda>j. j \<noteq> i) ids in
                if ids' = [] then fmdrop (en_key e) (rg_by_key r)
                else fmupd (en_key e) ids' (rg_by_key r))\<rparr>))"

definition connection_lost :: "registry \<Rightarrow> registry" where
  "connection_lost r = r\<lparr>rg_by_id := fmmap (\<lambda>e. e\<lparr>en_state := SubInactive\<rparr>) (rg_by_id r)\<rparr>"

definition mark_replayed :: "registry \<Rightarrow> registry" where
  "mark_replayed r = r\<lparr>rg_by_id := fmmap (\<lambda>e. e\<lparr>en_state := SubPending\<rparr>) (rg_by_id r)\<rparr>"

definition to_replay :: "registry \<Rightarrow> (str \<times> stream_key \<times> json list) list" where
  "to_replay r = List.map_filter
     (\<lambda>i. map_option (\<lambda>e. (i, en_key e, en_params e)) (fmlookup (rg_by_id r) i))
     (sorted_list_of_fset (fmdom (rg_by_id r)))"

definition rekey :: "str \<Rightarrow> str \<Rightarrow> registry \<Rightarrow> bool \<times> registry" where
  "rekey old new r = (case fmlookup (rg_by_id r) old of
       None \<Rightarrow> (False, r)
     | Some e \<Rightarrow> (True,
         \<lparr>rg_by_id = fmupd new (e\<lparr>en_state := SubPending\<rparr>) (fmdrop old (rg_by_id r)),
          rg_by_key = (case fmlookup (rg_by_key r) (en_key e) of
              None \<Rightarrow> rg_by_key r
            | Some ids \<Rightarrow> fmupd (en_key e) (map (\<lambda>j. if j = old then new else j) ids) (rg_by_key r))\<rparr>))"

section \<open>Invariant and abstraction\<close>

definition reg_inv :: "registry \<Rightarrow> bool" where
  "reg_inv r = (\<forall>k.
     fmlookup (rg_by_key r) k \<noteq> Some [] \<and> distinct (subscribers k r)
     \<and> (\<forall>i. i \<in> set (subscribers k r) \<longleftrightarrow> (\<exists>e. fmlookup (rg_by_id r) i = Some e \<and> en_key e = k)))"

definition reg_abs :: "registry \<Rightarrow> str \<Rightarrow> (stream_key \<times> json list) option" where
  "reg_abs r i = map_option (\<lambda>e. (en_key e, en_params e)) (fmlookup (rg_by_id r) i)"

datatype reg_op =
    RgInsert str stream_key "json list"
  | RgMarkReady str
  | RgRemove str
  | RgConnectionLost
  | RgMarkReplayed
  | RgRekey str str

fun reg_step :: "reg_op \<Rightarrow> registry \<Rightarrow> registry" where
  "reg_step (RgInsert i k ps) r = reg_insert i k ps r"
| "reg_step (RgMarkReady i) r = snd (mark_ready i r)"
| "reg_step (RgRemove i) r = snd (reg_remove i r)"
| "reg_step RgConnectionLost r = connection_lost r"
| "reg_step RgMarkReplayed r = mark_replayed r"
| "reg_step (RgRekey old new) r = snd (rekey old new r)"

text \<open>The condition the callers meet: an id is issued once.\<close>

fun fresh_id :: "reg_op \<Rightarrow> registry \<Rightarrow> bool" where
  "fresh_id (RgInsert i k ps) r = (fmlookup (rg_by_id r) i = None)"
| "fresh_id (RgRekey old new) r = (fmlookup (rg_by_id r) new = None)"
| "fresh_id _ r = True"

fun abs_step :: "reg_op \<Rightarrow> (str \<Rightarrow> (stream_key \<times> json list) option) \<Rightarrow> str \<Rightarrow> (stream_key \<times> json list) option" where
  "abs_step (RgInsert i k ps) m = m(i := Some (k, ps))"
| "abs_step (RgRemove i) m = m(i := None)"
| "abs_step (RgRekey old new) m = (if m old = None then m else m(old := None, new := m old))"
| "abs_step _ m = m"

lemma reg_abs_step: "reg_abs (reg_step x r) = abs_step x (reg_abs r)"
  by (cases x)
    (auto simp: reg_abs_def fun_eq_iff reg_insert_def mark_ready_def reg_remove_def connection_lost_def
      mark_replayed_def rekey_def option.map_comp comp_def split: option.splits)

lemma subscribers_insert:
  "subscribers k (reg_insert i k' ps r) = (if k = k' then subscribers k r @ [i] else subscribers k r)"
  by (simp add: subscribers_def reg_insert_def)

lemma subscribers_remove:
  assumes "reg_inv r"
  shows "subscribers k (snd (reg_remove i r)) = filter (\<lambda>j. j \<noteq> i) (subscribers k r)"
proof (cases "fmlookup (rg_by_id r) i")
  case None
  then have "i \<notin> set (subscribers k r)" using assms by (auto simp: reg_inv_def)
  then have "filter (\<lambda>j. j \<noteq> i) (subscribers k r) = subscribers k r" by (intro filter_True) auto
  moreover have "snd (reg_remove i r) = r" using None by (simp add: reg_remove_def)
  ultimately show ?thesis by (simp only:)
next
  case (Some e)
  show ?thesis
  proof (cases "k = en_key e")
    case True
    with Some show ?thesis by (auto simp: reg_remove_def subscribers_def Let_def split: option.splits)
  next
    case False
    with Some have "i \<notin> set (subscribers k r)" using assms by (auto simp: reg_inv_def)
    then have "filter (\<lambda>j. j \<noteq> i) (subscribers k r) = subscribers k r" by (intro filter_True) auto
    moreover have "subscribers k (snd (reg_remove i r)) = subscribers k r"
      using Some False by (simp add: reg_remove_def subscribers_def Let_def split: option.splits)
    ultimately show ?thesis by simp
  qed
qed

lemma subscribers_rekey:
  assumes "reg_inv r" "fmlookup (rg_by_id r) old \<noteq> None"
  shows "subscribers k (snd (rekey old new r)) = map (\<lambda>j. if j = old then new else j) (subscribers k r)"
proof -
  obtain e where e: "fmlookup (rg_by_id r) old = Some e" using assms(2) by blast
  show ?thesis
  proof (cases "k = en_key e")
    case True
    with e show ?thesis by (simp add: rekey_def subscribers_def split: option.splits)
  next
    case False
    with e have "old \<notin> set (subscribers k r)" using assms(1) by (auto simp: reg_inv_def)
    then have "map (\<lambda>j. if j = old then new else j) (subscribers k r) = subscribers k r"
      by (intro map_idI) auto
    moreover have "subscribers k (snd (rekey old new r)) = subscribers k r"
      using e False by (simp add: rekey_def subscribers_def split: option.splits)
    ultimately show ?thesis by simp
  qed
qed

lemma subscribers_state [simp]:
  "subscribers k (snd (mark_ready i r)) = subscribers k r"
  "subscribers k (connection_lost r) = subscribers k r"
  "subscribers k (mark_replayed r) = subscribers k r"
  by (simp_all add: subscribers_def mark_ready_def connection_lost_def mark_replayed_def split: option.splits)

text \<open>The invariant over the abstract registry and the routes.\<close>

lemma reg_inv_abs:
  "reg_inv r \<longleftrightarrow> (\<forall>k. fmlookup (rg_by_key r) k \<noteq> Some [] \<and> distinct (subscribers k r)
     \<and> (\<forall>i. i \<in> set (subscribers k r) \<longleftrightarrow> (\<exists>ps. reg_abs r i = Some (k, ps))))"
  by (auto simp: reg_inv_def reg_abs_def)

lemma by_key_nonempty:
  assumes "\<forall>k. fmlookup (rg_by_key r) k \<noteq> Some []"
  shows "fmlookup (rg_by_key (reg_step x r)) k \<noteq> Some []"
  using assms
  by (cases x)
    (auto simp: reg_insert_def mark_ready_def reg_remove_def connection_lost_def mark_replayed_def rekey_def
      Let_def split: option.splits if_splits)

interpretation rg: guarded_invariant reg_step fresh_id reg_inv
proof
  fix r x
  assume inv: "reg_inv r" and fresh: "fresh_id x r"
  have ne: "fmlookup (rg_by_key (reg_step x r)) k \<noteq> Some []" for k
    using inv by (intro by_key_nonempty) (simp add: reg_inv_def)
  have route: "i \<in> set (subscribers k r) \<longleftrightarrow> (\<exists>ps. reg_abs r i = Some (k, ps))" and
    dist: "distinct (subscribers k r)" for i k
    using inv by (auto simp: reg_inv_abs)
  have absN: "reg_abs r i = None \<longleftrightarrow> fmlookup (rg_by_id r) i = None" for i by (simp add: reg_abs_def)
  have "distinct (subscribers k (reg_step x r))
      \<and> (\<forall>i. i \<in> set (subscribers k (reg_step x r)) \<longleftrightarrow> (\<exists>ps. abs_step x (reg_abs r) i = Some (k, ps)))" for k
  proof (cases x)
    case (RgInsert i k' ps)
    with fresh show ?thesis
      using dist [of k] route by (auto simp: subscribers_insert absN [symmetric])
  next
    case (RgRemove i)
    then show ?thesis
      using dist [of k] route by (auto simp: subscribers_remove [OF inv])
  next
    case (RgRekey old new)
    show ?thesis
    proof (cases "reg_abs r old")
      case None
      then have "snd (rekey old new r) = r" by (simp add: rekey_def absN)
      with None RgRekey show ?thesis using dist [of k] route by simp
    next
      case (Some e)
      have new: "new \<notin> set (subscribers k r)"
        using fresh RgRekey route [of new k] by (auto simp: absN [symmetric])
      have new_ne: "new \<noteq> old" using fresh RgRekey Some by (auto simp: absN [symmetric])
      have sub: "subscribers k (snd (rekey old new r)) = map (\<lambda>j. if j = old then new else j) (subscribers k r)"
        using Some by (intro subscribers_rekey [OF inv]) (simp flip: absN)
      have "distinct (map (\<lambda>j. if j = old then new else j) (subscribers k r))"
        using new dist [of k] by (auto simp: distinct_map inj_on_def)
      then show ?thesis
        using RgRekey Some new new_ne route [of _ k] by (auto simp: sub image_iff)
    qed
  qed (use dist [of k] route in simp_all)
  with ne show "reg_inv (reg_step x r)"
    by (simp add: reg_inv_abs reg_abs_step)
qed

lemma registry_new_inv [simp]: "reg_inv registry_new"
  by (simp add: reg_inv_def registry_new_def subscribers_def)

section \<open>Properties\<close>

lemma to_replay_exact:
  "set (to_replay r) = {(i, k, ps). reg_abs r i = Some (k, ps)}" 
  "sorted_wrt (<) (map fst (to_replay r))"
proof -
  have fst_map: "map fst (List.map_filter (\<lambda>i. map_option (\<lambda>e. (i, en_key e, en_params e)) (f i)) xs)
      = filter (\<lambda>i. f i \<noteq> None) xs" for f and xs :: "str list"
    by (induction xs) (auto simp: List.map_filter_simps split: option.splits)
  show "set (to_replay r) = {(i, k, ps). reg_abs r i = Some (k, ps)}"
  proof (rule set_eqI, clarify)
    fix i k ps
    have "(i, k, ps) \<in> set (to_replay r) \<longleftrightarrow>
        (\<exists>j e. fmlookup (rg_by_id r) j = Some e \<and> (i, k, ps) = (j, en_key e, en_params e))"
      unfolding to_replay_def List.map_filter_def by (force simp: fmlookup_dom_iff)
    then show "(i, k, ps) \<in> set (to_replay r) \<longleftrightarrow> (i, k, ps) \<in> {(i, k, ps). reg_abs r i = Some (k, ps)}"
      by (auto simp: reg_abs_def)
  qed
  have "sorted_wrt (<) (sorted_list_of_fset (fmdom (rg_by_id r)))"
    by (simp add: sorted_list_of_fset.rep_eq)
  then show "sorted_wrt (<) (map fst (to_replay r))"
    by (simp add: to_replay_def fst_map sorted_wrt_filter)
qed

text \<open>C39: Routing is exact: after any operations in which an id is issued once, the subscribers of a stream key are
  exactly the ids remembered under that key, each of them once, and no key is kept without subscribers.\<close>

lemma routing_exact:
  assumes "guarded reg_step fresh_id xs registry_new"
  shows "let r = fold reg_step xs registry_new in
    distinct (subscribers k r) \<and> set (subscribers k r) = {i. \<exists>ps. reg_abs r i = Some (k, ps)}
    \<and> (k |\<in>| fmdom (rg_by_key r) \<longleftrightarrow> (\<exists>i ps. reg_abs r i = Some (k, ps)))"
proof -
  let ?r = "fold reg_step xs registry_new"
  have inv: "reg_inv ?r" by (rule rg.guarded_run [OF registry_new_inv assms])
  then have "k |\<in>| fmdom (rg_by_key ?r) \<longleftrightarrow> subscribers k ?r \<noteq> []"
    by (auto simp: reg_inv_def subscribers_def fmlookup_dom_iff split: option.splits)
  also have "\<dots> \<longleftrightarrow> (\<exists>i ps. reg_abs ?r i = Some (k, ps))"
  proof -
    have "subscribers k ?r \<noteq> [] \<longleftrightarrow> (\<exists>i. i \<in> set (subscribers k ?r))" by (cases "subscribers k ?r") auto
    with inv show ?thesis by (simp add: reg_inv_abs)
  qed
  finally show ?thesis using inv by (auto simp: reg_inv_abs Let_def)
qed

lemma routing_exact_witness:
  "set (subscribers \<lparr>sk_stream = ''a'', sk_event = ''b''\<rparr>
    (fold reg_step [RgInsert ''s0'' \<lparr>sk_stream = ''a'', sk_event = ''b''\<rparr> [], RgConnectionLost, RgRekey ''s0'' ''s1''] registry_new)) = {''s1''}"
  using routing_exact [of "[RgInsert ''s0'' \<lparr>sk_stream = ''a'', sk_event = ''b''\<rparr> [], RgConnectionLost, RgRekey ''s0'' ''s1'']"
    "\<lparr>sk_stream = ''a'', sk_event = ''b''\<rparr>"]
  by (simp add: Let_def reg_insert_def connection_lost_def registry_new_def reg_abs_def rekey_def subscribers_def)

text \<open>What is replayed after a reconnect is what was subscribed: the registry implements the map from ids to
  subscriptions, the replay lists that map in the order of the ids, losing the connection or an acknowledgement
  never changes it, and moving a subscription to a new id keeps its key and parameters.\<close>

lemma replay_refines:
  "reg_abs (fold reg_step xs r) = fold abs_step xs (reg_abs r)
    \<and> sorted_wrt (<) (map fst (to_replay r))
    \<and> set (to_replay r) = {(i, k, ps). reg_abs r i = Some (k, ps)}
    \<and> to_replay (connection_lost r) = to_replay r \<and> to_replay (snd (mark_ready i r)) = to_replay r"
proof -
  have "reg_abs (fold reg_step xs r) = fold abs_step xs (reg_abs r)"
    by (induction xs arbitrary: r) (simp_all add: reg_abs_step)
  moreover have replay_abs: "to_replay r' = List.map_filter (\<lambda>i. map_option (\<lambda>(k, ps). (i, k, ps)) (reg_abs r' i))
      (sorted_list_of_fset (fmdom (rg_by_id r')))" for r'
    by (simp add: to_replay_def reg_abs_def option.map_comp comp_def)
  have "fmdom (rg_by_id (connection_lost r)) = fmdom (rg_by_id r)"
    by (simp add: connection_lost_def)
  moreover have "fmdom (rg_by_id (snd (mark_ready i r))) = fmdom (rg_by_id r)"
    by (auto simp: mark_ready_def fmlookup_dom_iff split: option.splits)
  ultimately show ?thesis
    using to_replay_exact [of r] reg_abs_step [of RgConnectionLost r] reg_abs_step [of "RgMarkReady i" r]
    by (simp add: replay_abs)
qed

lemma reg_len_0: "reg_is_empty r \<longleftrightarrow> (\<forall>i. reg_abs r i = None)"
proof -
  have "(rg_by_id r = fmempty) \<longleftrightarrow> (\<forall>i. fmlookup (rg_by_id r) i = None)"
    by (metis fmap_ext fmempty_lookup)
  then show ?thesis by (simp add: reg_is_empty_def reg_len_def fmlen_0 reg_abs_def)
qed

end
