(* ===== verification/Ddp_Client.thy ===== *)
theory Ddp_Client
  imports Ddp_Connection Ddp_Registry
begin

text \<open>
  The client with durable subscriptions, \<open>rocketsocket-realtime/src/client.rs\<close>: a
  subscription is remembered once the server granted it, and the supervisor replays what is
  remembered after each login and forwards every event of the connection.

  \<open>answers\<close> is what the connection's \<open>subscribe\<close> answers to the replay of each remembered id,
  \<open>open_tx\<close> whether the application still takes events, and \<open>decode\<close> the typed view of a
  stream event that \<open>rocketsocket-model/src/event.rs\<close> gives, which nothing here looks into.
  Here a replay is one step; \<open>Ddp_Durable\<close> interleaves it.
\<close>

section \<open>Events and operations\<close>

datatype 'e client_event =
    CeStream stream_key 'e "json list"
  | CeResubscribed u64 nat
  | CeConnection event

definition stream_key_of_event :: "raw_event \<Rightarrow> stream_key" where
  "stream_key_of_event e = \<lparr>sk_stream = re_stream e, sk_event = re_event_name e\<rparr>"

definition stream_key_of :: "server_message \<Rightarrow> stream_key option" where
  "stream_key_of x = map_option stream_key_of_event (as_stream_event x)"

definition subscribe_params :: "stream_key \<Rightarrow> json list" where
  "subscribe_params k =
     [JString (sk_event k), JObject (obj_of [(''useCollection'', JBool False), (''args'', JArray [])])]"

definition subscribe :: "str \<Rightarrow> str \<Rightarrow> (str \<Rightarrow> json list \<Rightarrow> call_error + str) \<Rightarrow> registry
    \<Rightarrow> (call_error + stream_key) \<times> registry" where
  "subscribe stream event connection_subscribe r =
     (let k = \<lparr>sk_stream = stream, sk_event = event\<rparr>; params = subscribe_params k in
      case connection_subscribe (publication k) params of
        Inl e \<Rightarrow> (Inl e, r)
      | Inr i \<Rightarrow> (Inr k, reg_insert i k params r))"

definition replay_one :: "(str \<Rightarrow> call_error + str) \<Rightarrow> str \<times> stream_key \<times> json list
    \<Rightarrow> registry \<times> nat \<Rightarrow> registry \<times> nat" where
  "replay_one answers p s = (case (p, s) of ((old, k, ps), (r, n)) \<Rightarrow>
     (case answers old of
        Inr new \<Rightarrow> (snd (rekey old new r), n + 1)
      | Inl e \<Rightarrow> (snd (reg_remove old r), n)))"

definition replay :: "(str \<Rightarrow> call_error + str) \<Rightarrow> registry \<Rightarrow> registry \<times> nat" where
  "replay answers r = fold (replay_one answers) (to_replay r) (r, 0)"

text \<open>One round of the supervisor: the event forwarded, the registry, and whether it goes on.\<close>

definition supervise_event ::
  "(str \<Rightarrow> str \<Rightarrow> json list \<Rightarrow> 'e) \<Rightarrow> (str \<Rightarrow> call_error + str) \<Rightarrow> event \<Rightarrow> registry
    \<Rightarrow> 'e client_event \<times> registry \<times> bool" where
  "supervise_event decode answers ev r = (case ev of
       EvDisconnected reason \<Rightarrow> (CeConnection ev, connection_lost r, True)
     | EvResubscribe e \<Rightarrow> (let (r', n) = replay answers r in (CeResubscribed e n, r', True))
     | EvFrame x \<Rightarrow> (case as_stream_event x of
           Some s \<Rightarrow> (CeStream (stream_key_of_event s)
              (decode (re_stream s) (re_event_name s) (re_args s)) (re_args s), r, True)
         | None \<Rightarrow> (CeConnection ev, r, True))
     | EvFatal f \<Rightarrow> (CeConnection ev, r, False)
     | _ \<Rightarrow> (CeConnection ev, r, True))"

fun supervise ::
  "(str \<Rightarrow> str \<Rightarrow> json list \<Rightarrow> 'e) \<Rightarrow> (event \<times> (str \<Rightarrow> call_error + str) \<times> bool) list \<Rightarrow> registry
    \<Rightarrow> 'e client_event list \<times> registry" where
  "supervise decode [] r = ([], r)"
| "supervise decode ((ev, answers, open_tx) # evs) r =
     (let (out, r', continue) = supervise_event decode answers ev r in
      if \<not> open_tx then ([], r')
      else if \<not> continue then ([out], r')
      else (let (outs, r'') = supervise decode evs r' in (out # outs, r'')))"

section \<open>Replay\<close>

lemma replay_one_abs:
  "reg_abs (fst (replay_one answers (old, k, ps) (r, n))) =
     (case answers old of Inr new \<Rightarrow> abs_step (RgRekey old new) (reg_abs r) | Inl e \<Rightarrow> abs_step (RgRemove old) (reg_abs r))"
  using reg_abs_step [of "RgRemove old" r] reg_abs_step [of "RgRekey old (projr (answers old))" r]
  by (auto simp: replay_one_def split: sum.split)

lemma replay_fold_abs:
  assumes "distinct (map fst xs)" "\<forall>x \<in> set xs. reg_abs r (fst x) \<noteq> None"
    and "\<forall>o1 \<in> fst ` set xs. \<forall>o2 \<in> fst ` set xs. \<forall>n. answers o1 = Inr n \<and> answers o2 = Inr n \<longrightarrow> o1 = o2"
    and "\<forall>o1 \<in> fst ` set xs. \<forall>n. answers o1 = Inr n \<longrightarrow> reg_abs r n = None"
  shows "reg_abs (fst (fold (replay_one answers) xs (r, c))) n = Some s \<longleftrightarrow>
    (\<exists>o1 \<in> fst ` set xs. reg_abs r o1 = Some s \<and> answers o1 = Inr n) \<or> (n \<notin> fst ` set xs \<and> reg_abs r n = Some s)"
  using assms
proof (induction xs arbitrary: r c)
  case (Cons x xs)
  obtain old k ps where x: "x = (old, k, ps)" by (cases x) auto
  obtain r1 c1 where r1: "replay_one answers x (r, c) = (r1, c1)" by force
  have notin: "old \<notin> fst ` set xs" using Cons.prems(1) x by auto
  have m1: "reg_abs r1 i = (case answers old of
      Inr new \<Rightarrow> (if i = new then reg_abs r old else if i = old then None else reg_abs r i)
    | Inl e \<Rightarrow> (if i = old then None else reg_abs r i))" for i
    using replay_one_abs [of answers old k ps r c] Cons.prems(2) x r1 by (auto split: sum.splits)
  have same: "reg_abs r1 i = reg_abs r i" if "i \<in> fst ` set xs" for i
  proof -
    have "i \<noteq> old" using that notin by blast
    moreover have "answers old \<noteq> Inr i" using Cons.prems(2,4) that x by auto
    ultimately show ?thesis by (auto simp: m1 split: sum.split)
  qed
  have "reg_abs (fst (fold (replay_one answers) xs (r1, c1))) n = Some s \<longleftrightarrow>
      (\<exists>o1 \<in> fst ` set xs. reg_abs r1 o1 = Some s \<and> answers o1 = Inr n) \<or> (n \<notin> fst ` set xs \<and> reg_abs r1 n = Some s)"
  proof (rule Cons.IH)
    show "distinct (map fst xs)" using Cons.prems(1) by simp
    show "\<forall>x \<in> set xs. reg_abs r1 (fst x) \<noteq> None" using Cons.prems(2) same by auto
    show "\<forall>o1 \<in> fst ` set xs. \<forall>o2 \<in> fst ` set xs. \<forall>n. answers o1 = Inr n \<and> answers o2 = Inr n \<longrightarrow> o1 = o2"
      using Cons.prems(3) by simp
    show "\<forall>o1 \<in> fst ` set xs. \<forall>n. answers o1 = Inr n \<longrightarrow> reg_abs r1 n = None"
    proof (intro ballI allI impI)
      fix o1 n' assume o1: "o1 \<in> fst ` set xs" "answers o1 = Inr n'"
      then have "answers old \<noteq> Inr n'" using Cons.prems(3) x notin by (metis fst_conv image_insert insertCI list.simps(15))
      moreover have "reg_abs r n' = None" using bspec [OF Cons.prems(4), of o1] o1 by simp
      ultimately show "reg_abs r1 n' = None" by (auto simp: m1 split: sum.split)
    qed
  qed
  also have "\<dots> \<longleftrightarrow> (\<exists>o1 \<in> fst ` set (x # xs). reg_abs r o1 = Some s \<and> answers o1 = Inr n)
      \<or> (n \<notin> fst ` set (x # xs) \<and> reg_abs r n = Some s)"
  proof (cases "n \<in> fst ` set xs")
    case True
    then have "answers old \<noteq> Inr n" using Cons.prems(2,4) x by auto
    with True show ?thesis using same by (auto simp: x)
  next
    case False
    have "answers old = Inr n \<Longrightarrow> reg_abs r n = None" using Cons.prems(4) x by simp
    moreover have "answers old = Inr n \<Longrightarrow> answers o1 \<noteq> Inr n" if "o1 \<in> fst ` set xs" for o1
      using Cons.prems(3) x notin that by (metis fst_conv image_insert insertCI list.simps(15))
    ultimately show ?thesis using False same by (auto simp: x m1 split: sum.splits if_splits)
  qed
  finally show ?case by (simp add: r1)
qed simp

lemma replay_count:
  "snd (fold (replay_one answers) xs (r, c)) = c + length (filter (\<lambda>x. \<not> isl (answers (fst x))) xs)"
  by (induction xs arbitrary: r c) (auto simp: replay_one_def split: sum.splits)

text \<open>A reconnect restores what was granted: when the connection answers the replay with fresh ids, the registry
  afterwards holds exactly the subscriptions the server granted again, each with its key and parameters under its
  new id, and the count reported is their number.\<close>

lemma replay_exact:
  assumes "\<And>o1 o2 n. answers o1 = Inr n \<Longrightarrow> answers o2 = Inr n \<Longrightarrow> o1 = o2"
    and "\<And>old n. answers old = Inr n \<Longrightarrow> reg_abs r n = None"
  shows "(\<forall>n s. reg_abs (fst (replay answers r)) n = Some s \<longleftrightarrow> (\<exists>old. reg_abs r old = Some s \<and> answers old = Inr n))
    \<and> snd (replay answers r) = card {old. reg_abs r old \<noteq> None \<and> \<not> isl (answers old)}"
proof
  have dist: "distinct (map fst (to_replay r))"
    using to_replay_exact(2) [of r] by (simp add: strict_sorted_iff)
  have dom: "fst ` set (to_replay r) = {old. reg_abs r old \<noteq> None}"
    by (force simp: to_replay_exact(1))
  show "\<forall>n s. reg_abs (fst (replay answers r)) n = Some s \<longleftrightarrow> (\<exists>old. reg_abs r old = Some s \<and> answers old = Inr n)"
  proof (intro allI)
    fix n s
    have "reg_abs (fst (replay answers r)) n = Some s \<longleftrightarrow>
        (\<exists>o1 \<in> fst ` set (to_replay r). reg_abs r o1 = Some s \<and> answers o1 = Inr n)
        \<or> (n \<notin> fst ` set (to_replay r) \<and> reg_abs r n = Some s)"
      unfolding replay_def
    proof (rule replay_fold_abs [OF dist])
      show "\<forall>x \<in> set (to_replay r). reg_abs r (fst x) \<noteq> None" using dom by blast
    qed (use assms in blast)+
    then show "reg_abs (fst (replay answers r)) n = Some s \<longleftrightarrow> (\<exists>old. reg_abs r old = Some s \<and> answers old = Inr n)"
      unfolding dom mem_Collect_eq Bex_def by (metis option.distinct(1))
  qed
  have "length (filter (\<lambda>x. \<not> isl (answers (fst x))) (to_replay r)) = length (filter (\<lambda>i. \<not> isl (answers i)) (map fst (to_replay r)))"
    by (simp add: filter_map comp_def)
  also have "\<dots> = card {i \<in> fst ` set (to_replay r). \<not> isl (answers i)}"
    using distinct_card [OF distinct_filter [OF dist, of "\<lambda>i. \<not> isl (answers i)"]] by (simp only: set_filter list.set_map)
  finally show "snd (replay answers r) = card {old. reg_abs r old \<noteq> None \<and> \<not> isl (answers old)}"
    by (simp add: replay_def replay_count dom)
qed

text \<open>A replay that the connection's end cuts short is answered like a refusal: when every re-subscription is
  answered with the error of a lost connection, the registry forgets everything it held.\<close>

lemma replay_cut_short_forgets: "reg_abs (fst (replay (\<lambda>old. Inl NotSent) r)) n = None"
proof -
  have dist: "distinct (map fst (to_replay r))"
    using to_replay_exact(2) [of r] by (simp add: strict_sorted_iff)
  have dom: "fst ` set (to_replay r) = {old. reg_abs r old \<noteq> None}"
    by (force simp: to_replay_exact(1))
  have "reg_abs (fst (replay (\<lambda>old. Inl NotSent) r)) n \<noteq> Some s" for s
  proof -
    have "reg_abs (fst (fold (replay_one (\<lambda>old. Inl NotSent)) (to_replay r) (r, 0))) n = Some s \<longleftrightarrow>
        (\<exists>o1 \<in> fst ` set (to_replay r). reg_abs r o1 = Some s \<and> (Inl NotSent :: call_error + str) = Inr n)
        \<or> (n \<notin> fst ` set (to_replay r) \<and> reg_abs r n = Some s)"
    proof (rule replay_fold_abs [OF dist])
      show "\<forall>x \<in> set (to_replay r). reg_abs r (fst x) \<noteq> None" using dom by blast
    qed simp_all
    then show ?thesis unfolding replay_def dom by (cases "reg_abs r n") auto
  qed
  then show ?thesis by (cases "reg_abs (fst (replay (\<lambda>old. Inl NotSent) r)) n") auto
qed

section \<open>Forwarding\<close>

fun until_fatal :: "(event \<times> 'a) list \<Rightarrow> (event \<times> 'a) list" where
  "until_fatal [] = []"
| "until_fatal ((ev, a) # evs) = (ev, a) # (case ev of EvFatal f \<Rightarrow> [] | _ \<Rightarrow> until_fatal evs)"

lemma supervise_continue: "snd (snd (supervise_event decode answers ev r)) \<longleftrightarrow> (\<forall>f. ev \<noteq> EvFatal f)"
  by (cases ev) (auto simp: supervise_event_def split: option.split prod.split)

text \<open>The supervisor swallows nothing: while the application listens, every event of the connection up to and
  including a terminal failure becomes one event of the application, in order, and nothing follows the failure.\<close>

lemma supervisor_forwards_all:
  assumes "list_all (\<lambda>(ev, answers, open_tx). open_tx) evs"
  shows "list_all2 (\<lambda>(ev, answers, open_tx) out. \<exists>r'. out = fst (supervise_event decode answers ev r'))
    (until_fatal evs) (fst (supervise decode evs r))"
  using assms
proof (induction evs arbitrary: r)
  case (Cons e evs)
  obtain ev answers tx where e: "e = (ev, answers, tx)" by (cases e) auto
  then have tx: "tx" using Cons.prems by simp
  obtain out r' b where se: "supervise_event decode answers ev r = (out, r', b)" by (cases "supervise_event decode answers ev r") auto
  have b: "b \<longleftrightarrow> (\<forall>f. ev \<noteq> EvFatal f)" using supervise_continue [of decode answers ev r] by (simp add: se)
  have head: "\<exists>r'. out = fst (supervise_event decode answers ev r')" by (rule exI [of _ r]) (simp add: se)
  have IH: "list_all2 (\<lambda>(ev, answers, open_tx) out. \<exists>r'. out = fst (supervise_event decode answers ev r'))
      (until_fatal evs) (fst (supervise decode evs r'))"
    by (rule Cons.IH) (use Cons.prems in simp)
  show ?case
  proof (cases b)
    case False
    then obtain f where "ev = EvFatal f" using b by blast
    then show ?thesis using False head se by (simp add: e tx)
  next
    case True
    then have "until_fatal (e # evs) = e # until_fatal evs" using b by (cases ev) (simp_all add: e)
    moreover have "fst (supervise decode (e # evs) r) = out # fst (supervise decode evs r')"
      by (simp add: e tx se True case_prod_unfold Let_def)
    ultimately show ?thesis using IH head by (simp add: e)
  qed
qed simp

end
