(* ===== verification/Ddp_Witnesses.thy ===== *)
theory Ddp_Witnesses
  imports Ddp_Calls Ddp_Ending Ddp_Client
begin

text \<open>
  The theorems about the connection task and the client at concrete inputs: a task with the
  default configuration, run through one attempt of a poll or two.
\<close>

section \<open>A task\<close>

definition sample_config :: config where
  "sample_config = config_new ''wss://chat/websocket'' (Resume ''token'')"

definition sample_poll :: "read_answer option \<Rightarrow> command option option \<Rightarrow> poll_env" where
  "sample_poll rd cm = \<lparr>pe_now = 1, pe_live = \<lambda>w. True, pe_acked = \<lambda>w. True, pe_sink = [SinkReady None, SinkReady None],
     pe_flush = FlushOk, pe_read = rd, pe_command = cm\<rparr>"

definition sample_attempt :: "poll_env list \<Rightarrow> attempt" where
  "sample_attempt envs = \<lparr>at_acked = \<lambda>w. True, at_idle = [], at_open = OpenOk, at_opened = 0, at_polls = envs,
     at_ended = 2, at_live = \<lambda>w. True\<rparr>"

definition sample_parse :: "str \<Rightarrow> json option" where
  "sample_parse t = Some (JObject [(''msg'', JString t), (''session'', JString ''s'')])"

definition sample_draw :: "nat \<Rightarrow> nat \<Rightarrow> nat \<times> nat" where
  "sample_draw g n = (n, g)"

definition sample_runner :: "nat runner" where
  "sample_runner = the (spawn 0 0 sample_config)"

lemmas run_defs = run_attempt_def begin_attempt_def next_delay_def drive_start_def drive_iter_def poll_step_def
  poll_inputs_def flush_step_def handle_step_def session_connect_def sync_state_def set_state_def emit_def deliver_def
  push_priority_def push_app_def arm_timer_def next_deadline_def idle_for_def with_thresholds_def pop_outbound_def handed_def
  mark_unflushed_def finish_outcome_def finish_def register_def
  settle_def disconnect_def spawn_def runner_new_def session_new_def correlator_new_def with_limits_def Let_def

lemma sample_runner_eq: "sample_runner = \<lparr>rn_config = sample_config, rn_session = session_new DDP_VERSION,
      rn_methods = correlator_new ''m'', rn_subs = correlator_new ''s'',
      rn_liveness = \<lparr>lp_ping_after = 25000000000, lp_dead_after = 45000000000, lp_last_seen = 0, lp_ping_in_flight = False\<rparr>, 
      rn_backoff = \<lparr>bo_base = 1000000000, bo_cap = 64000000000, bo_attempt = 0, bo_rng = 0\<rparr>,
      rn_state = CsDisconnected, rn_socket = False, rn_priority = [], rn_app = [], rn_unflushed = [],
      rn_ready_at = None, rn_needs_flush = False, rn_timer = 0, rn_handshake_deadline = None,
      rn_login_reply = None, rn_fatal = None, rn_shutdown = False, rn_turn = False,
      rn_events = [], rn_wire = [], rn_delivered = [], rn_acks = []\<rparr>"
  by (simp add: sample_runner_def spawn_def runner_new_def sample_config_def config_new_def with_thresholds_def DEFAULT_PING_AFTER_def DEFAULT_DEAD_AFTER_def from_secs_def
    with_limits_def DEFAULT_BASE_def DEFAULT_CAP_def)

lemma sample_config_fields: "cf_ping_after sample_config = 25000000000" "cf_dead_after sample_config = 45000000000"
  "cf_handshake_timeout sample_config = 20000000000" "cf_outbox_capacity sample_config = 256"
  by (simp_all add: sample_config_def config_new_def DEFAULT_PING_AFTER_def DEFAULT_DEAD_AFTER_def from_secs_def)

lemma sample_spawn: "spawn 0 0 sample_config = Some sample_runner"
  by (simp add: sample_runner_def spawn_def runner_new_def sample_config_def config_new_def with_thresholds_def
    DEFAULT_PING_AFTER_def DEFAULT_DEAD_AFTER_def from_secs_def)

lemmas sample_defs = sample_runner_eq sample_config_fields run_defs sample_attempt_def sample_poll_def sat_inc_u32_def

text \<open>An idle poll after the socket opened: the handshake is on the wire.\<close>

lemma sample_idle_run:
  "\<exists>r. run sample_draw sample_parse [sample_attempt [sample_poll None None]] sample_runner = Some (Running, r)
     \<and> rn_socket r \<and> rn_ready_at r = None \<and> rn_wire r = [\<lparr>ob_frame = encode client_connect, ob_mark = None\<rparr>]"
  by (simp add: sample_defs)

text \<open>A call made before the login: registered, queued, not sent.\<close>

lemma sample_call_id: "call_id ''m'' 0 = ''m0''"
  by (simp add: call_id_def nat_to_str_small digit_def char_of_eq_iff)

lemma sample_call_run:
  "\<exists>r. run sample_draw sample_parse [sample_attempt [sample_poll None (Some (Some (CmdCall ''x'' [] 7)))]] sample_runner
       = Some (Running, r)
     \<and> fmlookup (co_pending (rn_methods r)) ''m0'' = Some \<lparr>pd_epoch = 0, pd_sent = False, pd_reply = Caller 7\<rparr>
     \<and> marks (rn_wire r) = {}"
  by (simp add: sample_defs sample_call_id)

text \<open>Every handle dropped: the task stops.\<close>

lemma sample_stop_run:
  "\<exists>r. run sample_draw sample_parse [sample_attempt [sample_poll None (Some None)]] sample_runner = Some (Stop, r)"
  by (simp add: sample_defs)

section \<open>Witnesses\<close>

lemma outbox_bounded_witness:
  "\<exists>r. run sample_draw sample_parse [sample_attempt [sample_poll None (Some (Some (CmdCall ''x'' [] 7)))]] sample_runner
       = Some (Running, r) \<and> length (rn_app r) \<le> cf_outbox_capacity (rn_config r)"
  using outbox_bounded [OF sample_spawn] sample_call_run by blast

lemma login_precedes_all_witness:
  "\<exists>r. run sample_draw sample_parse [sample_attempt [sample_poll None None]] sample_runner = Some (Running, r)
     \<and> list_all (protocol_frame (Resume ''token'')) (rn_wire r)"
  using login_precedes_all [OF sample_spawn] sample_idle_run by (auto simp: sample_config_def config_new_def)


lemma task_ends_settled_witness:
  "\<exists>r. run sample_draw sample_parse [sample_attempt [sample_poll None (Some None)]] sample_runner = Some (Stop, r)
     \<and> rn_state r \<in> {CsFatal, CsClosed} \<and> co_pending (rn_methods r) = fmempty"
  using task_ends_settled [OF sample_spawn] sample_stop_run by blast


lemma replay_exact_witness:
  "let r = connection_lost (reg_insert ''s0'' \<lparr>sk_stream = ''room-messages'', sk_event = ''GENERAL''\<rparr> [] registry_new) in
   reg_abs (fst (replay (\<lambda>old. if old = ''s0'' then Inr ''s1'' else Inl NotSent) r)) ''s1''
     = Some (\<lparr>sk_stream = ''room-messages'', sk_event = ''GENERAL''\<rparr>, [])"
proof -
  define r where "r = connection_lost (reg_insert ''s0'' \<lparr>sk_stream = ''room-messages'', sk_event = ''GENERAL''\<rparr> [] registry_new)"
  have ra: "reg_abs r i = (if i = ''s0'' then Some (\<lparr>sk_stream = ''room-messages'', sk_event = ''GENERAL''\<rparr>, []) else None)" for i
    by (simp add: r_def reg_abs_def connection_lost_def reg_insert_def registry_new_def)
  let ?ans = "\<lambda>old. if old = ''s0'' then Inr ''s1'' else Inl NotSent" 
  have "\<forall>n s. reg_abs (fst (replay ?ans r)) n = Some s \<longleftrightarrow> (\<exists>old. reg_abs r old = Some s \<and> ?ans old = Inr n)"
    by (rule replay_exact [THEN conjunct1]) (auto simp: ra split: if_splits)
  then have "reg_abs (fst (replay ?ans r)) ''s1'' = Some (\<lparr>sk_stream = ''room-messages'', sk_event = ''GENERAL''\<rparr>, [])"
    using ra [of "''s0''"] by metis
  then show ?thesis by (simp add: r_def Let_def)
qed

lemma supervisor_forwards_all_witness:
  "length (fst (supervise (\<lambda>s e args. ()) [(EvConnecting 0, \<lambda>i. Inl NotSent, True), (EvFatal (SessionExpired ''x''), \<lambda>i. Inl NotSent, True),
      (EvReady 0, \<lambda>i. Inl NotSent, True)] registry_new)) = 2"
  using supervisor_forwards_all [of "[(EvConnecting 0, \<lambda>i. Inl NotSent, True), (EvFatal (SessionExpired ''x''), \<lambda>i. Inl NotSent, True),
      (EvReady 0, \<lambda>i. Inl NotSent, True)]" "\<lambda>s e args. ()" registry_new]
  by (auto dest: list_all2_lengthD)

end
