(* ===== verification/Ddp_Standby.thy ===== *)
theory Ddp_Standby
  imports Rs_Prelude "HOL-Library.Multiset"
begin

text \<open>
  Waiting for an event, \<open>rocketsocket-realtime/src/standby.rs\<close>.

  An event is any type \<open>'e\<close>, a predicate a function on it, a \<open>oneshot\<close> sender a token \<open>'w\<close>.
  \<open>open_at_reap\<close> says whose receiver is there when closed waiters are reaped, \<open>open_at_send\<close>
  whose is there when the event is sent.  The lock is never poisoned: a predicate does not
  panic here.
\<close>

section \<open>State and operations\<close>

record ('e, 'w) waiter =
  wt_predicate :: "'e \<Rightarrow> bool"
  wt_sender :: 'w

type_synonym ('e, 'w) standby = "('e, 'w) waiter list"

definition standby_new :: "('e, 'w) standby" where
  "standby_new = []"

definition standby_pending :: "('e, 'w) standby \<Rightarrow> nat" where
  "standby_pending ws = length ws"

definition wait_for :: "('e \<Rightarrow> bool) \<Rightarrow> 'w \<Rightarrow> ('e, 'w) standby \<Rightarrow> ('e, 'w) standby" where
  "wait_for p w ws = ws @ [\<lparr>wt_predicate = p, wt_sender = w\<rparr>]"

fun position :: "('a \<Rightarrow> bool) \<Rightarrow> 'a list \<Rightarrow> nat option" where
  "position p [] = None"
| "position p (x # xs) = (if p x then Some 0 else map_option Suc (position p xs))"

definition remove_at :: "nat \<Rightarrow> 'a list \<Rightarrow> 'a list" where
  "remove_at n xs = take n xs @ drop (Suc n) xs"

definition process :: "('w \<Rightarrow> bool) \<Rightarrow> ('w \<Rightarrow> bool) \<Rightarrow> 'e \<Rightarrow> ('e, 'w) standby
    \<Rightarrow> bool \<times> ('w \<times> 'e) list \<times> ('e, 'w) standby" where
  "process open_at_reap open_at_send e ws =
     (let ws' = filter (\<lambda>w. open_at_reap (wt_sender w)) ws in
      case position (\<lambda>w. wt_predicate w e) ws' of
        None \<Rightarrow> (False, [], ws')
      | Some n \<Rightarrow>
          let w = wt_sender (ws' ! n) in
          (open_at_send w, if open_at_send w then [(w, e)] else [], remove_at n ws'))"

section \<open>The position of the first match\<close>

lemma position_None: "position p xs = None \<longleftrightarrow> (\<forall>x \<in> set xs. \<not> p x)"
  by (induction xs) auto

lemma position_Some:
  "position p xs = Some n \<longleftrightarrow> n < length xs \<and> p (xs ! n) \<and> (\<forall>m < n. \<not> p (xs ! m))"
proof (induction xs arbitrary: n)
  case (Cons x xs)
  show ?case
    by (cases n) (auto simp: Cons.IH less_Suc_eq_0_disj)
qed simp

lemma process_match:
  assumes "filter (\<lambda>w. r (wt_sender w)) ws = pre @ w # post" "\<forall>x \<in> set pre. \<not> wt_predicate x e" "wt_predicate w e"
  shows "process r s e ws = (s (wt_sender w), if s (wt_sender w) then [(wt_sender w, e)] else [], pre @ post)"
proof -
  have "position (\<lambda>w. wt_predicate w e) (pre @ w # post) = Some (length pre)"
    using assms(2,3) by (simp add: position_Some nth_append)
  then show ?thesis by (simp add: process_def assms(1) remove_at_def Let_def)
qed

lemma process_none:
  assumes "\<forall>w \<in> set ws. r (wt_sender w) \<longrightarrow> \<not> wt_predicate w e"
  shows "process r s e ws = (False, [], filter (\<lambda>w. r (wt_sender w)) ws)"
  using assms position_None [of "\<lambda>w. wt_predicate w e" "filter (\<lambda>w. r (wt_sender w)) ws"]
  by (simp add: process_def Let_def)

lemma process_cases:
  obtains (none) "process r s e ws = (False, [], filter (\<lambda>w. r (wt_sender w)) ws)"
      "\<forall>w \<in> set ws. r (wt_sender w) \<longrightarrow> \<not> wt_predicate w e"
  | (match) pre w post where "filter (\<lambda>w. r (wt_sender w)) ws = pre @ w # post" "\<forall>x \<in> set pre. \<not> wt_predicate x e"
      "wt_predicate w e"
      "process r s e ws = (s (wt_sender w), if s (wt_sender w) then [(wt_sender w, e)] else [], pre @ post)"
proof (cases "\<exists>w \<in> set (filter (\<lambda>w. r (wt_sender w)) ws). wt_predicate w e")
  case True
  then obtain pre w post where split: "filter (\<lambda>w. r (wt_sender w)) ws = pre @ w # post"
      "wt_predicate w e" "\<forall>x \<in> set pre. \<not> wt_predicate x e"
    by (rule split_list_first_propE)
  show ?thesis by (rule match [OF split(1) split(3) split(2) process_match [OF split(1) split(3) split(2)]])
next
  case False
  then show ?thesis using none process_none [of ws r e s] by auto
qed

section \<open>Runs\<close>

datatype ('e, 'w) standby_op =
    SbWait "'e \<Rightarrow> bool" 'w
  | SbProcess "'w \<Rightarrow> bool" "'w \<Rightarrow> bool" 'e

fun standby_act :: "('e, 'w) standby_op \<Rightarrow> ('e, 'w) standby \<Rightarrow> ('w \<times> 'e) list \<times> ('e, 'w) standby" where
  "standby_act (SbWait p w) ws = ([], wait_for p w ws)"
| "standby_act (SbProcess r s e) ws = snd (process r s e ws)"

fun standby_run :: "('e, 'w) standby_op list \<Rightarrow> ('e, 'w) standby \<Rightarrow> ('w \<times> 'e) list \<times> ('e, 'w) standby" where
  "standby_run [] ws = ([], ws)"
| "standby_run (x # xs) ws =
     (let (ds, ws') = standby_act x ws; (ds', ws'') = standby_run xs ws' in (ds @ ds', ws''))"

fun waits :: "('e, 'w) standby_op list \<Rightarrow> 'w list" where
  "waits [] = []"
| "waits (SbWait p w # xs) = w # waits xs"
| "waits (SbProcess r s e # xs) = waits xs"

fun wait_predicate :: "('e, 'w) standby_op list \<Rightarrow> 'w \<Rightarrow> ('e \<Rightarrow> bool) option" where
  "wait_predicate [] w = None"
| "wait_predicate (SbWait p v # xs) w = (if v = w then Some p else wait_predicate xs w)"
| "wait_predicate (SbProcess r s e # xs) w = wait_predicate xs w"

lemma mset_filter_split: "filter P ws = pre @ w # post \<Longrightarrow> mset (pre @ post) + {#w#} \<subseteq># mset ws"
proof -
  assume "filter P ws = pre @ w # post"
  then have "mset (pre @ w # post) \<subseteq># mset ws" by (metis mset_filter multiset_filter_subset)
  then show ?thesis by simp
qed

lemma act_tokens:
  "mset (map fst (fst (standby_act x ws))) + mset (map wt_sender (snd (standby_act x ws)))
     \<subseteq># mset (map wt_sender ws) + mset (waits [x])"
proof (cases x)
  case (SbWait p w)
  then show ?thesis by (simp add: wait_for_def)
next
  case (SbProcess r s e)
  show ?thesis
  proof (cases rule: process_cases [of r s e ws])
    case none
    then show ?thesis using SbProcess by (simp add: image_mset_subseteq_mono multiset_filter_subset)
  next
    case (match pre w post)
    have "image_mset wt_sender (mset (pre @ post) + {#w#}) \<subseteq># image_mset wt_sender (mset ws)"
      using mset_filter_split [OF match(1)] by (rule image_mset_subseteq_mono)
    then have *: "{#wt_sender w#} + image_mset wt_sender (mset (pre @ post)) \<subseteq># image_mset wt_sender (mset ws)"
      by simp
    have "image_mset wt_sender (mset (pre @ post)) \<subseteq># image_mset wt_sender (mset ws)"
      using mset_subset_eq_add_right * by (rule subset_mset.order_trans)
    with * show ?thesis using SbProcess match(4) by simp
  qed
qed

lemma run_tokens:
  "mset (map fst (fst (standby_run xs ws))) + mset (map wt_sender (snd (standby_run xs ws)))
     \<subseteq># mset (map wt_sender ws) + mset (waits xs)"
proof (induction xs arbitrary: ws)
  case (Cons x xs)
  let ?ws = "snd (standby_act x ws)"
  have w: "mset (waits (x # xs)) = mset (waits [x]) + mset (waits xs)" by (cases x) simp_all
  have "mset (map fst (fst (standby_act x ws))) + (mset (map fst (fst (standby_run xs ?ws))) + mset (map wt_sender (snd (standby_run xs ?ws))))
      \<subseteq># mset (map fst (fst (standby_act x ws))) + (mset (map wt_sender ?ws) + mset (waits xs))"
    using Cons.IH [of ?ws] by simp
  also have "\<dots> \<subseteq># mset (map wt_sender ws) + mset (waits [x]) + mset (waits xs)"
    using act_tokens [of x ws] by (simp add: add.assoc [symmetric])
  finally show ?case by (simp add: w case_prod_unfold Let_def ac_simps)
qed simp

lemma run_wanted:
  assumes "\<forall>w \<in> set ws. f (wt_sender w) = Some (wt_predicate w)" "\<forall>p w. SbWait p w \<in> set xs \<longrightarrow> f w = Some p"
  shows "\<forall>(w, e) \<in> set (fst (standby_run xs ws)). \<exists>p. f w = Some p \<and> p e"
  using assms
proof (induction xs arbitrary: ws)
  case (Cons x xs)
  have step: "(\<forall>(w, e) \<in> set (fst (standby_act x ws)). \<exists>p. f w = Some p \<and> p e)
      \<and> (\<forall>w \<in> set (snd (standby_act x ws)). f (wt_sender w) = Some (wt_predicate w))"
  proof (cases x)
    case (SbWait p w)
    then show ?thesis using Cons.prems by (auto simp: wait_for_def)
  next
    case (SbProcess r s e)
    show ?thesis
    proof (cases rule: process_cases [of r s e ws])
      case none
      then show ?thesis using SbProcess Cons.prems by simp
    next
      case (match pre w post)
      then have "set pre \<union> {w} \<union> set post \<subseteq> set ws"
        by (metis Un_insert_right filter_is_subset list.simps(15) set_append sup_bot.right_neutral insert_is_Un sup_commute Un_assoc)
      then show ?thesis using SbProcess match Cons.prems by auto
    qed
  qed
  then show ?case
    using Cons.IH [of "snd (standby_act x ws)"] Cons.prems by (auto simp: case_prod_unfold Let_def)
qed simp

lemma wait_predicate_distinct:
  "distinct (waits xs) \<Longrightarrow> SbWait p w \<in> set xs \<Longrightarrow> wait_predicate xs w = Some p"
proof (induction xs rule: waits.induct)
  case (2 q v xs)
  have "SbWait p w \<in> set xs \<Longrightarrow> w \<in> set (waits xs)" for p w and xs :: "('b, 'a) standby_op list"
    by (induction xs rule: waits.induct) auto
  with 2 show ?case by auto
qed auto

lemma distinct_submset:
  assumes "mset xs \<subseteq># mset ys" "distinct ys"
  shows "distinct xs"
proof -
  have "count (mset xs) a \<le> count (mset ys) a" for a using assms(1) by (rule mset_subset_eq_count)
  moreover have "count (mset ys) a \<le> 1" for a using assms(2) by (simp add: distinct_count_atmost_1)
  ultimately have "count (mset xs) a \<le> 1" for a by (meson order_trans)
  then show ?thesis
    by (auto simp: distinct_count_atmost_1 le_Suc_eq count_mset_0_iff simp flip: count_greater_zero_iff)
qed

text \<open>An event goes to the first waiter it matches: the waiters whose receiver is gone are dropped, the earliest
  registered of the others whose predicate accepts the event gets it and leaves, the rest keep their order, and
  if none accepts it nothing is delivered.\<close>

lemma first_match_wins:
  "(\<exists>pre w post. filter (\<lambda>w. r (wt_sender w)) ws = pre @ w # post \<and> (\<forall>x \<in> set pre. \<not> wt_predicate x e)
      \<and> wt_predicate w e
      \<and> process r s e ws = (s (wt_sender w), if s (wt_sender w) then [(wt_sender w, e)] else [], pre @ post))
   \<or> (process r s e ws = (False, [], filter (\<lambda>w. r (wt_sender w)) ws)
      \<and> \<not> (\<exists>w \<in> set ws. r (wt_sender w) \<and> wt_predicate w e))"
  by (cases rule: process_cases [of r s e ws]) blast+

lemma first_match_wins_witness:
  "fst (snd (process (\<lambda>w. w \<noteq> ''gone'') (\<lambda>w. True) (3::nat)
      [\<lparr>wt_predicate = \<lambda>n. True, wt_sender = ''gone''\<rparr>, \<lparr>wt_predicate = \<lambda>n. n < 2, wt_sender = ''a''\<rparr>,
       \<lparr>wt_predicate = \<lambda>n. n < 5, wt_sender = ''b''\<rparr>])) = [(''b'', 3)]"
  using first_match_wins [of "\<lambda>w. w \<noteq> ''gone''" "[\<lparr>wt_predicate = \<lambda>n. True, wt_sender = ''gone''\<rparr>,
      \<lparr>wt_predicate = \<lambda>n. n < 2, wt_sender = ''a''\<rparr>, \<lparr>wt_predicate = \<lambda>n. n < 5, wt_sender = ''b''\<rparr>]" "3::nat" "\<lambda>w. True"]
  by (auto simp: Cons_eq_append_conv)

text \<open>No wait consumes twice and none consumes what it did not ask for: over any interleaving of waits and
  events, each wait is handed at most one event, which its own predicate accepts.\<close>

lemma waits_consume_once:
  assumes "distinct (waits xs)"
  shows "distinct (map fst (fst (standby_run xs standby_new)))
    \<and> (\<forall>(w, e) \<in> set (fst (standby_run xs standby_new)). \<exists>p. wait_predicate xs w = Some p \<and> p e)"
proof
  have "mset (map fst (fst (standby_run xs standby_new))) \<subseteq># mset (waits xs)"
    using run_tokens [of xs standby_new] subset_mset.order_trans [OF mset_subset_eq_add_left]
    by (fastforce simp: standby_new_def)
  then show "distinct (map fst (fst (standby_run xs standby_new)))"
    using assms by (rule distinct_submset)
  show "\<forall>(w, e) \<in> set (fst (standby_run xs standby_new)). \<exists>p. wait_predicate xs w = Some p \<and> p e"
    by (rule run_wanted) (auto simp: standby_new_def wait_predicate_distinct [OF assms])
qed

lemma waits_consume_once_witness:
  "distinct (map fst (fst (standby_run [SbWait (\<lambda>n. n < (5::nat)) ''a'', SbWait (\<lambda>n. True) ''b'',
      SbProcess (\<lambda>w. True) (\<lambda>w. True) 7, SbProcess (\<lambda>w. True) (\<lambda>w. True) 3] standby_new)))"
  by (rule waits_consume_once [THEN conjunct1]) simp

end
