(* ===== verification/Model_Codec.thy ===== *)
theory Model_Codec
  imports Json_Value
begin

text \<open>
  What the derive attributes of the typed documents ask of \<open>serde\<close>, once for all of them.

  \<^item> \<open>struct_to_json\<close> writes a struct: the members in declaration order, those that
    \<open>skip_serializing_if = "Option::is_none"\<close> leaves out as \<open>None\<close>.
  \<^item> \<open>struct_obj\<close> is what a derived visitor reads: the object itself, or an array whose
    elements are the members in declaration order.
  \<^item> \<open>codec0\<close> is the interface of an encoder and a decoder that reads its output back on the
    values that satisfy \<open>ok\<close>; \<open>codec\<close> adds that the output is never \<open>null\<close>, which is what an
    optional member needs, since \<open>null\<close> there reads as absence.
  \<^item> The codecs of strings, booleans, \<open>i64\<close>, \<open>f64\<close> and raw JSON are interpreted here; the
    typed documents interpret it for their enums and sub-documents.
\<close>

section \<open>Numbers\<close>

definition i64_to_json :: "i64 \<Rightarrow> json" where
  "i64_to_json w = JNumber (if sint w < 0 then NegInt w else PosInt w)"

definition u8_to_json :: "u8 \<Rightarrow> json" where
  "u8_to_json w = JNumber (PosInt (word_of_nat (unat w)))"

definition u8_of_json :: "json \<Rightarrow> u8 option" where
  "u8_of_json v = (case as_u64 v of
       Some n \<Rightarrow> if unat n < 256 then Some (word_of_nat (unat n)) else None
     | None \<Rightarrow> None)"

text \<open>An integer read as \<open>f64\<close>: exact up to 53 bits, then rounded to the nearest, ties to even.\<close>

definition round_shift :: "nat \<Rightarrow> nat \<Rightarrow> nat" where
  "round_shift k n = (let q = n div 2 ^ k; r = n mod 2 ^ k in
     (if 2 * r > 2 ^ k \<or> (2 * r = 2 ^ k \<and> odd q) then q + 1 else q) * 2 ^ k)"

fun bit_length :: "nat \<Rightarrow> nat" where
  "bit_length n = (if n = 0 then 0 else Suc (bit_length (n div 2)))"

declare bit_length.simps [simp del]

definition f64_of_nat :: "nat \<Rightarrow> rat" where
  "f64_of_nat n = of_nat (round_shift (bit_length n - 53) n)"

fun f64_of_json :: "json \<Rightarrow> rat option" where
  "f64_of_json (JNumber (PosInt n)) = Some (f64_of_nat (unat n))"
| "f64_of_json (JNumber (NegInt n)) =
     Some (if sint n < 0 then - f64_of_nat (nat (- sint n)) else f64_of_nat (nat (sint n)))"
| "f64_of_json (JNumber (Float x)) = Some x"
| "f64_of_json _ = None"

definition f64_to_json :: "rat \<Rightarrow> json" where
  "f64_to_json x = JNumber (Float x)"

lemma round_shift_0 [simp]: "round_shift 0 n = n"
  by (simp add: round_shift_def)

lemma bit_length_le: "n < 2 ^ k \<Longrightarrow> bit_length n \<le> k"
proof (induction n arbitrary: k rule: bit_length.induct)
  case (1 n)
  show ?case
  proof (cases "n = 0")
    case True
    then show ?thesis by (simp add: bit_length.simps)
  next
    case False
    with 1(2) obtain j where k: "k = Suc j" by (cases k) auto
    have "n div 2 < 2 ^ j" using 1(2) k by auto
    from 1(1) [OF False this] show ?thesis using False k by (subst bit_length.simps) simp
  qed
qed

lemma f64_of_nat_exact: "n < 2 ^ 53 \<Longrightarrow> f64_of_nat n = of_nat n"
  using bit_length_le [of n 53] by (simp add: f64_of_nat_def)

section \<open>Members of a struct\<close>

definition opt_read :: "(json \<Rightarrow> 'a option) \<Rightarrow> json option \<Rightarrow> 'a option option" where
  "opt_read dec v = (case v of
       None \<Rightarrow> Some None
     | Some JNull \<Rightarrow> Some None
     | Some x \<Rightarrow> map_option Some (dec x))"

lemma opt_field_read: "opt_field dec m k = opt_read dec (obj_get m k)"
  by (simp add: opt_field_def opt_read_def)

definition obj_of_fields :: "(str \<times> json option) list \<Rightarrow> obj" where
  "obj_of_fields fs = obj_of (List.map_filter (\<lambda>(k, v). map_option (Pair k) v) fs)"

definition struct_to_json :: "(str \<times> json option) list \<Rightarrow> json" where
  "struct_to_json fs = JObject (obj_of_fields fs)"

definition struct_obj :: "str list \<Rightarrow> json \<Rightarrow> obj option" where
  "struct_obj names v = (case v of
       JObject m \<Rightarrow> Some m
     | JArray xs \<Rightarrow> if length xs \<le> length names then Some (zip names xs) else None
     | _ \<Rightarrow> None)"

definition member :: "(str \<times> json option) list \<Rightarrow> str \<Rightarrow> json option" where
  "member fs k = Option.bind (map_of fs k) id"

lemma member_Nil [simp]: "member [] k = None"
  by (simp add: member_def)

lemma member_Cons [simp]: "member ((k', v) # fs) k = (if k = k' then v else member fs k)"
  by (simp add: member_def)

lemma member_all: "distinct (map fst fs) \<Longrightarrow> list_all (\<lambda>(k, v). member fs k = v) fs"
proof (induction fs)
  case (Cons kv fs)
  then have "list_all (\<lambda>(k, v). member fs k = v \<and> k \<noteq> fst kv) fs"
    by (auto simp: list_all_iff rev_image_eqI)
  then show ?case by (cases kv) (auto simp: list_all_iff)
qed simp

lemma map_of_rev_filter:
  assumes "distinct (map fst fs)"
  shows "map_of (rev (List.map_filter (\<lambda>(k, v). map_option (Pair k) v) fs)) k = member fs k"
  using assms
proof (induction fs)
  case Nil
  then show ?case by (simp add: List.map_filter_simps)
next
  case (Cons kv fs)
  obtain k' v where kv: "kv = (k', v)" by (cases kv)
  have notin: "member fs k' = None"
    using Cons.prems kv by (simp add: member_def) (metis map_of_eq_None_iff bind.bind_lzero image_set)
  show ?case
    using Cons notin by (cases v) (auto simp: kv List.map_filter_simps map_add_def split: option.splits)
qed

lemma obj_get_fields:
  "distinct (map fst fs) \<Longrightarrow> obj_get (obj_of_fields fs) k = member fs k"
  by (simp add: obj_of_fields_def obj_get_of map_of_rev_filter)

lemma obj_wf_fields [simp]: "obj_wf (obj_of_fields fs)"
  by (simp add: obj_of_fields_def)

lemma struct_obj_to_json [simp]: "struct_obj names (struct_to_json fs) = Some (obj_of_fields fs)"
  by (simp add: struct_obj_def struct_to_json_def)

lemma struct_not_null [simp]: "struct_to_json fs \<noteq> JNull"
  by (simp add: struct_to_json_def)

lemma member_map_snd: "member (map (\<lambda>(k, v). (k, f v)) fs) k = Option.bind (map_of fs k) f"
  by (induction fs) auto

text \<open>A member with \<open>#[serde(default)]\<close> that is no \<open>Option\<close>: absence gives the default, \<open>null\<close> is
  decoded.\<close>

definition default_field :: "'a \<Rightarrow> (json \<Rightarrow> 'a option) \<Rightarrow> obj \<Rightarrow> str \<Rightarrow> 'a option" where
  "default_field d dec m k = (case obj_get m k of None \<Rightarrow> Some d | Some v \<Rightarrow> dec v)"

section \<open>Arrays and maps\<close>

definition list_to_json :: "('a \<Rightarrow> json) \<Rightarrow> 'a list \<Rightarrow> json" where
  "list_to_json enc xs = JArray (map enc xs)"

text \<open>A \<open>BTreeMap<String, V>\<close> is the list of its entries in key order.\<close>

type_synonym 'a strmap = "(str \<times> 'a) list"

definition map_to_json :: "('a \<Rightarrow> json) \<Rightarrow> 'a strmap \<Rightarrow> json" where
  "map_to_json enc m = JObject (map (\<lambda>(k, x). (k, enc x)) m)"

fun dec_entries :: "(json \<Rightarrow> 'a option) \<Rightarrow> obj \<Rightarrow> 'a strmap option" where
  "dec_entries dec [] = Some []"
| "dec_entries dec ((k, v) # m) =
     Option.bind (dec v) (\<lambda>x. Option.bind (dec_entries dec m) (\<lambda>r. Some ((k, x) # r)))"

definition dec_map :: "(json \<Rightarrow> 'a option) \<Rightarrow> json \<Rightarrow> 'a strmap option" where
  "dec_map dec v = Option.bind (as_object v) (dec_entries dec)"

text \<open>\<open>nullable_strings\<close>: an array of strings whose \<open>null\<close> elements are skipped.\<close>

fun dec_nullable :: "json list \<Rightarrow> str list option" where
  "dec_nullable [] = Some []"
| "dec_nullable (JNull # xs) = dec_nullable xs"
| "dec_nullable (x # xs) =
     Option.bind (as_str x) (\<lambda>s. Option.bind (dec_nullable xs) (\<lambda>r. Some (s # r)))"

definition nullable_strings :: "json \<Rightarrow> str list option" where
  "nullable_strings v = Option.bind (as_array v) dec_nullable"

lemma dec_nullable_map [simp]: "dec_nullable (map JString xs) = Some xs"
  by (induction xs) simp_all

lemma nullable_strings_list [simp]: "nullable_strings (list_to_json JString xs) = Some xs"
  by (simp add: nullable_strings_def list_to_json_def)

lemma nullable_strings_skips:
  "dec_array as_str (JArray (filter (\<lambda>v. v \<noteq> JNull) xs)) = nullable_strings (JArray xs)"
  by (induction xs rule: dec_nullable.induct) (simp_all add: nullable_strings_def dec_array_def)

section \<open>The interface of a codec\<close>

locale codec0 =
  fixes enc :: "'a \<Rightarrow> json" and dec :: "json \<Rightarrow> 'a option" and ok :: "'a \<Rightarrow> bool"
  assumes dec_enc [simp]: "ok x \<Longrightarrow> dec (enc x) = Some x"
begin

lemma dec_list_enc: "list_all ok xs \<Longrightarrow> dec_list dec (map enc xs) = Some xs"
  by (induction xs) simp_all

lemma array [simp]: "list_all ok xs \<Longrightarrow> dec_array dec (list_to_json enc xs) = Some xs"
  by (simp add: dec_array_def list_to_json_def dec_list_enc)

lemma entries_enc: "list_all (\<lambda>(k, x). ok x) m \<Longrightarrow> dec_entries dec (map (\<lambda>(k, x). (k, enc x)) m) = Some m"
  by (induction m) auto

lemma strmap [simp]: "list_all (\<lambda>(k, x). ok x) m \<Longrightarrow> dec_map dec (map_to_json enc m) = Some m"
  by (simp add: dec_map_def map_to_json_def entries_enc)

lemma opt_array [simp]:
  "pred_option (list_all ok) x \<Longrightarrow> opt_read (dec_array dec) (map_option (list_to_json enc) x) = Some x"
  by (cases x) (simp_all add: opt_read_def list_to_json_def dec_array_def dec_list_enc)

lemma opt_strmap [simp]:
  "pred_option (list_all (\<lambda>(k, x). ok x)) x \<Longrightarrow>
     opt_read (dec_map dec) (map_option (map_to_json enc) x) = Some x"
  by (cases x) (simp_all add: opt_read_def map_to_json_def dec_map_def entries_enc)

end

locale codec = codec0 +
  assumes not_null: "ok x \<Longrightarrow> enc x \<noteq> JNull"
begin

lemma opt [simp]: "pred_option ok x \<Longrightarrow> opt_read dec (map_option enc x) = Some x"
proof -
  assume "pred_option ok x"
  then show ?thesis
  proof (cases x)
    case (Some y)
    with \<open>pred_option ok x\<close> have "ok y" by simp
    with Some show ?thesis
      using not_null [of y] dec_enc [of y] by (cases "enc y") (simp_all add: opt_read_def)
  qed (simp add: opt_read_def)
qed

end

text \<open>The conditions of codecs that always round trip are true.\<close>

lemma pred_option_True [simp]: "pred_option (\<lambda>_. True) x"
  by (cases x) simp_all

lemma list_all_True [simp]: "list_all (\<lambda>_. True) xs"
  by (induction xs) simp_all

lemma list_all_fun_True [simp]: "list_all (\<lambda>_. True) = (\<lambda>_. True)"
  by (rule ext) simp

lemma case_prod_True [simp]: "(\<lambda>(k, x). True) = (\<lambda>_. True)"
  by (rule ext) auto

lemma pred_option_not_null [simp]: "pred_option (\<lambda>v. v \<noteq> JNull) x \<longleftrightarrow> x \<noteq> Some JNull"
  by (cases x) simp_all

interpretation cstr: codec JString as_str "\<lambda>_. True"
  by unfold_locales simp_all

interpretation cbool: codec JBool as_bool "\<lambda>_. True"
  by unfold_locales simp_all

lemma as_i64_to_json: "as_i64 (i64_to_json w) = Some w"
proof (cases "sint w < 0")
  case False
  have "sint w < 2 ^ 63" using sint_lt [of w] by simp
  moreover have "int (unat w) = sint w"
  proof -
    have "uint w = sint w mod 2 ^ 64"
      using uint_sint [of w] by (simp add: take_bit_eq_mod)
    then show ?thesis using False calculation by (simp add: uint_nat [symmetric])
  qed
  ultimately have "int (unat w) < int (2 ^ 63)" by simp
  then have "unat w < 2 ^ 63" by (simp only: of_nat_less_iff)
  then show ?thesis using False by (simp add: i64_to_json_def)
qed (simp add: i64_to_json_def)

interpretation ci64: codec i64_to_json as_i64 "\<lambda>_. True"
  by unfold_locales (simp_all add: as_i64_to_json, simp add: i64_to_json_def)

lemma u8_of_to_json: "u8_of_json (u8_to_json w) = Some w"
proof -
  have b: "unat w < 256" using unsigned_less [of w] by simp
  then have "unat (word_of_nat (unat w) :: u64) = unat w"
    by (simp add: unsigned_ucast_eq take_bit_nat_eq_self)
  with b show ?thesis by (simp add: u8_of_json_def u8_to_json_def)
qed

interpretation cu8: codec u8_to_json u8_of_json "\<lambda>_. True"
  by unfold_locales (simp_all add: u8_of_to_json, simp add: u8_to_json_def)

interpretation cf64: codec f64_to_json f64_of_json "\<lambda>_. True"
  by unfold_locales (simp_all add: f64_to_json_def)

text \<open>Raw JSON: as an element it is kept whatever it is, as an optional member unless it is
  \<open>null\<close>.\<close>

definition raw :: "json \<Rightarrow> json" where
  "raw v = v"

interpretation craw: codec0 raw dec_value "\<lambda>_. True"
  by unfold_locales (simp add: raw_def dec_value_def)

interpretation cvalue: codec raw dec_value "\<lambda>v. v \<noteq> JNull"
  by unfold_locales (simp_all add: raw_def dec_value_def)

lemma opt_read_nullable [simp]:
  "opt_read nullable_strings (map_option (list_to_json JString) x) = Some x"
  by (cases x) (simp_all add: opt_read_def list_to_json_def nullable_strings_def)

section \<open>String enums that keep unknown values\<close>

text \<open>The macro \<open>wire_enum!\<close>: one name per variant and a catch-all that holds the text.\<close>

definition wire_of :: "(str \<times> 'a) list \<Rightarrow> (str \<Rightarrow> 'a) \<Rightarrow> str \<Rightarrow> 'a" where
  "wire_of table unknown s = (case map_of table s of Some v \<Rightarrow> v | None \<Rightarrow> unknown s)"

definition wire_canon :: "(str \<times> 'a) list \<Rightarrow> (str \<Rightarrow> 'a) \<Rightarrow> ('a \<Rightarrow> str) \<Rightarrow> 'a \<Rightarrow> bool" where
  "wire_canon table unknown name v = (wire_of table unknown (name v) = v)"

definition wire_to_json :: "('a \<Rightarrow> str) \<Rightarrow> 'a \<Rightarrow> json" where
  "wire_to_json name v = JString (name v)"

definition wire_of_json :: "(str \<times> 'a) list \<Rightarrow> (str \<Rightarrow> 'a) \<Rightarrow> json \<Rightarrow> 'a option" where
  "wire_of_json table unknown v = map_option (wire_of table unknown) (as_str v)"

locale wire_enum =
  fixes table :: "(str \<times> 'a) list" and unknown :: "str \<Rightarrow> 'a" and name :: "'a \<Rightarrow> str"
  assumes named: "list_all (\<lambda>(s, v). name v = s) table"
    and name_unknown: "name (unknown s) = s"
begin

lemma name_of: "name (wire_of table unknown s) = s"
proof (cases "map_of table s")
  case (Some v)
  then have "(s, v) \<in> set table" by (rule map_of_SomeD)
  with named have "name v = s" by (auto simp: list_all_iff)
  with Some show ?thesis by (simp add: wire_of_def)
qed (simp add: wire_of_def name_unknown)

lemma of_canon: "wire_canon table unknown name (wire_of table unknown s)"
  by (simp add: wire_canon_def name_of)

lemma encode_decoded:
  "wire_of_json table unknown v = Some x \<Longrightarrow> wire_to_json name x = v"
  by (cases v) (auto simp: wire_of_json_def wire_to_json_def name_of)

lemma wire_codec:
  "codec (wire_to_json name) (wire_of_json table unknown) (wire_canon table unknown name)"
  by unfold_locales (simp_all add: wire_to_json_def wire_of_json_def wire_canon_def)

end

end
