(* ===== verification/Model_Time.thy ===== *)
theory Model_Time
  imports Model_Codec
begin

text \<open>
  \<open>datetime.rs\<close>: the EJSON timestamp.  \<open>OffsetDateTime\<close> of the crate \<open>time\<close> is the instant it
  denotes, in nanoseconds since the Unix epoch: equality and order of the code are those of
  the instant.  What the code takes from that crate is a parameter, \<^emph>\<open>time_lib\<close>: the parser
  of RFC 3339 texts and the range \<open>from_unix_timestamp_nanos\<close> accepts.

  \<open>ts_visit\<close> is \<open>TimestampVisitor\<close>: the outer \<open>None\<close> is a decoding error, the inner one an
  explicit \<open>null\<close>.
\<close>

section \<open>Timestamps\<close>

record time_lib =
  tl_parse :: "str \<Rightarrow> int option"
  tl_in_range :: "int \<Rightarrow> bool"

datatype timestamp = Timestamp (ts_nanos: int)

definition NANOS_PER_MILLI :: int where
  "NANOS_PER_MILLI = 1000000"

definition from_unix_millis :: "time_lib \<Rightarrow> i64 \<Rightarrow> timestamp option" where
  "from_unix_millis T millis = (let n = sint millis * NANOS_PER_MILLI in
     if tl_in_range T n then Some (Timestamp n) else None)"

definition unix_millis :: "timestamp \<Rightarrow> i64" where
  "unix_millis t = word_of_int (ts_nanos t div NANOS_PER_MILLI)"

section \<open>Decoding and encoding\<close>

text \<open>A cast from \<open>f64\<close> to \<open>i64\<close> saturates.\<close>

definition f64_as_i64 :: "rat \<Rightarrow> i64" where
  "f64_as_i64 x = word_of_int (max (- (2 ^ 63)) (min (2 ^ 63 - 1)
     (if x < 0 then \<lceil>x\<rceil> else \<lfloor>x\<rfloor>)))"

definition visit_i64 :: "time_lib \<Rightarrow> i64 \<Rightarrow> timestamp option option" where
  "visit_i64 T v = map_option Some (from_unix_millis T v)"

definition visit_u64 :: "time_lib \<Rightarrow> u64 \<Rightarrow> timestamp option option" where
  "visit_u64 T v = (if unat v < 2 ^ 63 then visit_i64 T v else None)"

definition visit_f64 :: "time_lib \<Rightarrow> rat \<Rightarrow> timestamp option option" where
  "visit_f64 T v = visit_i64 T (f64_as_i64 v)"

definition visit_str :: "time_lib \<Rightarrow> str \<Rightarrow> timestamp option option" where
  "visit_str T v = map_option (\<lambda>n. Some (Timestamp n)) (tl_parse T v)"

function (sequential) ts_visit :: "time_lib \<Rightarrow> json \<Rightarrow> timestamp option option"
  and visit_map :: "time_lib \<Rightarrow> obj \<Rightarrow> timestamp option option \<Rightarrow> timestamp option option" where
  "ts_visit T JNull = Some None"
| "ts_visit T (JNumber (PosInt v)) = visit_u64 T v"
| "ts_visit T (JNumber (NegInt v)) = visit_i64 T v"
| "ts_visit T (JNumber (Float v)) = visit_f64 T v"
| "ts_visit T (JString v) = visit_str T v"
| "ts_visit T (JObject m) = visit_map T m None"
| "ts_visit T _ = None"
| "visit_map T [] found = found"
| "visit_map T ((key, v) # m) found =
     (if key = ''$date''
      then (case ts_visit T v of None \<Rightarrow> None | Some d \<Rightarrow> visit_map T m (Some d))
      else visit_map T m found)"
  by pat_completeness auto

termination
  by (relation "measure (\<lambda>x. case x of Inl (T, v) \<Rightarrow> size v | Inr (T, m, found) \<Rightarrow> size_list (size_prod (\<lambda>_. 0) size) m)") auto

definition ts_of_json :: "time_lib \<Rightarrow> json \<Rightarrow> timestamp option" where
  "ts_of_json T v = (case ts_visit T v of Some (Some t) \<Rightarrow> Some t | _ \<Rightarrow> None)"

definition ts_to_json :: "timestamp \<Rightarrow> json" where
  "ts_to_json t = JObject [(''$date'', i64_to_json (unix_millis t))]"

text \<open>The adapter \<open>datetime::option\<close> of an optional member.\<close>

definition ts_option :: "time_lib \<Rightarrow> json option \<Rightarrow> timestamp option option" where
  "ts_option T v = (case v of None \<Rightarrow> Some None | Some x \<Rightarrow> ts_visit T x)"

section \<open>Laws\<close>

text \<open>A timestamp of whole milliseconds in the range of \<open>i64\<close> and of the crate.\<close>

definition ts_ok :: "time_lib \<Rightarrow> timestamp \<Rightarrow> bool" where
  "ts_ok T t = (let n = ts_nanos t in
     n mod NANOS_PER_MILLI = 0 \<and> tl_in_range T n
     \<and> - (2 ^ 63) \<le> n div NANOS_PER_MILLI \<and> n div NANOS_PER_MILLI < 2 ^ 63)"

lemma ts_visit_i64: "ts_visit T (i64_to_json w) = visit_i64 T w"
proof (cases "sint w < 0")
  case False
  then have "unat w < 2 ^ 63" using as_i64_to_json [of w] by (auto simp: i64_to_json_def split: if_splits)
  with False show ?thesis by (simp add: i64_to_json_def visit_u64_def)
qed (simp add: i64_to_json_def)

lemma from_unix_millis_ok: "ts_ok T t \<Longrightarrow> from_unix_millis T (unix_millis t) = Some t"
proof -
  assume ok: "ts_ok T t"
  let ?m = "ts_nanos t div NANOS_PER_MILLI"
  have "sint (word_of_int ?m :: i64) = ?m"
    using ok by (simp add: ts_ok_def Let_def signed_of_int signed_take_bit_int_eq_self)
  moreover have "?m * NANOS_PER_MILLI = ts_nanos t"
    using ok div_mult_mod_eq [of "ts_nanos t" NANOS_PER_MILLI] by (simp add: ts_ok_def Let_def)
  ultimately show ?thesis
    using ok by (cases t) (simp add: from_unix_millis_def unix_millis_def ts_ok_def Let_def)
qed

lemma ts_visit_to_json: "ts_ok T t \<Longrightarrow> ts_visit T (ts_to_json t) = Some (Some t)"
  by (simp add: ts_to_json_def ts_visit_i64 visit_i64_def from_unix_millis_ok)

interpretation cts: codec ts_to_json "ts_of_json T" "ts_ok T" for T
  by unfold_locales (simp_all add: ts_of_json_def ts_visit_to_json, simp add: ts_to_json_def)

lemma ts_option_to_json [simp]:
  "pred_option (ts_ok T) x \<Longrightarrow> ts_option T (map_option ts_to_json x) = Some x"
  by (cases x) (simp_all add: ts_option_def ts_visit_to_json)

text \<open>What was decoded from whole milliseconds is encoded to the same instant, and decoding
  sees through any nesting of \<open>$date\<close> wrappers.\<close>

lemma from_unix_millis_whole:
  "from_unix_millis T w = Some t \<Longrightarrow> ts_ok T t \<and> unix_millis t = w"
  using sint_ge [of w] sint_lt [of w]
  by (auto simp: from_unix_millis_def ts_ok_def unix_millis_def Let_def NANOS_PER_MILLI_def split: if_splits)

definition dated :: "json \<Rightarrow> json" where
  "dated v = JObject [(''$date'', v)]"

lemma dated_transparent: "ts_visit T ((dated ^^ n) v) = ts_visit T v"
proof (induction n)
  case (Suc n)
  then show ?case by (cases "ts_visit T v") (simp_all add: dated_def)
qed simp

lemma visit_map_no_date:
  "obj_get m ''$date'' = None \<Longrightarrow> visit_map T m found = found"
  by (induction m arbitrary: found) (auto simp: obj_get_def split: if_splits)

lemma visit_map_date:
  assumes "distinct (map fst m)"
  shows "visit_map T m found = (case obj_get m ''$date'' of None \<Rightarrow> found | Some v \<Rightarrow> ts_visit T v)"
  using assms
proof (induction m arbitrary: found)
  case (Cons kv m)
  obtain k v where kv: "kv = (k, v)" by (cases kv)
  show ?case
  proof (cases "k = ''$date''")
    case True
    with Cons.prems kv have "obj_get m ''$date'' = None"
      by (simp add: obj_get_def map_of_eq_None_iff image_image)
    with True kv show ?thesis by (simp add: visit_map_no_date obj_get_def split: option.splits)
  next
    case False
    with Cons kv show ?thesis by (simp add: obj_get_def)
  qed
qed simp

lemma ts_siblings_ignored:
  "obj_wf m \<Longrightarrow> ts_visit T (JObject m) = (case obj_get m ''$date'' of None \<Rightarrow> None | Some v \<Rightarrow> ts_visit T v)"
  by (simp add: visit_map_date obj_wf_def strict_sorted_iff)

end
