(* ===== verification/Model_Enums.thy ===== *)
theory Model_Enums
  imports Model_Codec
begin

text \<open>
  The string enums of \<open>entity.rs\<close>, each an application of its macro \<open>wire_enum!\<close>: the variants,
  the table of their wire names, and the codec, interpreted on the interface \<open>wire_enum\<close>, which
  gives that every string is decoded and written back unchanged.  Below them the predicates of
  \<open>RoomType\<close> and the numeric \<open>PresenceStatus\<close>.
\<close>

section \<open>\<open>MessageType\<close>\<close>

datatype (plugins only: code size) message_type =
    MtE2e | MtUj | MtUi | MtUir | MtUl | MtRu | MtAu | MtMuteUnmute | MtR | MtUt | MtWm | MtRm
     | MtSubscriptionRoleAdded | MtSubscriptionRoleRemoved | MtRoomArchived | MtRoomUnarchived
     | MtRoomChangedPrivacy | MtRoomChangedDescription | MtRoomChangedAnnouncement
     | MtRoomChangedAvatar | MtRoomChangedTopic | MtRoomE2eEnabled | MtRoomE2eDisabled
     | MtUserMuted | MtUserUnmuted | MtUserBanned | MtUserUnbanned | MtRoomRemovedReadOnly
     | MtRoomSetReadOnly | MtRoomAllowedReacting | MtRoomDisallowedReacting | MtCommand
     | MtVideoconf | MtMessagePinned | MtMessagePinnedE2e | MtNewModerator | MtModeratorRemoved
     | MtNewOwner | MtOwnerRemoved | MtNewLeader | MtLeaderRemoved | MtDiscussionCreated
     | MtAbacRemovedUserFromRoom | MtRemovedUserFromTeam | MtAddedUserToTeam | MtUlt
     | MtUserConvertedToTeam | MtUserConvertedToChannel | MtUserRemovedRoomFromTeam
     | MtUserDeletedRoomFromTeam | MtUserAddedRoomToTeam | MtUjt | MtLivechatNavigationHistory
     | MtLivechatTransferHistory | MtLivechatTranscriptHistory | MtLivechatVideoCall
     | MtLivechatTransferHistoryFallback | MtLivechatClose | MtLivechatStarted
     | MtOmnichannelPriorityChangeHistory | MtOmnichannelSlaChangeHistory
     | MtOmnichannelPlacedChatOnHold | MtOmnichannelOnHoldChatResumed | MtUnknown str

primrec message_type_name :: "message_type \<Rightarrow> str" where
  "message_type_name MtE2e = ''e2e''"
| "message_type_name MtUj = ''uj''"
| "message_type_name MtUi = ''ui''"
| "message_type_name MtUir = ''uir''"
| "message_type_name MtUl = ''ul''"
| "message_type_name MtRu = ''ru''"
| "message_type_name MtAu = ''au''"
| "message_type_name MtMuteUnmute = ''mute_unmute''"
| "message_type_name MtR = ''r''"
| "message_type_name MtUt = ''ut''"
| "message_type_name MtWm = ''wm''"
| "message_type_name MtRm = ''rm''"
| "message_type_name MtSubscriptionRoleAdded = ''subscription-role-added''"
| "message_type_name MtSubscriptionRoleRemoved = ''subscription-role-removed''"
| "message_type_name MtRoomArchived = ''room-archived''"
| "message_type_name MtRoomUnarchived = ''room-unarchived''"
| "message_type_name MtRoomChangedPrivacy = ''room_changed_privacy''"
| "message_type_name MtRoomChangedDescription = ''room_changed_description''"
| "message_type_name MtRoomChangedAnnouncement = ''room_changed_announcement''"
| "message_type_name MtRoomChangedAvatar = ''room_changed_avatar''"
| "message_type_name MtRoomChangedTopic = ''room_changed_topic''"
| "message_type_name MtRoomE2eEnabled = ''room_e2e_enabled''"
| "message_type_name MtRoomE2eDisabled = ''room_e2e_disabled''"
| "message_type_name MtUserMuted = ''user-muted''"
| "message_type_name MtUserUnmuted = ''user-unmuted''"
| "message_type_name MtUserBanned = ''user-banned''"
| "message_type_name MtUserUnbanned = ''user-unbanned''"
| "message_type_name MtRoomRemovedReadOnly = ''room-removed-read-only''"
| "message_type_name MtRoomSetReadOnly = ''room-set-read-only''"
| "message_type_name MtRoomAllowedReacting = ''room-allowed-reacting''"
| "message_type_name MtRoomDisallowedReacting = ''room-disallowed-reacting''"
| "message_type_name MtCommand = ''command''"
| "message_type_name MtVideoconf = ''videoconf''"
| "message_type_name MtMessagePinned = ''message_pinned''"
| "message_type_name MtMessagePinnedE2e = ''message_pinned_e2e''"
| "message_type_name MtNewModerator = ''new-moderator''"
| "message_type_name MtModeratorRemoved = ''moderator-removed''"
| "message_type_name MtNewOwner = ''new-owner''"
| "message_type_name MtOwnerRemoved = ''owner-removed''"
| "message_type_name MtNewLeader = ''new-leader''"
| "message_type_name MtLeaderRemoved = ''leader-removed''"
| "message_type_name MtDiscussionCreated = ''discussion-created''"
| "message_type_name MtAbacRemovedUserFromRoom = ''abac-removed-user-from-room''"
| "message_type_name MtRemovedUserFromTeam = ''removed-user-from-team''"
| "message_type_name MtAddedUserToTeam = ''added-user-to-team''"
| "message_type_name MtUlt = ''ult''"
| "message_type_name MtUserConvertedToTeam = ''user-converted-to-team''"
| "message_type_name MtUserConvertedToChannel = ''user-converted-to-channel''"
| "message_type_name MtUserRemovedRoomFromTeam = ''user-removed-room-from-team''"
| "message_type_name MtUserDeletedRoomFromTeam = ''user-deleted-room-from-team''"
| "message_type_name MtUserAddedRoomToTeam = ''user-added-room-to-team''"
| "message_type_name MtUjt = ''ujt''"
| "message_type_name MtLivechatNavigationHistory = ''livechat_navigation_history''"
| "message_type_name MtLivechatTransferHistory = ''livechat_transfer_history''"
| "message_type_name MtLivechatTranscriptHistory = ''livechat_transcript_history''"
| "message_type_name MtLivechatVideoCall = ''livechat_video_call''"
| "message_type_name MtLivechatTransferHistoryFallback = ''livechat_transfer_history_fallback''"
| "message_type_name MtLivechatClose = ''livechat-close''"
| "message_type_name MtLivechatStarted = ''livechat-started''"
| "message_type_name MtOmnichannelPriorityChangeHistory = ''omnichannel_priority_change_history''"
| "message_type_name MtOmnichannelSlaChangeHistory = ''omnichannel_sla_change_history''"
| "message_type_name MtOmnichannelPlacedChatOnHold = ''omnichannel_placed_chat_on_hold''"
| "message_type_name MtOmnichannelOnHoldChatResumed = ''omnichannel_on_hold_chat_resumed''"
| "message_type_name (MtUnknown s) = s"

definition message_type_table :: "(str \<times> message_type) list" where
  "message_type_table = [
     (''e2e'', MtE2e),
     (''uj'', MtUj),
     (''ui'', MtUi),
     (''uir'', MtUir),
     (''ul'', MtUl),
     (''ru'', MtRu),
     (''au'', MtAu),
     (''mute_unmute'', MtMuteUnmute),
     (''r'', MtR),
     (''ut'', MtUt),
     (''wm'', MtWm),
     (''rm'', MtRm),
     (''subscription-role-added'', MtSubscriptionRoleAdded),
     (''subscription-role-removed'', MtSubscriptionRoleRemoved),
     (''room-archived'', MtRoomArchived),
     (''room-unarchived'', MtRoomUnarchived),
     (''room_changed_privacy'', MtRoomChangedPrivacy),
     (''room_changed_description'', MtRoomChangedDescription),
     (''room_changed_announcement'', MtRoomChangedAnnouncement),
     (''room_changed_avatar'', MtRoomChangedAvatar),
     (''room_changed_topic'', MtRoomChangedTopic),
     (''room_e2e_enabled'', MtRoomE2eEnabled),
     (''room_e2e_disabled'', MtRoomE2eDisabled),
     (''user-muted'', MtUserMuted),
     (''user-unmuted'', MtUserUnmuted),
     (''user-banned'', MtUserBanned),
     (''user-unbanned'', MtUserUnbanned),
     (''room-removed-read-only'', MtRoomRemovedReadOnly),
     (''room-set-read-only'', MtRoomSetReadOnly),
     (''room-allowed-reacting'', MtRoomAllowedReacting),
     (''room-disallowed-reacting'', MtRoomDisallowedReacting),
     (''command'', MtCommand),
     (''videoconf'', MtVideoconf),
     (''message_pinned'', MtMessagePinned),
     (''message_pinned_e2e'', MtMessagePinnedE2e),
     (''new-moderator'', MtNewModerator),
     (''moderator-removed'', MtModeratorRemoved),
     (''new-owner'', MtNewOwner),
     (''owner-removed'', MtOwnerRemoved),
     (''new-leader'', MtNewLeader),
     (''leader-removed'', MtLeaderRemoved),
     (''discussion-created'', MtDiscussionCreated),
     (''abac-removed-user-from-room'', MtAbacRemovedUserFromRoom),
     (''removed-user-from-team'', MtRemovedUserFromTeam),
     (''added-user-to-team'', MtAddedUserToTeam),
     (''ult'', MtUlt),
     (''user-converted-to-team'', MtUserConvertedToTeam),
     (''user-converted-to-channel'', MtUserConvertedToChannel),
     (''user-removed-room-from-team'', MtUserRemovedRoomFromTeam),
     (''user-deleted-room-from-team'', MtUserDeletedRoomFromTeam),
     (''user-added-room-to-team'', MtUserAddedRoomToTeam),
     (''ujt'', MtUjt),
     (''livechat_navigation_history'', MtLivechatNavigationHistory),
     (''livechat_transfer_history'', MtLivechatTransferHistory),
     (''livechat_transcript_history'', MtLivechatTranscriptHistory),
     (''livechat_video_call'', MtLivechatVideoCall),
     (''livechat_transfer_history_fallback'', MtLivechatTransferHistoryFallback),
     (''livechat-close'', MtLivechatClose),
     (''livechat-started'', MtLivechatStarted),
     (''omnichannel_priority_change_history'', MtOmnichannelPriorityChangeHistory),
     (''omnichannel_sla_change_history'', MtOmnichannelSlaChangeHistory),
     (''omnichannel_placed_chat_on_hold'', MtOmnichannelPlacedChatOnHold),
     (''omnichannel_on_hold_chat_resumed'', MtOmnichannelOnHoldChatResumed)]"

definition message_type_of :: "str \<Rightarrow> message_type" where
  "message_type_of = wire_of message_type_table MtUnknown"

definition message_type_to_json :: "message_type \<Rightarrow> json" where
  "message_type_to_json = wire_to_json message_type_name"

definition message_type_of_json :: "json \<Rightarrow> message_type option" where
  "message_type_of_json = wire_of_json message_type_table MtUnknown"

definition message_type_ok :: "message_type \<Rightarrow> bool" where
  "message_type_ok = wire_canon message_type_table MtUnknown message_type_name"

interpretation wmt: wire_enum message_type_table MtUnknown message_type_name
  by unfold_locales (simp_all add: message_type_table_def)

interpretation cmt: codec message_type_to_json message_type_of_json message_type_ok
  unfolding message_type_to_json_def message_type_of_json_def message_type_ok_def by (rule wmt.wire_codec)

section \<open>\<open>RoomType\<close>\<close>

datatype (plugins only: code size) room_type =
    RtChannel | RtPrivate | RtDirect | RtOmnichannel | RtUnknown str

primrec room_type_name :: "room_type \<Rightarrow> str" where
  "room_type_name RtChannel = ''c''"
| "room_type_name RtPrivate = ''p''"
| "room_type_name RtDirect = ''d''"
| "room_type_name RtOmnichannel = ''l''"
| "room_type_name (RtUnknown s) = s"

definition room_type_table :: "(str \<times> room_type) list" where
  "room_type_table = [
     (''c'', RtChannel),
     (''p'', RtPrivate),
     (''d'', RtDirect),
     (''l'', RtOmnichannel)]"

definition room_type_of :: "str \<Rightarrow> room_type" where
  "room_type_of = wire_of room_type_table RtUnknown"

definition room_type_to_json :: "room_type \<Rightarrow> json" where
  "room_type_to_json = wire_to_json room_type_name"

definition room_type_of_json :: "json \<Rightarrow> room_type option" where
  "room_type_of_json = wire_of_json room_type_table RtUnknown"

definition room_type_ok :: "room_type \<Rightarrow> bool" where
  "room_type_ok = wire_canon room_type_table RtUnknown room_type_name"

interpretation wrt: wire_enum room_type_table RtUnknown room_type_name
  by unfold_locales (simp_all add: room_type_table_def)

interpretation crt: codec room_type_to_json room_type_of_json room_type_ok
  unfolding room_type_to_json_def room_type_of_json_def room_type_ok_def by (rule wrt.wire_codec)

section \<open>\<open>UserStatus\<close>\<close>

datatype (plugins only: code size) user_status =
    UsOnline | UsAway | UsBusy | UsOffline | UsDisabled | UsUnknown str

primrec user_status_name :: "user_status \<Rightarrow> str" where
  "user_status_name UsOnline = ''online''"
| "user_status_name UsAway = ''away''"
| "user_status_name UsBusy = ''busy''"
| "user_status_name UsOffline = ''offline''"
| "user_status_name UsDisabled = ''disabled''"
| "user_status_name (UsUnknown s) = s"

definition user_status_table :: "(str \<times> user_status) list" where
  "user_status_table = [
     (''online'', UsOnline),
     (''away'', UsAway),
     (''busy'', UsBusy),
     (''offline'', UsOffline),
     (''disabled'', UsDisabled)]"

definition user_status_of :: "str \<Rightarrow> user_status" where
  "user_status_of = wire_of user_status_table UsUnknown"

definition user_status_to_json :: "user_status \<Rightarrow> json" where
  "user_status_to_json = wire_to_json user_status_name"

definition user_status_of_json :: "json \<Rightarrow> user_status option" where
  "user_status_of_json = wire_of_json user_status_table UsUnknown"

definition user_status_ok :: "user_status \<Rightarrow> bool" where
  "user_status_ok = wire_canon user_status_table UsUnknown user_status_name"

interpretation wus: wire_enum user_status_table UsUnknown user_status_name
  by unfold_locales (simp_all add: user_status_table_def)

interpretation cus: codec user_status_to_json user_status_of_json user_status_ok
  unfolding user_status_to_json_def user_status_of_json_def user_status_ok_def by (rule wus.wire_codec)

section \<open>\<open>PresenceSource\<close>\<close>

datatype (plugins only: code size) presence_source =
    PsInternal | PsExternal | PsManual | PsUnknown str

primrec presence_source_name :: "presence_source \<Rightarrow> str" where
  "presence_source_name PsInternal = ''internal''"
| "presence_source_name PsExternal = ''external''"
| "presence_source_name PsManual = ''manual''"
| "presence_source_name (PsUnknown s) = s"

definition presence_source_table :: "(str \<times> presence_source) list" where
  "presence_source_table = [
     (''internal'', PsInternal),
     (''external'', PsExternal),
     (''manual'', PsManual)]"

definition presence_source_of :: "str \<Rightarrow> presence_source" where
  "presence_source_of = wire_of presence_source_table PsUnknown"

definition presence_source_to_json :: "presence_source \<Rightarrow> json" where
  "presence_source_to_json = wire_to_json presence_source_name"

definition presence_source_of_json :: "json \<Rightarrow> presence_source option" where
  "presence_source_of_json = wire_of_json presence_source_table PsUnknown"

definition presence_source_ok :: "presence_source \<Rightarrow> bool" where
  "presence_source_ok = wire_canon presence_source_table PsUnknown presence_source_name"

interpretation wps: wire_enum presence_source_table PsUnknown presence_source_name
  by unfold_locales (simp_all add: presence_source_table_def)

interpretation cps: codec presence_source_to_json presence_source_of_json presence_source_ok
  unfolding presence_source_to_json_def presence_source_of_json_def presence_source_ok_def by (rule wps.wire_codec)

section \<open>\<open>E2eStatus\<close>\<close>

datatype (plugins only: code size) e2e_status =
    EsPending | EsDone | EsUnknown str

primrec e2e_status_name :: "e2e_status \<Rightarrow> str" where
  "e2e_status_name EsPending = ''pending''"
| "e2e_status_name EsDone = ''done''"
| "e2e_status_name (EsUnknown s) = s"

definition e2e_status_table :: "(str \<times> e2e_status) list" where
  "e2e_status_table = [
     (''pending'', EsPending),
     (''done'', EsDone)]"

definition e2e_status_of :: "str \<Rightarrow> e2e_status" where
  "e2e_status_of = wire_of e2e_status_table EsUnknown"

definition e2e_status_to_json :: "e2e_status \<Rightarrow> json" where
  "e2e_status_to_json = wire_to_json e2e_status_name"

definition e2e_status_of_json :: "json \<Rightarrow> e2e_status option" where
  "e2e_status_of_json = wire_of_json e2e_status_table EsUnknown"

definition e2e_status_ok :: "e2e_status \<Rightarrow> bool" where
  "e2e_status_ok = wire_canon e2e_status_table EsUnknown e2e_status_name"

interpretation wes: wire_enum e2e_status_table EsUnknown e2e_status_name
  by unfold_locales (simp_all add: e2e_status_table_def)

interpretation ces: codec e2e_status_to_json e2e_status_of_json e2e_status_ok
  unfolding e2e_status_to_json_def e2e_status_of_json_def e2e_status_ok_def by (rule wes.wire_codec)

section \<open>\<open>MentionType\<close>\<close>

datatype (plugins only: code size) mention_type =
    MnUser | MnTeam | MnUnknown str

primrec mention_type_name :: "mention_type \<Rightarrow> str" where
  "mention_type_name MnUser = ''user''"
| "mention_type_name MnTeam = ''team''"
| "mention_type_name (MnUnknown s) = s"

definition mention_type_table :: "(str \<times> mention_type) list" where
  "mention_type_table = [
     (''user'', MnUser),
     (''team'', MnTeam)]"

definition mention_type_of :: "str \<Rightarrow> mention_type" where
  "mention_type_of = wire_of mention_type_table MnUnknown"

definition mention_type_to_json :: "mention_type \<Rightarrow> json" where
  "mention_type_to_json = wire_to_json mention_type_name"

definition mention_type_of_json :: "json \<Rightarrow> mention_type option" where
  "mention_type_of_json = wire_of_json mention_type_table MnUnknown"

definition mention_type_ok :: "mention_type \<Rightarrow> bool" where
  "mention_type_ok = wire_canon mention_type_table MnUnknown mention_type_name"

interpretation wmn: wire_enum mention_type_table MnUnknown mention_type_name
  by unfold_locales (simp_all add: mention_type_table_def)

interpretation cmn: codec mention_type_to_json mention_type_of_json mention_type_ok
  unfolding mention_type_to_json_def mention_type_of_json_def mention_type_ok_def by (rule wmn.wire_codec)

section \<open>\<open>NotificationPreference\<close>\<close>

datatype (plugins only: code size) notification_preference =
    NpAll | NpMentions | NpNothing | NpUnknown str

primrec notification_preference_name :: "notification_preference \<Rightarrow> str" where
  "notification_preference_name NpAll = ''all''"
| "notification_preference_name NpMentions = ''mentions''"
| "notification_preference_name NpNothing = ''nothing''"
| "notification_preference_name (NpUnknown s) = s"

definition notification_preference_table :: "(str \<times> notification_preference) list" where
  "notification_preference_table = [
     (''all'', NpAll),
     (''mentions'', NpMentions),
     (''nothing'', NpNothing)]"

definition notification_preference_of :: "str \<Rightarrow> notification_preference" where
  "notification_preference_of = wire_of notification_preference_table NpUnknown"

definition notification_preference_to_json :: "notification_preference \<Rightarrow> json" where
  "notification_preference_to_json = wire_to_json notification_preference_name"

definition notification_preference_of_json :: "json \<Rightarrow> notification_preference option" where
  "notification_preference_of_json = wire_of_json notification_preference_table NpUnknown"

definition notification_preference_ok :: "notification_preference \<Rightarrow> bool" where
  "notification_preference_ok = wire_canon notification_preference_table NpUnknown notification_preference_name"

interpretation wnp: wire_enum notification_preference_table NpUnknown notification_preference_name
  by unfold_locales (simp_all add: notification_preference_table_def)

interpretation cnp: codec notification_preference_to_json notification_preference_of_json notification_preference_ok
  unfolding notification_preference_to_json_def notification_preference_of_json_def notification_preference_ok_def by (rule wnp.wire_codec)

section \<open>\<open>PreferenceOrigin\<close>\<close>

datatype (plugins only: code size) preference_origin =
    PoSubscription | PoUser | PoUnknown str

primrec preference_origin_name :: "preference_origin \<Rightarrow> str" where
  "preference_origin_name PoSubscription = ''subscription''"
| "preference_origin_name PoUser = ''user''"
| "preference_origin_name (PoUnknown s) = s"

definition preference_origin_table :: "(str \<times> preference_origin) list" where
  "preference_origin_table = [
     (''subscription'', PoSubscription),
     (''user'', PoUser)]"

definition preference_origin_of :: "str \<Rightarrow> preference_origin" where
  "preference_origin_of = wire_of preference_origin_table PoUnknown"

definition preference_origin_to_json :: "preference_origin \<Rightarrow> json" where
  "preference_origin_to_json = wire_to_json preference_origin_name"

definition preference_origin_of_json :: "json \<Rightarrow> preference_origin option" where
  "preference_origin_of_json = wire_of_json preference_origin_table PoUnknown"

definition preference_origin_ok :: "preference_origin \<Rightarrow> bool" where
  "preference_origin_ok = wire_canon preference_origin_table PoUnknown preference_origin_name"

interpretation wpo: wire_enum preference_origin_table PoUnknown preference_origin_name
  by unfold_locales (simp_all add: preference_origin_table_def)

interpretation cpo: codec preference_origin_to_json preference_origin_of_json preference_origin_ok
  unfolding preference_origin_to_json_def preference_origin_of_json_def preference_origin_ok_def by (rule wpo.wire_codec)

section \<open>\<open>UnreadAlert\<close>\<close>

datatype (plugins only: code size) unread_alert =
    UaDefault | UaAll | UaMentions | UaNothing | UaUnknown str

primrec unread_alert_name :: "unread_alert \<Rightarrow> str" where
  "unread_alert_name UaDefault = ''default''"
| "unread_alert_name UaAll = ''all''"
| "unread_alert_name UaMentions = ''mentions''"
| "unread_alert_name UaNothing = ''nothing''"
| "unread_alert_name (UaUnknown s) = s"

definition unread_alert_table :: "(str \<times> unread_alert) list" where
  "unread_alert_table = [
     (''default'', UaDefault),
     (''all'', UaAll),
     (''mentions'', UaMentions),
     (''nothing'', UaNothing)]"

definition unread_alert_of :: "str \<Rightarrow> unread_alert" where
  "unread_alert_of = wire_of unread_alert_table UaUnknown"

definition unread_alert_to_json :: "unread_alert \<Rightarrow> json" where
  "unread_alert_to_json = wire_to_json unread_alert_name"

definition unread_alert_of_json :: "json \<Rightarrow> unread_alert option" where
  "unread_alert_of_json = wire_of_json unread_alert_table UaUnknown"

definition unread_alert_ok :: "unread_alert \<Rightarrow> bool" where
  "unread_alert_ok = wire_canon unread_alert_table UaUnknown unread_alert_name"

interpretation wua: wire_enum unread_alert_table UaUnknown unread_alert_name
  by unfold_locales (simp_all add: unread_alert_table_def)

interpretation cua: codec unread_alert_to_json unread_alert_of_json unread_alert_ok
  unfolding unread_alert_to_json_def unread_alert_of_json_def unread_alert_ok_def by (rule wua.wire_codec)

section \<open>\<open>SubscriptionStatus\<close>\<close>

datatype (plugins only: code size) subscription_status =
    SxInvited | SxBanned | SxUnknown str

primrec subscription_status_name :: "subscription_status \<Rightarrow> str" where
  "subscription_status_name SxInvited = ''INVITED''"
| "subscription_status_name SxBanned = ''BANNED''"
| "subscription_status_name (SxUnknown s) = s"

definition subscription_status_table :: "(str \<times> subscription_status) list" where
  "subscription_status_table = [
     (''INVITED'', SxInvited),
     (''BANNED'', SxBanned)]"

definition subscription_status_of :: "str \<Rightarrow> subscription_status" where
  "subscription_status_of = wire_of subscription_status_table SxUnknown"

definition subscription_status_to_json :: "subscription_status \<Rightarrow> json" where
  "subscription_status_to_json = wire_to_json subscription_status_name"

definition subscription_status_of_json :: "json \<Rightarrow> subscription_status option" where
  "subscription_status_of_json = wire_of_json subscription_status_table SxUnknown"

definition subscription_status_ok :: "subscription_status \<Rightarrow> bool" where
  "subscription_status_ok = wire_canon subscription_status_table SxUnknown subscription_status_name"

interpretation wsx: wire_enum subscription_status_table SxUnknown subscription_status_name
  by unfold_locales (simp_all add: subscription_status_table_def)

interpretation csx: codec subscription_status_to_json subscription_status_of_json subscription_status_ok
  unfolding subscription_status_to_json_def subscription_status_of_json_def subscription_status_ok_def by (rule wsx.wire_codec)

section \<open>Room kinds\<close>

definition rt_is_direct :: "room_type \<Rightarrow> bool" where
  "rt_is_direct t = (t = RtDirect)"

definition rt_is_public :: "room_type \<Rightarrow> bool" where
  "rt_is_public t = (t = RtChannel)"

definition rt_is_private :: "room_type \<Rightarrow> bool" where
  "rt_is_private t = (t = RtPrivate)"

definition rt_is_omnichannel :: "room_type \<Rightarrow> bool" where
  "rt_is_omnichannel t = (t = RtOmnichannel)"

definition rt_is_group :: "room_type \<Rightarrow> bool" where
  "rt_is_group t = (t = RtChannel \<or> t = RtPrivate)"

section \<open>Presence codes\<close>

datatype presence_status = PcOffline | PcOnline | PcAway | PcBusy | PcUnknown u8

definition presence_of :: "u8 \<Rightarrow> presence_status" where
  "presence_of v =
     (if v = 0 then PcOffline else if v = 1 then PcOnline else if v = 2 then PcAway
      else if v = 3 then PcBusy else PcUnknown v)"

primrec presence_code :: "presence_status \<Rightarrow> u8" where
  "presence_code PcOffline = 0"
| "presence_code PcOnline = 1"
| "presence_code PcAway = 2"
| "presence_code PcBusy = 3"
| "presence_code (PcUnknown other) = other"

primrec as_user_status :: "presence_status \<Rightarrow> user_status option" where
  "as_user_status PcOffline = Some UsOffline"
| "as_user_status PcOnline = Some UsOnline"
| "as_user_status PcAway = Some UsAway"
| "as_user_status PcBusy = Some UsBusy"
| "as_user_status (PcUnknown _) = None"

primrec presence_is_unknown :: "presence_status \<Rightarrow> bool" where
  "presence_is_unknown PcOffline = False"
| "presence_is_unknown PcOnline = False"
| "presence_is_unknown PcAway = False"
| "presence_is_unknown PcBusy = False"
| "presence_is_unknown (PcUnknown _) = True"

definition presence_to_json :: "presence_status \<Rightarrow> json" where
  "presence_to_json p = u8_to_json (presence_code p)"

definition presence_of_json :: "json \<Rightarrow> presence_status option" where
  "presence_of_json v = map_option presence_of (u8_of_json v)"

lemma presence_code_of [simp]: "presence_code (presence_of v) = v"
  by (simp add: presence_of_def)

lemma presence_encode_decoded:
  "presence_of_json v = Some p \<Longrightarrow> presence_of_json (presence_to_json p) = Some p"
  by (auto simp: presence_of_json_def presence_to_json_def)

lemma presence_never_disabled: "as_user_status p \<noteq> Some UsDisabled"
  by (cases p) simp_all

end
