(* ===== verification/Model_Message.thy ===== *)
theory Model_Message
  imports Model_Time Model_Enums
begin

text \<open>
  The message document of \<open>entity.rs\<close> with its sub-documents, and its predicates.  Each struct
  is a record with the members in declaration order; \<open>_fields\<close> is its derived \<open>Serialize\<close>,
  \<open>_of_obj\<close> its derived \<open>Deserialize\<close>, and \<open>_ok\<close> says when a value survives its own encoding:
  whole milliseconds, no explicit \<open>null\<close> in an optional raw member, and no \<open>Unknown\<close> that holds a
  known name.  The interpretation of \<open>codec\<close> below each struct is that round trip.
\<close>

section \<open>Sub-documents\<close>

record user_ref =
  ur_id :: str
  ur_username :: "str option"
  ur_name :: "str option"

definition USER_REF_NAMES :: "str list" where
  "USER_REF_NAMES = [
     ''_id'', ''username'', ''name'']"

definition user_ref_fields :: "user_ref \<Rightarrow> (str \<times> json option) list" where
  "user_ref_fields x = [
     (''_id'', Some (JString (ur_id x))),
     (''username'', map_option JString (ur_username x)),
     (''name'', map_option JString (ur_name x))]"

definition user_ref_to_json :: "user_ref \<Rightarrow> json" where
  "user_ref_to_json x = struct_to_json (user_ref_fields x)"

definition user_ref_of_obj :: "obj \<Rightarrow> user_ref option" where
  "user_ref_of_obj m = do {
     v_id \<leftarrow> req_field as_str m ''_id'';
     v_username \<leftarrow> opt_field as_str m ''username'';
     v_name \<leftarrow> opt_field as_str m ''name'';
     Some \<lparr>
       ur_id = v_id, ur_username = v_username, ur_name = v_name\<rparr>
   }"

definition user_ref_of_json :: "json \<Rightarrow> user_ref option" where
  "user_ref_of_json v = Option.bind (struct_obj USER_REF_NAMES v) user_ref_of_obj"

definition user_ref_ok :: "user_ref \<Rightarrow> bool" where
  "user_ref_ok x = True"

lemma user_ref_names: "map fst (user_ref_fields x) = USER_REF_NAMES"
  by (simp add: user_ref_fields_def USER_REF_NAMES_def)

lemma user_ref_distinct: "distinct USER_REF_NAMES"
  by (simp add: USER_REF_NAMES_def)

lemma user_ref_member: "obj_get (obj_of_fields (user_ref_fields x)) k = member (user_ref_fields x) k"
  by (rule obj_get_fields) (simp only: user_ref_names user_ref_distinct)

lemma user_ref_of_fields:
  assumes ok: "user_ref_ok x"
  shows "user_ref_of_obj (obj_of_fields (user_ref_fields x)) = Some x"
proof -
  obtain fs where fs: "fs = user_ref_fields x" by simp
  have g: "obj_get (obj_of_fields (user_ref_fields x)) k = member fs k" for k
    by (simp only: fs user_ref_member)
  have all: "list_all (\<lambda>(k, v). member fs k = v) (user_ref_fields x)"
    unfolding fs by (rule member_all) (simp only: user_ref_names user_ref_distinct)
  show ?thesis
    unfolding user_ref_of_obj_def req_field_def opt_field_read default_field_def g
    using ok all by (simp add: user_ref_ok_def user_ref_fields_def)
qed

interpretation cur: codec user_ref_to_json user_ref_of_json user_ref_ok
  by unfold_locales (simp_all add: user_ref_to_json_def user_ref_of_json_def user_ref_of_fields)

definition ur_display_name :: "user_ref \<Rightarrow> bool \<Rightarrow> str option" where
  "ur_display_name x use_real_name =
     (let (first, second) = (if use_real_name then (ur_name x, ur_username x) else (ur_username x, ur_name x))
      in if first \<noteq> None then first else second)"

record message_mention =
  mm_id :: str
  mm_mention_type :: "mention_type option"
  mm_name :: "str option"
  mm_username :: "str option"
  mm_fname :: "str option"

definition MESSAGE_MENTION_NAMES :: "str list" where
  "MESSAGE_MENTION_NAMES = [
     ''_id'', ''type'', ''name'', ''username'', ''fname'']"

definition message_mention_fields :: "message_mention \<Rightarrow> (str \<times> json option) list" where
  "message_mention_fields x = [
     (''_id'', Some (JString (mm_id x))),
     (''type'', map_option mention_type_to_json (mm_mention_type x)),
     (''name'', map_option JString (mm_name x)),
     (''username'', map_option JString (mm_username x)),
     (''fname'', map_option JString (mm_fname x))]"

definition message_mention_to_json :: "message_mention \<Rightarrow> json" where
  "message_mention_to_json x = struct_to_json (message_mention_fields x)"

definition message_mention_of_obj :: "obj \<Rightarrow> message_mention option" where
  "message_mention_of_obj m = do {
     v_id \<leftarrow> req_field as_str m ''_id'';
     v_mention_type \<leftarrow> opt_field mention_type_of_json m ''type'';
     v_name \<leftarrow> opt_field as_str m ''name'';
     v_username \<leftarrow> opt_field as_str m ''username'';
     v_fname \<leftarrow> opt_field as_str m ''fname'';
     Some \<lparr>
       mm_id = v_id, mm_mention_type = v_mention_type, mm_name = v_name, mm_username = v_username,
       mm_fname = v_fname\<rparr>
   }"

definition message_mention_of_json :: "json \<Rightarrow> message_mention option" where
  "message_mention_of_json v = Option.bind (struct_obj MESSAGE_MENTION_NAMES v) message_mention_of_obj"

definition message_mention_ok :: "message_mention \<Rightarrow> bool" where
  "message_mention_ok x = (pred_option (mention_type_ok) (mm_mention_type x))"

lemma message_mention_names: "map fst (message_mention_fields x) = MESSAGE_MENTION_NAMES"
  by (simp add: message_mention_fields_def MESSAGE_MENTION_NAMES_def)

lemma message_mention_distinct: "distinct MESSAGE_MENTION_NAMES"
  by (simp add: MESSAGE_MENTION_NAMES_def)

lemma message_mention_member: "obj_get (obj_of_fields (message_mention_fields x)) k = member (message_mention_fields x) k"
  by (rule obj_get_fields) (simp only: message_mention_names message_mention_distinct)

lemma message_mention_of_fields:
  assumes ok: "message_mention_ok x"
  shows "message_mention_of_obj (obj_of_fields (message_mention_fields x)) = Some x"
proof -
  obtain fs where fs: "fs = message_mention_fields x" by simp
  have g: "obj_get (obj_of_fields (message_mention_fields x)) k = member fs k" for k
    by (simp only: fs message_mention_member)
  have all: "list_all (\<lambda>(k, v). member fs k = v) (message_mention_fields x)"
    unfolding fs by (rule member_all) (simp only: message_mention_names message_mention_distinct)
  show ?thesis
    unfolding message_mention_of_obj_def req_field_def opt_field_read default_field_def g
    using ok all by (simp add: message_mention_ok_def message_mention_fields_def)
qed

interpretation cmm: codec message_mention_to_json message_mention_of_json message_mention_ok
  by unfold_locales (simp_all add: message_mention_to_json_def message_mention_of_json_def message_mention_of_fields)

record channel_mention =
  cm_id :: str
  cm_name :: "str option"

definition CHANNEL_MENTION_NAMES :: "str list" where
  "CHANNEL_MENTION_NAMES = [
     ''_id'', ''name'']"

definition channel_mention_fields :: "channel_mention \<Rightarrow> (str \<times> json option) list" where
  "channel_mention_fields x = [
     (''_id'', Some (JString (cm_id x))),
     (''name'', map_option JString (cm_name x))]"

definition channel_mention_to_json :: "channel_mention \<Rightarrow> json" where
  "channel_mention_to_json x = struct_to_json (channel_mention_fields x)"

definition channel_mention_of_obj :: "obj \<Rightarrow> channel_mention option" where
  "channel_mention_of_obj m = do {
     v_id \<leftarrow> req_field as_str m ''_id'';
     v_name \<leftarrow> opt_field as_str m ''name'';
     Some \<lparr>
       cm_id = v_id, cm_name = v_name\<rparr>
   }"

definition channel_mention_of_json :: "json \<Rightarrow> channel_mention option" where
  "channel_mention_of_json v = Option.bind (struct_obj CHANNEL_MENTION_NAMES v) channel_mention_of_obj"

definition channel_mention_ok :: "channel_mention \<Rightarrow> bool" where
  "channel_mention_ok x = True"

lemma channel_mention_names: "map fst (channel_mention_fields x) = CHANNEL_MENTION_NAMES"
  by (simp add: channel_mention_fields_def CHANNEL_MENTION_NAMES_def)

lemma channel_mention_distinct: "distinct CHANNEL_MENTION_NAMES"
  by (simp add: CHANNEL_MENTION_NAMES_def)

lemma channel_mention_member: "obj_get (obj_of_fields (channel_mention_fields x)) k = member (channel_mention_fields x) k"
  by (rule obj_get_fields) (simp only: channel_mention_names channel_mention_distinct)

lemma channel_mention_of_fields:
  assumes ok: "channel_mention_ok x"
  shows "channel_mention_of_obj (obj_of_fields (channel_mention_fields x)) = Some x"
proof -
  obtain fs where fs: "fs = channel_mention_fields x" by simp
  have g: "obj_get (obj_of_fields (channel_mention_fields x)) k = member fs k" for k
    by (simp only: fs channel_mention_member)
  have all: "list_all (\<lambda>(k, v). member fs k = v) (channel_mention_fields x)"
    unfolding fs by (rule member_all) (simp only: channel_mention_names channel_mention_distinct)
  show ?thesis
    unfolding channel_mention_of_obj_def req_field_def opt_field_read default_field_def g
    using ok all by (simp add: channel_mention_ok_def channel_mention_fields_def)
qed

interpretation ccm: codec channel_mention_to_json channel_mention_of_json channel_mention_ok
  by unfold_locales (simp_all add: channel_mention_to_json_def channel_mention_of_json_def channel_mention_of_fields)

record url_headers =
  uh_content_length :: "str option"
  uh_content_type :: "str option"

definition URL_HEADERS_NAMES :: "str list" where
  "URL_HEADERS_NAMES = [
     ''contentLength'', ''contentType'']"

definition url_headers_fields :: "url_headers \<Rightarrow> (str \<times> json option) list" where
  "url_headers_fields x = [
     (''contentLength'', map_option JString (uh_content_length x)),
     (''contentType'', map_option JString (uh_content_type x))]"

definition url_headers_to_json :: "url_headers \<Rightarrow> json" where
  "url_headers_to_json x = struct_to_json (url_headers_fields x)"

definition url_headers_of_obj :: "obj \<Rightarrow> url_headers option" where
  "url_headers_of_obj m = do {
     v_content_length \<leftarrow> opt_field as_str m ''contentLength'';
     v_content_type \<leftarrow> opt_field as_str m ''contentType'';
     Some \<lparr>
       uh_content_length = v_content_length, uh_content_type = v_content_type\<rparr>
   }"

definition url_headers_of_json :: "json \<Rightarrow> url_headers option" where
  "url_headers_of_json v = Option.bind (struct_obj URL_HEADERS_NAMES v) url_headers_of_obj"

definition url_headers_ok :: "url_headers \<Rightarrow> bool" where
  "url_headers_ok x = True"

lemma url_headers_names: "map fst (url_headers_fields x) = URL_HEADERS_NAMES"
  by (simp add: url_headers_fields_def URL_HEADERS_NAMES_def)

lemma url_headers_distinct: "distinct URL_HEADERS_NAMES"
  by (simp add: URL_HEADERS_NAMES_def)

lemma url_headers_member: "obj_get (obj_of_fields (url_headers_fields x)) k = member (url_headers_fields x) k"
  by (rule obj_get_fields) (simp only: url_headers_names url_headers_distinct)

lemma url_headers_of_fields:
  assumes ok: "url_headers_ok x"
  shows "url_headers_of_obj (obj_of_fields (url_headers_fields x)) = Some x"
proof -
  obtain fs where fs: "fs = url_headers_fields x" by simp
  have g: "obj_get (obj_of_fields (url_headers_fields x)) k = member fs k" for k
    by (simp only: fs url_headers_member)
  have all: "list_all (\<lambda>(k, v). member fs k = v) (url_headers_fields x)"
    unfolding fs by (rule member_all) (simp only: url_headers_names url_headers_distinct)
  show ?thesis
    unfolding url_headers_of_obj_def req_field_def opt_field_read default_field_def g
    using ok all by (simp add: url_headers_ok_def url_headers_fields_def)
qed

interpretation cuh: codec url_headers_to_json url_headers_of_json url_headers_ok
  by unfold_locales (simp_all add: url_headers_to_json_def url_headers_of_json_def url_headers_of_fields)

record message_url =
  mu_url :: str
  mu_source :: "str option"
  mu_meta :: "json strmap"
  mu_headers :: "url_headers option"
  mu_ignore_parse :: "bool option"
  mu_parsed_url :: "json option"

definition MESSAGE_URL_NAMES :: "str list" where
  "MESSAGE_URL_NAMES = [
     ''url'', ''source'', ''meta'', ''headers'', ''ignoreParse'', ''parsedUrl'']"

definition message_url_fields :: "message_url \<Rightarrow> (str \<times> json option) list" where
  "message_url_fields x = [
     (''url'', Some (JString (mu_url x))),
     (''source'', map_option JString (mu_source x)),
     (''meta'', if mu_meta x = [] then None else Some ((map_to_json raw) (mu_meta x))),
     (''headers'', map_option url_headers_to_json (mu_headers x)),
     (''ignoreParse'', map_option JBool (mu_ignore_parse x)),
     (''parsedUrl'', map_option raw (mu_parsed_url x))]"

definition message_url_to_json :: "message_url \<Rightarrow> json" where
  "message_url_to_json x = struct_to_json (message_url_fields x)"

definition message_url_of_obj :: "obj \<Rightarrow> message_url option" where
  "message_url_of_obj m = do {
     v_url \<leftarrow> req_field as_str m ''url'';
     v_source \<leftarrow> opt_field as_str m ''source'';
     v_meta \<leftarrow> default_field [] (dec_map dec_value) m ''meta'';
     v_headers \<leftarrow> opt_field url_headers_of_json m ''headers'';
     v_ignore_parse \<leftarrow> opt_field as_bool m ''ignoreParse'';
     v_parsed_url \<leftarrow> opt_field dec_value m ''parsedUrl'';
     Some \<lparr>
       mu_url = v_url, mu_source = v_source, mu_meta = v_meta, mu_headers = v_headers,
       mu_ignore_parse = v_ignore_parse, mu_parsed_url = v_parsed_url\<rparr>
   }"

definition message_url_of_json :: "json \<Rightarrow> message_url option" where
  "message_url_of_json v = Option.bind (struct_obj MESSAGE_URL_NAMES v) message_url_of_obj"

definition message_url_ok :: "message_url \<Rightarrow> bool" where
  "message_url_ok x = (pred_option (url_headers_ok) (mu_headers x) \<and>
      mu_parsed_url x \<noteq> Some JNull)"

lemma message_url_names: "map fst (message_url_fields x) = MESSAGE_URL_NAMES"
  by (simp add: message_url_fields_def MESSAGE_URL_NAMES_def)

lemma message_url_distinct: "distinct MESSAGE_URL_NAMES"
  by (simp add: MESSAGE_URL_NAMES_def)

lemma message_url_member: "obj_get (obj_of_fields (message_url_fields x)) k = member (message_url_fields x) k"
  by (rule obj_get_fields) (simp only: message_url_names message_url_distinct)

lemma message_url_of_fields:
  assumes ok: "message_url_ok x"
  shows "message_url_of_obj (obj_of_fields (message_url_fields x)) = Some x"
proof -
  obtain fs where fs: "fs = message_url_fields x" by simp
  have g: "obj_get (obj_of_fields (message_url_fields x)) k = member fs k" for k
    by (simp only: fs message_url_member)
  have all: "list_all (\<lambda>(k, v). member fs k = v) (message_url_fields x)"
    unfolding fs by (rule member_all) (simp only: message_url_names message_url_distinct)
  show ?thesis
    unfolding message_url_of_obj_def req_field_def opt_field_read default_field_def g
    using ok all by (simp add: message_url_ok_def message_url_fields_def)
qed

interpretation cmu: codec message_url_to_json message_url_of_json message_url_ok
  by unfold_locales (simp_all add: message_url_to_json_def message_url_of_json_def message_url_of_fields)

record reaction =
  rx_usernames :: "str list"
  rx_names :: "str list option"
  rx_federation_reaction_event_ids :: "str strmap option"

definition REACTION_NAMES :: "str list" where
  "REACTION_NAMES = [
     ''usernames'', ''names'', ''federationReactionEventIds'']"

definition reaction_fields :: "reaction \<Rightarrow> (str \<times> json option) list" where
  "reaction_fields x = [
     (''usernames'', Some (list_to_json JString (rx_usernames x))),
     (''names'', map_option (list_to_json JString) (rx_names x)),
     (''federationReactionEventIds'', map_option (map_to_json JString) (rx_federation_reaction_event_ids x))]"

definition reaction_to_json :: "reaction \<Rightarrow> json" where
  "reaction_to_json x = struct_to_json (reaction_fields x)"

definition reaction_of_obj :: "obj \<Rightarrow> reaction option" where
  "reaction_of_obj m = do {
     v_usernames \<leftarrow> default_field [] nullable_strings m ''usernames'';
     v_names \<leftarrow> opt_field nullable_strings m ''names'';
     v_federation_reaction_event_ids \<leftarrow> opt_field (dec_map as_str) m ''federationReactionEventIds'';
     Some \<lparr>
       rx_usernames = v_usernames, rx_names = v_names,
       rx_federation_reaction_event_ids = v_federation_reaction_event_ids\<rparr>
   }"

definition reaction_of_json :: "json \<Rightarrow> reaction option" where
  "reaction_of_json v = Option.bind (struct_obj REACTION_NAMES v) reaction_of_obj"

definition reaction_ok :: "reaction \<Rightarrow> bool" where
  "reaction_ok x = True"

lemma reaction_names: "map fst (reaction_fields x) = REACTION_NAMES"
  by (simp add: reaction_fields_def REACTION_NAMES_def)

lemma reaction_distinct: "distinct REACTION_NAMES"
  by (simp add: REACTION_NAMES_def)

lemma reaction_member: "obj_get (obj_of_fields (reaction_fields x)) k = member (reaction_fields x) k"
  by (rule obj_get_fields) (simp only: reaction_names reaction_distinct)

lemma reaction_of_fields:
  assumes ok: "reaction_ok x"
  shows "reaction_of_obj (obj_of_fields (reaction_fields x)) = Some x"
proof -
  obtain fs where fs: "fs = reaction_fields x" by simp
  have g: "obj_get (obj_of_fields (reaction_fields x)) k = member fs k" for k
    by (simp only: fs reaction_member)
  have all: "list_all (\<lambda>(k, v). member fs k = v) (reaction_fields x)"
    unfolding fs by (rule member_all) (simp only: reaction_names reaction_distinct)
  show ?thesis
    unfolding reaction_of_obj_def req_field_def opt_field_read default_field_def g
    using ok all by (simp add: reaction_ok_def reaction_fields_def)
qed

interpretation crx: codec reaction_to_json reaction_of_json reaction_ok
  by unfold_locales (simp_all add: reaction_to_json_def reaction_of_json_def reaction_of_fields)

definition rx_count :: "reaction \<Rightarrow> nat" where
  "rx_count x = length (rx_usernames x)"

definition rx_contains :: "reaction \<Rightarrow> str \<Rightarrow> bool" where
  "rx_contains x username = list_ex (\<lambda>u. u = username) (rx_usernames x)"

record star =
  star_user_id :: str

definition STAR_NAMES :: "str list" where
  "STAR_NAMES = [
     ''_id'']"

definition star_fields :: "star \<Rightarrow> (str \<times> json option) list" where
  "star_fields x = [
     (''_id'', Some (JString (star_user_id x)))]"

definition star_to_json :: "star \<Rightarrow> json" where
  "star_to_json x = struct_to_json (star_fields x)"

definition star_of_obj :: "obj \<Rightarrow> star option" where
  "star_of_obj m = do {
     v_user_id \<leftarrow> req_field as_str m ''_id'';
     Some \<lparr>
       star_user_id = v_user_id\<rparr>
   }"

definition star_of_json :: "json \<Rightarrow> star option" where
  "star_of_json v = Option.bind (struct_obj STAR_NAMES v) star_of_obj"

definition star_ok :: "star \<Rightarrow> bool" where
  "star_ok x = True"

lemma star_names: "map fst (star_fields x) = STAR_NAMES"
  by (simp add: star_fields_def STAR_NAMES_def)

lemma star_distinct: "distinct STAR_NAMES"
  by (simp add: STAR_NAMES_def)

lemma star_member: "obj_get (obj_of_fields (star_fields x)) k = member (star_fields x) k"
  by (rule obj_get_fields) (simp only: star_names star_distinct)

lemma star_of_fields:
  assumes ok: "star_ok x"
  shows "star_of_obj (obj_of_fields (star_fields x)) = Some x"
proof -
  obtain fs where fs: "fs = star_fields x" by simp
  have g: "obj_get (obj_of_fields (star_fields x)) k = member fs k" for k
    by (simp only: fs star_member)
  have all: "list_all (\<lambda>(k, v). member fs k = v) (star_fields x)"
    unfolding fs by (rule member_all) (simp only: star_names star_distinct)
  show ?thesis
    unfolding star_of_obj_def req_field_def opt_field_read default_field_def g
    using ok all by (simp add: star_ok_def star_fields_def)
qed

interpretation cstar: codec star_to_json star_of_json star_ok
  by unfold_locales (simp_all add: star_to_json_def star_of_json_def star_of_fields)

record message_file =
  mf_id :: str
  mf_name :: "str option"
  mf_content_type :: "str option"
  mf_format :: "str option"
  mf_size :: "i64 option"
  mf_type_group :: "str option"

definition MESSAGE_FILE_NAMES :: "str list" where
  "MESSAGE_FILE_NAMES = [
     ''_id'', ''name'', ''type'', ''format'', ''size'', ''typeGroup'']"

definition message_file_fields :: "message_file \<Rightarrow> (str \<times> json option) list" where
  "message_file_fields x = [
     (''_id'', Some (JString (mf_id x))),
     (''name'', map_option JString (mf_name x)),
     (''type'', map_option JString (mf_content_type x)),
     (''format'', map_option JString (mf_format x)),
     (''size'', map_option i64_to_json (mf_size x)),
     (''typeGroup'', map_option JString (mf_type_group x))]"

definition message_file_to_json :: "message_file \<Rightarrow> json" where
  "message_file_to_json x = struct_to_json (message_file_fields x)"

definition message_file_of_obj :: "obj \<Rightarrow> message_file option" where
  "message_file_of_obj m = do {
     v_id \<leftarrow> req_field as_str m ''_id'';
     v_name \<leftarrow> opt_field as_str m ''name'';
     v_content_type \<leftarrow> opt_field as_str m ''type'';
     v_format \<leftarrow> opt_field as_str m ''format'';
     v_size \<leftarrow> opt_field as_i64 m ''size'';
     v_type_group \<leftarrow> opt_field as_str m ''typeGroup'';
     Some \<lparr>
       mf_id = v_id, mf_name = v_name, mf_content_type = v_content_type, mf_format = v_format,
       mf_size = v_size, mf_type_group = v_type_group\<rparr>
   }"

definition message_file_of_json :: "json \<Rightarrow> message_file option" where
  "message_file_of_json v = Option.bind (struct_obj MESSAGE_FILE_NAMES v) message_file_of_obj"

definition message_file_ok :: "message_file \<Rightarrow> bool" where
  "message_file_ok x = True"

lemma message_file_names: "map fst (message_file_fields x) = MESSAGE_FILE_NAMES"
  by (simp add: message_file_fields_def MESSAGE_FILE_NAMES_def)

lemma message_file_distinct: "distinct MESSAGE_FILE_NAMES"
  by (simp add: MESSAGE_FILE_NAMES_def)

lemma message_file_member: "obj_get (obj_of_fields (message_file_fields x)) k = member (message_file_fields x) k"
  by (rule obj_get_fields) (simp only: message_file_names message_file_distinct)

lemma message_file_of_fields:
  assumes ok: "message_file_ok x"
  shows "message_file_of_obj (obj_of_fields (message_file_fields x)) = Some x"
proof -
  obtain fs where fs: "fs = message_file_fields x" by simp
  have g: "obj_get (obj_of_fields (message_file_fields x)) k = member fs k" for k
    by (simp only: fs message_file_member)
  have all: "list_all (\<lambda>(k, v). member fs k = v) (message_file_fields x)"
    unfolding fs by (rule member_all) (simp only: message_file_names message_file_distinct)
  show ?thesis
    unfolding message_file_of_obj_def req_field_def opt_field_read default_field_def g
    using ok all by (simp add: message_file_ok_def message_file_fields_def)
qed

interpretation cmf: codec message_file_to_json message_file_of_json message_file_ok
  by unfold_locales (simp_all add: message_file_to_json_def message_file_of_json_def message_file_of_fields)

section \<open>The message\<close>

record message =
  msg_id :: str
  msg_updated_at :: timestamp
  msg_rid :: str
  msg_msg :: str
  msg_ts :: timestamp
  msg_u :: user_ref
  msg_t :: "message_type option"
  msg_edited_at :: "timestamp option"
  msg_edited_by :: "user_ref option"
  msg_attachments :: "json list option"
  msg_mentions :: "message_mention list option"
  msg_channels :: "channel_mention list option"
  msg_md :: "json option"
  msg_blocks :: "json option"
  msg_urls :: "message_url list option"
  msg_reactions :: "reaction strmap option"
  msg_file :: "message_file option"
  msg_files :: "message_file list option"
  msg_tmid :: "str option"
  msg_tshow :: "bool option"
  msg_tcount :: "i64 option"
  msg_tlm :: "timestamp option"
  msg_replies :: "str list option"
  msg_drid :: "str option"
  msg_dcount :: "i64 option"
  msg_dlm :: "timestamp option"
  msg_groupable :: "bool option"
  msg_parse_urls :: "bool option"
  msg_unread :: "bool option"
  msg_pinned :: "bool option"
  msg_pinned_at :: "timestamp option"
  msg_pinned_by :: "user_ref option"
  msg_starred :: "star list option"
  msg_private :: "bool option"
  msg_temp :: "bool option"
  msg_hidden :: "bool option"
  msg_imported :: "bool option"
  msg_e2e :: "e2e_status option"
  msg_alias :: "str option"
  msg_avatar :: "str option"
  msg_emoji :: "str option"
  msg_role :: "str option"
  msg_bot :: "json option"
  msg_token :: "str option"
  msg_custom_fields :: "json option"

definition MESSAGE_NAMES :: "str list" where
  "MESSAGE_NAMES = [
     ''_id'', ''_updatedAt'', ''rid'', ''msg'', ''ts'', ''u'', ''t'', ''editedAt'', ''editedBy'',
     ''attachments'', ''mentions'', ''channels'', ''md'', ''blocks'', ''urls'', ''reactions'',
     ''file'', ''files'', ''tmid'', ''tshow'', ''tcount'', ''tlm'', ''replies'', ''drid'',
     ''dcount'', ''dlm'', ''groupable'', ''parseUrls'', ''unread'', ''pinned'', ''pinnedAt'',
     ''pinnedBy'', ''starred'', ''private'', ''temp'', ''_hidden'', ''imported'', ''e2e'',
     ''alias'', ''avatar'', ''emoji'', ''role'', ''bot'', ''token'', ''customFields'']"

definition message_fields :: "message \<Rightarrow> (str \<times> json option) list" where
  "message_fields x = [
     (''_id'', Some (JString (msg_id x))),
     (''_updatedAt'', Some (ts_to_json (msg_updated_at x))),
     (''rid'', Some (JString (msg_rid x))),
     (''msg'', Some (JString (msg_msg x))),
     (''ts'', Some (ts_to_json (msg_ts x))),
     (''u'', Some (user_ref_to_json (msg_u x))),
     (''t'', map_option message_type_to_json (msg_t x)),
     (''editedAt'', map_option ts_to_json (msg_edited_at x)),
     (''editedBy'', map_option user_ref_to_json (msg_edited_by x)),
     (''attachments'', map_option (list_to_json raw) (msg_attachments x)),
     (''mentions'', map_option (list_to_json message_mention_to_json) (msg_mentions x)),
     (''channels'', map_option (list_to_json channel_mention_to_json) (msg_channels x)),
     (''md'', map_option raw (msg_md x)),
     (''blocks'', map_option raw (msg_blocks x)),
     (''urls'', map_option (list_to_json message_url_to_json) (msg_urls x)),
     (''reactions'', map_option (map_to_json reaction_to_json) (msg_reactions x)),
     (''file'', map_option message_file_to_json (msg_file x)),
     (''files'', map_option (list_to_json message_file_to_json) (msg_files x)),
     (''tmid'', map_option JString (msg_tmid x)),
     (''tshow'', map_option JBool (msg_tshow x)),
     (''tcount'', map_option i64_to_json (msg_tcount x)),
     (''tlm'', map_option ts_to_json (msg_tlm x)),
     (''replies'', map_option (list_to_json JString) (msg_replies x)),
     (''drid'', map_option JString (msg_drid x)),
     (''dcount'', map_option i64_to_json (msg_dcount x)),
     (''dlm'', map_option ts_to_json (msg_dlm x)),
     (''groupable'', map_option JBool (msg_groupable x)),
     (''parseUrls'', map_option JBool (msg_parse_urls x)),
     (''unread'', map_option JBool (msg_unread x)),
     (''pinned'', map_option JBool (msg_pinned x)),
     (''pinnedAt'', map_option ts_to_json (msg_pinned_at x)),
     (''pinnedBy'', map_option user_ref_to_json (msg_pinned_by x)),
     (''starred'', map_option (list_to_json star_to_json) (msg_starred x)),
     (''private'', map_option JBool (msg_private x)),
     (''temp'', map_option JBool (msg_temp x)),
     (''_hidden'', map_option JBool (msg_hidden x)),
     (''imported'', map_option JBool (msg_imported x)),
     (''e2e'', map_option e2e_status_to_json (msg_e2e x)),
     (''alias'', map_option JString (msg_alias x)),
     (''avatar'', map_option JString (msg_avatar x)),
     (''emoji'', map_option JString (msg_emoji x)),
     (''role'', map_option JString (msg_role x)),
     (''bot'', map_option raw (msg_bot x)),
     (''token'', map_option JString (msg_token x)),
     (''customFields'', map_option raw (msg_custom_fields x))]"

definition message_to_json :: "message \<Rightarrow> json" where
  "message_to_json x = struct_to_json (message_fields x)"

definition message_of_obj :: "time_lib \<Rightarrow> obj \<Rightarrow> message option" where
  "message_of_obj T m = do {
     v_id \<leftarrow> req_field as_str m ''_id'';
     v_updated_at \<leftarrow> req_field (ts_of_json T) m ''_updatedAt'';
     v_rid \<leftarrow> req_field as_str m ''rid'';
     v_msg \<leftarrow> req_field as_str m ''msg'';
     v_ts \<leftarrow> req_field (ts_of_json T) m ''ts'';
     v_u \<leftarrow> req_field user_ref_of_json m ''u'';
     v_t \<leftarrow> opt_field message_type_of_json m ''t'';
     v_edited_at \<leftarrow> ts_option T (obj_get m ''editedAt'');
     v_edited_by \<leftarrow> opt_field user_ref_of_json m ''editedBy'';
     v_attachments \<leftarrow> opt_field (dec_array dec_value) m ''attachments'';
     v_mentions \<leftarrow> opt_field (dec_array message_mention_of_json) m ''mentions'';
     v_channels \<leftarrow> opt_field (dec_array channel_mention_of_json) m ''channels'';
     v_md \<leftarrow> opt_field dec_value m ''md'';
     v_blocks \<leftarrow> opt_field dec_value m ''blocks'';
     v_urls \<leftarrow> opt_field (dec_array message_url_of_json) m ''urls'';
     v_reactions \<leftarrow> opt_field (dec_map reaction_of_json) m ''reactions'';
     v_file \<leftarrow> opt_field message_file_of_json m ''file'';
     v_files \<leftarrow> opt_field (dec_array message_file_of_json) m ''files'';
     v_tmid \<leftarrow> opt_field as_str m ''tmid'';
     v_tshow \<leftarrow> opt_field as_bool m ''tshow'';
     v_tcount \<leftarrow> opt_field as_i64 m ''tcount'';
     v_tlm \<leftarrow> ts_option T (obj_get m ''tlm'');
     v_replies \<leftarrow> opt_field (dec_array as_str) m ''replies'';
     v_drid \<leftarrow> opt_field as_str m ''drid'';
     v_dcount \<leftarrow> opt_field as_i64 m ''dcount'';
     v_dlm \<leftarrow> ts_option T (obj_get m ''dlm'');
     v_groupable \<leftarrow> opt_field as_bool m ''groupable'';
     v_parse_urls \<leftarrow> opt_field as_bool m ''parseUrls'';
     v_unread \<leftarrow> opt_field as_bool m ''unread'';
     v_pinned \<leftarrow> opt_field as_bool m ''pinned'';
     v_pinned_at \<leftarrow> ts_option T (obj_get m ''pinnedAt'');
     v_pinned_by \<leftarrow> opt_field user_ref_of_json m ''pinnedBy'';
     v_starred \<leftarrow> opt_field (dec_array star_of_json) m ''starred'';
     v_private \<leftarrow> opt_field as_bool m ''private'';
     v_temp \<leftarrow> opt_field as_bool m ''temp'';
     v_hidden \<leftarrow> opt_field as_bool m ''_hidden'';
     v_imported \<leftarrow> opt_field as_bool m ''imported'';
     v_e2e \<leftarrow> opt_field e2e_status_of_json m ''e2e'';
     v_alias \<leftarrow> opt_field as_str m ''alias'';
     v_avatar \<leftarrow> opt_field as_str m ''avatar'';
     v_emoji \<leftarrow> opt_field as_str m ''emoji'';
     v_role \<leftarrow> opt_field as_str m ''role'';
     v_bot \<leftarrow> opt_field dec_value m ''bot'';
     v_token \<leftarrow> opt_field as_str m ''token'';
     v_custom_fields \<leftarrow> opt_field dec_value m ''customFields'';
     Some \<lparr>
       msg_id = v_id, msg_updated_at = v_updated_at, msg_rid = v_rid, msg_msg = v_msg,
       msg_ts = v_ts, msg_u = v_u, msg_t = v_t, msg_edited_at = v_edited_at,
       msg_edited_by = v_edited_by, msg_attachments = v_attachments, msg_mentions = v_mentions,
       msg_channels = v_channels, msg_md = v_md, msg_blocks = v_blocks, msg_urls = v_urls,
       msg_reactions = v_reactions, msg_file = v_file, msg_files = v_files, msg_tmid = v_tmid,
       msg_tshow = v_tshow, msg_tcount = v_tcount, msg_tlm = v_tlm, msg_replies = v_replies,
       msg_drid = v_drid, msg_dcount = v_dcount, msg_dlm = v_dlm, msg_groupable = v_groupable,
       msg_parse_urls = v_parse_urls, msg_unread = v_unread, msg_pinned = v_pinned,
       msg_pinned_at = v_pinned_at, msg_pinned_by = v_pinned_by, msg_starred = v_starred,
       msg_private = v_private, msg_temp = v_temp, msg_hidden = v_hidden, msg_imported = v_imported,
       msg_e2e = v_e2e, msg_alias = v_alias, msg_avatar = v_avatar, msg_emoji = v_emoji,
       msg_role = v_role, msg_bot = v_bot, msg_token = v_token, msg_custom_fields = v_custom_fields\<rparr>
   }"

definition message_of_json :: "time_lib \<Rightarrow> json \<Rightarrow> message option" where
  "message_of_json T v = Option.bind (struct_obj MESSAGE_NAMES v) (message_of_obj T)"

definition message_ok :: "time_lib \<Rightarrow> message \<Rightarrow> bool" where
  "message_ok T x = (ts_ok T (msg_updated_at x) \<and>
      ts_ok T (msg_ts x) \<and>
      user_ref_ok (msg_u x) \<and>
      pred_option (message_type_ok) (msg_t x) \<and>
      pred_option (ts_ok T) (msg_edited_at x) \<and>
      pred_option (user_ref_ok) (msg_edited_by x) \<and>
      pred_option (list_all (message_mention_ok)) (msg_mentions x) \<and>
      pred_option (list_all (channel_mention_ok)) (msg_channels x) \<and>
      msg_md x \<noteq> Some JNull \<and>
      msg_blocks x \<noteq> Some JNull \<and>
      pred_option (list_all (message_url_ok)) (msg_urls x) \<and>
      pred_option (list_all (\<lambda>(_, x). reaction_ok x)) (msg_reactions x) \<and>
      pred_option (message_file_ok) (msg_file x) \<and>
      pred_option (list_all (message_file_ok)) (msg_files x) \<and>
      pred_option (ts_ok T) (msg_tlm x) \<and>
      pred_option (ts_ok T) (msg_dlm x) \<and>
      pred_option (ts_ok T) (msg_pinned_at x) \<and>
      pred_option (user_ref_ok) (msg_pinned_by x) \<and>
      pred_option (list_all (star_ok)) (msg_starred x) \<and>
      pred_option (e2e_status_ok) (msg_e2e x) \<and>
      msg_bot x \<noteq> Some JNull \<and>
      msg_custom_fields x \<noteq> Some JNull)"

lemma message_names: "map fst (message_fields x) = MESSAGE_NAMES"
  by (simp add: message_fields_def MESSAGE_NAMES_def)

lemma message_distinct: "distinct MESSAGE_NAMES"
  by (simp add: MESSAGE_NAMES_def)

lemma message_member: "obj_get (obj_of_fields (message_fields x)) k = member (message_fields x) k"
  by (rule obj_get_fields) (simp only: message_names message_distinct)

lemma message_of_fields:
  assumes ok: "message_ok T x"
  shows "message_of_obj T (obj_of_fields (message_fields x)) = Some x"
proof -
  obtain fs where fs: "fs = message_fields x" by simp
  have g: "obj_get (obj_of_fields (message_fields x)) k = member fs k" for k
    by (simp only: fs message_member)
  have all: "list_all (\<lambda>(k, v). member fs k = v) (message_fields x)"
    unfolding fs by (rule member_all) (simp only: message_names message_distinct)
  show ?thesis
    unfolding message_of_obj_def req_field_def opt_field_read default_field_def g
    using ok all by (simp add: message_ok_def message_fields_def)
qed

interpretation cmsg: codec message_to_json "message_of_json T" "message_ok T" for T
  by unfold_locales (simp_all add: message_to_json_def message_of_json_def message_of_fields)

definition is_system :: "message \<Rightarrow> bool" where
  "is_system x = (msg_t x \<noteq> None)"

definition is_edited :: "message \<Rightarrow> bool" where
  "is_edited x = (msg_edited_at x \<noteq> None)"

definition is_deleted_tombstone :: "message \<Rightarrow> bool" where
  "is_deleted_tombstone x = (is_edited x \<and> msg_t x = Some MtRm)"

definition is_thread_reply :: "message \<Rightarrow> bool" where
  "is_thread_reply x = (msg_tmid x \<noteq> None)"

definition is_thread_main :: "message \<Rightarrow> bool" where
  "is_thread_main x = (msg_tcount x \<noteq> None \<and> msg_tlm x \<noteq> None)"

definition is_discussion_parent :: "message \<Rightarrow> bool" where
  "is_discussion_parent x = (msg_drid x \<noteq> None)"

definition is_starred_by :: "message \<Rightarrow> str \<Rightarrow> bool" where
  "is_starred_by x user = (case msg_starred x of
       None \<Rightarrow> False
     | Some stars \<Rightarrow> list_ex (\<lambda>s. star_user_id s = user) stars)"

definition is_pinned :: "message \<Rightarrow> bool" where
  "is_pinned x = (case msg_pinned x of Some b \<Rightarrow> b | None \<Rightarrow> False)"

definition msg_reaction :: "message \<Rightarrow> str \<Rightarrow> reaction option" where
  "msg_reaction x emoji = Option.bind (msg_reactions x) (\<lambda>m. map_of m emoji)"

end
