(* ===== verification/Model_Room.thy ===== *)
theory Model_Room
  imports Model_Message
begin

text \<open>
  The room document of \<open>entity.rs\<close>, its two untagged unions, and its predicates.  An untagged
  union decodes as the first arm that accepts the value.
\<close>

section \<open>The unions of a room\<close>

datatype sys_mes = SmEnabled bool | SmHidden "message_type list"

definition sys_mes_to_json :: "sys_mes \<Rightarrow> json" where
  "sys_mes_to_json x = (case x of SmEnabled b \<Rightarrow> JBool b | SmHidden ts \<Rightarrow> list_to_json message_type_to_json ts)"

definition sys_mes_of_json :: "json \<Rightarrow> sys_mes option" where
  "sys_mes_of_json v = (case as_bool v of
       Some b \<Rightarrow> Some (SmEnabled b)
     | None \<Rightarrow> map_option SmHidden (dec_array message_type_of_json v))"

definition sys_mes_ok :: "sys_mes \<Rightarrow> bool" where
  "sys_mes_ok x = (case x of SmEnabled b \<Rightarrow> True | SmHidden ts \<Rightarrow> list_all message_type_ok ts)"

interpretation csm: codec sys_mes_to_json sys_mes_of_json sys_mes_ok
proof unfold_locales
  fix x
  assume "sys_mes_ok x"
  then show "sys_mes_of_json (sys_mes_to_json x) = Some x"
    by (cases x) (simp_all add: sys_mes_of_json_def sys_mes_to_json_def sys_mes_ok_def list_to_json_def
      cmt.array [unfolded list_to_json_def])
qed (simp add: sys_mes_to_json_def list_to_json_def split: sys_mes.splits)

definition hidden_types :: "sys_mes \<Rightarrow> message_type list option" where
  "hidden_types x = (case x of SmHidden ts \<Rightarrow> Some ts | SmEnabled _ \<Rightarrow> None)"

definition hides :: "sys_mes \<Rightarrow> message_type \<Rightarrow> bool" where
  "hides x t = (case x of SmEnabled _ \<Rightarrow> False | SmHidden ts \<Rightarrow> List.member ts t)"

datatype role_priorities = RpVersion i64 | RpFlag bool

definition role_priorities_to_json :: "role_priorities \<Rightarrow> json" where
  "role_priorities_to_json x = (case x of RpVersion n \<Rightarrow> i64_to_json n | RpFlag b \<Rightarrow> JBool b)"

definition role_priorities_of_json :: "json \<Rightarrow> role_priorities option" where
  "role_priorities_of_json v = (case as_i64 v of
       Some n \<Rightarrow> Some (RpVersion n)
     | None \<Rightarrow> map_option RpFlag (as_bool v))"

interpretation crp: codec role_priorities_to_json role_priorities_of_json "\<lambda>_. True"
  by unfold_locales
    (simp_all add: role_priorities_of_json_def role_priorities_to_json_def ci64.not_null split: role_priorities.splits)

record announcement_details =
  ad_style :: "str option"

definition ANNOUNCEMENT_DETAILS_NAMES :: "str list" where
  "ANNOUNCEMENT_DETAILS_NAMES = [
     ''style'']"

definition announcement_details_fields :: "announcement_details \<Rightarrow> (str \<times> json option) list" where
  "announcement_details_fields x = [
     (''style'', map_option JString (ad_style x))]"

definition announcement_details_to_json :: "announcement_details \<Rightarrow> json" where
  "announcement_details_to_json x = struct_to_json (announcement_details_fields x)"

definition announcement_details_of_obj :: "obj \<Rightarrow> announcement_details option" where
  "announcement_details_of_obj m = do {
     v_style \<leftarrow> opt_field as_str m ''style'';
     Some \<lparr>
       ad_style = v_style\<rparr>
   }"

definition announcement_details_of_json :: "json \<Rightarrow> announcement_details option" where
  "announcement_details_of_json v = Option.bind (struct_obj ANNOUNCEMENT_DETAILS_NAMES v) announcement_details_of_obj"

definition announcement_details_ok :: "announcement_details \<Rightarrow> bool" where
  "announcement_details_ok x = True"

lemma announcement_details_names: "map fst (announcement_details_fields x) = ANNOUNCEMENT_DETAILS_NAMES"
  by (simp add: announcement_details_fields_def ANNOUNCEMENT_DETAILS_NAMES_def)

lemma announcement_details_distinct: "distinct ANNOUNCEMENT_DETAILS_NAMES"
  by (simp add: ANNOUNCEMENT_DETAILS_NAMES_def)

lemma announcement_details_member: "obj_get (obj_of_fields (announcement_details_fields x)) k = member (announcement_details_fields x) k"
  by (rule obj_get_fields) (simp only: announcement_details_names announcement_details_distinct)

lemma announcement_details_of_fields:
  assumes ok: "announcement_details_ok x"
  shows "announcement_details_of_obj (obj_of_fields (announcement_details_fields x)) = Some x"
proof -
  obtain fs where fs: "fs = announcement_details_fields x" by simp
  have g: "obj_get (obj_of_fields (announcement_details_fields x)) k = member fs k" for k
    by (simp only: fs announcement_details_member)
  have all: "list_all (\<lambda>(k, v). member fs k = v) (announcement_details_fields x)"
    unfolding fs by (rule member_all) (simp only: announcement_details_names announcement_details_distinct)
  show ?thesis
    unfolding announcement_details_of_obj_def req_field_def opt_field_read default_field_def g
    using ok all by (simp add: announcement_details_ok_def announcement_details_fields_def)
qed

interpretation cad: codec announcement_details_to_json announcement_details_of_json announcement_details_ok
  by unfold_locales (simp_all add: announcement_details_to_json_def announcement_details_of_json_def announcement_details_of_fields)

section \<open>The room\<close>

record room =
  room_id :: str
  room_updated_at :: timestamp
  room_t :: room_type
  room_name :: "str option"
  room_fname :: "str option"
  room_msgs :: "i64 option"
  room_users_count :: "i64 option"
  room_u :: "user_ref option"
  room_uids :: "str list option"
  room_usernames :: "str list option"
  room_default :: "bool option"
  room_broadcast :: "bool option"
  room_featured :: "bool option"
  room_topic :: "str option"
  room_description :: "str option"
  room_announcement :: "str option"
  room_announcement_details :: "announcement_details option"
  room_join_code_required :: "bool option"
  room_encrypted :: "bool option"
  room_e2e_key_id :: "str option"
  room_users_waiting_for_e2e_keys :: "json list option"
  room_ro :: "bool option"
  room_react_when_read_only :: "bool option"
  room_sys_mes :: "sys_mes option"
  room_cl :: "bool option"
  room_archived :: "bool option"
  room_muted :: "str list option"
  room_unmuted :: "str list option"
  room_last_message :: "message option"
  room_lm :: "timestamp option"
  room_ts :: "timestamp option"
  room_web_rtc_call_start_time :: "timestamp option"
  room_prid :: "str option"
  room_avatar_etag :: "str option"
  room_team_main :: "bool option"
  room_team_id :: "str option"
  room_team_default :: "bool option"
  room_open :: "bool option"
  room_unread :: "i64 option"
  room_alert :: "bool option"
  room_favorite :: "bool option"
  room_hide_unread_status :: "bool option"
  room_hide_mention_status :: "bool option"
  room_auto_translate :: "bool option"
  room_auto_translate_language :: "str option"
  room_retention :: "json option"
  room_abac_attributes :: "json list option"
  room_role_priorities_created :: "role_priorities option"
  room_custom_fields :: "json option"
  room_federated :: "bool option"
  room_federation :: "json option"
  room_v :: "json option"
  room_source :: "json option"
  room_served_by :: "json option"
  room_department_id :: "str option"
  room_on_hold :: "bool option"
  room_waiting_response :: "json option"
  room_queued_at :: "timestamp option"
  room_tags :: "str list option"
  room_livechat_data :: "json option"
  room_metrics :: "json option"
  room_transcript_request :: "json option"
  room_priority_id :: "str option"
  room_priority_weight :: "i64 option"
  room_sla_id :: "str option"
  room_estimated_waiting_time_queue :: "rat option"
  room_contact_id :: "str option"
  room_verified :: "bool option"
  room_sms :: "json option"
  room_code :: "json option"
  room_label :: "str option"
  room_sentiment :: "json option"

definition ROOM_NAMES :: "str list" where
  "ROOM_NAMES = [
     ''_id'', ''_updatedAt'', ''t'', ''name'', ''fname'', ''msgs'', ''usersCount'', ''u'', ''uids'',
     ''usernames'', ''default'', ''broadcast'', ''featured'', ''topic'', ''description'',
     ''announcement'', ''announcementDetails'', ''joinCodeRequired'', ''encrypted'', ''e2eKeyId'',
     ''usersWaitingForE2EKeys'', ''ro'', ''reactWhenReadOnly'', ''sysMes'', ''cl'', ''archived'',
     ''muted'', ''unmuted'', ''lastMessage'', ''lm'', ''ts'', ''webRtcCallStartTime'', ''prid'',
     ''avatarETag'', ''teamMain'', ''teamId'', ''teamDefault'', ''open'', ''unread'', ''alert'',
     ''favorite'', ''hideUnreadStatus'', ''hideMentionStatus'', ''autoTranslate'',
     ''autoTranslateLanguage'', ''retention'', ''abacAttributes'', ''rolePrioritiesCreated'',
     ''customFields'', ''federated'', ''federation'', ''v'', ''source'', ''servedBy'',
     ''departmentId'', ''onHold'', ''waitingResponse'', ''queuedAt'', ''tags'', ''livechatData'',
     ''metrics'', ''transcriptRequest'', ''priorityId'', ''priorityWeight'', ''slaId'',
     ''estimatedWaitingTimeQueue'', ''contactId'', ''verified'', ''sms'', ''code'', ''label'',
     ''sentiment'']"

definition room_fields :: "room \<Rightarrow> (str \<times> json option) list" where
  "room_fields x = [
     (''_id'', Some (JString (room_id x))),
     (''_updatedAt'', Some (ts_to_json (room_updated_at x))),
     (''t'', Some (room_type_to_json (room_t x))),
     (''name'', map_option JString (room_name x)),
     (''fname'', map_option JString (room_fname x)),
     (''msgs'', map_option i64_to_json (room_msgs x)),
     (''usersCount'', map_option i64_to_json (room_users_count x)),
     (''u'', map_option user_ref_to_json (room_u x)),
     (''uids'', map_option (list_to_json JString) (room_uids x)),
     (''usernames'', map_option (list_to_json JString) (room_usernames x)),
     (''default'', map_option JBool (room_default x)),
     (''broadcast'', map_option JBool (room_broadcast x)),
     (''featured'', map_option JBool (room_featured x)),
     (''topic'', map_option JString (room_topic x)),
     (''description'', map_option JString (room_description x)),
     (''announcement'', map_option JString (room_announcement x)),
     (''announcementDetails'', map_option announcement_details_to_json (room_announcement_details x)),
     (''joinCodeRequired'', map_option JBool (room_join_code_required x)),
     (''encrypted'', map_option JBool (room_encrypted x)),
     (''e2eKeyId'', map_option JString (room_e2e_key_id x)),
     (''usersWaitingForE2EKeys'', map_option (list_to_json raw) (room_users_waiting_for_e2e_keys x)),
     (''ro'', map_option JBool (room_ro x)),
     (''reactWhenReadOnly'', map_option JBool (room_react_when_read_only x)),
     (''sysMes'', map_option sys_mes_to_json (room_sys_mes x)),
     (''cl'', map_option JBool (room_cl x)),
     (''archived'', map_option JBool (room_archived x)),
     (''muted'', map_option (list_to_json JString) (room_muted x)),
     (''unmuted'', map_option (list_to_json JString) (room_unmuted x)),
     (''lastMessage'', map_option message_to_json (room_last_message x)),
     (''lm'', map_option ts_to_json (room_lm x)),
     (''ts'', map_option ts_to_json (room_ts x)),
     (''webRtcCallStartTime'', map_option ts_to_json (room_web_rtc_call_start_time x)),
     (''prid'', map_option JString (room_prid x)),
     (''avatarETag'', map_option JString (room_avatar_etag x)),
     (''teamMain'', map_option JBool (room_team_main x)),
     (''teamId'', map_option JString (room_team_id x)),
     (''teamDefault'', map_option JBool (room_team_default x)),
     (''open'', map_option JBool (room_open x)),
     (''unread'', map_option i64_to_json (room_unread x)),
     (''alert'', map_option JBool (room_alert x)),
     (''favorite'', map_option JBool (room_favorite x)),
     (''hideUnreadStatus'', map_option JBool (room_hide_unread_status x)),
     (''hideMentionStatus'', map_option JBool (room_hide_mention_status x)),
     (''autoTranslate'', map_option JBool (room_auto_translate x)),
     (''autoTranslateLanguage'', map_option JString (room_auto_translate_language x)),
     (''retention'', map_option raw (room_retention x)),
     (''abacAttributes'', map_option (list_to_json raw) (room_abac_attributes x)),
     (''rolePrioritiesCreated'', map_option role_priorities_to_json (room_role_priorities_created x)),
     (''customFields'', map_option raw (room_custom_fields x)),
     (''federated'', map_option JBool (room_federated x)),
     (''federation'', map_option raw (room_federation x)),
     (''v'', map_option raw (room_v x)),
     (''source'', map_option raw (room_source x)),
     (''servedBy'', map_option raw (room_served_by x)),
     (''departmentId'', map_option JString (room_department_id x)),
     (''onHold'', map_option JBool (room_on_hold x)),
     (''waitingResponse'', map_option raw (room_waiting_response x)),
     (''queuedAt'', map_option ts_to_json (room_queued_at x)),
     (''tags'', map_option (list_to_json JString) (room_tags x)),
     (''livechatData'', map_option raw (room_livechat_data x)),
     (''metrics'', map_option raw (room_metrics x)),
     (''transcriptRequest'', map_option raw (room_transcript_request x)),
     (''priorityId'', map_option JString (room_priority_id x)),
     (''priorityWeight'', map_option i64_to_json (room_priority_weight x)),
     (''slaId'', map_option JString (room_sla_id x)),
     (''estimatedWaitingTimeQueue'', map_option f64_to_json (room_estimated_waiting_time_queue x)),
     (''contactId'', map_option JString (room_contact_id x)),
     (''verified'', map_option JBool (room_verified x)),
     (''sms'', map_option raw (room_sms x)),
     (''code'', map_option raw (room_code x)),
     (''label'', map_option JString (room_label x)),
     (''sentiment'', map_option raw (room_sentiment x))]"

definition room_to_json :: "room \<Rightarrow> json" where
  "room_to_json x = struct_to_json (room_fields x)"

definition room_of_obj :: "time_lib \<Rightarrow> obj \<Rightarrow> room option" where
  "room_of_obj T m = do {
     v_id \<leftarrow> req_field as_str m ''_id'';
     v_updated_at \<leftarrow> req_field (ts_of_json T) m ''_updatedAt'';
     v_t \<leftarrow> req_field room_type_of_json m ''t'';
     v_name \<leftarrow> opt_field as_str m ''name'';
     v_fname \<leftarrow> opt_field as_str m ''fname'';
     v_msgs \<leftarrow> opt_field as_i64 m ''msgs'';
     v_users_count \<leftarrow> opt_field as_i64 m ''usersCount'';
     v_u \<leftarrow> opt_field user_ref_of_json m ''u'';
     v_uids \<leftarrow> opt_field (dec_array as_str) m ''uids'';
     v_usernames \<leftarrow> opt_field (dec_array as_str) m ''usernames'';
     v_default \<leftarrow> opt_field as_bool m ''default'';
     v_broadcast \<leftarrow> opt_field as_bool m ''broadcast'';
     v_featured \<leftarrow> opt_field as_bool m ''featured'';
     v_topic \<leftarrow> opt_field as_str m ''topic'';
     v_description \<leftarrow> opt_field as_str m ''description'';
     v_announcement \<leftarrow> opt_field as_str m ''announcement'';
     v_announcement_details \<leftarrow> opt_field announcement_details_of_json m ''announcementDetails'';
     v_join_code_required \<leftarrow> opt_field as_bool m ''joinCodeRequired'';
     v_encrypted \<leftarrow> opt_field as_bool m ''encrypted'';
     v_e2e_key_id \<leftarrow> opt_field as_str m ''e2eKeyId'';
     v_users_waiting_for_e2e_keys \<leftarrow> opt_field (dec_array dec_value) m ''usersWaitingForE2EKeys'';
     v_ro \<leftarrow> opt_field as_bool m ''ro'';
     v_react_when_read_only \<leftarrow> opt_field as_bool m ''reactWhenReadOnly'';
     v_sys_mes \<leftarrow> opt_field sys_mes_of_json m ''sysMes'';
     v_cl \<leftarrow> opt_field as_bool m ''cl'';
     v_archived \<leftarrow> opt_field as_bool m ''archived'';
     v_muted \<leftarrow> opt_field (dec_array as_str) m ''muted'';
     v_unmuted \<leftarrow> opt_field (dec_array as_str) m ''unmuted'';
     v_last_message \<leftarrow> opt_field (message_of_json T) m ''lastMessage'';
     v_lm \<leftarrow> ts_option T (obj_get m ''lm'');
     v_ts \<leftarrow> ts_option T (obj_get m ''ts'');
     v_web_rtc_call_start_time \<leftarrow> ts_option T (obj_get m ''webRtcCallStartTime'');
     v_prid \<leftarrow> opt_field as_str m ''prid'';
     v_avatar_etag \<leftarrow> opt_field as_str m ''avatarETag'';
     v_team_main \<leftarrow> opt_field as_bool m ''teamMain'';
     v_team_id \<leftarrow> opt_field as_str m ''teamId'';
     v_team_default \<leftarrow> opt_field as_bool m ''teamDefault'';
     v_open \<leftarrow> opt_field as_bool m ''open'';
     v_unread \<leftarrow> opt_field as_i64 m ''unread'';
     v_alert \<leftarrow> opt_field as_bool m ''alert'';
     v_favorite \<leftarrow> opt_field as_bool m ''favorite'';
     v_hide_unread_status \<leftarrow> opt_field as_bool m ''hideUnreadStatus'';
     v_hide_mention_status \<leftarrow> opt_field as_bool m ''hideMentionStatus'';
     v_auto_translate \<leftarrow> opt_field as_bool m ''autoTranslate'';
     v_auto_translate_language \<leftarrow> opt_field as_str m ''autoTranslateLanguage'';
     v_retention \<leftarrow> opt_field dec_value m ''retention'';
     v_abac_attributes \<leftarrow> opt_field (dec_array dec_value) m ''abacAttributes'';
     v_role_priorities_created \<leftarrow> opt_field role_priorities_of_json m ''rolePrioritiesCreated'';
     v_custom_fields \<leftarrow> opt_field dec_value m ''customFields'';
     v_federated \<leftarrow> opt_field as_bool m ''federated'';
     v_federation \<leftarrow> opt_field dec_value m ''federation'';
     v_v \<leftarrow> opt_field dec_value m ''v'';
     v_source \<leftarrow> opt_field dec_value m ''source'';
     v_served_by \<leftarrow> opt_field dec_value m ''servedBy'';
     v_department_id \<leftarrow> opt_field as_str m ''departmentId'';
     v_on_hold \<leftarrow> opt_field as_bool m ''onHold'';
     v_waiting_response \<leftarrow> opt_field dec_value m ''waitingResponse'';
     v_queued_at \<leftarrow> ts_option T (obj_get m ''queuedAt'');
     v_tags \<leftarrow> opt_field (dec_array as_str) m ''tags'';
     v_livechat_data \<leftarrow> opt_field dec_value m ''livechatData'';
     v_metrics \<leftarrow> opt_field dec_value m ''metrics'';
     v_transcript_request \<leftarrow> opt_field dec_value m ''transcriptRequest'';
     v_priority_id \<leftarrow> opt_field as_str m ''priorityId'';
     v_priority_weight \<leftarrow> opt_field as_i64 m ''priorityWeight'';
     v_sla_id \<leftarrow> opt_field as_str m ''slaId'';
     v_estimated_waiting_time_queue \<leftarrow> opt_field f64_of_json m ''estimatedWaitingTimeQueue'';
     v_contact_id \<leftarrow> opt_field as_str m ''contactId'';
     v_verified \<leftarrow> opt_field as_bool m ''verified'';
     v_sms \<leftarrow> opt_field dec_value m ''sms'';
     v_code \<leftarrow> opt_field dec_value m ''code'';
     v_label \<leftarrow> opt_field as_str m ''label'';
     v_sentiment \<leftarrow> opt_field dec_value m ''sentiment'';
     Some \<lparr>
       room_id = v_id, room_updated_at = v_updated_at, room_t = v_t, room_name = v_name,
       room_fname = v_fname, room_msgs = v_msgs, room_users_count = v_users_count, room_u = v_u,
       room_uids = v_uids, room_usernames = v_usernames, room_default = v_default,
       room_broadcast = v_broadcast, room_featured = v_featured, room_topic = v_topic,
       room_description = v_description, room_announcement = v_announcement,
       room_announcement_details = v_announcement_details,
       room_join_code_required = v_join_code_required, room_encrypted = v_encrypted,
       room_e2e_key_id = v_e2e_key_id,
       room_users_waiting_for_e2e_keys = v_users_waiting_for_e2e_keys, room_ro = v_ro,
       room_react_when_read_only = v_react_when_read_only, room_sys_mes = v_sys_mes, room_cl = v_cl,
       room_archived = v_archived, room_muted = v_muted, room_unmuted = v_unmuted,
       room_last_message = v_last_message, room_lm = v_lm, room_ts = v_ts,
       room_web_rtc_call_start_time = v_web_rtc_call_start_time, room_prid = v_prid,
       room_avatar_etag = v_avatar_etag, room_team_main = v_team_main, room_team_id = v_team_id,
       room_team_default = v_team_default, room_open = v_open, room_unread = v_unread,
       room_alert = v_alert, room_favorite = v_favorite,
       room_hide_unread_status = v_hide_unread_status,
       room_hide_mention_status = v_hide_mention_status, room_auto_translate = v_auto_translate,
       room_auto_translate_language = v_auto_translate_language, room_retention = v_retention,
       room_abac_attributes = v_abac_attributes,
       room_role_priorities_created = v_role_priorities_created,
       room_custom_fields = v_custom_fields, room_federated = v_federated,
       room_federation = v_federation, room_v = v_v, room_source = v_source,
       room_served_by = v_served_by, room_department_id = v_department_id, room_on_hold = v_on_hold,
       room_waiting_response = v_waiting_response, room_queued_at = v_queued_at, room_tags = v_tags,
       room_livechat_data = v_livechat_data, room_metrics = v_metrics,
       room_transcript_request = v_transcript_request, room_priority_id = v_priority_id,
       room_priority_weight = v_priority_weight, room_sla_id = v_sla_id,
       room_estimated_waiting_time_queue = v_estimated_waiting_time_queue,
       room_contact_id = v_contact_id, room_verified = v_verified, room_sms = v_sms,
       room_code = v_code, room_label = v_label, room_sentiment = v_sentiment\<rparr>
   }"

definition room_of_json :: "time_lib \<Rightarrow> json \<Rightarrow> room option" where
  "room_of_json T v = Option.bind (struct_obj ROOM_NAMES v) (room_of_obj T)"

definition room_ok :: "time_lib \<Rightarrow> room \<Rightarrow> bool" where
  "room_ok T x = (ts_ok T (room_updated_at x) \<and>
      room_type_ok (room_t x) \<and>
      pred_option (user_ref_ok) (room_u x) \<and>
      pred_option (announcement_details_ok) (room_announcement_details x) \<and>
      pred_option (sys_mes_ok) (room_sys_mes x) \<and>
      pred_option (message_ok T) (room_last_message x) \<and>
      pred_option (ts_ok T) (room_lm x) \<and>
      pred_option (ts_ok T) (room_ts x) \<and>
      pred_option (ts_ok T) (room_web_rtc_call_start_time x) \<and>
      room_retention x \<noteq> Some JNull \<and>
      room_custom_fields x \<noteq> Some JNull \<and>
      room_federation x \<noteq> Some JNull \<and>
      room_v x \<noteq> Some JNull \<and>
      room_source x \<noteq> Some JNull \<and>
      room_served_by x \<noteq> Some JNull \<and>
      room_waiting_response x \<noteq> Some JNull \<and>
      pred_option (ts_ok T) (room_queued_at x) \<and>
      room_livechat_data x \<noteq> Some JNull \<and>
      room_metrics x \<noteq> Some JNull \<and>
      room_transcript_request x \<noteq> Some JNull \<and>
      room_sms x \<noteq> Some JNull \<and>
      room_code x \<noteq> Some JNull \<and>
      room_sentiment x \<noteq> Some JNull)"

lemma room_names: "map fst (room_fields x) = ROOM_NAMES"
  by (simp add: room_fields_def ROOM_NAMES_def)

lemma room_distinct: "distinct ROOM_NAMES"
  by (simp add: ROOM_NAMES_def)

lemma room_member: "obj_get (obj_of_fields (room_fields x)) k = member (room_fields x) k"
  by (rule obj_get_fields) (simp only: room_names room_distinct)

lemma room_of_fields:
  assumes ok: "room_ok T x"
  shows "room_of_obj T (obj_of_fields (room_fields x)) = Some x"
proof -
  obtain fs where fs: "fs = room_fields x" by simp
  have g: "obj_get (obj_of_fields (room_fields x)) k = member fs k" for k
    by (simp only: fs room_member)
  have all: "list_all (\<lambda>(k, v). member fs k = v) (room_fields x)"
    unfolding fs by (rule member_all) (simp only: room_names room_distinct)
  show ?thesis
    unfolding room_of_obj_def req_field_def opt_field_read default_field_def g
    using ok all by (simp add: room_ok_def room_fields_def)
qed

interpretation croom: codec room_to_json "room_of_json T" "room_ok T" for T
  by unfold_locales (simp_all add: room_to_json_def room_of_json_def room_of_fields)

definition room_is_direct :: "room \<Rightarrow> bool" where
  "room_is_direct x = rt_is_direct (room_t x)"

definition room_is_multi_user_direct :: "room \<Rightarrow> bool" where
  "room_is_multi_user_direct x = (room_is_direct x \<and>
     (case room_uids x of None \<Rightarrow> False | Some uids \<Rightarrow> 2 < length uids))"

definition room_is_team :: "room \<Rightarrow> bool" where
  "room_is_team x = (case room_team_main x of Some b \<Rightarrow> b | None \<Rightarrow> False)"

definition room_is_discussion :: "room \<Rightarrow> bool" where
  "room_is_discussion x = (room_prid x \<noteq> None)"

definition room_display_name :: "room \<Rightarrow> str option" where
  "room_display_name x = (if room_fname x \<noteq> None then room_fname x else room_name x)"

end
