(* ===== verification/Model_Subscription.thy ===== *)
theory Model_Subscription
  imports Model_Message
begin

text \<open>
  The subscription document of \<open>entity.rs\<close>: a user's membership of a room, and its predicates.
\<close>

section \<open>The subscription\<close>

record old_room_key =
  ork_e2e_key_id :: "str option"
  ork_ts :: "timestamp option"
  ork_e2e_key :: "str option"

definition OLD_ROOM_KEY_NAMES :: "str list" where
  "OLD_ROOM_KEY_NAMES = [
     ''e2eKeyId'', ''ts'', ''E2EKey'']"

definition old_room_key_fields :: "old_room_key \<Rightarrow> (str \<times> json option) list" where
  "old_room_key_fields x = [
     (''e2eKeyId'', map_option JString (ork_e2e_key_id x)),
     (''ts'', map_option ts_to_json (ork_ts x)),
     (''E2EKey'', map_option JString (ork_e2e_key x))]"

definition old_room_key_to_json :: "old_room_key \<Rightarrow> json" where
  "old_room_key_to_json x = struct_to_json (old_room_key_fields x)"

definition old_room_key_of_obj :: "time_lib \<Rightarrow> obj \<Rightarrow> old_room_key option" where
  "old_room_key_of_obj T m = do {
     v_e2e_key_id \<leftarrow> opt_field as_str m ''e2eKeyId'';
     v_ts \<leftarrow> ts_option T (obj_get m ''ts'');
     v_e2e_key \<leftarrow> opt_field as_str m ''E2EKey'';
     Some \<lparr>
       ork_e2e_key_id = v_e2e_key_id, ork_ts = v_ts, ork_e2e_key = v_e2e_key\<rparr>
   }"

definition old_room_key_of_json :: "time_lib \<Rightarrow> json \<Rightarrow> old_room_key option" where
  "old_room_key_of_json T v = Option.bind (struct_obj OLD_ROOM_KEY_NAMES v) (old_room_key_of_obj T)"

definition old_room_key_ok :: "time_lib \<Rightarrow> old_room_key \<Rightarrow> bool" where
  "old_room_key_ok T x = (pred_option (ts_ok T) (ork_ts x))"

lemma old_room_key_names: "map fst (old_room_key_fields x) = OLD_ROOM_KEY_NAMES"
  by (simp add: old_room_key_fields_def OLD_ROOM_KEY_NAMES_def)

lemma old_room_key_distinct: "distinct OLD_ROOM_KEY_NAMES"
  by (simp add: OLD_ROOM_KEY_NAMES_def)

lemma old_room_key_member: "obj_get (obj_of_fields (old_room_key_fields x)) k = member (old_room_key_fields x) k"
  by (rule obj_get_fields) (simp only: old_room_key_names old_room_key_distinct)

lemma old_room_key_of_fields:
  assumes ok: "old_room_key_ok T x"
  shows "old_room_key_of_obj T (obj_of_fields (old_room_key_fields x)) = Some x"
proof -
  obtain fs where fs: "fs = old_room_key_fields x" by simp
  have g: "obj_get (obj_of_fields (old_room_key_fields x)) k = member fs k" for k
    by (simp only: fs old_room_key_member)
  have all: "list_all (\<lambda>(k, v). member fs k = v) (old_room_key_fields x)"
    unfolding fs by (rule member_all) (simp only: old_room_key_names old_room_key_distinct)
  show ?thesis
    unfolding old_room_key_of_obj_def req_field_def opt_field_read default_field_def g
    using ok all by (simp add: old_room_key_ok_def old_room_key_fields_def)
qed

interpretation cork: codec old_room_key_to_json "old_room_key_of_json T" "old_room_key_ok T" for T
  by unfold_locales (simp_all add: old_room_key_to_json_def old_room_key_of_json_def old_room_key_of_fields)

record subscription =
  sub_id :: str
  sub_updated_at :: timestamp
  sub_rid :: str
  sub_u :: user_ref
  sub_t :: room_type
  sub_ts :: timestamp
  sub_name :: "str option"
  sub_open :: bool
  sub_unread :: i64
  sub_user_mentions :: i64
  sub_group_mentions :: i64
  sub_fname :: "str option"
  sub_alert :: "bool option"
  sub_ls :: "timestamp option"
  sub_lr :: "timestamp option"
  sub_f :: "bool option"
  sub_hide_unread_status :: "bool option"
  sub_hide_mention_status :: "bool option"
  sub_team_main :: "bool option"
  sub_team_id :: "str option"
  sub_broadcast :: "bool option"
  sub_prid :: "str option"
  sub_tunread :: "str list option"
  sub_tunread_group :: "str list option"
  sub_tunread_user :: "str list option"
  sub_roles :: "str list option"
  sub_on_hold :: "bool option"
  sub_encrypted :: "bool option"
  sub_e2e_key :: "str option"
  sub_e2e_suggested_key :: "str option"
  sub_old_room_keys :: "old_room_key list option"
  sub_suggested_old_room_keys :: "old_room_key list option"
  sub_unread_alert :: "unread_alert option"
  sub_desktop_notifications :: "notification_preference option"
  sub_mobile_push_notifications :: "notification_preference option"
  sub_email_notifications :: "notification_preference option"
  sub_desktop_pref_origin :: "preference_origin option"
  sub_mobile_pref_origin :: "preference_origin option"
  sub_email_pref_origin :: "preference_origin option"
  sub_audio_notification_value :: "str option"
  sub_disable_notifications :: "bool option"
  sub_mute_group_mentions :: "bool option"
  sub_user_highlights :: "str list option"
  sub_ignored :: "str list option"
  sub_archived :: "bool option"
  sub_auto_translate :: "bool option"
  sub_auto_translate_language :: "str option"
  sub_blocked :: "json option"
  sub_blocker :: "json option"
  sub_draft :: "str option"
  sub_thread_drafts :: "str strmap option"
  sub_status :: "subscription_status option"
  sub_inviter :: "user_ref option"
  sub_v :: "json option"
  sub_department :: "json option"
  sub_code :: "json option"
  sub_abac_last_time_checked :: "timestamp option"
  sub_custom_fields :: "json option"

definition SUBSCRIPTION_NAMES :: "str list" where
  "SUBSCRIPTION_NAMES = [
     ''_id'', ''_updatedAt'', ''rid'', ''u'', ''t'', ''ts'', ''name'', ''open'', ''unread'',
     ''userMentions'', ''groupMentions'', ''fname'', ''alert'', ''ls'', ''lr'', ''f'',
     ''hideUnreadStatus'', ''hideMentionStatus'', ''teamMain'', ''teamId'', ''broadcast'', ''prid'',
     ''tunread'', ''tunreadGroup'', ''tunreadUser'', ''roles'', ''onHold'', ''encrypted'',
     ''E2EKey'', ''E2ESuggestedKey'', ''oldRoomKeys'', ''suggestedOldRoomKeys'', ''unreadAlert'',
     ''desktopNotifications'', ''mobilePushNotifications'', ''emailNotifications'',
     ''desktopPrefOrigin'', ''mobilePrefOrigin'', ''emailPrefOrigin'', ''audioNotificationValue'',
     ''disableNotifications'', ''muteGroupMentions'', ''userHighlights'', ''ignored'', ''archived'',
     ''autoTranslate'', ''autoTranslateLanguage'', ''blocked'', ''blocker'', ''draft'',
     ''threadDrafts'', ''status'', ''inviter'', ''v'', ''department'', ''code'',
     ''abacLastTimeChecked'', ''customFields'']"

definition subscription_fields :: "subscription \<Rightarrow> (str \<times> json option) list" where
  "subscription_fields x = [
     (''_id'', Some (JString (sub_id x))),
     (''_updatedAt'', Some (ts_to_json (sub_updated_at x))),
     (''rid'', Some (JString (sub_rid x))),
     (''u'', Some (user_ref_to_json (sub_u x))),
     (''t'', Some (room_type_to_json (sub_t x))),
     (''ts'', Some (ts_to_json (sub_ts x))),
     (''name'', map_option JString (sub_name x)),
     (''open'', Some (JBool (sub_open x))),
     (''unread'', Some (i64_to_json (sub_unread x))),
     (''userMentions'', Some (i64_to_json (sub_user_mentions x))),
     (''groupMentions'', Some (i64_to_json (sub_group_mentions x))),
     (''fname'', map_option JString (sub_fname x)),
     (''alert'', map_option JBool (sub_alert x)),
     (''ls'', map_option ts_to_json (sub_ls x)),
     (''lr'', map_option ts_to_json (sub_lr x)),
     (''f'', map_option JBool (sub_f x)),
     (''hideUnreadStatus'', map_option JBool (sub_hide_unread_status x)),
     (''hideMentionStatus'', map_option JBool (sub_hide_mention_status x)),
     (''teamMain'', map_option JBool (sub_team_main x)),
     (''teamId'', map_option JString (sub_team_id x)),
     (''broadcast'', map_option JBool (sub_broadcast x)),
     (''prid'', map_option JString (sub_prid x)),
     (''tunread'', map_option (list_to_json JString) (sub_tunread x)),
     (''tunreadGroup'', map_option (list_to_json JString) (sub_tunread_group x)),
     (''tunreadUser'', map_option (list_to_json JString) (sub_tunread_user x)),
     (''roles'', map_option (list_to_json JString) (sub_roles x)),
     (''onHold'', map_option JBool (sub_on_hold x)),
     (''encrypted'', map_option JBool (sub_encrypted x)),
     (''E2EKey'', map_option JString (sub_e2e_key x)),
     (''E2ESuggestedKey'', map_option JString (sub_e2e_suggested_key x)),
     (''oldRoomKeys'', map_option (list_to_json old_room_key_to_json) (sub_old_room_keys x)),
     (''suggestedOldRoomKeys'', map_option (list_to_json old_room_key_to_json) (sub_suggested_old_room_keys x)),
     (''unreadAlert'', map_option unread_alert_to_json (sub_unread_alert x)),
     (''desktopNotifications'', map_option notification_preference_to_json (sub_desktop_notifications x)),
     (''mobilePushNotifications'', map_option notification_preference_to_json (sub_mobile_push_notifications x)),
     (''emailNotifications'', map_option notification_preference_to_json (sub_email_notifications x)),
     (''desktopPrefOrigin'', map_option preference_origin_to_json (sub_desktop_pref_origin x)),
     (''mobilePrefOrigin'', map_option preference_origin_to_json (sub_mobile_pref_origin x)),
     (''emailPrefOrigin'', map_option preference_origin_to_json (sub_email_pref_origin x)),
     (''audioNotificationValue'', map_option JString (sub_audio_notification_value x)),
     (''disableNotifications'', map_option JBool (sub_disable_notifications x)),
     (''muteGroupMentions'', map_option JBool (sub_mute_group_mentions x)),
     (''userHighlights'', map_option (list_to_json JString) (sub_user_highlights x)),
     (''ignored'', map_option (list_to_json JString) (sub_ignored x)),
     (''archived'', map_option JBool (sub_archived x)),
     (''autoTranslate'', map_option JBool (sub_auto_translate x)),
     (''autoTranslateLanguage'', map_option JString (sub_auto_translate_language x)),
     (''blocked'', map_option raw (sub_blocked x)),
     (''blocker'', map_option raw (sub_blocker x)),
     (''draft'', map_option JString (sub_draft x)),
     (''threadDrafts'', map_option (map_to_json JString) (sub_thread_drafts x)),
     (''status'', map_option subscription_status_to_json (sub_status x)),
     (''inviter'', map_option user_ref_to_json (sub_inviter x)),
     (''v'', map_option raw (sub_v x)),
     (''department'', map_option raw (sub_department x)),
     (''code'', map_option raw (sub_code x)),
     (''abacLastTimeChecked'', map_option ts_to_json (sub_abac_last_time_checked x)),
     (''customFields'', map_option raw (sub_custom_fields x))]"

definition subscription_to_json :: "subscription \<Rightarrow> json" where
  "subscription_to_json x = struct_to_json (subscription_fields x)"

definition subscription_of_obj :: "time_lib \<Rightarrow> obj \<Rightarrow> subscription option" where
  "subscription_of_obj T m = do {
     v_id \<leftarrow> req_field as_str m ''_id'';
     v_updated_at \<leftarrow> req_field (ts_of_json T) m ''_updatedAt'';
     v_rid \<leftarrow> req_field as_str m ''rid'';
     v_u \<leftarrow> req_field user_ref_of_json m ''u'';
     v_t \<leftarrow> req_field room_type_of_json m ''t'';
     v_ts \<leftarrow> req_field (ts_of_json T) m ''ts'';
     v_name \<leftarrow> opt_field as_str m ''name'';
     v_open \<leftarrow> req_field as_bool m ''open'';
     v_unread \<leftarrow> req_field as_i64 m ''unread'';
     v_user_mentions \<leftarrow> req_field as_i64 m ''userMentions'';
     v_group_mentions \<leftarrow> req_field as_i64 m ''groupMentions'';
     v_fname \<leftarrow> opt_field as_str m ''fname'';
     v_alert \<leftarrow> opt_field as_bool m ''alert'';
     v_ls \<leftarrow> ts_option T (obj_get m ''ls'');
     v_lr \<leftarrow> ts_option T (obj_get m ''lr'');
     v_f \<leftarrow> opt_field as_bool m ''f'';
     v_hide_unread_status \<leftarrow> opt_field as_bool m ''hideUnreadStatus'';
     v_hide_mention_status \<leftarrow> opt_field as_bool m ''hideMentionStatus'';
     v_team_main \<leftarrow> opt_field as_bool m ''teamMain'';
     v_team_id \<leftarrow> opt_field as_str m ''teamId'';
     v_broadcast \<leftarrow> opt_field as_bool m ''broadcast'';
     v_prid \<leftarrow> opt_field as_str m ''prid'';
     v_tunread \<leftarrow> opt_field (dec_array as_str) m ''tunread'';
     v_tunread_group \<leftarrow> opt_field (dec_array as_str) m ''tunreadGroup'';
     v_tunread_user \<leftarrow> opt_field (dec_array as_str) m ''tunreadUser'';
     v_roles \<leftarrow> opt_field (dec_array as_str) m ''roles'';
     v_on_hold \<leftarrow> opt_field as_bool m ''onHold'';
     v_encrypted \<leftarrow> opt_field as_bool m ''encrypted'';
     v_e2e_key \<leftarrow> opt_field as_str m ''E2EKey'';
     v_e2e_suggested_key \<leftarrow> opt_field as_str m ''E2ESuggestedKey'';
     v_old_room_keys \<leftarrow> opt_field (dec_array (old_room_key_of_json T)) m ''oldRoomKeys'';
     v_suggested_old_room_keys \<leftarrow> opt_field (dec_array (old_room_key_of_json T)) m ''suggestedOldRoomKeys'';
     v_unread_alert \<leftarrow> opt_field unread_alert_of_json m ''unreadAlert'';
     v_desktop_notifications \<leftarrow> opt_field notification_preference_of_json m ''desktopNotifications'';
     v_mobile_push_notifications \<leftarrow> opt_field notification_preference_of_json m ''mobilePushNotifications'';
     v_email_notifications \<leftarrow> opt_field notification_preference_of_json m ''emailNotifications'';
     v_desktop_pref_origin \<leftarrow> opt_field preference_origin_of_json m ''desktopPrefOrigin'';
     v_mobile_pref_origin \<leftarrow> opt_field preference_origin_of_json m ''mobilePrefOrigin'';
     v_email_pref_origin \<leftarrow> opt_field preference_origin_of_json m ''emailPrefOrigin'';
     v_audio_notification_value \<leftarrow> opt_field as_str m ''audioNotificationValue'';
     v_disable_notifications \<leftarrow> opt_field as_bool m ''disableNotifications'';
     v_mute_group_mentions \<leftarrow> opt_field as_bool m ''muteGroupMentions'';
     v_user_highlights \<leftarrow> opt_field (dec_array as_str) m ''userHighlights'';
     v_ignored \<leftarrow> opt_field (dec_array as_str) m ''ignored'';
     v_archived \<leftarrow> opt_field as_bool m ''archived'';
     v_auto_translate \<leftarrow> opt_field as_bool m ''autoTranslate'';
     v_auto_translate_language \<leftarrow> opt_field as_str m ''autoTranslateLanguage'';
     v_blocked \<leftarrow> opt_field dec_value m ''blocked'';
     v_blocker \<leftarrow> opt_field dec_value m ''blocker'';
     v_draft \<leftarrow> opt_field as_str m ''draft'';
     v_thread_drafts \<leftarrow> opt_field (dec_map as_str) m ''threadDrafts'';
     v_status \<leftarrow> opt_field subscription_status_of_json m ''status'';
     v_inviter \<leftarrow> opt_field user_ref_of_json m ''inviter'';
     v_v \<leftarrow> opt_field dec_value m ''v'';
     v_department \<leftarrow> opt_field dec_value m ''department'';
     v_code \<leftarrow> opt_field dec_value m ''code'';
     v_abac_last_time_checked \<leftarrow> ts_option T (obj_get m ''abacLastTimeChecked'');
     v_custom_fields \<leftarrow> opt_field dec_value m ''customFields'';
     Some \<lparr>
       sub_id = v_id, sub_updated_at = v_updated_at, sub_rid = v_rid, sub_u = v_u, sub_t = v_t,
       sub_ts = v_ts, sub_name = v_name, sub_open = v_open, sub_unread = v_unread,
       sub_user_mentions = v_user_mentions, sub_group_mentions = v_group_mentions,
       sub_fname = v_fname, sub_alert = v_alert, sub_ls = v_ls, sub_lr = v_lr, sub_f = v_f,
       sub_hide_unread_status = v_hide_unread_status,
       sub_hide_mention_status = v_hide_mention_status, sub_team_main = v_team_main,
       sub_team_id = v_team_id, sub_broadcast = v_broadcast, sub_prid = v_prid,
       sub_tunread = v_tunread, sub_tunread_group = v_tunread_group,
       sub_tunread_user = v_tunread_user, sub_roles = v_roles, sub_on_hold = v_on_hold,
       sub_encrypted = v_encrypted, sub_e2e_key = v_e2e_key,
       sub_e2e_suggested_key = v_e2e_suggested_key, sub_old_room_keys = v_old_room_keys,
       sub_suggested_old_room_keys = v_suggested_old_room_keys, sub_unread_alert = v_unread_alert,
       sub_desktop_notifications = v_desktop_notifications,
       sub_mobile_push_notifications = v_mobile_push_notifications,
       sub_email_notifications = v_email_notifications,
       sub_desktop_pref_origin = v_desktop_pref_origin,
       sub_mobile_pref_origin = v_mobile_pref_origin, sub_email_pref_origin = v_email_pref_origin,
       sub_audio_notification_value = v_audio_notification_value,
       sub_disable_notifications = v_disable_notifications,
       sub_mute_group_mentions = v_mute_group_mentions, sub_user_highlights = v_user_highlights,
       sub_ignored = v_ignored, sub_archived = v_archived, sub_auto_translate = v_auto_translate,
       sub_auto_translate_language = v_auto_translate_language, sub_blocked = v_blocked,
       sub_blocker = v_blocker, sub_draft = v_draft, sub_thread_drafts = v_thread_drafts,
       sub_status = v_status, sub_inviter = v_inviter, sub_v = v_v, sub_department = v_department,
       sub_code = v_code, sub_abac_last_time_checked = v_abac_last_time_checked,
       sub_custom_fields = v_custom_fields\<rparr>
   }"

definition subscription_of_json :: "time_lib \<Rightarrow> json \<Rightarrow> subscription option" where
  "subscription_of_json T v = Option.bind (struct_obj SUBSCRIPTION_NAMES v) (subscription_of_obj T)"

definition subscription_ok :: "time_lib \<Rightarrow> subscription \<Rightarrow> bool" where
  "subscription_ok T x = (ts_ok T (sub_updated_at x) \<and>
      user_ref_ok (sub_u x) \<and>
      room_type_ok (sub_t x) \<and>
      ts_ok T (sub_ts x) \<and>
      pred_option (ts_ok T) (sub_ls x) \<and>
      pred_option (ts_ok T) (sub_lr x) \<and>
      pred_option (list_all (old_room_key_ok T)) (sub_old_room_keys x) \<and>
      pred_option (list_all (old_room_key_ok T)) (sub_suggested_old_room_keys x) \<and>
      pred_option (unread_alert_ok) (sub_unread_alert x) \<and>
      pred_option (notification_preference_ok) (sub_desktop_notifications x) \<and>
      pred_option (notification_preference_ok) (sub_mobile_push_notifications x) \<and>
      pred_option (notification_preference_ok) (sub_email_notifications x) \<and>
      pred_option (preference_origin_ok) (sub_desktop_pref_origin x) \<and>
      pred_option (preference_origin_ok) (sub_mobile_pref_origin x) \<and>
      pred_option (preference_origin_ok) (sub_email_pref_origin x) \<and>
      sub_blocked x \<noteq> Some JNull \<and>
      sub_blocker x \<noteq> Some JNull \<and>
      pred_option (subscription_status_ok) (sub_status x) \<and>
      pred_option (user_ref_ok) (sub_inviter x) \<and>
      sub_v x \<noteq> Some JNull \<and>
      sub_department x \<noteq> Some JNull \<and>
      sub_code x \<noteq> Some JNull \<and>
      pred_option (ts_ok T) (sub_abac_last_time_checked x) \<and>
      sub_custom_fields x \<noteq> Some JNull)"

lemma subscription_names: "map fst (subscription_fields x) = SUBSCRIPTION_NAMES"
  by (simp add: subscription_fields_def SUBSCRIPTION_NAMES_def)

lemma subscription_distinct: "distinct SUBSCRIPTION_NAMES"
  by (simp add: SUBSCRIPTION_NAMES_def)

lemma subscription_member: "obj_get (obj_of_fields (subscription_fields x)) k = member (subscription_fields x) k"
  by (rule obj_get_fields) (simp only: subscription_names subscription_distinct)

lemma subscription_of_fields:
  assumes ok: "subscription_ok T x"
  shows "subscription_of_obj T (obj_of_fields (subscription_fields x)) = Some x"
proof -
  obtain fs where fs: "fs = subscription_fields x" by simp
  have g: "obj_get (obj_of_fields (subscription_fields x)) k = member fs k" for k
    by (simp only: fs subscription_member)
  have all: "list_all (\<lambda>(k, v). member fs k = v) (subscription_fields x)"
    unfolding fs by (rule member_all) (simp only: subscription_names subscription_distinct)
  show ?thesis
    unfolding subscription_of_obj_def req_field_def opt_field_read default_field_def g
    using ok all by (simp add: subscription_ok_def subscription_fields_def)
qed

interpretation csub: codec subscription_to_json "subscription_of_json T" "subscription_ok T" for T
  by unfold_locales (simp_all add: subscription_to_json_def subscription_of_json_def subscription_of_fields)

definition sub_hides_unread_status :: "subscription \<Rightarrow> bool" where
  "sub_hides_unread_status x = (case sub_hide_unread_status x of Some b \<Rightarrow> b | None \<Rightarrow> False)"

definition sub_hides_mention_status :: "subscription \<Rightarrow> bool" where
  "sub_hides_mention_status x = (case sub_hide_mention_status x of Some b \<Rightarrow> b | None \<Rightarrow> False)"

definition sub_is_favorite :: "subscription \<Rightarrow> bool" where
  "sub_is_favorite x = (case sub_f x of Some b \<Rightarrow> b | None \<Rightarrow> False)"

definition i64_saturating_add :: "i64 \<Rightarrow> i64 \<Rightarrow> i64" where
  "i64_saturating_add a b = word_of_int (max (- (2 ^ 63)) (min (2 ^ 63 - 1) (sint a + sint b)))"

definition sub_total_mentions :: "subscription \<Rightarrow> i64" where
  "sub_total_mentions x = i64_saturating_add (sub_user_mentions x) (sub_group_mentions x)"

definition sub_has_unread :: "subscription \<Rightarrow> bool" where
  "sub_has_unread x = (0 <s sub_unread x \<or> 0 <s sub_total_mentions x)"

definition sub_has_role :: "subscription \<Rightarrow> str \<Rightarrow> bool" where
  "sub_has_role x role = (case sub_roles x of None \<Rightarrow> False | Some rs \<Rightarrow> list_ex (\<lambda>r. r = role) rs)"

definition sub_display_name :: "subscription \<Rightarrow> bool \<Rightarrow> str option" where
  "sub_display_name x use_real_name =
     (let (first, second) = (if use_real_name then (sub_fname x, sub_name x) else (sub_name x, sub_fname x))
      in if first \<noteq> None then first else second)"

text \<open>The badge counts never wrap.\<close>

lemma sint_saturating_add:
  "sint (i64_saturating_add a b) = max (- (2 ^ 63)) (min (2 ^ 63 - 1) (sint a + sint b))"
  by (simp add: i64_saturating_add_def signed_of_int signed_take_bit_int_eq_self)

end
