(* ===== verification/Model_User.thy ===== *)
theory Model_User
  imports Model_Message
begin

text \<open>
  The user document of \<open>entity.rs\<close>, without the credentials it deliberately leaves out, and its
  predicates.
\<close>

section \<open>The user\<close>

record user_email =
  ue_address :: str
  ue_verified :: "bool option"

definition USER_EMAIL_NAMES :: "str list" where
  "USER_EMAIL_NAMES = [
     ''address'', ''verified'']"

definition user_email_fields :: "user_email \<Rightarrow> (str \<times> json option) list" where
  "user_email_fields x = [
     (''address'', Some (JString (ue_address x))),
     (''verified'', map_option JBool (ue_verified x))]"

definition user_email_to_json :: "user_email \<Rightarrow> json" where
  "user_email_to_json x = struct_to_json (user_email_fields x)"

definition user_email_of_obj :: "obj \<Rightarrow> user_email option" where
  "user_email_of_obj m = do {
     v_address \<leftarrow> req_field as_str m ''address'';
     v_verified \<leftarrow> opt_field as_bool m ''verified'';
     Some \<lparr>
       ue_address = v_address, ue_verified = v_verified\<rparr>
   }"

definition user_email_of_json :: "json \<Rightarrow> user_email option" where
  "user_email_of_json v = Option.bind (struct_obj USER_EMAIL_NAMES v) user_email_of_obj"

definition user_email_ok :: "user_email \<Rightarrow> bool" where
  "user_email_ok x = True"

lemma user_email_names: "map fst (user_email_fields x) = USER_EMAIL_NAMES"
  by (simp add: user_email_fields_def USER_EMAIL_NAMES_def)

lemma user_email_distinct: "distinct USER_EMAIL_NAMES"
  by (simp add: USER_EMAIL_NAMES_def)

lemma user_email_member: "obj_get (obj_of_fields (user_email_fields x)) k = member (user_email_fields x) k"
  by (rule obj_get_fields) (simp only: user_email_names user_email_distinct)

lemma user_email_of_fields:
  assumes ok: "user_email_ok x"
  shows "user_email_of_obj (obj_of_fields (user_email_fields x)) = Some x"
proof -
  obtain fs where fs: "fs = user_email_fields x" by simp
  have g: "obj_get (obj_of_fields (user_email_fields x)) k = member fs k" for k
    by (simp only: fs user_email_member)
  have all: "list_all (\<lambda>(k, v). member fs k = v) (user_email_fields x)"
    unfolding fs by (rule member_all) (simp only: user_email_names user_email_distinct)
  show ?thesis
    unfolding user_email_of_obj_def req_field_def opt_field_read default_field_def g
    using ok all by (simp add: user_email_ok_def user_email_fields_def)
qed

interpretation cue: codec user_email_to_json user_email_of_json user_email_ok
  by unfold_locales (simp_all add: user_email_to_json_def user_email_of_json_def user_email_of_fields)

record user =
  usr_id :: str
  usr_updated_at :: "timestamp option"
  usr_created_at :: "timestamp option"
  usr_username :: "str option"
  usr_name :: "str option"
  usr_nickname :: "str option"
  usr_bio :: "str option"
  usr_roles :: "str list option"
  usr_user_type :: "str option"
  usr_active :: "bool option"
  usr_inactive_reason :: "str option"
  usr_status :: "user_status option"
  usr_status_default :: "user_status option"
  usr_status_connection :: "str option"
  usr_status_text :: "str option"
  usr_status_source :: "presence_source option"
  usr_status_expires_at :: "timestamp option"
  usr_status_id :: "str option"
  usr_last_login :: "timestamp option"
  usr_emails :: "user_email list option"
  usr_avatar_origin :: "str option"
  usr_avatar_etag :: "str option"
  usr_avatar_url :: "str option"
  usr_utc_offset :: "rat option"
  usr_language :: "str option"
  usr_phone :: "str option"
  usr_reason :: "str option"
  usr_e2e :: "json option"
  usr_settings :: "json option"
  usr_custom_fields :: "json option"
  usr_banners :: "json option"
  usr_default_room :: "str option"
  usr_ldap :: "bool option"
  usr_require_password_change :: "bool option"
  usr_require_password_change_reason :: "str option"
  usr_room_role_priorities :: "i64 strmap option"
  usr_rooms :: "str list option"
  usr_import_ids :: "str list option"
  usr_invite_token :: "str option"
  usr_free_switch_extension :: "str option"
  usr_can_view_all_info :: "bool option"
  usr_provider_id :: "str option"
  usr_abac_attributes :: "json list option"
  usr_federated :: "bool option"
  usr_federation :: "json option"

definition USER_NAMES :: "str list" where
  "USER_NAMES = [
     ''_id'', ''_updatedAt'', ''createdAt'', ''username'', ''name'', ''nickname'', ''bio'',
     ''roles'', ''type'', ''active'', ''inactiveReason'', ''status'', ''statusDefault'',
     ''statusConnection'', ''statusText'', ''statusSource'', ''statusExpiresAt'', ''statusId'',
     ''lastLogin'', ''emails'', ''avatarOrigin'', ''avatarETag'', ''avatarUrl'', ''utcOffset'',
     ''language'', ''phone'', ''reason'', ''e2e'', ''settings'', ''customFields'', ''banners'',
     ''defaultRoom'', ''ldap'', ''requirePasswordChange'', ''requirePasswordChangeReason'',
     ''roomRolePriorities'', ''__rooms'', ''importIds'', ''inviteToken'', ''freeSwitchExtension'',
     ''canViewAllInfo'', ''providerId'', ''abacAttributes'', ''federated'', ''federation'']"

definition user_fields :: "user \<Rightarrow> (str \<times> json option) list" where
  "user_fields x = [
     (''_id'', Some (JString (usr_id x))),
     (''_updatedAt'', map_option ts_to_json (usr_updated_at x)),
     (''createdAt'', map_option ts_to_json (usr_created_at x)),
     (''username'', map_option JString (usr_username x)),
     (''name'', map_option JString (usr_name x)),
     (''nickname'', map_option JString (usr_nickname x)),
     (''bio'', map_option JString (usr_bio x)),
     (''roles'', map_option (list_to_json JString) (usr_roles x)),
     (''type'', map_option JString (usr_user_type x)),
     (''active'', map_option JBool (usr_active x)),
     (''inactiveReason'', map_option JString (usr_inactive_reason x)),
     (''status'', map_option user_status_to_json (usr_status x)),
     (''statusDefault'', map_option user_status_to_json (usr_status_default x)),
     (''statusConnection'', map_option JString (usr_status_connection x)),
     (''statusText'', map_option JString (usr_status_text x)),
     (''statusSource'', map_option presence_source_to_json (usr_status_source x)),
     (''statusExpiresAt'', map_option ts_to_json (usr_status_expires_at x)),
     (''statusId'', map_option JString (usr_status_id x)),
     (''lastLogin'', map_option ts_to_json (usr_last_login x)),
     (''emails'', map_option (list_to_json user_email_to_json) (usr_emails x)),
     (''avatarOrigin'', map_option JString (usr_avatar_origin x)),
     (''avatarETag'', map_option JString (usr_avatar_etag x)),
     (''avatarUrl'', map_option JString (usr_avatar_url x)),
     (''utcOffset'', map_option f64_to_json (usr_utc_offset x)),
     (''language'', map_option JString (usr_language x)),
     (''phone'', map_option JString (usr_phone x)),
     (''reason'', map_option JString (usr_reason x)),
     (''e2e'', map_option raw (usr_e2e x)),
     (''settings'', map_option raw (usr_settings x)),
     (''customFields'', map_option raw (usr_custom_fields x)),
     (''banners'', map_option raw (usr_banners x)),
     (''defaultRoom'', map_option JString (usr_default_room x)),
     (''ldap'', map_option JBool (usr_ldap x)),
     (''requirePasswordChange'', map_option JBool (usr_require_password_change x)),
     (''requirePasswordChangeReason'', map_option JString (usr_require_password_change_reason x)),
     (''roomRolePriorities'', map_option (map_to_json i64_to_json) (usr_room_role_priorities x)),
     (''__rooms'', map_option (list_to_json JString) (usr_rooms x)),
     (''importIds'', map_option (list_to_json JString) (usr_import_ids x)),
     (''inviteToken'', map_option JString (usr_invite_token x)),
     (''freeSwitchExtension'', map_option JString (usr_free_switch_extension x)),
     (''canViewAllInfo'', map_option JBool (usr_can_view_all_info x)),
     (''providerId'', map_option JString (usr_provider_id x)),
     (''abacAttributes'', map_option (list_to_json raw) (usr_abac_attributes x)),
     (''federated'', map_option JBool (usr_federated x)),
     (''federation'', map_option raw (usr_federation x))]"

definition user_to_json :: "user \<Rightarrow> json" where
  "user_to_json x = struct_to_json (user_fields x)"

definition user_of_obj :: "time_lib \<Rightarrow> obj \<Rightarrow> user option" where
  "user_of_obj T m = do {
     v_id \<leftarrow> req_field as_str m ''_id'';
     v_updated_at \<leftarrow> ts_option T (obj_get m ''_updatedAt'');
     v_created_at \<leftarrow> ts_option T (obj_get m ''createdAt'');
     v_username \<leftarrow> opt_field as_str m ''username'';
     v_name \<leftarrow> opt_field as_str m ''name'';
     v_nickname \<leftarrow> opt_field as_str m ''nickname'';
     v_bio \<leftarrow> opt_field as_str m ''bio'';
     v_roles \<leftarrow> opt_field (dec_array as_str) m ''roles'';
     v_user_type \<leftarrow> opt_field as_str m ''type'';
     v_active \<leftarrow> opt_field as_bool m ''active'';
     v_inactive_reason \<leftarrow> opt_field as_str m ''inactiveReason'';
     v_status \<leftarrow> opt_field user_status_of_json m ''status'';
     v_status_default \<leftarrow> opt_field user_status_of_json m ''statusDefault'';
     v_status_connection \<leftarrow> opt_field as_str m ''statusConnection'';
     v_status_text \<leftarrow> opt_field as_str m ''statusText'';
     v_status_source \<leftarrow> opt_field presence_source_of_json m ''statusSource'';
     v_status_expires_at \<leftarrow> ts_option T (obj_get m ''statusExpiresAt'');
     v_status_id \<leftarrow> opt_field as_str m ''statusId'';
     v_last_login \<leftarrow> ts_option T (obj_get m ''lastLogin'');
     v_emails \<leftarrow> opt_field (dec_array user_email_of_json) m ''emails'';
     v_avatar_origin \<leftarrow> opt_field as_str m ''avatarOrigin'';
     v_avatar_etag \<leftarrow> opt_field as_str m ''avatarETag'';
     v_avatar_url \<leftarrow> opt_field as_str m ''avatarUrl'';
     v_utc_offset \<leftarrow> opt_field f64_of_json m ''utcOffset'';
     v_language \<leftarrow> opt_field as_str m ''language'';
     v_phone \<leftarrow> opt_field as_str m ''phone'';
     v_reason \<leftarrow> opt_field as_str m ''reason'';
     v_e2e \<leftarrow> opt_field dec_value m ''e2e'';
     v_settings \<leftarrow> opt_field dec_value m ''settings'';
     v_custom_fields \<leftarrow> opt_field dec_value m ''customFields'';
     v_banners \<leftarrow> opt_field dec_value m ''banners'';
     v_default_room \<leftarrow> opt_field as_str m ''defaultRoom'';
     v_ldap \<leftarrow> opt_field as_bool m ''ldap'';
     v_require_password_change \<leftarrow> opt_field as_bool m ''requirePasswordChange'';
     v_require_password_change_reason \<leftarrow> opt_field as_str m ''requirePasswordChangeReason'';
     v_room_role_priorities \<leftarrow> opt_field (dec_map as_i64) m ''roomRolePriorities'';
     v_rooms \<leftarrow> opt_field (dec_array as_str) m ''__rooms'';
     v_import_ids \<leftarrow> opt_field (dec_array as_str) m ''importIds'';
     v_invite_token \<leftarrow> opt_field as_str m ''inviteToken'';
     v_free_switch_extension \<leftarrow> opt_field as_str m ''freeSwitchExtension'';
     v_can_view_all_info \<leftarrow> opt_field as_bool m ''canViewAllInfo'';
     v_provider_id \<leftarrow> opt_field as_str m ''providerId'';
     v_abac_attributes \<leftarrow> opt_field (dec_array dec_value) m ''abacAttributes'';
     v_federated \<leftarrow> opt_field as_bool m ''federated'';
     v_federation \<leftarrow> opt_field dec_value m ''federation'';
     Some \<lparr>
       usr_id = v_id, usr_updated_at = v_updated_at, usr_created_at = v_created_at,
       usr_username = v_username, usr_name = v_name, usr_nickname = v_nickname, usr_bio = v_bio,
       usr_roles = v_roles, usr_user_type = v_user_type, usr_active = v_active,
       usr_inactive_reason = v_inactive_reason, usr_status = v_status,
       usr_status_default = v_status_default, usr_status_connection = v_status_connection,
       usr_status_text = v_status_text, usr_status_source = v_status_source,
       usr_status_expires_at = v_status_expires_at, usr_status_id = v_status_id,
       usr_last_login = v_last_login, usr_emails = v_emails, usr_avatar_origin = v_avatar_origin,
       usr_avatar_etag = v_avatar_etag, usr_avatar_url = v_avatar_url,
       usr_utc_offset = v_utc_offset, usr_language = v_language, usr_phone = v_phone,
       usr_reason = v_reason, usr_e2e = v_e2e, usr_settings = v_settings,
       usr_custom_fields = v_custom_fields, usr_banners = v_banners,
       usr_default_room = v_default_room, usr_ldap = v_ldap,
       usr_require_password_change = v_require_password_change,
       usr_require_password_change_reason = v_require_password_change_reason,
       usr_room_role_priorities = v_room_role_priorities, usr_rooms = v_rooms,
       usr_import_ids = v_import_ids, usr_invite_token = v_invite_token,
       usr_free_switch_extension = v_free_switch_extension,
       usr_can_view_all_info = v_can_view_all_info, usr_provider_id = v_provider_id,
       usr_abac_attributes = v_abac_attributes, usr_federated = v_federated,
       usr_federation = v_federation\<rparr>
   }"

definition user_of_json :: "time_lib \<Rightarrow> json \<Rightarrow> user option" where
  "user_of_json T v = Option.bind (struct_obj USER_NAMES v) (user_of_obj T)"

definition user_ok :: "time_lib \<Rightarrow> user \<Rightarrow> bool" where
  "user_ok T x = (pred_option (ts_ok T) (usr_updated_at x) \<and>
      pred_option (ts_ok T) (usr_created_at x) \<and>
      pred_option (user_status_ok) (usr_status x) \<and>
      pred_option (user_status_ok) (usr_status_default x) \<and>
      pred_option (presence_source_ok) (usr_status_source x) \<and>
      pred_option (ts_ok T) (usr_status_expires_at x) \<and>
      pred_option (ts_ok T) (usr_last_login x) \<and>
      pred_option (list_all (user_email_ok)) (usr_emails x) \<and>
      usr_e2e x \<noteq> Some JNull \<and>
      usr_settings x \<noteq> Some JNull \<and>
      usr_custom_fields x \<noteq> Some JNull \<and>
      usr_banners x \<noteq> Some JNull \<and>
      usr_federation x \<noteq> Some JNull)"

lemma user_names: "map fst (user_fields x) = USER_NAMES"
  by (simp add: user_fields_def USER_NAMES_def)

lemma user_distinct: "distinct USER_NAMES"
  by (simp add: USER_NAMES_def)

lemma user_member: "obj_get (obj_of_fields (user_fields x)) k = member (user_fields x) k"
  by (rule obj_get_fields) (simp only: user_names user_distinct)

lemma user_of_fields:
  assumes ok: "user_ok T x"
  shows "user_of_obj T (obj_of_fields (user_fields x)) = Some x"
proof -
  obtain fs where fs: "fs = user_fields x" by simp
  have g: "obj_get (obj_of_fields (user_fields x)) k = member fs k" for k
    by (simp only: fs user_member)
  have all: "list_all (\<lambda>(k, v). member fs k = v) (user_fields x)"
    unfolding fs by (rule member_all) (simp only: user_names user_distinct)
  show ?thesis
    unfolding user_of_obj_def req_field_def opt_field_read default_field_def g
    using ok all by (simp add: user_ok_def user_fields_def)
qed

interpretation cusr: codec user_to_json "user_of_json T" "user_ok T" for T
  by unfold_locales (simp_all add: user_to_json_def user_of_json_def user_of_fields)

definition usr_display_name :: "user \<Rightarrow> bool \<Rightarrow> str option" where
  "usr_display_name x use_real_name =
     (let (first, second) = (if use_real_name then (usr_name x, usr_username x) else (usr_username x, usr_name x))
      in if first \<noteq> None then first else second)"

definition usr_has_role :: "user \<Rightarrow> str \<Rightarrow> bool" where
  "usr_has_role x role = (case usr_roles x of None \<Rightarrow> False | Some rs \<Rightarrow> list_ex (\<lambda>r. r = role) rs)"

definition usr_is_connected :: "user \<Rightarrow> bool" where
  "usr_is_connected x = (usr_status x = Some UsOnline \<or> usr_status x = Some UsAway \<or> usr_status x = Some UsBusy)"

end
