(* ===== verification/Cache_Merge.thy ===== *)
theory Cache_Merge
  imports Model_Room Model_Subscription Model_User
begin

text \<open>
  \<open>merge.rs\<close>: overlaying a projected document on a cached one through JSON.

  \<open>merge_documents\<close> takes the two conversions as arguments, as the code takes the type.  The
  interface \<open>document\<close> collects what it relies on of a document: its members have fixed distinct
  names, it is read back from its own encoding, and it can be overlaid member by member.  Its
  interpretations for the four documents give that the detour through JSON is the assignment of
  each member the incoming document carries, which \<open>room_overlay\<close> and its siblings write out.
\<close>

section \<open>The merge\<close>

definition merge_documents :: "('a \<Rightarrow> json option) \<Rightarrow> (json \<Rightarrow> 'a option) \<Rightarrow> 'a \<Rightarrow> 'a \<Rightarrow> 'a" where
  "merge_documents to_value from_value cached incoming =
     (case (to_value cached, to_value incoming) of
        (Some (JObject merged), Some (JObject patch)) \<Rightarrow>
          (case from_value (JObject (fold (\<lambda>(key, value). obj_insert key value) patch merged)) of
             Some value \<Rightarrow> value
           | None \<Rightarrow> incoming)
      | _ \<Rightarrow> incoming)"

lemma merge_falls_back:
  "to_value cached = None \<or> to_value incoming = None \<Longrightarrow>
     merge_documents to_value from_value cached incoming = incoming"
  by (auto simp: merge_documents_def split: option.splits json.splits)

section \<open>Members from two documents\<close>

definition or_else :: "'a option \<Rightarrow> 'a option \<Rightarrow> 'a option" where
  "or_else a b = (case a of None \<Rightarrow> b | Some _ \<Rightarrow> a)"

lemma or_else_simps [simp]: "or_else None b = b" "or_else (Some x) b = Some x" "or_else a None = a"
  by (simp_all add: or_else_def split: option.splits)

lemma map_option_or_else [simp]: "map_option f (or_else a b) = or_else (map_option f a) (map_option f b)"
  by (cases a) simp_all

lemma pred_option_or_else: "pred_option P a \<Longrightarrow> pred_option P b \<Longrightarrow> pred_option P (or_else a b)"
  by (cases a) simp_all

lemma or_else_not [simp]: "a \<noteq> Some x \<Longrightarrow> b \<noteq> Some x \<Longrightarrow> or_else a b \<noteq> Some x"
  by (cases a) simp_all

definition overlay_fields ::
  "(str \<times> json option) list \<Rightarrow> (str \<times> json option) list \<Rightarrow> (str \<times> json option) list" where
  "overlay_fields patch base = map2 (\<lambda>(k, a) (_, b). (k, or_else a b)) patch base"

lemma member_overlay:
  "map fst patch = map fst base \<Longrightarrow>
     member (overlay_fields patch base) k = or_else (member patch k) (member base k)"
proof (induction patch arbitrary: base)
  case (Cons p patch)
  then obtain b base' where "base = b # base'" "fst p = fst b" by (cases base) auto
  with Cons show ?case by (cases p; cases b) (simp add: overlay_fields_def)
qed (simp add: overlay_fields_def)

lemma map_of_rev: "distinct (map fst m) \<Longrightarrow> map_of (rev m) = map_of m"
  by (rule map_of_inject_set [THEN iffD2]) (simp_all add: rev_map [symmetric])

lemma obj_get_fold:
  "distinct (map fst patch) \<Longrightarrow>
     obj_get (fold (\<lambda>(k, v). obj_insert k v) patch merged) k = or_else (map_of patch k) (obj_get merged k)"
  by (simp add: jo.get_ins_all or_else_def map_of_rev split: option.splits)

lemma obj_wf_fold: "obj_wf merged \<Longrightarrow> obj_wf (fold (\<lambda>(k, v). obj_insert k v) patch merged)"
  by (induction patch arbitrary: merged) (auto simp: obj_wf_insert)

section \<open>The interface of a document\<close>

locale document =
  fixes fields :: "'a \<Rightarrow> (str \<times> json option) list"
    and enc :: "'a \<Rightarrow> json" and dec :: "json \<Rightarrow> 'a option" and ok :: "'a \<Rightarrow> bool"
    and overlay :: "'a \<Rightarrow> 'a \<Rightarrow> 'a"
  assumes enc_fields: "enc x = struct_to_json (fields x)"
    and same_names: "map fst (fields x) = map fst (fields y)"
    and distinct_names: "distinct (map fst (fields x))"
    and fields_overlay: "fields (overlay c i) = overlay_fields (fields i) (fields c)"
    and ok_overlay: "ok c \<Longrightarrow> ok i \<Longrightarrow> ok (overlay c i)"
    and reads_back: "ok x \<Longrightarrow> dec (enc x) = Some x"
begin

lemma get_enc: "json_member (enc x) k = member (fields x) k"
  by (simp add: enc_fields struct_to_json_def obj_get_fields distinct_names)

lemma patched:
  "JObject (fold (\<lambda>(k, v). obj_insert k v) (obj_of_fields (fields i)) (obj_of_fields (fields c)))
     = enc (overlay c i)"
proof -
  have d: "distinct (map fst (obj_of_fields (fields i)))"
    using obj_wf_fields [of "fields i"] by (simp add: obj_wf_def strict_sorted_iff)
  have "obj_get (fold (\<lambda>(k, v). obj_insert k v) (obj_of_fields (fields i)) (obj_of_fields (fields c)))
      = obj_get (obj_of_fields (fields (overlay c i)))"
    by (rule ext)
      (simp add: obj_get_fold [OF d] obj_get_def [symmetric] obj_get_fields distinct_names
        fields_overlay [symmetric] member_overlay [OF same_names, folded fields_overlay])
  then show ?thesis
    using obj_ext [OF obj_wf_fold [OF obj_wf_fields] obj_wf_fields]
    by (simp add: enc_fields struct_to_json_def)
qed

theorem merge_eq:
  "ok c \<Longrightarrow> ok i \<Longrightarrow> merge_documents (\<lambda>x. Some (enc x)) dec c i = overlay c i"
proof -
  assume "ok c" "ok i"
  then have "dec (enc (overlay c i)) = Some (overlay c i)" by (intro reads_back ok_overlay)
  then show ?thesis
    by (simp add: merge_documents_def patched [symmetric]) (simp add: enc_fields struct_to_json_def)
qed

lemma merge_member:
  assumes "ok c" "ok i"
  shows "json_member (enc (merge_documents (\<lambda>x. Some (enc x)) dec c i)) k
     = or_else (json_member (enc i) k) (json_member (enc c) k)"
  by (simp add: merge_eq [OF assms] get_enc fields_overlay member_overlay [OF same_names])

lemma merge_ok: "ok c \<Longrightarrow> ok i \<Longrightarrow> ok (merge_documents (\<lambda>x. Some (enc x)) dec c i)"
  by (simp add: merge_eq ok_overlay)

end

section \<open>The four documents\<close>

definition room_overlay :: "room \<Rightarrow> room \<Rightarrow> room" where
  "room_overlay c i = \<lparr>
     room_id = room_id i,
     room_updated_at = room_updated_at i,
     room_t = room_t i,
     room_name = or_else (room_name i) (room_name c),
     room_fname = or_else (room_fname i) (room_fname c),
     room_msgs = or_else (room_msgs i) (room_msgs c),
     room_users_count = or_else (room_users_count i) (room_users_count c),
     room_u = or_else (room_u i) (room_u c),
     room_uids = or_else (room_uids i) (room_uids c),
     room_usernames = or_else (room_usernames i) (room_usernames c),
     room_default = or_else (room_default i) (room_default c),
     room_broadcast = or_else (room_broadcast i) (room_broadcast c),
     room_featured = or_else (room_featured i) (room_featured c),
     room_topic = or_else (room_topic i) (room_topic c),
     room_description = or_else (room_description i) (room_description c),
     room_announcement = or_else (room_announcement i) (room_announcement c),
     room_announcement_details = or_else (room_announcement_details i) (room_announcement_details c),
     room_join_code_required = or_else (room_join_code_required i) (room_join_code_required c),
     room_encrypted = or_else (room_encrypted i) (room_encrypted c),
     room_e2e_key_id = or_else (room_e2e_key_id i) (room_e2e_key_id c),
     room_users_waiting_for_e2e_keys = or_else (room_users_waiting_for_e2e_keys i) (room_users_waiting_for_e2e_keys c),
     room_ro = or_else (room_ro i) (room_ro c),
     room_react_when_read_only = or_else (room_react_when_read_only i) (room_react_when_read_only c),
     room_sys_mes = or_else (room_sys_mes i) (room_sys_mes c),
     room_cl = or_else (room_cl i) (room_cl c),
     room_archived = or_else (room_archived i) (room_archived c),
     room_muted = or_else (room_muted i) (room_muted c),
     room_unmuted = or_else (room_unmuted i) (room_unmuted c),
     room_last_message = or_else (room_last_message i) (room_last_message c),
     room_lm = or_else (room_lm i) (room_lm c),
     room_ts = or_else (room_ts i) (room_ts c),
     room_web_rtc_call_start_time = or_else (room_web_rtc_call_start_time i) (room_web_rtc_call_start_time c),
     room_prid = or_else (room_prid i) (room_prid c),
     room_avatar_etag = or_else (room_avatar_etag i) (room_avatar_etag c),
     room_team_main = or_else (room_team_main i) (room_team_main c),
     room_team_id = or_else (room_team_id i) (room_team_id c),
     room_team_default = or_else (room_team_default i) (room_team_default c),
     room_open = or_else (room_open i) (room_open c),
     room_unread = or_else (room_unread i) (room_unread c),
     room_alert = or_else (room_alert i) (room_alert c),
     room_favorite = or_else (room_favorite i) (room_favorite c),
     room_hide_unread_status = or_else (room_hide_unread_status i) (room_hide_unread_status c),
     room_hide_mention_status = or_else (room_hide_mention_status i) (room_hide_mention_status c),
     room_auto_translate = or_else (room_auto_translate i) (room_auto_translate c),
     room_auto_translate_language = or_else (room_auto_translate_language i) (room_auto_translate_language c),
     room_retention = or_else (room_retention i) (room_retention c),
     room_abac_attributes = or_else (room_abac_attributes i) (room_abac_attributes c),
     room_role_priorities_created = or_else (room_role_priorities_created i) (room_role_priorities_created c),
     room_custom_fields = or_else (room_custom_fields i) (room_custom_fields c),
     room_federated = or_else (room_federated i) (room_federated c),
     room_federation = or_else (room_federation i) (room_federation c),
     room_v = or_else (room_v i) (room_v c),
     room_source = or_else (room_source i) (room_source c),
     room_served_by = or_else (room_served_by i) (room_served_by c),
     room_department_id = or_else (room_department_id i) (room_department_id c),
     room_on_hold = or_else (room_on_hold i) (room_on_hold c),
     room_waiting_response = or_else (room_waiting_response i) (room_waiting_response c),
     room_queued_at = or_else (room_queued_at i) (room_queued_at c),
     room_tags = or_else (room_tags i) (room_tags c),
     room_livechat_data = or_else (room_livechat_data i) (room_livechat_data c),
     room_metrics = or_else (room_metrics i) (room_metrics c),
     room_transcript_request = or_else (room_transcript_request i) (room_transcript_request c),
     room_priority_id = or_else (room_priority_id i) (room_priority_id c),
     room_priority_weight = or_else (room_priority_weight i) (room_priority_weight c),
     room_sla_id = or_else (room_sla_id i) (room_sla_id c),
     room_estimated_waiting_time_queue = or_else (room_estimated_waiting_time_queue i) (room_estimated_waiting_time_queue c),
     room_contact_id = or_else (room_contact_id i) (room_contact_id c),
     room_verified = or_else (room_verified i) (room_verified c),
     room_sms = or_else (room_sms i) (room_sms c),
     room_code = or_else (room_code i) (room_code c),
     room_label = or_else (room_label i) (room_label c),
     room_sentiment = or_else (room_sentiment i) (room_sentiment c)\<rparr>"

lemma room_overlay_fields: "room_fields (room_overlay c i) = overlay_fields (room_fields i) (room_fields c)"
  by (simp add: room_fields_def room_overlay_def overlay_fields_def)

lemma room_overlay_ok: "room_ok T c \<Longrightarrow> room_ok T i \<Longrightarrow> room_ok T (room_overlay c i)"
  by (simp add: room_ok_def room_overlay_def pred_option_or_else)

lemma room_reads_back: "room_ok T x \<Longrightarrow> room_of_json T (struct_to_json (room_fields x)) = Some x"
  by (simp add: room_of_json_def room_of_fields)

interpretation droom: document room_fields room_to_json "room_of_json T" "room_ok T" room_overlay for T
  by unfold_locales
    (simp_all only: room_to_json_def room_names room_distinct room_overlay_fields room_overlay_ok room_reads_back)

definition user_overlay :: "user \<Rightarrow> user \<Rightarrow> user" where
  "user_overlay c i = \<lparr>
     usr_id = usr_id i,
     usr_updated_at = or_else (usr_updated_at i) (usr_updated_at c),
     usr_created_at = or_else (usr_created_at i) (usr_created_at c),
     usr_username = or_else (usr_username i) (usr_username c),
     usr_name = or_else (usr_name i) (usr_name c),
     usr_nickname = or_else (usr_nickname i) (usr_nickname c),
     usr_bio = or_else (usr_bio i) (usr_bio c),
     usr_roles = or_else (usr_roles i) (usr_roles c),
     usr_user_type = or_else (usr_user_type i) (usr_user_type c),
     usr_active = or_else (usr_active i) (usr_active c),
     usr_inactive_reason = or_else (usr_inactive_reason i) (usr_inactive_reason c),
     usr_status = or_else (usr_status i) (usr_status c),
     usr_status_default = or_else (usr_status_default i) (usr_status_default c),
     usr_status_connection = or_else (usr_status_connection i) (usr_status_connection c),
     usr_status_text = or_else (usr_status_text i) (usr_status_text c),
     usr_status_source = or_else (usr_status_source i) (usr_status_source c),
     usr_status_expires_at = or_else (usr_status_expires_at i) (usr_status_expires_at c),
     usr_status_id = or_else (usr_status_id i) (usr_status_id c),
     usr_last_login = or_else (usr_last_login i) (usr_last_login c),
     usr_emails = or_else (usr_emails i) (usr_emails c),
     usr_avatar_origin = or_else (usr_avatar_origin i) (usr_avatar_origin c),
     usr_avatar_etag = or_else (usr_avatar_etag i) (usr_avatar_etag c),
     usr_avatar_url = or_else (usr_avatar_url i) (usr_avatar_url c),
     usr_utc_offset = or_else (usr_utc_offset i) (usr_utc_offset c),
     usr_language = or_else (usr_language i) (usr_language c),
     usr_phone = or_else (usr_phone i) (usr_phone c),
     usr_reason = or_else (usr_reason i) (usr_reason c),
     usr_e2e = or_else (usr_e2e i) (usr_e2e c),
     usr_settings = or_else (usr_settings i) (usr_settings c),
     usr_custom_fields = or_else (usr_custom_fields i) (usr_custom_fields c),
     usr_banners = or_else (usr_banners i) (usr_banners c),
     usr_default_room = or_else (usr_default_room i) (usr_default_room c),
     usr_ldap = or_else (usr_ldap i) (usr_ldap c),
     usr_require_password_change = or_else (usr_require_password_change i) (usr_require_password_change c),
     usr_require_password_change_reason = or_else (usr_require_password_change_reason i) (usr_require_password_change_reason c),
     usr_room_role_priorities = or_else (usr_room_role_priorities i) (usr_room_role_priorities c),
     usr_rooms = or_else (usr_rooms i) (usr_rooms c),
     usr_import_ids = or_else (usr_import_ids i) (usr_import_ids c),
     usr_invite_token = or_else (usr_invite_token i) (usr_invite_token c),
     usr_free_switch_extension = or_else (usr_free_switch_extension i) (usr_free_switch_extension c),
     usr_can_view_all_info = or_else (usr_can_view_all_info i) (usr_can_view_all_info c),
     usr_provider_id = or_else (usr_provider_id i) (usr_provider_id c),
     usr_abac_attributes = or_else (usr_abac_attributes i) (usr_abac_attributes c),
     usr_federated = or_else (usr_federated i) (usr_federated c),
     usr_federation = or_else (usr_federation i) (usr_federation c)\<rparr>"

lemma user_overlay_fields: "user_fields (user_overlay c i) = overlay_fields (user_fields i) (user_fields c)"
  by (simp add: user_fields_def user_overlay_def overlay_fields_def)

lemma user_overlay_ok: "user_ok T c \<Longrightarrow> user_ok T i \<Longrightarrow> user_ok T (user_overlay c i)"
  by (simp add: user_ok_def user_overlay_def pred_option_or_else)

lemma user_reads_back: "user_ok T x \<Longrightarrow> user_of_json T (struct_to_json (user_fields x)) = Some x"
  by (simp add: user_of_json_def user_of_fields)

interpretation dusr: document user_fields user_to_json "user_of_json T" "user_ok T" user_overlay for T
  by unfold_locales
    (simp_all only: user_to_json_def user_names user_distinct user_overlay_fields user_overlay_ok user_reads_back)

definition subscription_overlay :: "subscription \<Rightarrow> subscription \<Rightarrow> subscription" where
  "subscription_overlay c i = \<lparr>
     sub_id = sub_id i,
     sub_updated_at = sub_updated_at i,
     sub_rid = sub_rid i,
     sub_u = sub_u i,
     sub_t = sub_t i,
     sub_ts = sub_ts i,
     sub_name = or_else (sub_name i) (sub_name c),
     sub_open = sub_open i,
     sub_unread = sub_unread i,
     sub_user_mentions = sub_user_mentions i,
     sub_group_mentions = sub_group_mentions i,
     sub_fname = or_else (sub_fname i) (sub_fname c),
     sub_alert = or_else (sub_alert i) (sub_alert c),
     sub_ls = or_else (sub_ls i) (sub_ls c),
     sub_lr = or_else (sub_lr i) (sub_lr c),
     sub_f = or_else (sub_f i) (sub_f c),
     sub_hide_unread_status = or_else (sub_hide_unread_status i) (sub_hide_unread_status c),
     sub_hide_mention_status = or_else (sub_hide_mention_status i) (sub_hide_mention_status c),
     sub_team_main = or_else (sub_team_main i) (sub_team_main c),
     sub_team_id = or_else (sub_team_id i) (sub_team_id c),
     sub_broadcast = or_else (sub_broadcast i) (sub_broadcast c),
     sub_prid = or_else (sub_prid i) (sub_prid c),
     sub_tunread = or_else (sub_tunread i) (sub_tunread c),
     sub_tunread_group = or_else (sub_tunread_group i) (sub_tunread_group c),
     sub_tunread_user = or_else (sub_tunread_user i) (sub_tunread_user c),
     sub_roles = or_else (sub_roles i) (sub_roles c),
     sub_on_hold = or_else (sub_on_hold i) (sub_on_hold c),
     sub_encrypted = or_else (sub_encrypted i) (sub_encrypted c),
     sub_e2e_key = or_else (sub_e2e_key i) (sub_e2e_key c),
     sub_e2e_suggested_key = or_else (sub_e2e_suggested_key i) (sub_e2e_suggested_key c),
     sub_old_room_keys = or_else (sub_old_room_keys i) (sub_old_room_keys c),
     sub_suggested_old_room_keys = or_else (sub_suggested_old_room_keys i) (sub_suggested_old_room_keys c),
     sub_unread_alert = or_else (sub_unread_alert i) (sub_unread_alert c),
     sub_desktop_notifications = or_else (sub_desktop_notifications i) (sub_desktop_notifications c),
     sub_mobile_push_notifications = or_else (sub_mobile_push_notifications i) (sub_mobile_push_notifications c),
     sub_email_notifications = or_else (sub_email_notifications i) (sub_email_notifications c),
     sub_desktop_pref_origin = or_else (sub_desktop_pref_origin i) (sub_desktop_pref_origin c),
     sub_mobile_pref_origin = or_else (sub_mobile_pref_origin i) (sub_mobile_pref_origin c),
     sub_email_pref_origin = or_else (sub_email_pref_origin i) (sub_email_pref_origin c),
     sub_audio_notification_value = or_else (sub_audio_notification_value i) (sub_audio_notification_value c),
     sub_disable_notifications = or_else (sub_disable_notifications i) (sub_disable_notifications c),
     sub_mute_group_mentions = or_else (sub_mute_group_mentions i) (sub_mute_group_mentions c),
     sub_user_highlights = or_else (sub_user_highlights i) (sub_user_highlights c),
     sub_ignored = or_else (sub_ignored i) (sub_ignored c),
     sub_archived = or_else (sub_archived i) (sub_archived c),
     sub_auto_translate = or_else (sub_auto_translate i) (sub_auto_translate c),
     sub_auto_translate_language = or_else (sub_auto_translate_language i) (sub_auto_translate_language c),
     sub_blocked = or_else (sub_blocked i) (sub_blocked c),
     sub_blocker = or_else (sub_blocker i) (sub_blocker c),
     sub_draft = or_else (sub_draft i) (sub_draft c),
     sub_thread_drafts = or_else (sub_thread_drafts i) (sub_thread_drafts c),
     sub_status = or_else (sub_status i) (sub_status c),
     sub_inviter = or_else (sub_inviter i) (sub_inviter c),
     sub_v = or_else (sub_v i) (sub_v c),
     sub_department = or_else (sub_department i) (sub_department c),
     sub_code = or_else (sub_code i) (sub_code c),
     sub_abac_last_time_checked = or_else (sub_abac_last_time_checked i) (sub_abac_last_time_checked c),
     sub_custom_fields = or_else (sub_custom_fields i) (sub_custom_fields c)\<rparr>"

lemma subscription_overlay_fields: "subscription_fields (subscription_overlay c i) = overlay_fields (subscription_fields i) (subscription_fields c)"
  by (simp add: subscription_fields_def subscription_overlay_def overlay_fields_def)

lemma subscription_overlay_ok: "subscription_ok T c \<Longrightarrow> subscription_ok T i \<Longrightarrow> subscription_ok T (subscription_overlay c i)"
  by (simp add: subscription_ok_def subscription_overlay_def pred_option_or_else)

lemma subscription_reads_back: "subscription_ok T x \<Longrightarrow> subscription_of_json T (struct_to_json (subscription_fields x)) = Some x"
  by (simp add: subscription_of_json_def subscription_of_fields)

interpretation dsub: document subscription_fields subscription_to_json "subscription_of_json T" "subscription_ok T" subscription_overlay for T
  by unfold_locales
    (simp_all only: subscription_to_json_def subscription_names subscription_distinct subscription_overlay_fields subscription_overlay_ok subscription_reads_back)

definition message_overlay :: "message \<Rightarrow> message \<Rightarrow> message" where
  "message_overlay c i = \<lparr>
     msg_id = msg_id i,
     msg_updated_at = msg_updated_at i,
     msg_rid = msg_rid i,
     msg_msg = msg_msg i,
     msg_ts = msg_ts i,
     msg_u = msg_u i,
     msg_t = or_else (msg_t i) (msg_t c),
     msg_edited_at = or_else (msg_edited_at i) (msg_edited_at c),
     msg_edited_by = or_else (msg_edited_by i) (msg_edited_by c),
     msg_attachments = or_else (msg_attachments i) (msg_attachments c),
     msg_mentions = or_else (msg_mentions i) (msg_mentions c),
     msg_channels = or_else (msg_channels i) (msg_channels c),
     msg_md = or_else (msg_md i) (msg_md c),
     msg_blocks = or_else (msg_blocks i) (msg_blocks c),
     msg_urls = or_else (msg_urls i) (msg_urls c),
     msg_reactions = or_else (msg_reactions i) (msg_reactions c),
     msg_file = or_else (msg_file i) (msg_file c),
     msg_files = or_else (msg_files i) (msg_files c),
     msg_tmid = or_else (msg_tmid i) (msg_tmid c),
     msg_tshow = or_else (msg_tshow i) (msg_tshow c),
     msg_tcount = or_else (msg_tcount i) (msg_tcount c),
     msg_tlm = or_else (msg_tlm i) (msg_tlm c),
     msg_replies = or_else (msg_replies i) (msg_replies c),
     msg_drid = or_else (msg_drid i) (msg_drid c),
     msg_dcount = or_else (msg_dcount i) (msg_dcount c),
     msg_dlm = or_else (msg_dlm i) (msg_dlm c),
     msg_groupable = or_else (msg_groupable i) (msg_groupable c),
     msg_parse_urls = or_else (msg_parse_urls i) (msg_parse_urls c),
     msg_unread = or_else (msg_unread i) (msg_unread c),
     msg_pinned = or_else (msg_pinned i) (msg_pinned c),
     msg_pinned_at = or_else (msg_pinned_at i) (msg_pinned_at c),
     msg_pinned_by = or_else (msg_pinned_by i) (msg_pinned_by c),
     msg_starred = or_else (msg_starred i) (msg_starred c),
     msg_private = or_else (msg_private i) (msg_private c),
     msg_temp = or_else (msg_temp i) (msg_temp c),
     msg_hidden = or_else (msg_hidden i) (msg_hidden c),
     msg_imported = or_else (msg_imported i) (msg_imported c),
     msg_e2e = or_else (msg_e2e i) (msg_e2e c),
     msg_alias = or_else (msg_alias i) (msg_alias c),
     msg_avatar = or_else (msg_avatar i) (msg_avatar c),
     msg_emoji = or_else (msg_emoji i) (msg_emoji c),
     msg_role = or_else (msg_role i) (msg_role c),
     msg_bot = or_else (msg_bot i) (msg_bot c),
     msg_token = or_else (msg_token i) (msg_token c),
     msg_custom_fields = or_else (msg_custom_fields i) (msg_custom_fields c)\<rparr>"

lemma message_overlay_fields: "message_fields (message_overlay c i) = overlay_fields (message_fields i) (message_fields c)"
  by (simp add: message_fields_def message_overlay_def overlay_fields_def)

lemma message_overlay_ok: "message_ok T c \<Longrightarrow> message_ok T i \<Longrightarrow> message_ok T (message_overlay c i)"
  by (simp add: message_ok_def message_overlay_def pred_option_or_else)

lemma message_reads_back: "message_ok T x \<Longrightarrow> message_of_json T (struct_to_json (message_fields x)) = Some x"
  by (simp add: message_of_json_def message_of_fields)

interpretation dmsg: document message_fields message_to_json "message_of_json T" "message_ok T" message_overlay for T
  by unfold_locales
    (simp_all only: message_to_json_def message_names message_distinct message_overlay_fields message_overlay_ok message_reads_back)

definition merge_rooms :: "time_lib \<Rightarrow> room \<Rightarrow> room \<Rightarrow> room" where
  "merge_rooms T = merge_documents (\<lambda>x. Some (room_to_json x)) (room_of_json T)"

definition merge_users :: "time_lib \<Rightarrow> user \<Rightarrow> user \<Rightarrow> user" where
  "merge_users T = merge_documents (\<lambda>x. Some (user_to_json x)) (user_of_json T)"

definition merge_subscriptions :: "time_lib \<Rightarrow> subscription \<Rightarrow> subscription \<Rightarrow> subscription" where
  "merge_subscriptions T = merge_documents (\<lambda>x. Some (subscription_to_json x)) (subscription_of_json T)"

definition merge_messages :: "time_lib \<Rightarrow> message \<Rightarrow> message \<Rightarrow> message" where
  "merge_messages T = merge_documents (\<lambda>x. Some (message_to_json x)) (message_of_json T)"

lemmas merges_def = merge_rooms_def merge_users_def merge_subscriptions_def merge_messages_def


end
