(* ===== verification/Cache_Resource.thy ===== *)
theory Cache_Resource
  imports Rs_Prelude
begin

unbundle bit_operations_syntax

text \<open>
  \<open>resource.rs\<close>: the set of entity kinds a cache stores, a 32-bit word with one bit per kind.
  The word is private, so the values there are those the public operations build, the terms of
  \<open>kind_expr\<close>; \<open>kinds\<close> reads a value as the set of its kinds.
\<close>

section \<open>The set of kinds\<close>

datatype resource_type = ResourceType (bits: u32)

definition ROOM :: resource_type where "ROOM = ResourceType (push_bit 0 1)"
definition USER :: resource_type where "USER = ResourceType (push_bit 1 1)"
definition SUBSCRIPTION :: resource_type where "SUBSCRIPTION = ResourceType (push_bit 2 1)"
definition MESSAGE :: resource_type where "MESSAGE = ResourceType (push_bit 3 1)"
definition CURRENT_USER :: resource_type where "CURRENT_USER = ResourceType (push_bit 4 1)"

definition ALL_BITS :: u32 where
  "ALL_BITS = bits ROOM OR bits USER OR bits SUBSCRIPTION OR bits MESSAGE OR bits CURRENT_USER"

definition rt_all :: resource_type where
  "rt_all = ResourceType ALL_BITS"

definition rt_empty :: resource_type where
  "rt_empty = ResourceType 0"

definition from_bits_truncate :: "u32 \<Rightarrow> resource_type" where
  "from_bits_truncate b = ResourceType (b AND ALL_BITS)"

definition rt_contains :: "resource_type \<Rightarrow> resource_type \<Rightarrow> bool" where
  "rt_contains a b = (bits a AND bits b = bits b)"

definition rt_intersects :: "resource_type \<Rightarrow> resource_type \<Rightarrow> bool" where
  "rt_intersects a b = (bits a AND bits b \<noteq> 0)"

definition rt_is_empty :: "resource_type \<Rightarrow> bool" where
  "rt_is_empty a = (bits a = 0)"

definition rt_union :: "resource_type \<Rightarrow> resource_type \<Rightarrow> resource_type" where
  "rt_union a b = ResourceType (bits a OR bits b)"

definition rt_intersection :: "resource_type \<Rightarrow> resource_type \<Rightarrow> resource_type" where
  "rt_intersection a b = ResourceType (bits a AND bits b)"

definition rt_difference :: "resource_type \<Rightarrow> resource_type \<Rightarrow> resource_type" where
  "rt_difference a b = ResourceType (bits a AND NOT (bits b))"

definition rt_complement :: "resource_type \<Rightarrow> resource_type" where
  "rt_complement a = ResourceType (NOT (bits a) AND ALL_BITS)"

definition rt_bitxor :: "resource_type \<Rightarrow> resource_type \<Rightarrow> resource_type" where
  "rt_bitxor a b = ResourceType (bits a XOR bits b)"

definition NAMED :: "(resource_type \<times> str) list" where
  "NAMED = [(ROOM, ''ROOM''), (USER, ''USER''), (SUBSCRIPTION, ''SUBSCRIPTION''),
     (MESSAGE, ''MESSAGE''), (CURRENT_USER, ''CURRENT_USER'')]"

fun join_names :: "str list \<Rightarrow> str" where
  "join_names [] = []"
| "join_names [n] = n"
| "join_names (n # ns) = n @ '' | '' @ join_names ns"

definition resource_debug :: "resource_type \<Rightarrow> str" where
  "resource_debug a = ''ResourceType('' @
     (if rt_is_empty a then ''empty''
      else join_names (map snd (filter (\<lambda>(flag, name). rt_contains a flag) NAMED))) @ '')''"

section \<open>Kinds as a set\<close>

definition kinds :: "resource_type \<Rightarrow> nat set" where
  "kinds a = {k. bit (bits a) k}"

lemma bit_ALL_BITS: "bit ALL_BITS k \<longleftrightarrow> k < 5"
proof -
  have "ALL_BITS = mask 5"
    by (simp add: ALL_BITS_def ROOM_def USER_def SUBSCRIPTION_def MESSAGE_def CURRENT_USER_def mask_eq_exp_minus_1)
  then have "bit ALL_BITS k \<longleftrightarrow> bit (mask 5 :: u32) k" by metis
  also have "\<dots> \<longleftrightarrow> k < 5" unfolding bit_mask_iff by auto
  finally show ?thesis .
qed

lemma bit_bits_lt: "bit (bits a) k \<Longrightarrow> k < 32"
  using bit_imp_le_length [of "bits a" k] by simp

lemma kinds_simps [simp]:
  "kinds rt_all = {k. k < 5}"
  "kinds rt_empty = {}"
  "kinds (from_bits_truncate b) = {k. k < 5 \<and> bit b k}"
  "kinds (rt_union a b') = kinds a \<union> kinds b'"
  "kinds (rt_intersection a b') = kinds a \<inter> kinds b'"
  "kinds (rt_difference a b') = kinds a - kinds b'"
  "kinds (rt_bitxor a b') = (kinds a - kinds b') \<union> (kinds b' - kinds a)"
  "kinds (rt_complement a) = {k. k < 5} - kinds a"
  by (auto simp: kinds_def rt_all_def rt_empty_def from_bits_truncate_def rt_union_def rt_intersection_def
      rt_difference_def rt_bitxor_def rt_complement_def bit_ALL_BITS bit_and_iff bit_or_iff bit_xor_iff
      bit_not_iff dest: bit_bits_lt)

lemma kinds_flag: "k < 32 \<Longrightarrow> kinds (ResourceType (push_bit k 1)) = {k}"
  by (auto simp: kinds_def bit_exp_iff)

lemma kinds_flags [simp]:
  "kinds ROOM = {0}" "kinds USER = {1}" "kinds SUBSCRIPTION = {2}" "kinds MESSAGE = {3}" "kinds CURRENT_USER = {4}"
  unfolding ROOM_def USER_def SUBSCRIPTION_def MESSAGE_def CURRENT_USER_def by (rule kinds_flag, simp)+

lemma kinds_inject: "kinds a = kinds b \<longleftrightarrow> a = b"
  by (auto simp: kinds_def set_eq_iff intro!: resource_type.expand bit_eqI)

lemma rt_contains_iff: "rt_contains a b \<longleftrightarrow> kinds b \<subseteq> kinds a"
proof -
  have "rt_contains a b \<longleftrightarrow> rt_intersection a b = b"
    by (cases b) (auto simp: rt_contains_def rt_intersection_def)
  also have "\<dots> \<longleftrightarrow> kinds b \<subseteq> kinds a" by (subst kinds_inject [symmetric]) auto
  finally show ?thesis .
qed

lemma rt_is_empty_iff: "rt_is_empty a \<longleftrightarrow> kinds a = {}"
proof -
  have "rt_is_empty a \<longleftrightarrow> a = rt_empty" by (cases a) (simp add: rt_is_empty_def rt_empty_def)
  then show ?thesis using kinds_inject [of a rt_empty] by simp
qed

lemma rt_intersects_iff: "rt_intersects a b \<longleftrightarrow> kinds a \<inter> kinds b \<noteq> {}"
proof -
  have "rt_intersects a b \<longleftrightarrow> \<not> rt_is_empty (rt_intersection a b)"
    by (simp add: rt_intersects_def rt_is_empty_def rt_intersection_def)
  then show ?thesis by (simp only: rt_is_empty_iff kinds_simps not_not)
qed

section \<open>What the public operations build\<close>

datatype kind_expr =
    KeAll | KeEmpty | KeFlag resource_type | KeBits u32
  | KeUnion kind_expr kind_expr | KeIntersection kind_expr kind_expr | KeDifference kind_expr kind_expr
  | KeXor kind_expr kind_expr | KeComplement kind_expr

definition FLAGS :: "resource_type list" where
  "FLAGS = map fst NAMED"

text \<open>A flag is one of the five constants; any other word goes through \<open>from_bits_truncate\<close>.\<close>

primrec build :: "kind_expr \<Rightarrow> resource_type" where
  "build KeAll = rt_all"
| "build KeEmpty = rt_empty"
| "build (KeFlag f) = (if f \<in> set FLAGS then f else rt_empty)"
| "build (KeBits b) = from_bits_truncate b"
| "build (KeUnion a b) = rt_union (build a) (build b)"
| "build (KeIntersection a b) = rt_intersection (build a) (build b)"
| "build (KeDifference a b) = rt_difference (build a) (build b)"
| "build (KeXor a b) = rt_bitxor (build a) (build b)"
| "build (KeComplement a) = rt_complement (build a)"

lemma kinds_build: "kinds (build e) \<subseteq> {k. k < 5}"
  by (induction e) (auto simp: FLAGS_def NAMED_def)

text \<open>The kinds are a Boolean algebra of five: whatever the public operations build has no bit but the five
  defined ones, complementing twice gives it back, difference is intersection with the complement, symmetric
  difference is union without intersection, and \<open>contains\<close>, \<open>intersects\<close> and \<open>is_empty\<close> are inclusion, meeting and
  emptiness of the sets of kinds.\<close>

lemma kinds_algebra:
  "bits (build a) AND NOT ALL_BITS = 0
   \<and> rt_complement (rt_complement (build a)) = build a
   \<and> rt_difference (build a) (build b) = rt_intersection (build a) (rt_complement (build b))
   \<and> rt_bitxor (build a) (build b)
       = rt_difference (rt_union (build a) (build b)) (rt_intersection (build a) (build b))
   \<and> rt_contains (build a) (build b) = (kinds (build b) \<subseteq> kinds (build a))
   \<and> rt_intersects (build a) (build b) = (kinds (build a) \<inter> kinds (build b) \<noteq> {})
   \<and> rt_is_empty (build a) = (kinds (build a) = {})"
proof -
  have "bits (build a) AND NOT ALL_BITS = 0"
    using kinds_build [of a] by (intro bit_eqI) (auto simp: bit_and_iff bit_not_iff bit_ALL_BITS kinds_def)
  moreover have "rt_complement (rt_complement (build a)) = build a"
    using kinds_build [of a] by (subst kinds_inject [symmetric]) auto
  moreover have "rt_difference (build a) (build b) = rt_intersection (build a) (rt_complement (build b))"
    using kinds_build [of a] by (subst kinds_inject [symmetric]) auto
  moreover have "rt_bitxor (build a) (build b)
      = rt_difference (rt_union (build a) (build b)) (rt_intersection (build a) (build b))"
    by (subst kinds_inject [symmetric]) auto
  ultimately show ?thesis by (simp add: rt_contains_iff rt_intersects_iff rt_is_empty_iff)
qed

end
