(* ===== verification/Cache_Config.thy ===== *)
theory Cache_Config
  imports Cache_Resource
begin

text \<open>
  \<open>config.rs\<close>: what a cache stores and how much of it.  A \<open>NonZeroUsize\<close> is a natural that
  \<open>non_zero\<close> made, so a configured user capacity is never zero.
\<close>

datatype tombstone_policy = TpReplace | TpEvict

definition DEFAULT_MESSAGE_CACHE_SIZE :: nat where
  "DEFAULT_MESSAGE_CACHE_SIZE = 100"

definition DEFAULT_USER_CACHE_SIZE :: nat where
  "DEFAULT_USER_CACHE_SIZE = 10000"

definition non_zero :: "nat \<Rightarrow> nat option" where
  "non_zero n = (if n = 0 then None else Some n)"

record cache_config =
  cc_resource_types :: resource_type
  cc_message_cache_size :: nat
  cc_user_cache_size :: "nat option"
  cc_tombstone_policy :: tombstone_policy

definition config_default :: cache_config where
  "config_default = \<lparr>cc_resource_types = rt_all, cc_message_cache_size = DEFAULT_MESSAGE_CACHE_SIZE,
     cc_user_cache_size = non_zero DEFAULT_USER_CACHE_SIZE, cc_tombstone_policy = TpReplace\<rparr>"

text \<open>The setters of \<open>CacheBuilder\<close>; a capacity arrives as the \<open>NonZeroUsize::new\<close> of a number.\<close>

definition with_resource_types :: "resource_type \<Rightarrow> cache_config \<Rightarrow> cache_config" where
  "with_resource_types r c = c\<lparr>cc_resource_types := r\<rparr>"

definition with_message_cache_size :: "nat \<Rightarrow> cache_config \<Rightarrow> cache_config" where
  "with_message_cache_size n c = c\<lparr>cc_message_cache_size := n\<rparr>"

definition with_user_cache_size :: "nat option \<Rightarrow> cache_config \<Rightarrow> cache_config" where
  "with_user_cache_size n c = c\<lparr>cc_user_cache_size := Option.bind n non_zero\<rparr>"

definition with_tombstone_policy :: "tombstone_policy \<Rightarrow> cache_config \<Rightarrow> cache_config" where
  "with_tombstone_policy p c = c\<lparr>cc_tombstone_policy := p\<rparr>"

definition config_ok :: "cache_config \<Rightarrow> bool" where
  "config_ok c = (cc_user_cache_size c \<noteq> Some 0)"

lemma config_ok_built [simp]:
  "config_ok config_default"
  "config_ok (with_resource_types r c) = config_ok c"
  "config_ok (with_message_cache_size n c) = config_ok c"
  "config_ok (with_user_cache_size m c)"
  "config_ok (with_tombstone_policy p c) = config_ok c"
  by (auto simp: config_ok_def config_default_def non_zero_def DEFAULT_USER_CACHE_SIZE_def
      with_resource_types_def with_message_cache_size_def with_user_cache_size_def with_tombstone_policy_def
      bind_eq_Some_conv split: if_splits)

end
