(* ===== verification/Cache_Store.thy ===== *)
theory Cache_Store
  imports Cache_Merge Cache_Config "HOL-Library.While_Combinator"
begin

text \<open>
  \<open>cache.rs\<close> and \<open>update.rs\<close>: the cache and every operation on it.

  A \<open>DashMap\<close> is a finite map and a \<open>VecDeque\<close> a list, front first.  Each method runs as one
  step: the interleaving of two writers between their locks is not modelled.  An operation that
  returns the previous document returns it beside the new state.  The parameter \<open>T\<close> is the date
  library the merge decodes with.
\<close>

section \<open>State\<close>

datatype store_mode = StMerge | StReplace

record cache =
  ca_config :: cache_config
  ca_rooms :: "(str, room) fmap"
  ca_rooms_by_name :: "(str, str) fmap"
  ca_users :: "(str, user) fmap"
  ca_users_by_username :: "(str, str) fmap"
  ca_subscriptions :: "(str, subscription) fmap"
  ca_messages :: "(str, message) fmap"
  ca_room_messages :: "(str, str list) fmap"
  ca_current_user :: "user option"
  ca_user_order :: "str list"

definition from_config :: "cache_config \<Rightarrow> cache" where
  "from_config cfg = \<lparr>ca_config = cfg, ca_rooms = fmempty, ca_rooms_by_name = fmempty, ca_users = fmempty,
     ca_users_by_username = fmempty, ca_subscriptions = fmempty, ca_messages = fmempty,
     ca_room_messages = fmempty, ca_current_user = None, ca_user_order = []\<rparr>"

definition wants :: "cache \<Rightarrow> resource_type \<Rightarrow> bool" where
  "wants c r = rt_contains (cc_resource_types (ca_config c)) r"

section \<open>Entries and their indexes\<close>

definition upsert ::
  "('v \<Rightarrow> 'v \<Rightarrow> 'v) \<Rightarrow> (str, 'v) fmap \<Rightarrow> str \<Rightarrow> 'v \<Rightarrow> store_mode \<Rightarrow> ('v \<Rightarrow> 'r) \<Rightarrow> 'v option \<times> 'r \<times> (str, 'v) fmap" where
  "upsert merge m key incoming mode derive = (case fmlookup m key of
       Some old \<Rightarrow>
         let stored = (case mode of StMerge \<Rightarrow> merge old incoming | StReplace \<Rightarrow> incoming)
         in (Some old, derive stored, fmupd key stored m)
     | None \<Rightarrow> (None, derive incoming, fmupd key incoming m))"

definition reindex :: "(str, str) fmap \<Rightarrow> str option \<Rightarrow> str option \<Rightarrow> str \<Rightarrow> (str, str) fmap" where
  "reindex index old new i =
     (if old = new then index
      else
        let index1 = (case old of Some o' \<Rightarrow> fmremove_if o' (\<lambda>current. current = i) index | None \<Rightarrow> index)
        in (case new of Some n \<Rightarrow> fmupd n i index1 | None \<Rightarrow> index1))"

definition unindex :: "(str, str) fmap \<Rightarrow> str option \<Rightarrow> str \<Rightarrow> (str, str) fmap" where
  "unindex index name i = (case name of Some n \<Rightarrow> fmremove_if n (\<lambda>current. current = i) index | None \<Rightarrow> index)"

section \<open>Rooms\<close>

definition room_lookup :: "cache \<Rightarrow> str \<Rightarrow> room option" where
  "room_lookup c i = fmlookup (ca_rooms c) i"

definition room_id_by_name :: "cache \<Rightarrow> str \<Rightarrow> str option" where
  "room_id_by_name c name = fmlookup (ca_rooms_by_name c) name"

definition room_by_name :: "cache \<Rightarrow> str \<Rightarrow> room option" where
  "room_by_name c name = Option.bind (room_id_by_name c name) (room_lookup c)"

definition room_ids :: "cache \<Rightarrow> str fset" where
  "room_ids c = fmdom (ca_rooms c)"

definition store_room :: "time_lib \<Rightarrow> room \<Rightarrow> store_mode \<Rightarrow> cache \<Rightarrow> room option \<times> cache" where
  "store_room T incoming mode c =
     (if \<not> wants c ROOM then (None, c)
      else
        let i = room_id incoming;
            (previous, new_name, rooms) = upsert (merge_rooms T) (ca_rooms c) i incoming mode room_name;
            old_name = Option.bind previous room_name
        in (previous, c\<lparr>ca_rooms := rooms, ca_rooms_by_name := reindex (ca_rooms_by_name c) old_name new_name i\<rparr>))"

definition replace_room :: "time_lib \<Rightarrow> room \<Rightarrow> cache \<Rightarrow> room option \<times> cache" where
  "replace_room T r = store_room T r StReplace"

definition merge_room :: "time_lib \<Rightarrow> room \<Rightarrow> cache \<Rightarrow> room option \<times> cache" where
  "merge_room T r = store_room T r StMerge"

definition remove_room :: "str \<Rightarrow> cache \<Rightarrow> room option \<times> cache" where
  "remove_room i c =
     (let (removed, rooms) = fmpop i (ca_rooms c);
          c1 = c\<lparr>ca_rooms := rooms,
                 ca_rooms_by_name := unindex (ca_rooms_by_name c) (Option.bind removed room_name) i,
                 ca_subscriptions := fmdrop i (ca_subscriptions c)\<rparr>;
          (ring, rings) = fmpop i (ca_room_messages c1)
      in (removed, c1\<lparr>ca_room_messages := rings,
            ca_messages := (case ring of None \<Rightarrow> ca_messages c1 | Some ids \<Rightarrow> fold fmdrop ids (ca_messages c1))\<rparr>))"

section \<open>Users\<close>

definition user_lookup :: "cache \<Rightarrow> str \<Rightarrow> user option" where
  "user_lookup c i = fmlookup (ca_users c) i"

definition user_id_by_username :: "cache \<Rightarrow> str \<Rightarrow> str option" where
  "user_id_by_username c name = fmlookup (ca_users_by_username c) name"

definition user_by_username :: "cache \<Rightarrow> str \<Rightarrow> user option" where
  "user_by_username c name = Option.bind (user_id_by_username c name) (user_lookup c)"

definition user_ids :: "cache \<Rightarrow> str fset" where
  "user_ids c = fmdom (ca_users c)"

definition drop_user :: "str \<Rightarrow> cache \<Rightarrow> user option \<times> cache" where
  "drop_user i c =
     (let (removed, users) = fmpop i (ca_users c)
      in (removed, c\<lparr>ca_users := users,
            ca_users_by_username := unindex (ca_users_by_username c) (Option.bind removed usr_username) i\<rparr>))"

text \<open>The bounded loop of \<open>note_new_user\<close>: up to \<open>n\<close> users from the front of the queue, never the
  one that just arrived.\<close>

fun pop_oldest :: "nat \<Rightarrow> str \<Rightarrow> str list \<Rightarrow> str list \<times> str list" where
  "pop_oldest 0 i order = (order, [])"
| "pop_oldest (Suc n) i [] = ([], [])"
| "pop_oldest (Suc n) i (oldest # order) =
     (if oldest = i then (oldest # order, [])
      else let (order', evicted) = pop_oldest n i order in (order', oldest # evicted))"

definition note_new_user :: "str \<Rightarrow> cache \<Rightarrow> cache" where
  "note_new_user i c = (case cc_user_cache_size (ca_config c) of
       None \<Rightarrow> c
     | Some capacity \<Rightarrow>
         let over_capacity = fmlen (ca_users c) - capacity;
             (order, evicted) = pop_oldest over_capacity i (ca_user_order c @ [i])
         in fold (\<lambda>victim s. snd (drop_user victim s)) evicted (c\<lparr>ca_user_order := order\<rparr>))"

definition store_user :: "time_lib \<Rightarrow> user \<Rightarrow> store_mode \<Rightarrow> cache \<Rightarrow> user option \<times> cache" where
  "store_user T incoming mode c =
     (if \<not> wants c USER then (None, c)
      else
        let i = usr_id incoming;
            (previous, new_username, users) = upsert (merge_users T) (ca_users c) i incoming mode usr_username;
            old_username = Option.bind previous usr_username;
            c1 = c\<lparr>ca_users := users,
                   ca_users_by_username := reindex (ca_users_by_username c) old_username new_username i\<rparr>
        in (previous, if previous = None then note_new_user i c1 else c1))"

definition remove_user :: "str \<Rightarrow> cache \<Rightarrow> user option \<times> cache" where
  "remove_user i c =
     (let (removed, c1) = drop_user i c
      in (removed,
          if removed \<noteq> None \<and> cc_user_cache_size (ca_config c) \<noteq> None
          then c1\<lparr>ca_user_order := filter (\<lambda>candidate. candidate \<noteq> i) (ca_user_order c1)\<rparr> else c1))"

section \<open>The current user\<close>

definition current_user_id :: "cache \<Rightarrow> str option" where
  "current_user_id c = map_option usr_id (ca_current_user c)"

definition set_current_user :: "time_lib \<Rightarrow> user \<Rightarrow> cache \<Rightarrow> cache" where
  "set_current_user T u c =
     (let c1 = (if wants c CURRENT_USER then c\<lparr>ca_current_user := Some u\<rparr> else c)
      in snd (store_user T u StMerge c1))"

definition refresh_current_user :: "time_lib \<Rightarrow> user \<Rightarrow> store_mode \<Rightarrow> cache \<Rightarrow> cache" where
  "refresh_current_user T incoming mode c =
     (if \<not> wants c CURRENT_USER then c
      else case ca_current_user c of
        Some current \<Rightarrow>
          if usr_id current = usr_id incoming
          then c\<lparr>ca_current_user := Some (case mode of
                 StMerge \<Rightarrow> merge_users T current incoming | StReplace \<Rightarrow> incoming)\<rparr>
          else c
      | None \<Rightarrow> c)"

definition replace_user :: "time_lib \<Rightarrow> user \<Rightarrow> cache \<Rightarrow> user option \<times> cache" where
  "replace_user T u c =
     (let (previous, c1) = store_user T u StReplace c
      in (previous, refresh_current_user T u StReplace c1))"

section \<open>Subscriptions\<close>

definition subscription_lookup :: "cache \<Rightarrow> str \<Rightarrow> subscription option" where
  "subscription_lookup c i = fmlookup (ca_subscriptions c) i"

definition store_subscription ::
  "time_lib \<Rightarrow> subscription \<Rightarrow> store_mode \<Rightarrow> cache \<Rightarrow> subscription option \<times> cache" where
  "store_subscription T incoming mode c =
     (if \<not> wants c SUBSCRIPTION then (None, c)
      else
        let (previous, _, subs) =
              upsert (merge_subscriptions T) (ca_subscriptions c) (sub_rid incoming) incoming mode (\<lambda>_. ())
        in (previous, c\<lparr>ca_subscriptions := subs\<rparr>))"

definition replace_subscription :: "time_lib \<Rightarrow> subscription \<Rightarrow> cache \<Rightarrow> subscription option \<times> cache" where
  "replace_subscription T s = store_subscription T s StReplace"

definition remove_subscription :: "str \<Rightarrow> cache \<Rightarrow> subscription option \<times> cache" where
  "remove_subscription i c =
     (let (removed, subs) = fmpop i (ca_subscriptions c) in (removed, c\<lparr>ca_subscriptions := subs\<rparr>))"

section \<open>Messages\<close>

definition message_lookup :: "cache \<Rightarrow> str \<Rightarrow> message option" where
  "message_lookup c i = fmlookup (ca_messages c) i"

definition room_message_ids :: "cache \<Rightarrow> str \<Rightarrow> str list" where
  "room_message_ids c r = (case fmlookup (ca_room_messages c) r of Some ring \<Rightarrow> ring | None \<Rightarrow> [])"

definition newest_message_id :: "cache \<Rightarrow> str \<Rightarrow> str option" where
  "newest_message_id c r = Option.bind (fmlookup (ca_room_messages c) r)
     (\<lambda>ring. case ring of [] \<Rightarrow> None | i # _ \<Rightarrow> Some i)"

text \<open>The loop of \<open>link_message\<close> that evicts from the back: its state is the ring and the ids it
  collected.  The ring of a turn is longer than the capacity, so \<open>pop_back\<close> finds one.\<close>

definition over_capacity :: "nat \<Rightarrow> str list \<times> str list \<Rightarrow> bool" where
  "over_capacity capacity st = (capacity < length (fst st))"

definition pop_back :: "str list \<times> str list \<Rightarrow> str list \<times> str list" where
  "pop_back st = (butlast (fst st), snd st @ [last (fst st)])"

definition evict_loop :: "nat \<Rightarrow> str list \<Rightarrow> str list \<times> str list" where
  "evict_loop capacity ring = while (over_capacity capacity) pop_back (ring, [])"

definition link_message :: "str \<Rightarrow> str \<Rightarrow> cache \<Rightarrow> cache" where
  "link_message r i c =
     (let (ring, evicted) = evict_loop (cc_message_cache_size (ca_config c)) (i # room_message_ids c r)
      in c\<lparr>ca_room_messages := fmupd r ring (ca_room_messages c),
           ca_messages := fold fmdrop evicted (ca_messages c)\<rparr>)"

definition unlink_message :: "str \<Rightarrow> str \<Rightarrow> cache \<Rightarrow> cache" where
  "unlink_message r i c = (case fmlookup (ca_room_messages c) r of
       None \<Rightarrow> c
     | Some ring \<Rightarrow>
         let ring' = filter (\<lambda>candidate. candidate \<noteq> i) ring
         in c\<lparr>ca_room_messages :=
              if ring' = [] then fmdrop r (ca_room_messages c) else fmupd r ring' (ca_room_messages c)\<rparr>)"

definition remove_message :: "str \<Rightarrow> cache \<Rightarrow> message option \<times> cache" where
  "remove_message i c =
     (let (removed, messages) = fmpop i (ca_messages c);
          c1 = c\<lparr>ca_messages := messages\<rparr>
      in (removed, case removed of None \<Rightarrow> c1 | Some m \<Rightarrow> unlink_message (msg_rid m) i c1))"

definition remove_message_in :: "str \<Rightarrow> str \<Rightarrow> cache \<Rightarrow> message option \<times> cache" where
  "remove_message_in r i c =
     (let (removed, messages) = fmpop i (ca_messages c)
      in (removed, unlink_message r i (c\<lparr>ca_messages := messages\<rparr>)))"

definition store_message :: "time_lib \<Rightarrow> message \<Rightarrow> store_mode \<Rightarrow> cache \<Rightarrow> message option \<times> cache" where
  "store_message T incoming mode c =
     (if \<not> wants c MESSAGE \<or> cc_message_cache_size (ca_config c) = 0 then (None, c)
      else if is_deleted_tombstone incoming \<and> cc_tombstone_policy (ca_config c) = TpEvict
      then remove_message_in (msg_rid incoming) (msg_id incoming) c
      else
        let mode' = (if is_deleted_tombstone incoming then StReplace else mode);
            i = msg_id incoming;
            (previous, _, messages) = upsert (merge_messages T) (ca_messages c) i incoming mode' (\<lambda>_. ());
            c1 = c\<lparr>ca_messages := messages\<rparr>
        in (previous, if previous = None then link_message (msg_rid incoming) i c1 else c1))"

definition replace_message :: "time_lib \<Rightarrow> message \<Rightarrow> cache \<Rightarrow> message option \<times> cache" where
  "replace_message T m = store_message T m StReplace"

definition merge_message :: "time_lib \<Rightarrow> message \<Rightarrow> cache \<Rightarrow> message option \<times> cache" where
  "merge_message T m = store_message T m StMerge"

section \<open>Whole-cache operations\<close>

definition clear :: "cache \<Rightarrow> cache" where
  "clear c = from_config (ca_config c)"

record cache_stats =
  cs_rooms :: nat
  cs_users :: nat
  cs_subscriptions :: nat
  cs_messages :: nat
  cs_rooms_with_messages :: nat

definition stats :: "cache \<Rightarrow> cache_stats" where
  "stats c = \<lparr>cs_rooms = fmlen (ca_rooms c), cs_users = fmlen (ca_users c),
     cs_subscriptions = fmlen (ca_subscriptions c), cs_messages = fmlen (ca_messages c),
     cs_rooms_with_messages = fmlen (ca_room_messages c)\<rparr>"

section \<open>Payloads\<close>

text \<open>\<open>UpdateCache\<close>: rooms and messages arrive whole and replace, users and subscriptions arrive
  projected and merge.\<close>

definition update_room :: "time_lib \<Rightarrow> room \<Rightarrow> cache \<Rightarrow> cache" where
  "update_room T r c = snd (store_room T r StReplace c)"

definition update_user :: "time_lib \<Rightarrow> user \<Rightarrow> cache \<Rightarrow> cache" where
  "update_user T u c = refresh_current_user T u StMerge (snd (store_user T u StMerge c))"

definition update_subscription :: "time_lib \<Rightarrow> subscription \<Rightarrow> cache \<Rightarrow> cache" where
  "update_subscription T s c = snd (store_subscription T s StMerge c)"

definition update_message :: "time_lib \<Rightarrow> message \<Rightarrow> cache \<Rightarrow> cache" where
  "update_message T m c = snd (store_message T m StReplace c)"

definition update_slice :: "('a \<Rightarrow> cache \<Rightarrow> cache) \<Rightarrow> 'a list \<Rightarrow> cache \<Rightarrow> cache" where
  "update_slice update items c = fold update items c"

definition update_option :: "('a \<Rightarrow> cache \<Rightarrow> cache) \<Rightarrow> 'a option \<Rightarrow> cache \<Rightarrow> cache" where
  "update_option update item c = (case item of Some v \<Rightarrow> update v c | None \<Rightarrow> c)"

text \<open>One call of the public interface that changes the cache.\<close>

datatype cache_op =
    CoUpdateRoom room | CoUpdateUser user | CoUpdateSubscription subscription | CoUpdateMessage message
  | CoReplaceRoom room | CoMergeRoom room | CoRemoveRoom str
  | CoReplaceUser user | CoRemoveUser str | CoSetCurrentUser user
  | CoReplaceSubscription subscription | CoRemoveSubscription str
  | CoReplaceMessage message | CoMergeMessage message | CoRemoveMessage str | CoRemoveMessageIn str str
  | CoClear

primrec cache_step :: "time_lib \<Rightarrow> cache_op \<Rightarrow> cache \<Rightarrow> cache" where
  "cache_step T (CoUpdateRoom r) c = update_room T r c"
| "cache_step T (CoUpdateUser u) c = update_user T u c"
| "cache_step T (CoUpdateSubscription s) c = update_subscription T s c"
| "cache_step T (CoUpdateMessage m) c = update_message T m c"
| "cache_step T (CoReplaceRoom r) c = snd (replace_room T r c)"
| "cache_step T (CoMergeRoom r) c = snd (merge_room T r c)"
| "cache_step T (CoRemoveRoom i) c = snd (remove_room i c)"
| "cache_step T (CoReplaceUser u) c = snd (replace_user T u c)"
| "cache_step T (CoRemoveUser i) c = snd (remove_user i c)"
| "cache_step T (CoSetCurrentUser u) c = set_current_user T u c"
| "cache_step T (CoReplaceSubscription s) c = snd (replace_subscription T s c)"
| "cache_step T (CoRemoveSubscription i) c = snd (remove_subscription i c)"
| "cache_step T (CoReplaceMessage m) c = snd (replace_message T m c)"
| "cache_step T (CoMergeMessage m) c = snd (merge_message T m c)"
| "cache_step T (CoRemoveMessage i) c = snd (remove_message i c)"
| "cache_step T (CoRemoveMessageIn r i) c = snd (remove_message_in r i c)"
| "cache_step T CoClear c = clear c"

lemmas cache_steps =
  update_room_def update_user_def update_subscription_def update_message_def replace_room_def merge_room_def
  replace_user_def set_current_user_def replace_subscription_def replace_message_def merge_message_def

end
