(* ===== verification/Cache_Keys.thy ===== *)
theory Cache_Keys
  imports Cache_Store
begin

text \<open>
  Merging keeps the keys: whatever the two documents are, the merged one has the ids of the
  incoming one, so a document never changes the entry it is stored under.
\<close>

section \<open>Decoded ids\<close>

lemma room_of_obj_id: "room_of_obj T m = Some x \<Longrightarrow> req_field as_str m ''_id'' = Some (room_id x)"
  by (clarsimp simp: room_of_obj_def bind_eq_Some_conv)

lemma user_of_obj_id: "user_of_obj T m = Some x \<Longrightarrow> req_field as_str m ''_id'' = Some (usr_id x)"
  by (clarsimp simp: user_of_obj_def bind_eq_Some_conv)

lemma subscription_of_obj_rid: "subscription_of_obj T m = Some x \<Longrightarrow> req_field as_str m ''rid'' = Some (sub_rid x)"
  by (clarsimp simp: subscription_of_obj_def bind_eq_Some_conv)

lemma message_of_obj_ids:
  "message_of_obj T m = Some x \<Longrightarrow>
     req_field as_str m ''_id'' = Some (msg_id x) \<and> req_field as_str m ''rid'' = Some (msg_rid x)"
  by (clarsimp simp: message_of_obj_def bind_eq_Some_conv)

section \<open>Merged ids\<close>

lemma merge_required:
  assumes enc: "\<And>y. enc y = JObject (obj_of_fields (fs y))"
    and dec: "\<And>m x. dec (JObject m) = Some x \<Longrightarrow> req_field as_str m k = Some (sel x)"
    and mem: "\<And>y. obj_get (obj_of_fields (fs y)) k = Some (JString (sel y))"
  shows "sel (merge_documents (\<lambda>y. Some (enc y)) dec c i) = sel i"
proof -
  let ?m = "fold (\<lambda>(k, v). obj_insert k v) (obj_of_fields (fs i)) (obj_of_fields (fs c))"
  have d: "distinct (map fst (obj_of_fields (fs i)))"
    using obj_wf_fields [of "fs i"] by (simp add: obj_wf_def strict_sorted_iff)
  have "map_of (obj_of_fields (fs i)) k = Some (JString (sel i))"
    using mem [of i] by (simp only: obj_get_def)
  then have "obj_get ?m k = Some (JString (sel i))" by (simp add: obj_get_fold [OF d])
  then have "req_field as_str ?m k = Some (sel i)" by (simp add: req_field_def)
  then show ?thesis
    using dec [of ?m] by (auto simp: merge_documents_def enc split: option.splits)
qed

lemma merge_rooms_id [simp]: "room_id (merge_rooms T c i) = room_id i"
  unfolding merge_rooms_def
proof (rule merge_required [where fs = room_fields and k = "''_id''"])
  show "obj_get (obj_of_fields (room_fields y)) ''_id'' = Some (JString (room_id y))" for y
    by (simp add: room_member) (simp add: room_fields_def)
qed (auto simp: room_to_json_def struct_to_json_def room_of_json_def struct_obj_def intro: room_of_obj_id)

lemma merge_users_id [simp]: "usr_id (merge_users T c i) = usr_id i"
  unfolding merge_users_def
proof (rule merge_required [where fs = user_fields and k = "''_id''"])
  show "obj_get (obj_of_fields (user_fields y)) ''_id'' = Some (JString (usr_id y))" for y
    by (simp add: user_member) (simp add: user_fields_def)
qed (auto simp: user_to_json_def struct_to_json_def user_of_json_def struct_obj_def intro: user_of_obj_id)

lemma merge_subscriptions_rid [simp]: "sub_rid (merge_subscriptions T c i) = sub_rid i"
  unfolding merge_subscriptions_def
proof (rule merge_required [where fs = subscription_fields and k = "''rid''"])
  show "obj_get (obj_of_fields (subscription_fields y)) ''rid'' = Some (JString (sub_rid y))" for y
    by (simp add: subscription_member) (simp add: subscription_fields_def)
qed (auto simp: subscription_to_json_def struct_to_json_def subscription_of_json_def struct_obj_def
    intro: subscription_of_obj_rid)

lemma merge_messages_id [simp]: "msg_id (merge_messages T c i) = msg_id i"
  unfolding merge_messages_def
proof (rule merge_required [where fs = message_fields and k = "''_id''"])
  show "obj_get (obj_of_fields (message_fields y)) ''_id'' = Some (JString (msg_id y))" for y
    by (simp add: message_member) (simp add: message_fields_def)
qed (auto simp: message_to_json_def struct_to_json_def message_of_json_def struct_obj_def
    dest: message_of_obj_ids)

lemma merge_messages_rid [simp]: "msg_rid (merge_messages T c i) = msg_rid i"
  unfolding merge_messages_def
proof (rule merge_required [where fs = message_fields and k = "''rid''"])
  show "obj_get (obj_of_fields (message_fields y)) ''rid'' = Some (JString (msg_rid y))" for y
    by (simp add: message_member) (simp add: message_fields_def)
qed (auto simp: message_to_json_def struct_to_json_def message_of_json_def struct_obj_def
    dest: message_of_obj_ids)

end
