(* ===== verification/Cache_Index.thy ===== *)
theory Cache_Index
  imports Cache_Keys
begin

text \<open>
  The invariant of the cache and its preservation by every operation, part by part: rooms and
  users with their name indexes, subscriptions, the current user, messages with the rings of
  their rooms.  \<open>index_sound\<close> is the contract of \<open>reindex\<close> and \<open>unindex\<close>, used for rooms and for
  users alike; \<open>message_inv\<close> holds whatever ids the payloads carry.
\<close>

section \<open>Name indexes\<close>

definition index_sound :: "('d \<Rightarrow> str option) \<Rightarrow> (str, 'd) fmap \<Rightarrow> (str, str) fmap \<Rightarrow> bool" where
  "index_sound name docs index \<longleftrightarrow>
     (\<forall>n i. fmlookup index n = Some i \<longrightarrow> (\<exists>d. fmlookup docs i = Some d \<and> name d = Some n))"

definition keyed :: "('d \<Rightarrow> str) \<Rightarrow> (str, 'd) fmap \<Rightarrow> bool" where
  "keyed key docs \<longleftrightarrow> (\<forall>i d. fmlookup docs i = Some d \<longrightarrow> key d = i)"

lemma fmlookup_reindex:
  "fmlookup (reindex index old new i) n =
     (if old \<noteq> new \<and> new = Some n then Some i
      else if old \<noteq> new \<and> old = Some n \<and> fmlookup index n = Some i then None
      else fmlookup index n)"
  by (auto simp: reindex_def fmlookup_remove_if split: option.splits)

lemma fmlookup_unindex:
  "fmlookup (unindex index name i) n = (if name = Some n \<and> fmlookup index n = Some i then None else fmlookup index n)"
  by (auto simp: unindex_def fmlookup_remove_if split: option.splits)

lemma index_sound_empty [simp]: "index_sound name docs fmempty"
  by (simp add: index_sound_def)

lemma reindex_cases:
  assumes "fmlookup (reindex index old new i) n = Some j"
  obtains "j = i" "new = Some n" | "fmlookup index n = Some j" "j = i \<Longrightarrow> old = Some n \<Longrightarrow> new = Some n"
  using assms unfolding fmlookup_reindex by (metis option.inject option.distinct(1))

lemma index_sound_put:
  assumes "index_sound name docs index"
  shows "index_sound name (fmupd i d docs) (reindex index (Option.bind (fmlookup docs i) name) (name d) i)"
  unfolding index_sound_def
proof (intro allI impI)
  fix n j
  assume "fmlookup (reindex index (Option.bind (fmlookup docs i) name) (name d) i) n = Some j"
  then show "\<exists>d'. fmlookup (fmupd i d docs) j = Some d' \<and> name d' = Some n"
  proof (cases rule: reindex_cases)
    case 2
    then obtain d' where "fmlookup docs j = Some d'" "name d' = Some n"
      using assms unfolding index_sound_def by blast
    with 2(2) show ?thesis by (cases "j = i") simp_all
  qed simp
qed

lemma index_sound_drop:
  assumes "index_sound name docs index"
  shows "index_sound name (fmdrop i docs) (unindex index (Option.bind (fmlookup docs i) name) i)"
  unfolding index_sound_def
proof (intro allI impI)
  fix n j
  assume j: "fmlookup (unindex index (Option.bind (fmlookup docs i) name) i) n = Some j"
  then have idx: "fmlookup index n = Some j" by (simp add: fmlookup_unindex split: if_splits)
  then obtain d where d: "fmlookup docs j = Some d" "name d = Some n"
    using assms unfolding index_sound_def by blast
  with j idx have "j \<noteq> i" by (auto simp: fmlookup_unindex)
  with d show "\<exists>d. fmlookup (fmdrop i docs) j = Some d \<and> name d = Some n" by simp
qed

lemma keyed_empty [simp]: "keyed key fmempty"
  by (simp add: keyed_def)

lemma keyed_upd: "keyed key docs \<Longrightarrow> key d = i \<Longrightarrow> keyed key (fmupd i d docs)"
  by (simp add: keyed_def)

lemma keyed_drop: "keyed key docs \<Longrightarrow> keyed key (fmdrop i docs)"
  by (simp add: keyed_def)

lemma fmlookup_fold_drop: "fmlookup (fold fmdrop ids m) k = (if k \<in> set ids then None else fmlookup m k)"
  by (induction ids arbitrary: m) auto

text \<open>What \<open>upsert\<close> stores has the key of what came in, when the merge keeps it.\<close>

lemma upsertE:
  assumes keeps: "\<And>a b. key (merge a b) = key b"
  obtains d where
    "upsert merge m k x mode derive = (fmlookup m k, derive d, fmupd k d m)"
    "key d = key x" "fmlookup m k = None \<or> mode = StReplace \<Longrightarrow> d = x"
proof (cases "fmlookup m k")
  case None
  show ?thesis by (rule that [of x]) (simp_all add: upsert_def None)
next
  case (Some old)
  let ?d = "case mode of StMerge \<Rightarrow> merge old x | StReplace \<Rightarrow> x"
  have "key ?d = key x" by (cases mode) (simp_all add: keeps)
  then show ?thesis by (rule that [of ?d, rotated]) (simp_all add: upsert_def Some Let_def)
qed

section \<open>The invariant\<close>

definition room_inv :: "cache \<Rightarrow> bool" where
  "room_inv c \<longleftrightarrow> index_sound room_name (ca_rooms c) (ca_rooms_by_name c) \<and> keyed room_id (ca_rooms c)
     \<and> (wants c ROOM \<or> ca_rooms c = fmempty)"

definition user_queue :: "nat option \<Rightarrow> (str, user) fmap \<Rightarrow> str list \<Rightarrow> bool" where
  "user_queue capacity users order = (case capacity of
       None \<Rightarrow> order = []
     | Some k \<Rightarrow> distinct order \<and> set order = fmdom' users \<and> fmlen users \<le> k)"

definition user_inv :: "cache \<Rightarrow> bool" where
  "user_inv c \<longleftrightarrow> index_sound usr_username (ca_users c) (ca_users_by_username c) \<and> keyed usr_id (ca_users c)
     \<and> (wants c USER \<or> ca_users c = fmempty)
     \<and> user_queue (cc_user_cache_size (ca_config c)) (ca_users c) (ca_user_order c)"

definition subscription_inv :: "cache \<Rightarrow> bool" where
  "subscription_inv c \<longleftrightarrow> keyed sub_rid (ca_subscriptions c) \<and> (wants c SUBSCRIPTION \<or> ca_subscriptions c = fmempty)"

definition current_inv :: "cache \<Rightarrow> bool" where
  "current_inv c \<longleftrightarrow> (wants c CURRENT_USER \<or> ca_current_user c = None)"

definition stores_messages :: "cache \<Rightarrow> bool" where
  "stores_messages c \<longleftrightarrow> wants c MESSAGE \<and> cc_message_cache_size (ca_config c) \<noteq> 0"

definition message_inv :: "cache \<Rightarrow> bool" where
  "message_inv c \<longleftrightarrow> keyed msg_id (ca_messages c)
     \<and> (stores_messages c \<or> ca_messages c = fmempty \<and> ca_room_messages c = fmempty)
     \<and> (\<forall>i m. fmlookup (ca_messages c) i = Some m \<longrightarrow>
          (\<exists>r ring. fmlookup (ca_room_messages c) r = Some ring \<and> i \<in> set ring))
     \<and> (\<forall>r ring. fmlookup (ca_room_messages c) r = Some ring \<longrightarrow>
          ring \<noteq> [] \<and> length ring \<le> cc_message_cache_size (ca_config c))"

definition cache_inv :: "cache \<Rightarrow> bool" where
  "cache_inv c \<longleftrightarrow> config_ok (ca_config c) \<and> room_inv c \<and> user_inv c \<and> subscription_inv c \<and> current_inv c \<and> message_inv c"

lemma wants_frame [simp]:
  "wants (c\<lparr>ca_rooms := a1\<rparr>) = wants c" "wants (c\<lparr>ca_rooms_by_name := a2\<rparr>) = wants c"
  "wants (c\<lparr>ca_users := a3\<rparr>) = wants c" "wants (c\<lparr>ca_users_by_username := a4\<rparr>) = wants c"
  "wants (c\<lparr>ca_subscriptions := a5\<rparr>) = wants c" "wants (c\<lparr>ca_messages := a6\<rparr>) = wants c"
  "wants (c\<lparr>ca_room_messages := a7\<rparr>) = wants c" "wants (c\<lparr>ca_current_user := a8\<rparr>) = wants c"
  "wants (c\<lparr>ca_user_order := a9\<rparr>) = wants c"
  by (auto simp: wants_def fun_eq_iff)

lemma room_inv_frame [simp]:
  "room_inv (c\<lparr>ca_users := a3\<rparr>) = room_inv c" "room_inv (c\<lparr>ca_users_by_username := a4\<rparr>) = room_inv c"
  "room_inv (c\<lparr>ca_subscriptions := a5\<rparr>) = room_inv c" "room_inv (c\<lparr>ca_messages := a6\<rparr>) = room_inv c"
  "room_inv (c\<lparr>ca_room_messages := a7\<rparr>) = room_inv c" "room_inv (c\<lparr>ca_current_user := a8\<rparr>) = room_inv c"
  "room_inv (c\<lparr>ca_user_order := a9\<rparr>) = room_inv c"
  by (simp_all add: room_inv_def)

lemma user_inv_frame [simp]:
  "user_inv (c\<lparr>ca_rooms := a1\<rparr>) = user_inv c" "user_inv (c\<lparr>ca_rooms_by_name := a2\<rparr>) = user_inv c"
  "user_inv (c\<lparr>ca_subscriptions := a5\<rparr>) = user_inv c" "user_inv (c\<lparr>ca_messages := a6\<rparr>) = user_inv c"
  "user_inv (c\<lparr>ca_room_messages := a7\<rparr>) = user_inv c" "user_inv (c\<lparr>ca_current_user := a8\<rparr>) = user_inv c"
  by (simp_all add: user_inv_def)

lemma subscription_inv_frame [simp]:
  "subscription_inv (c\<lparr>ca_rooms := a1\<rparr>) = subscription_inv c"
  "subscription_inv (c\<lparr>ca_rooms_by_name := a2\<rparr>) = subscription_inv c"
  "subscription_inv (c\<lparr>ca_users := a3\<rparr>) = subscription_inv c"
  "subscription_inv (c\<lparr>ca_users_by_username := a4\<rparr>) = subscription_inv c"
  "subscription_inv (c\<lparr>ca_messages := a6\<rparr>) = subscription_inv c"
  "subscription_inv (c\<lparr>ca_room_messages := a7\<rparr>) = subscription_inv c"
  "subscription_inv (c\<lparr>ca_current_user := a8\<rparr>) = subscription_inv c"
  "subscription_inv (c\<lparr>ca_user_order := a9\<rparr>) = subscription_inv c"
  by (simp_all add: subscription_inv_def)

lemma current_inv_frame [simp]:
  "current_inv (c\<lparr>ca_rooms := a1\<rparr>) = current_inv c" "current_inv (c\<lparr>ca_rooms_by_name := a2\<rparr>) = current_inv c"
  "current_inv (c\<lparr>ca_users := a3\<rparr>) = current_inv c" "current_inv (c\<lparr>ca_users_by_username := a4\<rparr>) = current_inv c"
  "current_inv (c\<lparr>ca_subscriptions := a5\<rparr>) = current_inv c" "current_inv (c\<lparr>ca_messages := a6\<rparr>) = current_inv c"
  "current_inv (c\<lparr>ca_room_messages := a7\<rparr>) = current_inv c" "current_inv (c\<lparr>ca_user_order := a9\<rparr>) = current_inv c"
  by (simp_all add: current_inv_def)

lemma message_inv_frame [simp]:
  "message_inv (c\<lparr>ca_rooms := a1\<rparr>) = message_inv c" "message_inv (c\<lparr>ca_rooms_by_name := a2\<rparr>) = message_inv c"
  "message_inv (c\<lparr>ca_users := a3\<rparr>) = message_inv c" "message_inv (c\<lparr>ca_users_by_username := a4\<rparr>) = message_inv c"
  "message_inv (c\<lparr>ca_subscriptions := a5\<rparr>) = message_inv c" "message_inv (c\<lparr>ca_current_user := a8\<rparr>) = message_inv c"
  "message_inv (c\<lparr>ca_user_order := a9\<rparr>) = message_inv c"
  by (simp_all add: message_inv_def stores_messages_def)

lemma cache_inv_new: "config_ok cfg \<Longrightarrow> cache_inv (from_config cfg)"
  by (simp add: cache_inv_def from_config_def room_inv_def user_inv_def subscription_inv_def current_inv_def
      message_inv_def user_queue_def split: option.split)

end
