(* ===== verification/Cache_Steps.thy ===== *)
theory Cache_Steps
  imports Cache_Index
begin

text \<open>
  Every operation of the cache keeps its invariant.  The two loops come first: the eviction of a
  room's oldest messages, with its termination, and that of the oldest users.
\<close>

section \<open>The loops\<close>

lemma evict_loop_returns:
  "while_option (over_capacity capacity) pop_back (ring, evicted)
     = Some (take capacity ring, evicted @ rev (drop capacity ring))"
proof (induction ring arbitrary: evicted rule: rev_induct)
  case Nil
  then show ?case by (subst while_option_unfold) (simp add: over_capacity_def)
next
  case (snoc x xs)
  show ?case
    by (subst while_option_unfold) (simp add: over_capacity_def pop_back_def snoc)
qed

lemma evict_loop_eq: "evict_loop capacity ring = (take capacity ring, rev (drop capacity ring))"
  by (simp add: evict_loop_def while_def evict_loop_returns)

lemma pop_oldest_split:
  "pop_oldest n i order = (order', evicted) \<Longrightarrow>
     order = evicted @ order' \<and> i \<notin> set evicted \<and> length evicted \<le> n
     \<and> (length evicted = n \<or> order' = [] \<or> hd order' = i)"
proof (induction n i order arbitrary: order' evicted rule: pop_oldest.induct)
  case (3 n i oldest order)
  then show ?case by (cases "pop_oldest n i order") (auto split: if_splits)
qed auto

section \<open>Rooms, subscriptions, the current user\<close>

lemma store_room_eq:
  assumes "wants c ROOM"
  obtains d where "room_id d = room_id r" "mode = StReplace \<Longrightarrow> d = r"
    "store_room T r mode c = (fmlookup (ca_rooms c) (room_id r),
       c\<lparr>ca_rooms := fmupd (room_id r) d (ca_rooms c),
         ca_rooms_by_name := reindex (ca_rooms_by_name c)
           (Option.bind (fmlookup (ca_rooms c) (room_id r)) room_name) (room_name d) (room_id r)\<rparr>)"
proof -
  obtain d where d: "upsert (merge_rooms T) (ca_rooms c) (room_id r) r mode room_name
      = (fmlookup (ca_rooms c) (room_id r), room_name d, fmupd (room_id r) d (ca_rooms c))"
    "room_id d = room_id r" "mode = StReplace \<Longrightarrow> d = r"
    using upsertE [of room_id "merge_rooms T" "ca_rooms c" "room_id r" r mode room_name, OF merge_rooms_id]
    by blast
  show ?thesis by (rule that [of d]) (use d assms in \<open>simp_all add: store_room_def Let_def\<close>)
qed

lemma store_room_inv: "cache_inv c \<Longrightarrow> cache_inv (snd (store_room T r mode c))"
proof (cases "wants c ROOM")
  case True
  assume inv: "cache_inv c"
  obtain d where d: "room_id d = room_id r" and s: "store_room T r mode c =
      (fmlookup (ca_rooms c) (room_id r),
       c\<lparr>ca_rooms := fmupd (room_id r) d (ca_rooms c),
         ca_rooms_by_name := reindex (ca_rooms_by_name c)
           (Option.bind (fmlookup (ca_rooms c) (room_id r)) room_name) (room_name d) (room_id r)\<rparr>)"
    using store_room_eq [OF True] by metis
  have r: "index_sound room_name (ca_rooms c) (ca_rooms_by_name c)" "keyed room_id (ca_rooms c)"
    using inv by (simp_all add: cache_inv_def room_inv_def)
  have "room_inv (snd (store_room T r mode c))"
    using index_sound_put [OF r(1), of "room_id r" d] keyed_upd [OF r(2) d] True
    by (simp add: s room_inv_def)
  with inv show ?thesis by (simp add: s cache_inv_def)
qed (simp add: store_room_def)

lemma store_subscription_inv: "cache_inv c \<Longrightarrow> cache_inv (snd (store_subscription T x mode c))"
proof (cases "wants c SUBSCRIPTION")
  case True
  assume inv: "cache_inv c"
  obtain d where d: "upsert (merge_subscriptions T) (ca_subscriptions c) (sub_rid x) x mode (\<lambda>_. ())
      = (fmlookup (ca_subscriptions c) (sub_rid x), (), fmupd (sub_rid x) d (ca_subscriptions c))"
    "sub_rid d = sub_rid x"
    using upsertE [of sub_rid "merge_subscriptions T" "ca_subscriptions c" "sub_rid x" x mode "\<lambda>_. ()",
      OF merge_subscriptions_rid] by blast
  have s: "store_subscription T x mode c = (fmlookup (ca_subscriptions c) (sub_rid x),
      c\<lparr>ca_subscriptions := fmupd (sub_rid x) d (ca_subscriptions c)\<rparr>)"
    using True by (simp add: store_subscription_def d(1))
  have "keyed sub_rid (fmupd (sub_rid x) d (ca_subscriptions c))"
    using inv d(2) by (intro keyed_upd) (simp_all add: cache_inv_def subscription_inv_def)
  then have "subscription_inv (snd (store_subscription T x mode c))"
    using True by (simp add: s subscription_inv_def)
  with inv show ?thesis by (simp add: s cache_inv_def)
qed (simp add: store_subscription_def)

lemma remove_subscription_inv: "cache_inv c \<Longrightarrow> cache_inv (snd (remove_subscription i c))"
  by (auto simp: remove_subscription_def fmpop_def cache_inv_def subscription_inv_def keyed_drop)

lemma refresh_current_user_inv: "cache_inv c \<Longrightarrow> cache_inv (refresh_current_user T u mode c)"
  by (auto simp: refresh_current_user_def cache_inv_def current_inv_def split: option.splits)

section \<open>Users\<close>

lemma drop_user_eq:
  "drop_user i c = (fmlookup (ca_users c) i,
     c\<lparr>ca_users := fmdrop i (ca_users c),
       ca_users_by_username := unindex (ca_users_by_username c)
         (Option.bind (fmlookup (ca_users c) i) usr_username) i\<rparr>)"
  by (simp add: drop_user_def fmpop_def)

text \<open>The part of the user invariant that the queue is not in.\<close>

definition user_docs_inv :: "cache \<Rightarrow> bool" where
  "user_docs_inv c \<longleftrightarrow> index_sound usr_username (ca_users c) (ca_users_by_username c) \<and> keyed usr_id (ca_users c)
     \<and> (wants c USER \<or> ca_users c = fmempty)"

lemma user_inv_split: "user_inv c \<longleftrightarrow> user_docs_inv c
     \<and> user_queue (cc_user_cache_size (ca_config c)) (ca_users c) (ca_user_order c)"
  by (auto simp: user_inv_def user_docs_inv_def)

lemma user_docs_inv_frame [simp]: "user_docs_inv (c\<lparr>ca_user_order := a\<rparr>) = user_docs_inv c"
  by (simp add: user_docs_inv_def)

lemma drop_user_docs: "user_docs_inv c \<Longrightarrow> user_docs_inv (snd (drop_user i c))"
  by (auto simp: user_docs_inv_def drop_user_eq index_sound_drop keyed_drop)

text \<open>What the operations on users leave alone.\<close>

definition same_but_users :: "cache \<Rightarrow> cache \<Rightarrow> bool" where
  "same_but_users c c' \<longleftrightarrow> ca_config c' = ca_config c \<and> ca_rooms c' = ca_rooms c
     \<and> ca_rooms_by_name c' = ca_rooms_by_name c \<and> ca_subscriptions c' = ca_subscriptions c
     \<and> ca_messages c' = ca_messages c \<and> ca_room_messages c' = ca_room_messages c
     \<and> ca_current_user c' = ca_current_user c"

lemma same_but_users_inv:
  assumes "same_but_users c c'" "cache_inv c" "user_inv c'"
  shows "cache_inv c'"
  using assms
  by (simp add: same_but_users_def cache_inv_def room_inv_def subscription_inv_def current_inv_def message_inv_def
      stores_messages_def wants_def)

lemma same_but_users_trans: "same_but_users a b \<Longrightarrow> same_but_users b c \<Longrightarrow> same_but_users a c"
  by (simp add: same_but_users_def)

lemma drop_user_same: "same_but_users c (snd (drop_user i c))"
  by (simp add: drop_user_eq same_but_users_def)

lemma drop_user_order [simp]: "ca_user_order (snd (drop_user i c)) = ca_user_order c"
  by (simp add: drop_user_eq)

lemma fold_drop_user:
  "user_docs_inv c \<Longrightarrow> user_docs_inv (fold (\<lambda>v s. snd (drop_user v s)) vs c)
     \<and> same_but_users c (fold (\<lambda>v s. snd (drop_user v s)) vs c)
     \<and> ca_user_order (fold (\<lambda>v s. snd (drop_user v s)) vs c) = ca_user_order c
     \<and> ca_users (fold (\<lambda>v s. snd (drop_user v s)) vs c) = fold fmdrop vs (ca_users c)"
proof (induction vs arbitrary: c)
  case (Cons v vs)
  have "ca_users (snd (drop_user v c)) = fmdrop v (ca_users c)" by (simp add: drop_user_eq)
  with Cons.IH [OF drop_user_docs [OF Cons.prems, of v]] show ?case
    using same_but_users_trans [OF drop_user_same [of c v]] by simp
qed (simp add: same_but_users_def)

text \<open>The eviction queue turns: its oldest entry leaves with its user, the new one comes last.\<close>

lemma queue_rotates:
  assumes "distinct (v # vs)" "set (v # vs) = fmdom' users0" "fmlen users0 \<le> k" "i \<notin> set (v # vs)" "fmlookup users0 i = None"
  shows "user_queue (Some k) (fmdrop v (fmupd i u users0)) (vs @ [i])"
proof -
  have vi: "v \<noteq> i" using assms(4) by auto
  have vin: "fmlookup users0 v \<noteq> None" using assms(2) by (metis fmdom'_notI list.set_intros(1))
  have "fmdom' (fmdrop v (fmupd i u users0)) = insert i (fmdom' users0 - {v})"
    using vi by (auto simp: fmdom'_drop)
  moreover have "distinct (vs @ [i])" "set (vs @ [i]) = insert i (fmdom' users0 - {v})"
    using assms(1,4) assms(2) [symmetric] by auto
  moreover have "fmlen (fmdrop v (fmupd i u users0)) \<le> k"
    using assms(3,5) vi vin by (auto simp: fmlen_drop fmlen_upd)
  ultimately show ?thesis by (simp only: user_queue_def option.case)
qed

lemma note_new_user_inv:
  assumes docs: "user_docs_inv c" and cfg: "config_ok (ca_config c)"
    and new: "fmlookup users0 i = None" "ca_users c = fmupd i u users0"
    and queue: "user_queue (cc_user_cache_size (ca_config c)) users0 (ca_user_order c)"
  shows "user_inv (note_new_user i c) \<and> same_but_users c (note_new_user i c)"
proof (cases "cc_user_cache_size (ca_config c)")
  case None
  then show ?thesis
    using docs queue by (simp add: note_new_user_def user_inv_split user_queue_def same_but_users_def)
next
  case (Some k)
  then have k: "0 < k" using cfg by (auto simp: config_ok_def)
  have q: "distinct (ca_user_order c)" "set (ca_user_order c) = fmdom' users0" "fmlen users0 \<le> k"
    using queue Some by (simp_all add: user_queue_def)
  have fresh: "i \<notin> set (ca_user_order c)" using q(2) new(1) by (simp add: fmdom'_notI)
  have len: "length (ca_user_order c) = fmlen users0"
    using distinct_card [OF q(1)] q(2) by (simp add: fmlen_def fcard.rep_eq fmdom'_alt_def)
  have over: "fmlen (ca_users c) - k = (if fmlen users0 = k then 1 else 0)"
    using q(3) new by (auto simp: fmlen_upd)
  show ?thesis
  proof (cases "fmlen users0 = k")
    case False
    then have "note_new_user i c = c\<lparr>ca_user_order := ca_user_order c @ [i]\<rparr>"
      using Some over by (simp add: note_new_user_def)
    then show ?thesis
      using Some docs q fresh False new
      by (auto simp: user_inv_split user_queue_def same_but_users_def fmlen_upd)
  next
    case True
    then obtain v vs where v: "ca_user_order c = v # vs"
      using len k by (cases "ca_user_order c") auto
    have vi: "v \<noteq> i" using fresh v by auto
    have pop: "pop_oldest (Suc 0) i ((v # vs) @ [i]) = (vs @ [i], [v])" using vi by simp
    let ?c = "c\<lparr>ca_user_order := vs @ [i]\<rparr>"
    have n: "note_new_user i c = snd (drop_user v ?c)"
      using Some over True pop v by (simp add: note_new_user_def)
    have users: "ca_users (snd (drop_user v ?c)) = fmdrop v (fmupd i u users0)"
      using new by (simp add: drop_user_eq)
    have "user_docs_inv (snd (drop_user v ?c))" using docs by (intro drop_user_docs) simp
    moreover have "user_queue (Some k) (fmdrop v (fmupd i u users0)) (vs @ [i])"
      using queue_rotates [of v vs users0 k i u] q fresh new(1) by (simp add: v)
    moreover have "same_but_users c (snd (drop_user v ?c))"
      using drop_user_same [of ?c v] by (simp add: same_but_users_def)
    ultimately show ?thesis
      using Some users by (simp add: n user_inv_split same_but_users_def)
  qed
qed

lemma store_user_inv: "cache_inv c \<Longrightarrow> cache_inv (snd (store_user T u mode c))"
proof (cases "wants c USER")
  case True
  assume inv: "cache_inv c"
  let ?i = "usr_id u"
  obtain d where d: "upsert (merge_users T) (ca_users c) ?i u mode usr_username
      = (fmlookup (ca_users c) ?i, usr_username d, fmupd ?i d (ca_users c))" "usr_id d = ?i"
    using upsertE [of usr_id "merge_users T" "ca_users c" ?i u mode usr_username, OF merge_users_id] by blast
  let ?c = "c\<lparr>ca_users := fmupd ?i d (ca_users c), ca_users_by_username :=
    reindex (ca_users_by_username c) (Option.bind (fmlookup (ca_users c) ?i) usr_username) (usr_username d) ?i\<rparr>"
  have u: "index_sound usr_username (ca_users c) (ca_users_by_username c)" "keyed usr_id (ca_users c)"
    using inv by (simp_all add: cache_inv_def user_inv_def)
  have docs: "user_docs_inv ?c"
    using index_sound_put [OF u(1), of ?i d] keyed_upd [OF u(2) d(2)] True by (simp add: user_docs_inv_def)
  have same: "same_but_users c ?c" by (simp add: same_but_users_def)
  show ?thesis
  proof (cases "fmlookup (ca_users c) ?i")
    case None
    have "user_inv (note_new_user ?i ?c) \<and> same_but_users ?c (note_new_user ?i ?c)"
      by (rule note_new_user_inv [OF docs _ None])
        (use inv in \<open>simp_all add: cache_inv_def user_inv_split\<close>)
    then show ?thesis
      using None True d same_but_users_inv [OF same_but_users_trans [OF same] inv]
      by (simp add: store_user_def Let_def)
  next
    case (Some old)
    have "fmdom' (fmupd ?i d (ca_users c)) = fmdom' (ca_users c)"
      using fmdom'I [OF Some] by (simp add: insert_absorb)
    moreover have "fmlen (fmupd ?i d (ca_users c)) = fmlen (ca_users c)" by (simp add: fmlen_upd Some)
    ultimately have "user_queue k (fmupd ?i d (ca_users c)) order = user_queue k (ca_users c) order" for k order
      by (cases k) (simp_all add: user_queue_def)
    moreover have "user_queue (cc_user_cache_size (ca_config c)) (ca_users c) (ca_user_order c)"
      using inv by (simp add: cache_inv_def user_inv_def)
    ultimately have "user_queue (cc_user_cache_size (ca_config c)) (fmupd ?i d (ca_users c)) (ca_user_order c)"
      by simp
    with docs have "user_inv ?c" by (simp add: user_inv_split)
    then show ?thesis
      using Some True d same_but_users_inv [OF same inv] by (simp add: store_user_def Let_def)
  qed
qed (simp add: store_user_def)

lemma remove_user_inv: "cache_inv c \<Longrightarrow> cache_inv (snd (remove_user i c))"
proof -
  assume inv: "cache_inv c"
  let ?c = "snd (remove_user i c)"
  have "user_docs_inv (snd (drop_user i c))"
    using inv by (intro drop_user_docs) (simp add: cache_inv_def user_inv_split)
  then have "user_docs_inv ?c"
    by (cases "drop_user i c") (simp add: remove_user_def)
  moreover have "ca_config ?c = ca_config c" "ca_users ?c = fmdrop i (ca_users c)"
    by (simp_all add: remove_user_def drop_user_eq)
  moreover have "user_queue (cc_user_cache_size (ca_config c)) (fmdrop i (ca_users c)) (ca_user_order ?c)"
    using inv
    by (auto simp: remove_user_def drop_user_eq cache_inv_def user_inv_split user_queue_def fmlen_drop fmdom'_drop
        fmdom'_notI split: option.splits)
  ultimately have "user_inv ?c" by (simp add: user_inv_split)
  moreover have "same_but_users c ?c" by (simp add: remove_user_def drop_user_eq same_but_users_def)
  ultimately show ?thesis using same_but_users_inv inv by blast
qed

lemma set_current_user_inv: "cache_inv c \<Longrightarrow> cache_inv (set_current_user T u c)"
proof -
  assume "cache_inv c"
  then have "cache_inv (if wants c CURRENT_USER then c\<lparr>ca_current_user := Some u\<rparr> else c)"
    by (auto simp: cache_inv_def current_inv_def)
  then show ?thesis by (simp add: set_current_user_def store_user_inv Let_def)
qed

section \<open>Messages\<close>

lemma link_message_eq:
  "link_message r i c =
     (let n = cc_message_cache_size (ca_config c); ring = i # room_message_ids c r
      in c\<lparr>ca_room_messages := fmupd r (take n ring) (ca_room_messages c),
           ca_messages := fold fmdrop (rev (drop n ring)) (ca_messages c)\<rparr>)"
  by (simp add: link_message_def evict_loop_eq Let_def)

text \<open>The message invariant, but for one id that a ring need not hold yet.\<close>

definition message_inv_but :: "str option \<Rightarrow> cache \<Rightarrow> bool" where
  "message_inv_but x c \<longleftrightarrow> keyed msg_id (ca_messages c) \<and> stores_messages c
     \<and> (\<forall>i m. fmlookup (ca_messages c) i = Some m \<longrightarrow> x = Some i \<or>
          (\<exists>r ring. fmlookup (ca_room_messages c) r = Some ring \<and> i \<in> set ring))
     \<and> (\<forall>r ring. fmlookup (ca_room_messages c) r = Some ring \<longrightarrow>
          ring \<noteq> [] \<and> length ring \<le> cc_message_cache_size (ca_config c))"

lemma message_inv_None: "stores_messages c \<Longrightarrow> message_inv_but None c = message_inv c"
  by (simp add: message_inv_but_def message_inv_def)

lemma keyed_fold_drop: "keyed key docs \<Longrightarrow> keyed key (fold fmdrop ids docs)"
  by (simp add: keyed_def fmlookup_fold_drop)

lemma link_message_inv: "message_inv_but (Some i) c \<Longrightarrow> message_inv (link_message r i c)"
proof -
  assume inv: "message_inv_but (Some i) c"
  let ?n = "cc_message_cache_size (ca_config c)"
  let ?ring = "i # room_message_ids c r"
  let ?c = "link_message r i c"
  have st: "stores_messages c" and n: "0 < ?n"
    using inv by (auto simp: message_inv_but_def stores_messages_def)
  have rings: "ca_room_messages ?c = fmupd r (take ?n ?ring) (ca_room_messages c)"
    and msgs: "fmlookup (ca_messages ?c) j = (if j \<in> set (drop ?n ?ring) then None else fmlookup (ca_messages c) j)"
    and cfg: "ca_config ?c = ca_config c" for j
    by (simp_all add: link_message_eq Let_def fmlookup_fold_drop)
  have "\<exists>s ring. fmlookup (ca_room_messages ?c) s = Some ring \<and> j \<in> set ring"
    if j: "fmlookup (ca_messages ?c) j = Some m" for j m
  proof (cases "j \<in> set (take ?n ?ring)")
    case True
    then show ?thesis using rings by (intro exI [of _ r] exI [of _ "take ?n ?ring"]) simp
  next
    case False
    have notin: "j \<notin> set ?ring"
    proof -
      have "j \<notin> set (drop ?n ?ring)" using j msgs [of j] by (auto split: if_splits)
      with False show ?thesis by (metis append_take_drop_id set_append UnE)
    qed
    have "fmlookup (ca_messages c) j = Some m" using j msgs [of j] by (auto split: if_splits)
    then have "Some i = Some j \<or> (\<exists>s ring. fmlookup (ca_room_messages c) s = Some ring \<and> j \<in> set ring)"
      using inv unfolding message_inv_but_def by blast
    moreover have "i \<noteq> j" using notin by auto
    ultimately obtain s ring where s: "fmlookup (ca_room_messages c) s = Some ring" "j \<in> set ring"
      by (metis option.inject)
    then have "s \<noteq> r" using notin by (auto simp: room_message_ids_def)
    with s show ?thesis using rings by (intro exI [of _ s] exI [of _ ring]) simp
  qed
  moreover have "ring \<noteq> [] \<and> length ring \<le> ?n" if "fmlookup (ca_room_messages ?c) s = Some ring" for s ring
    using that inv n rings by (auto simp: message_inv_but_def split: if_splits)
  moreover have "keyed msg_id (ca_messages ?c)"
    using inv by (simp add: link_message_eq Let_def message_inv_but_def keyed_fold_drop)
  moreover have "stores_messages ?c"
    using st by (simp add: stores_messages_def wants_def cfg)
  ultimately show ?thesis using cfg by (simp add: message_inv_def)
qed

lemma unlink_message_inv:
  assumes "message_inv_but None c" "fmlookup (ca_messages c) i = None"
  shows "message_inv (unlink_message r i c)"
proof (cases "fmlookup (ca_room_messages c) r")
  case None
  then show ?thesis using assms(1) by (simp add: unlink_message_def message_inv_but_def message_inv_def)
next
  case (Some old)
  let ?c = "unlink_message r i c"
  have rings: "fmlookup (ca_room_messages ?c) s = (if s \<noteq> r then fmlookup (ca_room_messages c) s
      else if filter (\<lambda>j. j \<noteq> i) old = [] then None else Some (filter (\<lambda>j. j \<noteq> i) old))" for s
    using Some by (simp add: unlink_message_def Let_def)
  have same: "ca_messages ?c = ca_messages c" "ca_config ?c = ca_config c"
    using Some by (simp_all add: unlink_message_def Let_def)
  have "\<exists>s ring. fmlookup (ca_room_messages ?c) s = Some ring \<and> j \<in> set ring"
    if j: "fmlookup (ca_messages c) j = Some m" for j m
  proof -
    from j assms(1) obtain s ring where s: "fmlookup (ca_room_messages c) s = Some ring" "j \<in> set ring"
      unfolding message_inv_but_def by blast
    from j assms(2) have "j \<noteq> i" by auto
    show ?thesis
    proof (cases "s = r")
      case True
      with s Some \<open>j \<noteq> i\<close> have "j \<in> set (filter (\<lambda>j. j \<noteq> i) old)" by simp
      moreover from this have "filter (\<lambda>j. j \<noteq> i) old \<noteq> []" by (metis empty_iff empty_set)
      ultimately show ?thesis
        using rings [of r] by (intro exI [of _ r] exI [of _ "filter (\<lambda>j. j \<noteq> i) old"]) simp
    next
      case False
      with s show ?thesis using rings [of s] by (intro exI [of _ s] exI [of _ ring]) simp
    qed
  qed
  moreover have "ring \<noteq> [] \<and> length ring \<le> cc_message_cache_size (ca_config c)"
    if "fmlookup (ca_room_messages ?c) s = Some ring" for s ring
  proof (cases "s = r")
    case True
    have "length old \<le> cc_message_cache_size (ca_config c)"
      using assms(1) Some unfolding message_inv_but_def by blast
    then have "length (filter (\<lambda>j. j \<noteq> i) old) \<le> cc_message_cache_size (ca_config c)"
      using length_filter_le le_trans by blast
    with True that show ?thesis by (auto simp: rings split: if_splits)
  next
    case False
    with that rings [of s] assms(1) show ?thesis unfolding message_inv_but_def by simp
  qed
  moreover have "stores_messages ?c" "keyed msg_id (ca_messages ?c)"
    using assms(1) same by (simp_all add: message_inv_but_def stores_messages_def wants_def)
  ultimately show ?thesis using same by (simp add: message_inv_def)
qed

text \<open>What the operations on messages leave alone.\<close>

definition same_but_messages :: "cache \<Rightarrow> cache \<Rightarrow> bool" where
  "same_but_messages c c' \<longleftrightarrow> ca_config c' = ca_config c \<and> ca_rooms c' = ca_rooms c
     \<and> ca_rooms_by_name c' = ca_rooms_by_name c \<and> ca_users c' = ca_users c
     \<and> ca_users_by_username c' = ca_users_by_username c \<and> ca_user_order c' = ca_user_order c
     \<and> ca_subscriptions c' = ca_subscriptions c \<and> ca_current_user c' = ca_current_user c"

lemma same_but_messages_inv:
  assumes "same_but_messages c c'" "cache_inv c" "message_inv c'"
  shows "cache_inv c'"
  using assms
  by (simp add: same_but_messages_def cache_inv_def room_inv_def user_inv_def subscription_inv_def current_inv_def
      wants_def)

lemma unlink_message_same: "same_but_messages c (unlink_message r i c)"
  by (simp add: unlink_message_def same_but_messages_def Let_def split: option.splits)

lemma link_message_same: "same_but_messages c (link_message r i c)"
  by (simp add: link_message_eq same_but_messages_def Let_def)

lemma same_but_messages_upd: "same_but_messages (c\<lparr>ca_messages := m\<rparr>) c' = same_but_messages c c'"
  by (simp add: same_but_messages_def)

lemma message_inv_dropped:
  assumes "message_inv c" "stores_messages c"
  shows "message_inv_but None (c\<lparr>ca_messages := fmdrop i (ca_messages c)\<rparr>)"
proof -
  let ?c = "c\<lparr>ca_messages := fmdrop i (ca_messages c)\<rparr>"
  have "message_inv_but None c" using assms by (simp add: message_inv_None)
  then show ?thesis
    by (simp add: message_inv_but_def stores_messages_def keyed_drop)
qed

lemma remove_message_in_inv: "cache_inv c \<Longrightarrow> cache_inv (snd (remove_message_in r i c))"
proof -
  assume inv: "cache_inv c"
  let ?c = "c\<lparr>ca_messages := fmdrop i (ca_messages c)\<rparr>"
  have eq: "snd (remove_message_in r i c) = unlink_message r i ?c"
    by (simp add: remove_message_in_def fmpop_def)
  have same: "same_but_messages c (unlink_message r i ?c)"
    using unlink_message_same [of ?c r i] by (simp only: same_but_messages_upd)
  have "message_inv (unlink_message r i ?c)"
  proof (cases "stores_messages c")
    case True
    then have "message_inv_but None ?c" using inv by (intro message_inv_dropped) (simp_all add: cache_inv_def)
    then show ?thesis by (rule unlink_message_inv) simp
  next
    case False
    then have "ca_messages c = fmempty" "ca_room_messages c = fmempty"
      using inv by (simp_all add: cache_inv_def message_inv_def)
    then show ?thesis using inv by (simp add: unlink_message_def cache_inv_def message_inv_def stores_messages_def)
  qed
  then show ?thesis using same_but_messages_inv [OF same inv] eq by simp
qed

lemma remove_message_eq:
  "snd (remove_message i c) = (case fmlookup (ca_messages c) i of
     None \<Rightarrow> c | Some m \<Rightarrow> snd (remove_message_in (msg_rid m) i c))"
  by (simp add: remove_message_def remove_message_in_def fmpop_def fmdrop_idle [OF fmdom_notI] split: option.splits)

lemma remove_message_inv: "cache_inv c \<Longrightarrow> cache_inv (snd (remove_message i c))"
  by (simp add: remove_message_eq remove_message_in_inv split: option.splits)

lemma store_message_eq:
  assumes "stores_messages c" "\<not> (is_deleted_tombstone x \<and> cc_tombstone_policy (ca_config c) = TpEvict)"
  obtains d where "msg_id d = msg_id x" "msg_rid d = msg_rid x"
    "mode = StReplace \<or> is_deleted_tombstone x \<or> fmlookup (ca_messages c) (msg_id x) = None \<Longrightarrow> d = x"
    "store_message T x mode c = (fmlookup (ca_messages c) (msg_id x),
       let c1 = c\<lparr>ca_messages := fmupd (msg_id x) d (ca_messages c)\<rparr>
       in if fmlookup (ca_messages c) (msg_id x) = None then link_message (msg_rid x) (msg_id x) c1 else c1)"
proof -
  let ?mode = "if is_deleted_tombstone x then StReplace else mode"
  obtain d where d: "upsert (merge_messages T) (ca_messages c) (msg_id x) x ?mode (\<lambda>_. ())
      = (fmlookup (ca_messages c) (msg_id x), (), fmupd (msg_id x) d (ca_messages c))"
    "msg_id d = msg_id x \<and> msg_rid d = msg_rid x"
    "fmlookup (ca_messages c) (msg_id x) = None \<or> ?mode = StReplace \<Longrightarrow> d = x"
    using upsertE [of "\<lambda>m. (msg_id m, msg_rid m)" "merge_messages T" "ca_messages c" "msg_id x" x ?mode "\<lambda>_. ()"]
    by auto
  have g: "\<not> (\<not> wants c MESSAGE \<or> cc_message_cache_size (ca_config c) = 0)"
    using assms(1) by (simp add: stores_messages_def)
  show ?thesis
  proof (rule that [of d])
    show "store_message T x mode c = (fmlookup (ca_messages c) (msg_id x),
       let c1 = c\<lparr>ca_messages := fmupd (msg_id x) d (ca_messages c)\<rparr>
       in if fmlookup (ca_messages c) (msg_id x) = None then link_message (msg_rid x) (msg_id x) c1 else c1)"
      unfolding store_message_def Let_def d(1) if_not_P [OF g] if_not_P [OF assms(2)] by simp
  qed (use d in auto)
qed

lemma message_inv_stored:
  assumes inv: "message_inv c" "stores_messages c" and d: "msg_id d = i"
  shows "message_inv_but (if fmlookup (ca_messages c) i = None then Some i else None)
     (c\<lparr>ca_messages := fmupd i d (ca_messages c)\<rparr>)"
proof -
  let ?c = "c\<lparr>ca_messages := fmupd i d (ca_messages c)\<rparr>"
  have but: "message_inv_but None c" using inv by (simp add: message_inv_None)
  have "keyed msg_id (ca_messages ?c)" using inv(1) d by (simp add: message_inv_def keyed_upd)
  moreover have "stores_messages ?c" using inv(2) by (simp add: stores_messages_def)
  moreover have "(if fmlookup (ca_messages c) i = None then Some i else None) = Some j
      \<or> (\<exists>r ring. fmlookup (ca_room_messages c) r = Some ring \<and> j \<in> set ring)"
    if "fmlookup (ca_messages ?c) j = Some m" for j m
  proof (cases "fmlookup (ca_messages c) j")
    case None
    with that have "j = i" by (simp split: if_splits)
    with None show ?thesis by simp
  next
    case (Some m')
    then show ?thesis using but unfolding message_inv_but_def by blast
  qed
  ultimately show ?thesis using but unfolding message_inv_but_def by simp
qed

lemma store_message_inv: "cache_inv c \<Longrightarrow> cache_inv (snd (store_message T x mode c))"
proof (cases "stores_messages c")
  case False
  assume "cache_inv c"
  then show ?thesis using False by (simp add: store_message_def stores_messages_def)
next
  case st: True
  assume inv: "cache_inv c"
  show ?thesis
  proof (cases "is_deleted_tombstone x \<and> cc_tombstone_policy (ca_config c) = TpEvict")
    case True
    then show ?thesis
      using st inv by (simp add: store_message_def stores_messages_def remove_message_in_inv)
  next
    case False
    obtain d where d: "msg_id d = msg_id x" and s: "store_message T x mode c =
        (fmlookup (ca_messages c) (msg_id x),
         let c1 = c\<lparr>ca_messages := fmupd (msg_id x) d (ca_messages c)\<rparr>
         in if fmlookup (ca_messages c) (msg_id x) = None then link_message (msg_rid x) (msg_id x) c1 else c1)"
      using store_message_eq [OF st False] by metis
    let ?c = "c\<lparr>ca_messages := fmupd (msg_id x) d (ca_messages c)\<rparr>"
    have but: "message_inv_but (if fmlookup (ca_messages c) (msg_id x) = None then Some (msg_id x) else None) ?c"
      using inv st d by (intro message_inv_stored) (simp_all add: cache_inv_def)
    show ?thesis
    proof (cases "fmlookup (ca_messages c) (msg_id x)")
      case None
      have "message_inv (link_message (msg_rid x) (msg_id x) ?c)"
        using but None by (intro link_message_inv) simp
      moreover have "same_but_messages c (link_message (msg_rid x) (msg_id x) ?c)"
        using link_message_same [of ?c] by (simp only: same_but_messages_upd)
      ultimately show ?thesis using same_but_messages_inv inv None by (simp add: s Let_def)
    next
      case (Some old)
      have "message_inv ?c" using but Some st message_inv_None [of ?c] by (simp add: stores_messages_def)
      then show ?thesis
        using same_but_messages_inv [of c ?c] inv Some by (simp add: s Let_def same_but_messages_def)
    qed
  qed
qed

lemma remove_room_inv: "cache_inv c \<Longrightarrow> cache_inv (snd (remove_room i c))"
proof -
  assume inv: "cache_inv c"
  let ?c = "snd (remove_room i c)"
  let ?ids = "room_message_ids c i"
  have eq: "?c = c\<lparr>ca_rooms := fmdrop i (ca_rooms c),
      ca_rooms_by_name := unindex (ca_rooms_by_name c) (Option.bind (fmlookup (ca_rooms c) i) room_name) i,
      ca_subscriptions := fmdrop i (ca_subscriptions c),
      ca_room_messages := fmdrop i (ca_room_messages c),
      ca_messages := fold fmdrop ?ids (ca_messages c)\<rparr>"
    by (simp add: remove_room_def fmpop_def Let_def room_message_ids_def split: option.splits)
  have r: "index_sound room_name (ca_rooms c) (ca_rooms_by_name c)" "keyed room_id (ca_rooms c)"
    using inv by (simp_all add: cache_inv_def room_inv_def)
  have "room_inv ?c"
    using index_sound_drop [OF r(1)] keyed_drop [OF r(2)] inv unfolding eq
    by (auto simp: room_inv_def cache_inv_def)
  moreover have "subscription_inv ?c"
    using inv unfolding eq by (auto simp: subscription_inv_def cache_inv_def keyed_drop)
  moreover have "message_inv ?c"
  proof -
    have m: "message_inv c" using inv by (simp add: cache_inv_def)
    have "\<exists>r ring. fmlookup (ca_room_messages ?c) r = Some ring \<and> j \<in> set ring"
      if "fmlookup (ca_messages ?c) j = Some msg" for j msg
    proof -
      have j: "j \<notin> set ?ids" "fmlookup (ca_messages c) j = Some msg"
        using that unfolding eq by (simp_all add: fmlookup_fold_drop split: if_splits)
      then obtain r ring where r: "fmlookup (ca_room_messages c) r = Some ring" "j \<in> set ring"
        using m unfolding message_inv_def by blast
      with j(1) have "r \<noteq> i" by (auto simp: room_message_ids_def)
      with r show ?thesis unfolding eq by (intro exI [of _ r] exI [of _ ring]) simp
    qed
    moreover have "keyed msg_id (ca_messages ?c)"
      using m unfolding eq by (simp add: message_inv_def keyed_fold_drop)
    moreover have "stores_messages ?c \<or> ca_messages ?c = fmempty \<and> ca_room_messages ?c = fmempty"
      using m unfolding eq
      by (auto simp: message_inv_def stores_messages_def room_message_ids_def)
    moreover have "ring \<noteq> [] \<and> length ring \<le> cc_message_cache_size (ca_config ?c)"
      if "fmlookup (ca_room_messages ?c) r = Some ring" for r ring
      using that m unfolding eq message_inv_def by (auto split: if_splits)
    ultimately show ?thesis unfolding message_inv_def by blast
  qed
  moreover have "user_inv ?c" "current_inv ?c" "config_ok (ca_config ?c)"
    using inv unfolding eq by (simp_all add: cache_inv_def)
  ultimately show ?thesis by (simp add: cache_inv_def)
qed

section \<open>Every operation\<close>

lemma clear_inv: "cache_inv c \<Longrightarrow> cache_inv (clear c)"
  by (simp add: clear_def cache_inv_def) (metis cache_inv_def cache_inv_new)

lemma cache_step_inv: "cache_inv c \<Longrightarrow> cache_inv (cache_step T x c)"
  by (cases x)
    (simp_all add: cache_steps case_prod_unfold Let_def store_room_inv store_user_inv store_subscription_inv
      store_message_inv refresh_current_user_inv remove_room_inv remove_user_inv set_current_user_inv
      [unfolded set_current_user_def Let_def] remove_subscription_inv remove_message_inv remove_message_in_inv clear_inv)

text \<open>The configuration never changes.\<close>

lemma drop_users_config: "ca_config (fold (\<lambda>v s. snd (drop_user v s)) vs c) = ca_config c"
  by (induction vs arbitrary: c) (simp_all add: drop_user_eq)

lemma store_config [simp]:
  "ca_config (snd (store_room T r mode c)) = ca_config c"
  "ca_config (snd (store_user T u mode c)) = ca_config c"
  "ca_config (snd (store_subscription T s mode c)) = ca_config c"
  "ca_config (refresh_current_user T u mode c) = ca_config c"
  "ca_config (unlink_message rid i c) = ca_config c"
  "ca_config (link_message rid i c) = ca_config c"
  by (simp_all add: store_room_def store_user_def note_new_user_def drop_users_config store_subscription_def
      refresh_current_user_def unlink_message_def link_message_eq case_prod_unfold Let_def split: option.splits)

lemma remove_config [simp]:
  "ca_config (snd (remove_message_in rid i c)) = ca_config c"
  "ca_config (snd (remove_message i c)) = ca_config c"
  "ca_config (snd (store_message T m mode c)) = ca_config c"
  by (simp_all add: remove_message_in_def remove_message_def store_message_def case_prod_unfold Let_def
      split: option.splits)

lemma cache_step_config [simp]: "ca_config (cache_step T x c) = ca_config c"
  by (cases x)
    (simp_all add: cache_steps remove_room_def remove_user_def remove_subscription_def drop_user_eq clear_def
      from_config_def fmpop_def case_prod_unfold Let_def)

interpretation cache_life: op_invariant "cache_step T" cache_inv for T
  by unfold_locales (rule cache_step_inv)

lemma cache_run_inv: "config_ok cfg \<Longrightarrow> cache_inv (fold (cache_step T) xs (from_config cfg))"
  by (rule cache_life.run_inv) (rule cache_inv_new)

end
