(* ===== verification/Cache_Laws.thy ===== *)
theory Cache_Laws
  imports Cache_Steps
begin

text \<open>
  What the cache promises its callers, from its invariant: the indexes never lie, nothing of an
  unwanted kind is stored, the users and the rings stay within their capacities, every cached
  message can be evicted, and deletions are honoured.  With payloads that keep each message in its
  room (\<open>same_room\<close>) the ring of a room is exactly its cached messages.
\<close>

section \<open>Documents and their names\<close>

lemma index_found:
  assumes "index_sound name docs index" "keyed key docs" "fmlookup index n = Some i"
  shows "\<exists>d. fmlookup docs i = Some d \<and> key d = i \<and> name d = Some n"
  using assms unfolding index_sound_def keyed_def by blast

lemma index_of_none: "index_sound name fmempty index \<Longrightarrow> fmlookup index n = None"
  by (cases "fmlookup index n") (auto simp: index_sound_def)

text \<open>C31: The name indexes never lie: after any operations, an id found under a room name or a username is the id of
  a cached document, stored under its own id, that bears that name now.\<close>

lemma indexes_never_lie:
  assumes "config_ok cfg"
  shows "let c = fold (cache_step T) xs (from_config cfg) in
    (room_id_by_name c n = Some i \<longrightarrow> (\<exists>r. room_by_name c n = Some r \<and> room_id r = i \<and> room_name r = Some n))
    \<and> (user_id_by_username c n = Some i \<longrightarrow> (\<exists>u. user_by_username c n = Some u \<and> usr_id u = i \<and> usr_username u = Some n))"
proof -
  let ?c = "fold (cache_step T) xs (from_config cfg)"
  have "room_inv ?c" "user_inv ?c" using cache_run_inv [OF assms] by (simp_all add: cache_inv_def)
  then have r: "index_sound room_name (ca_rooms ?c) (ca_rooms_by_name ?c)" "keyed room_id (ca_rooms ?c)"
    and u: "index_sound usr_username (ca_users ?c) (ca_users_by_username ?c)" "keyed usr_id (ca_users ?c)"
    by (simp_all add: room_inv_def user_inv_def)
  show ?thesis
    using index_found [OF r] index_found [OF u]
    by (simp add: Let_def room_id_by_name_def room_by_name_def room_lookup_def user_id_by_username_def
        user_by_username_def user_lookup_def)
qed

section \<open>What is not wanted\<close>

text \<open>A cleared flag is a guarantee: a cache configured without a kind holds nothing of that kind after any
  operations, neither documents nor index entries nor rings, and no message is held when the ring capacity is zero.\<close>

lemma unwanted_never_stored:
  assumes "config_ok cfg"
  shows "let c = fold (cache_step T) xs (from_config cfg) in
    (\<not> wants c ROOM \<longrightarrow> ca_rooms c = fmempty \<and> room_id_by_name c n = None)
    \<and> (\<not> wants c USER \<longrightarrow> ca_users c = fmempty \<and> user_id_by_username c n = None)
    \<and> (\<not> wants c SUBSCRIPTION \<longrightarrow> ca_subscriptions c = fmempty)
    \<and> (\<not> wants c CURRENT_USER \<longrightarrow> ca_current_user c = None)
    \<and> (\<not> wants c MESSAGE \<or> cc_message_cache_size (ca_config c) = 0 \<longrightarrow>
         ca_messages c = fmempty \<and> ca_room_messages c = fmempty)"
proof -
  let ?c = "fold (cache_step T) xs (from_config cfg)"
  have inv: "cache_inv ?c" using cache_run_inv [OF assms] .
  then have r: "room_inv ?c" and u: "user_inv ?c" and s: "subscription_inv ?c" and cu: "current_inv ?c"
    and m: "message_inv ?c" by (simp_all add: cache_inv_def)
  have "\<not> wants ?c ROOM \<longrightarrow> ca_rooms ?c = fmempty \<and> room_id_by_name ?c n = None"
    using r index_of_none [of room_name "ca_rooms_by_name ?c" n] by (auto simp: room_inv_def room_id_by_name_def)
  moreover have "\<not> wants ?c USER \<longrightarrow> ca_users ?c = fmempty \<and> user_id_by_username ?c n = None"
    using u index_of_none [of usr_username "ca_users_by_username ?c" n]
    by (auto simp: user_inv_def user_id_by_username_def)
  moreover have "\<not> wants ?c SUBSCRIPTION \<longrightarrow> ca_subscriptions ?c = fmempty"
    using s unfolding subscription_inv_def by blast
  moreover have "\<not> wants ?c CURRENT_USER \<longrightarrow> ca_current_user ?c = None"
    using cu unfolding current_inv_def by blast
  moreover have "\<not> wants ?c MESSAGE \<or> cc_message_cache_size (ca_config ?c) = 0 \<longrightarrow>
      ca_messages ?c = fmempty \<and> ca_room_messages ?c = fmempty"
    using m unfolding message_inv_def stores_messages_def by blast
  ultimately show ?thesis unfolding Let_def by blast
qed

section \<open>Bounds\<close>

text \<open>C36: The users never exceed their capacity: with a capacity configured, after any operations the eviction queue
  lists exactly the cached users, each once, and there are at most as many as the capacity.\<close>

lemma users_bounded:
  assumes "config_ok cfg" "cc_user_cache_size (ca_config (fold (cache_step T) xs (from_config cfg))) = Some k"
  shows "let c = fold (cache_step T) xs (from_config cfg) in
    cs_users (stats c) \<le> k \<and> length (ca_user_order c) = cs_users (stats c)
    \<and> distinct (ca_user_order c) \<and> set (ca_user_order c) = fset (user_ids c)"
proof -
  let ?c = "fold (cache_step T) xs (from_config cfg)"
  have "user_inv ?c" using cache_run_inv [OF assms(1)] by (simp add: cache_inv_def)
  then have q: "distinct (ca_user_order ?c)" "set (ca_user_order ?c) = fmdom' (ca_users ?c)" "fmlen (ca_users ?c) \<le> k"
    using assms(2) by (simp_all add: user_inv_def user_queue_def)
  then show ?thesis
    using distinct_card [OF q(1)]
    by (simp add: Let_def stats_def user_ids_def fmlen_def fcard.rep_eq fmdom'_alt_def)
qed

text \<open>Eviction from a ring ends: the loop that pops messages off the back of a ring returns, with the newest ones up
  to the capacity in the ring and the others, oldest first, to be dropped.\<close>

lemma eviction_ends:
  "while_option (over_capacity capacity) pop_back (ring, []) = Some (evict_loop capacity ring)
   \<and> evict_loop capacity ring = (take capacity ring, rev (drop capacity ring))"
  by (simp add: evict_loop_returns evict_loop_eq)

section \<open>Messages\<close>

text \<open>No message leaks: after any operations, whatever ids the payloads carry, every cached message is listed in
  the ring of some room, so that some eviction can reach it, no ring is empty and none exceeds the capacity.\<close>

lemma messages_evictable:
  assumes "config_ok cfg"
  shows "let c = fold (cache_step T) xs (from_config cfg) in
    (message_lookup c i \<noteq> None \<longrightarrow> (\<exists>r. i \<in> set (room_message_ids c r)))
    \<and> length (room_message_ids c r) \<le> cc_message_cache_size (ca_config c)
    \<and> fmlookup (ca_room_messages c) r \<noteq> Some []"
proof -
  let ?c = "fold (cache_step T) xs (from_config cfg)"
  have inv: "message_inv ?c" using cache_run_inv [OF assms] by (simp add: cache_inv_def)
  have "\<exists>r. i \<in> set (room_message_ids ?c r)" if "message_lookup ?c i \<noteq> None"
  proof -
    from that obtain m where "fmlookup (ca_messages ?c) i = Some m" by (auto simp: message_lookup_def)
    then obtain r ring where "fmlookup (ca_room_messages ?c) r = Some ring" "i \<in> set ring"
      using inv unfolding message_inv_def by blast
    then show ?thesis by (intro exI [of _ r]) (simp add: room_message_ids_def)
  qed
  moreover have "length (room_message_ids ?c r) \<le> cc_message_cache_size (ca_config ?c)"
    using inv by (cases "fmlookup (ca_room_messages ?c) r") (auto simp: room_message_ids_def message_inv_def)
  moreover have "fmlookup (ca_room_messages ?c) r \<noteq> Some []" using inv unfolding message_inv_def by blast
  ultimately show ?thesis by (simp add: Let_def)
qed

text \<open>C32: A deletion is honoured: a tombstone of a cached message either takes its place whole, in whatever mode it
  arrives, so that nothing of the deleted body survives a merge, or removes it from the cache and from its room's ring,
  as the policy says.\<close>

lemma tombstone_honoured:
  assumes "stores_messages c" "is_deleted_tombstone x" "message_lookup c (msg_id x) = Some old"
  shows "let c' = snd (store_message T x mode c) in
    (cc_tombstone_policy (ca_config c) = TpReplace \<longrightarrow>
       message_lookup c' (msg_id x) = Some x \<and> ca_room_messages c' = ca_room_messages c)
    \<and> (cc_tombstone_policy (ca_config c) = TpEvict \<longrightarrow>
       message_lookup c' (msg_id x) = None \<and> msg_id x \<notin> set (room_message_ids c' (msg_rid x)))"
proof (cases "cc_tombstone_policy (ca_config c)")
  case TpReplace
  then have "\<not> (is_deleted_tombstone x \<and> cc_tombstone_policy (ca_config c) = TpEvict)" by simp
  then obtain d where d: "d = x" and s: "store_message T x mode c = (fmlookup (ca_messages c) (msg_id x),
       let c1 = c\<lparr>ca_messages := fmupd (msg_id x) d (ca_messages c)\<rparr>
       in if fmlookup (ca_messages c) (msg_id x) = None then link_message (msg_rid x) (msg_id x) c1 else c1)"
    using store_message_eq [OF assms(1), of x mode T] assms(2) by metis
  have "snd (store_message T x mode c) = c\<lparr>ca_messages := fmupd (msg_id x) x (ca_messages c)\<rparr>"
    using assms(3) d by (simp add: s message_lookup_def)
  then show ?thesis using TpReplace by (simp add: message_lookup_def)
next
  case TpEvict
  then have "snd (store_message T x mode c) = snd (remove_message_in (msg_rid x) (msg_id x) c)"
    using assms by (simp add: store_message_def stores_messages_def)
  then show ?thesis
    using TpEvict
    by (simp add: Let_def remove_message_in_def fmpop_def unlink_message_def message_lookup_def room_message_ids_def
        split: option.splits)
qed

section \<open>Rings of rooms whose messages stay\<close>

text \<open>What the server does: a message stays in its room, and a deletion names that room.\<close>

definition keeps_room :: "message \<Rightarrow> cache \<Rightarrow> bool" where
  "keeps_room x c \<longleftrightarrow> (case fmlookup (ca_messages c) (msg_id x) of Some m \<Rightarrow> msg_rid m = msg_rid x | None \<Rightarrow> True)"

primrec same_room :: "cache_op \<Rightarrow> cache \<Rightarrow> bool" where
  "same_room (CoUpdateRoom r) c = True"
| "same_room (CoUpdateUser u) c = True"
| "same_room (CoUpdateSubscription s) c = True"
| "same_room (CoUpdateMessage m) c = keeps_room m c"
| "same_room (CoReplaceRoom r) c = True"
| "same_room (CoMergeRoom r) c = True"
| "same_room (CoRemoveRoom i) c = True"
| "same_room (CoReplaceUser u) c = True"
| "same_room (CoRemoveUser i) c = True"
| "same_room (CoSetCurrentUser u) c = True"
| "same_room (CoReplaceSubscription s) c = True"
| "same_room (CoRemoveSubscription i) c = True"
| "same_room (CoReplaceMessage m) c = keeps_room m c"
| "same_room (CoMergeMessage m) c = keeps_room m c"
| "same_room (CoRemoveMessage i) c = True"
| "same_room (CoRemoveMessageIn r i) c = (case fmlookup (ca_messages c) i of Some m \<Rightarrow> msg_rid m = r | None \<Rightarrow> True)"
| "same_room CoClear c = True"

definition in_room :: "cache \<Rightarrow> str \<Rightarrow> str set" where
  "in_room c r = {i. \<exists>m. fmlookup (ca_messages c) i = Some m \<and> msg_rid m = r}"

definition rings_ok :: "cache \<Rightarrow> bool" where
  "rings_ok c \<longleftrightarrow> (\<forall>r. distinct (room_message_ids c r) \<and> set (room_message_ids c r) = in_room c r)"

lemma rings_ok_same:
  "rings_ok c \<Longrightarrow> ca_messages c' = ca_messages c \<Longrightarrow> ca_room_messages c' = ca_room_messages c \<Longrightarrow> rings_ok c'"
  by (simp add: rings_ok_def in_room_def room_message_ids_def)

lemma in_room_drop: "in_room (c\<lparr>ca_messages := fmdrop i (ca_messages c)\<rparr>) r = in_room c r - {i}"
  by (auto simp: in_room_def)

lemma unlink_ids: "room_message_ids (unlink_message r i c) s =
    (if s = r then filter (\<lambda>j. j \<noteq> i) (room_message_ids c s) else room_message_ids c s)"
  by (auto simp: unlink_message_def room_message_ids_def Let_def split: option.splits)

lemma unlink_in_room: "in_room (unlink_message r i c) = in_room c"
  by (rule ext) (simp add: unlink_message_def in_room_def Let_def split: option.splits)

lemma remove_message_in_rings:
  assumes "rings_ok c" "\<And>m. fmlookup (ca_messages c) i = Some m \<Longrightarrow> msg_rid m = r"
  shows "rings_ok (snd (remove_message_in r i c))"
proof -
  let ?c = "c\<lparr>ca_messages := fmdrop i (ca_messages c)\<rparr>"
  have ids: "room_message_ids ?c s = room_message_ids c s" for s by (simp add: room_message_ids_def)
  have other: "i \<notin> in_room c s" if "s \<noteq> r" for s using that assms(2) by (auto simp: in_room_def)
  have "rings_ok (unlink_message r i ?c)"
    using assms(1) other
    by (auto simp: rings_ok_def unlink_ids unlink_in_room in_room_drop ids)
  then show ?thesis by (simp add: remove_message_in_def fmpop_def)
qed

lemma link_message_rings:
  assumes ok: "rings_ok c" and new: "fmlookup (ca_messages c) (msg_id d) = None"
  shows "rings_ok (link_message (msg_rid d) (msg_id d) (c\<lparr>ca_messages := fmupd (msg_id d) d (ca_messages c)\<rparr>))"
proof -
  let ?i = "msg_id d" and ?r = "msg_rid d"
  let ?c = "c\<lparr>ca_messages := fmupd ?i d (ca_messages c)\<rparr>"
  let ?n = "cc_message_cache_size (ca_config c)"
  let ?ring = "?i # room_message_ids c ?r"
  let ?c' = "link_message ?r ?i ?c"
  have ids: "room_message_ids ?c' s = (if s = ?r then take ?n ?ring else room_message_ids c s)" for s
    by (simp add: link_message_eq Let_def room_message_ids_def)
  have fresh: "?i \<notin> set (room_message_ids c s)" for s
    using ok new by (auto simp: rings_ok_def in_room_def)
  have dist: "distinct ?ring" using ok fresh by (simp add: rings_ok_def)
  have ring_room: "set ?ring = insert ?i (in_room c ?r)" using ok by (simp add: rings_ok_def)
  have msgs: "fmlookup (ca_messages ?c') j =
      (if j \<in> set (drop ?n ?ring) then None else if j = ?i then Some d else fmlookup (ca_messages c) j)" for j
    by (simp add: link_message_eq Let_def fmlookup_fold_drop room_message_ids_def)
  have rooms: "in_room ?c' s = (if s = ?r then insert ?i (in_room c s) - set (drop ?n ?ring) else in_room c s)" for s
  proof (cases "s = ?r")
    case True
    then show ?thesis by (auto simp: in_room_def msgs)
  next
    case False
    have "j \<notin> set (drop ?n ?ring)" if "j \<in> in_room c s" for j
    proof
      assume "j \<in> set (drop ?n ?ring)"
      then have "j \<in> set ?ring" by (rule in_set_dropD)
      then have "j \<in> insert ?i (in_room c ?r)" by (simp only: ring_room)
      moreover have "j \<noteq> ?i" using that new by (auto simp: in_room_def)
      ultimately show False using that False by (auto simp: in_room_def)
    qed
    then show ?thesis using False new by (auto simp: in_room_def msgs split: if_splits)
  qed
  have "set (take ?n ?ring) = insert ?i (in_room c ?r) - set (drop ?n ?ring)"
  proof -
    have "set (take ?n ?ring) \<inter> set (drop ?n ?ring) = {}" using dist by (rule set_take_disj_set_drop_if_distinct) simp
    moreover have "set (take ?n ?ring) \<union> set (drop ?n ?ring) = set ?ring" by (metis append_take_drop_id set_append)
    ultimately show ?thesis using ring_room by blast
  qed
  moreover have "distinct (take ?n ?ring)" using dist by (rule distinct_take)
  ultimately show ?thesis using ok by (simp add: rings_ok_def ids rooms)
qed

lemma store_message_rings:
  assumes "rings_ok c" "keeps_room x c"
  shows "rings_ok (snd (store_message T x mode c))"
proof (cases "stores_messages c")
  case False
  then show ?thesis using assms(1) by (simp add: store_message_def stores_messages_def)
next
  case st: True
  show ?thesis
  proof (cases "is_deleted_tombstone x \<and> cc_tombstone_policy (ca_config c) = TpEvict")
    case True
    then have "snd (store_message T x mode c) = snd (remove_message_in (msg_rid x) (msg_id x) c)"
      using st by (simp add: store_message_def stores_messages_def)
    moreover have "rings_ok (snd (remove_message_in (msg_rid x) (msg_id x) c))"
      using assms by (intro remove_message_in_rings) (simp_all add: keeps_room_def)
    ultimately show ?thesis by simp
  next
    case False
    obtain d where d: "msg_id d = msg_id x" "msg_rid d = msg_rid x" and s: "store_message T x mode c =
        (fmlookup (ca_messages c) (msg_id x),
         let c1 = c\<lparr>ca_messages := fmupd (msg_id x) d (ca_messages c)\<rparr>
         in if fmlookup (ca_messages c) (msg_id x) = None then link_message (msg_rid x) (msg_id x) c1 else c1)"
      using store_message_eq [OF st False] by metis
    show ?thesis
    proof (cases "fmlookup (ca_messages c) (msg_id x)")
      case None
      with d have "fmlookup (ca_messages c) (msg_id d) = None" by simp
      from link_message_rings [OF assms(1) this] show ?thesis by (simp add: s None d Let_def)
    next
      case (Some old)
      with assms(2) have "msg_rid old = msg_rid x" by (simp add: keeps_room_def)
      then have "in_room (c\<lparr>ca_messages := fmupd (msg_id x) d (ca_messages c)\<rparr>) = in_room c"
        using Some d by (auto simp: in_room_def fun_eq_iff)
      then show ?thesis
        using assms(1) Some by (simp add: s Let_def rings_ok_def room_message_ids_def)
    qed
  qed
qed

lemma remove_room_rings:
  assumes "rings_ok c"
  shows "rings_ok (snd (remove_room i c))"
proof -
  have ids: "room_message_ids (snd (remove_room i c)) s = (if s = i then [] else room_message_ids c s)" for s
    by (simp add: remove_room_def fmpop_def Let_def room_message_ids_def)
  have "fmlookup (ca_messages (snd (remove_room i c))) j =
      (if j \<in> set (room_message_ids c i) then None else fmlookup (ca_messages c) j)" for j
    by (simp add: remove_room_def fmpop_def Let_def room_message_ids_def fmlookup_fold_drop split: option.splits)
  moreover have "set (room_message_ids c i) = in_room c i" using assms by (simp add: rings_ok_def)
  ultimately have "in_room (snd (remove_room i c)) s = (if s = i then {} else in_room c s)" for s
    by (auto simp: in_room_def)
  with assms ids show ?thesis by (simp add: rings_ok_def)
qed

text \<open>The other operations leave messages and rings alone.\<close>

lemma fold_drop_user_messages:
  "ca_messages (fold (\<lambda>v s. snd (drop_user v s)) vs c) = ca_messages c
   \<and> ca_room_messages (fold (\<lambda>v s. snd (drop_user v s)) vs c) = ca_room_messages c"
  by (induction vs arbitrary: c) (simp_all add: drop_user_eq)

lemma store_user_messages [simp]:
  "ca_messages (snd (store_user T u mode c)) = ca_messages c"
  "ca_room_messages (snd (store_user T u mode c)) = ca_room_messages c"
  by (simp_all add: store_user_def note_new_user_def Let_def case_prod_unfold fold_drop_user_messages split: option.splits)

lemma other_messages [simp]:
  "ca_messages (snd (store_room T r mode c)) = ca_messages c"
  "ca_room_messages (snd (store_room T r mode c)) = ca_room_messages c"
  "ca_messages (snd (store_subscription T x mode c)) = ca_messages c"
  "ca_room_messages (snd (store_subscription T x mode c)) = ca_room_messages c"
  "ca_messages (snd (remove_subscription i c)) = ca_messages c"
  "ca_room_messages (snd (remove_subscription i c)) = ca_room_messages c"
  "ca_messages (snd (remove_user i c)) = ca_messages c"
  "ca_room_messages (snd (remove_user i c)) = ca_room_messages c"
  "ca_messages (refresh_current_user T u mode c) = ca_messages c"
  "ca_room_messages (refresh_current_user T u mode c) = ca_room_messages c"
  by (simp_all add: store_room_def store_subscription_def remove_subscription_def remove_user_def drop_user_eq
      refresh_current_user_def Let_def case_prod_unfold split: option.splits)

lemma rings_step:
  assumes ok: "rings_ok c" and same: "same_room x c"
  shows "rings_ok (cache_step T x c)"
proof (cases x)
  case (CoUpdateMessage m)
  then show ?thesis using assms by (simp add: update_message_def store_message_rings)
next
  case (CoReplaceMessage m)
  then show ?thesis using assms by (simp add: replace_message_def store_message_rings)
next
  case (CoMergeMessage m)
  then show ?thesis using assms by (simp add: merge_message_def store_message_rings)
next
  case (CoRemoveRoom i)
  then show ?thesis using ok by (simp add: remove_room_rings)
next
  case (CoRemoveMessage i)
  show ?thesis
  proof (cases "fmlookup (ca_messages c) i")
    case None
    then show ?thesis using ok by (simp add: CoRemoveMessage remove_message_eq)
  next
    case (Some m)
    have "rings_ok (snd (remove_message_in (msg_rid m) i c))"
      by (rule remove_message_in_rings [OF ok]) (simp add: Some)
    then show ?thesis by (simp add: CoRemoveMessage remove_message_eq Some)
  qed
next
  case (CoRemoveMessageIn r i)
  have "rings_ok (snd (remove_message_in r i c))"
    using assms by (intro remove_message_in_rings) (simp_all add: CoRemoveMessageIn)
  then show ?thesis by (simp add: CoRemoveMessageIn)
next
  case CoClear
  then show ?thesis by (simp add: rings_ok_def in_room_def room_message_ids_def clear_def from_config_def)
qed (auto intro!: rings_ok_same [OF ok] simp: cache_steps case_prod_unfold Let_def)

interpretation cache_rings: guarded_invariant "cache_step T" same_room rings_ok for T
  by unfold_locales (rule rings_step)

text \<open>C23: A room's ring is its cached messages: as long as payloads keep each message in its room and deletions name
  that room, after any operations the ring of a room lists exactly the cached messages of that room, each once, at most
  as many as the capacity.\<close>

lemma ring_is_room:
  assumes "config_ok cfg" "guarded (cache_step T) same_room xs (from_config cfg)"
  shows "let c = fold (cache_step T) xs (from_config cfg) in
    distinct (room_message_ids c r) \<and> length (room_message_ids c r) \<le> cc_message_cache_size (ca_config c)
    \<and> set (room_message_ids c r) = {i. \<exists>m. message_lookup c i = Some m \<and> msg_rid m = r}"
proof -
  let ?c = "fold (cache_step T) xs (from_config cfg)"
  have "rings_ok (from_config cfg)" by (simp add: rings_ok_def in_room_def room_message_ids_def from_config_def)
  then have "rings_ok ?c" using assms(2) by (rule cache_rings.guarded_run)
  moreover have "message_inv ?c" using cache_run_inv [OF assms(1)] by (simp add: cache_inv_def)
  then have "length (room_message_ids ?c r) \<le> cc_message_cache_size (ca_config ?c)"
    by (cases "fmlookup (ca_room_messages ?c) r") (auto simp: room_message_ids_def message_inv_def)
  ultimately show ?thesis by (simp add: Let_def rings_ok_def in_room_def message_lookup_def)
qed

end
