(* ===== verification/Model_Laws.thy ===== *)
theory Model_Laws
  imports Model_Room Model_Subscription Model_User
begin

text \<open>
  What the typed documents promise as a whole: they are read back from what they write, their
  enums never change a text, and a date is read in any of its forms.
\<close>

text \<open>C37: Documents survive their own encoding: each of the four documents is decoded from the JSON it is encoded to,
  when its dates are whole milliseconds in range, no optional raw member is an explicit \<open>null\<close> and no unknown enum value
  holds a known name, which is what decoding a frame gives.\<close>

lemma documents_roundtrip:
  "(room_ok T r \<longrightarrow> room_of_json T (room_to_json r) = Some r)
   \<and> (message_ok T m \<longrightarrow> message_of_json T (message_to_json m) = Some m)
   \<and> (subscription_ok T s \<longrightarrow> subscription_of_json T (subscription_to_json s) = Some s)
   \<and> (user_ok T u \<longrightarrow> user_of_json T (user_to_json u) = Some u)"
  by (simp add: croom.dec_enc cmsg.dec_enc csub.dec_enc cusr.dec_enc)

text \<open>Enum texts are never changed: whatever text a string enum is decoded from, known or not, is the text it is
  encoded to, and likewise for the byte of a presence code.\<close>

lemma enum_text_kept:
  "message_type_name (message_type_of s) = s \<and> room_type_name (room_type_of s) = s
   \<and> user_status_name (user_status_of s) = s \<and> presence_source_name (presence_source_of s) = s
   \<and> e2e_status_name (e2e_status_of s) = s \<and> mention_type_name (mention_type_of s) = s
   \<and> notification_preference_name (notification_preference_of s) = s
   \<and> preference_origin_name (preference_origin_of s) = s \<and> unread_alert_name (unread_alert_of s) = s
   \<and> subscription_status_name (subscription_status_of s) = s \<and> presence_code (presence_of b) = b"
  by (simp add: message_type_of_def wmt.name_of room_type_of_def wrt.name_of user_status_of_def wus.name_of
      presence_source_of_def wps.name_of e2e_status_of_def wes.name_of mention_type_of_def wmn.name_of
      notification_preference_of_def wnp.name_of preference_origin_of_def wpo.name_of unread_alert_of_def wua.name_of
      subscription_status_of_def wsx.name_of)

text \<open>A date is read in any of its forms: bare milliseconds and any nesting of \<open>$date\<close> wrappers around them give
  the same instant, siblings of \<open>$date\<close> are ignored, and what was read is written back to the same milliseconds.\<close>

lemma dates_in_any_form:
  "ts_visit T ((dated ^^ n) (i64_to_json ms)) = map_option Some (from_unix_millis T ms)
   \<and> (obj_wf m \<and> obj_get m ''$date'' = Some (i64_to_json ms) \<longrightarrow>
        ts_visit T (JObject m) = map_option Some (from_unix_millis T ms))
   \<and> (from_unix_millis T ms = Some t \<longrightarrow>
        ts_to_json t = dated (i64_to_json ms) \<and> ts_of_json T (ts_to_json t) = Some t)"
  using from_unix_millis_whole [of T ms t]
  by (auto simp: dated_transparent ts_visit_i64 visit_i64_def ts_siblings_ignored dated_def ts_to_json_def
      simp del: ts_visit.simps intro: cts.dec_enc [unfolded ts_to_json_def])

end
