(* ===== verification/Model_Samples.thy ===== *)
theory Model_Samples
  imports Model_Laws
begin

text \<open>Documents with nothing but their required members, for the witnesses.\<close>

section \<open>Sample documents\<close>

definition sample_lib :: time_lib where
  "sample_lib = \<lparr>tl_parse = (\<lambda>_. None), tl_in_range = (\<lambda>_. True)\<rparr>"

definition blank_room :: "str \<Rightarrow> room" where
  "blank_room i = \<lparr>
     room_id = i, room_updated_at = Timestamp 0, room_t = RtChannel, room_name = None, room_fname = None,
     room_msgs = None, room_users_count = None, room_u = None, room_uids = None, room_usernames = None,
     room_default = None, room_broadcast = None, room_featured = None, room_topic = None,
     room_description = None, room_announcement = None, room_announcement_details = None,
     room_join_code_required = None, room_encrypted = None, room_e2e_key_id = None,
     room_users_waiting_for_e2e_keys = None, room_ro = None, room_react_when_read_only = None,
     room_sys_mes = None, room_cl = None, room_archived = None, room_muted = None, room_unmuted = None,
     room_last_message = None, room_lm = None, room_ts = None, room_web_rtc_call_start_time = None,
     room_prid = None, room_avatar_etag = None, room_team_main = None, room_team_id = None,
     room_team_default = None, room_open = None, room_unread = None, room_alert = None,
     room_favorite = None, room_hide_unread_status = None, room_hide_mention_status = None,
     room_auto_translate = None, room_auto_translate_language = None, room_retention = None,
     room_abac_attributes = None, room_role_priorities_created = None, room_custom_fields = None,
     room_federated = None, room_federation = None, room_v = None, room_source = None,
     room_served_by = None, room_department_id = None, room_on_hold = None, room_waiting_response = None,
     room_queued_at = None, room_tags = None, room_livechat_data = None, room_metrics = None,
     room_transcript_request = None, room_priority_id = None, room_priority_weight = None,
     room_sla_id = None, room_estimated_waiting_time_queue = None, room_contact_id = None,
     room_verified = None, room_sms = None, room_code = None, room_label = None, room_sentiment = None\<rparr>"

definition blank_user :: "str \<Rightarrow> user" where
  "blank_user i = \<lparr>
     usr_id = i, usr_updated_at = None, usr_created_at = None, usr_username = None, usr_name = None,
     usr_nickname = None, usr_bio = None, usr_roles = None, usr_user_type = None, usr_active = None,
     usr_inactive_reason = None, usr_status = None, usr_status_default = None,
     usr_status_connection = None, usr_status_text = None, usr_status_source = None,
     usr_status_expires_at = None, usr_status_id = None, usr_last_login = None, usr_emails = None,
     usr_avatar_origin = None, usr_avatar_etag = None, usr_avatar_url = None, usr_utc_offset = None,
     usr_language = None, usr_phone = None, usr_reason = None, usr_e2e = None, usr_settings = None,
     usr_custom_fields = None, usr_banners = None, usr_default_room = None, usr_ldap = None,
     usr_require_password_change = None, usr_require_password_change_reason = None,
     usr_room_role_priorities = None, usr_rooms = None, usr_import_ids = None, usr_invite_token = None,
     usr_free_switch_extension = None, usr_can_view_all_info = None, usr_provider_id = None,
     usr_abac_attributes = None, usr_federated = None, usr_federation = None\<rparr>"

definition blank_subscription :: "str \<Rightarrow> subscription" where
  "blank_subscription i = \<lparr>
     sub_id = ''sub'', sub_updated_at = Timestamp 0, sub_rid = i,
     sub_u = \<lparr>ur_id = ''me'', ur_username = None, ur_name = None\<rparr>, sub_t = RtChannel,
     sub_ts = Timestamp 0, sub_name = None, sub_open = True, sub_unread = 0, sub_user_mentions = 0,
     sub_group_mentions = 0, sub_fname = None, sub_alert = None, sub_ls = None, sub_lr = None,
     sub_f = None, sub_hide_unread_status = None, sub_hide_mention_status = None, sub_team_main = None,
     sub_team_id = None, sub_broadcast = None, sub_prid = None, sub_tunread = None,
     sub_tunread_group = None, sub_tunread_user = None, sub_roles = None, sub_on_hold = None,
     sub_encrypted = None, sub_e2e_key = None, sub_e2e_suggested_key = None, sub_old_room_keys = None,
     sub_suggested_old_room_keys = None, sub_unread_alert = None, sub_desktop_notifications = None,
     sub_mobile_push_notifications = None, sub_email_notifications = None,
     sub_desktop_pref_origin = None, sub_mobile_pref_origin = None, sub_email_pref_origin = None,
     sub_audio_notification_value = None, sub_disable_notifications = None,
     sub_mute_group_mentions = None, sub_user_highlights = None, sub_ignored = None, sub_archived = None,
     sub_auto_translate = None, sub_auto_translate_language = None, sub_blocked = None,
     sub_blocker = None, sub_draft = None, sub_thread_drafts = None, sub_status = None,
     sub_inviter = None, sub_v = None, sub_department = None, sub_code = None,
     sub_abac_last_time_checked = None, sub_custom_fields = None\<rparr>"

definition blank_message :: "str \<Rightarrow> message" where
  "blank_message i = \<lparr>
     msg_id = i, msg_updated_at = Timestamp 0, msg_rid = ''GENERAL'', msg_msg = ''hello'',
     msg_ts = Timestamp 0, msg_u = \<lparr>ur_id = ''u1'', ur_username = None, ur_name = None\<rparr>,
     msg_t = None, msg_edited_at = None, msg_edited_by = None, msg_attachments = None,
     msg_mentions = None, msg_channels = None, msg_md = None, msg_blocks = None, msg_urls = None,
     msg_reactions = None, msg_file = None, msg_files = None, msg_tmid = None, msg_tshow = None,
     msg_tcount = None, msg_tlm = None, msg_replies = None, msg_drid = None, msg_dcount = None,
     msg_dlm = None, msg_groupable = None, msg_parse_urls = None, msg_unread = None, msg_pinned = None,
     msg_pinned_at = None, msg_pinned_by = None, msg_starred = None, msg_private = None, msg_temp = None,
     msg_hidden = None, msg_imported = None, msg_e2e = None, msg_alias = None, msg_avatar = None,
     msg_emoji = None, msg_role = None, msg_bot = None, msg_token = None, msg_custom_fields = None\<rparr>"

definition general :: room where
  "general = blank_room ''GENERAL''\<lparr>room_name := Some ''general''\<rparr>"

definition tombstone :: message where
  "tombstone = blank_message ''m1''\<lparr>msg_msg := '''', msg_t := Some MtRm, msg_edited_at := Some (Timestamp 0)\<rparr>"

lemma blank_ids [simp]:
  "room_id (blank_room i) = i" "room_name (blank_room i) = None"
  "usr_id (blank_user i) = i" "usr_username (blank_user i) = None"
  "sub_rid (blank_subscription i) = i" "msg_id (blank_message i) = i" "msg_rid (blank_message i) = ''GENERAL''"
  "msg_t (blank_message i) = None" "msg_edited_at (blank_message i) = None"
  by (simp_all add: blank_room_def blank_user_def blank_subscription_def blank_message_def)

lemma sample_ts [simp]: "ts_ok sample_lib (Timestamp 0)"
  by (simp add: ts_ok_def sample_lib_def)

lemma blank_ok [simp]:
  "room_ok sample_lib (blank_room i)" "user_ok sample_lib (blank_user i)"
  "subscription_ok sample_lib (blank_subscription i)" "message_ok sample_lib (blank_message i)"
  by (simp_all add: room_ok_def blank_room_def user_ok_def blank_user_def subscription_ok_def blank_subscription_def
      message_ok_def blank_message_def user_ref_ok_def room_type_ok_def wire_canon_def wire_of_def room_type_table_def)

lemma general_ok [simp]: "room_ok sample_lib general"
  by (simp add: general_def room_ok_def blank_room_def room_type_ok_def wire_canon_def wire_of_def room_type_table_def)

end
