(* ===== verification/Cache_Witnesses.thy ===== *)
theory Cache_Witnesses
  imports Cache_Laws Model_Samples
begin

text \<open>
  The cache and document properties applied to the sample documents: their hypotheses can be
  met.
\<close>

lemma wants_default [simp]:
  "ca_config c = config_default \<Longrightarrow> wants c ROOM" "ca_config c = config_default \<Longrightarrow> wants c USER"
  "ca_config c = config_default \<Longrightarrow> wants c MESSAGE"
  by (simp_all add: wants_def config_default_def rt_contains_iff)

lemma from_config_simps [simp]:
  "ca_config (from_config cfg) = cfg" "ca_rooms (from_config cfg) = fmempty" "ca_users (from_config cfg) = fmempty"
  "ca_messages (from_config cfg) = fmempty" "ca_room_messages (from_config cfg) = fmempty"
  "ca_rooms_by_name (from_config cfg) = fmempty" "ca_users_by_username (from_config cfg) = fmempty"
  "ca_user_order (from_config cfg) = []"
  by (simp_all add: from_config_def)

section \<open>Documents\<close>

lemma documents_roundtrip_witness:
  "room_of_json sample_lib (room_to_json general) = Some general"
  using documents_roundtrip [of sample_lib general "blank_message ''m1''" "blank_subscription ''GENERAL''" "blank_user ''u1''"]
  by simp

lemma dates_in_any_form_witness:
  "ts_of_json sample_lib (ts_to_json (Timestamp 0)) = Some (Timestamp 0)"
proof -
  have "from_unix_millis sample_lib 0 = Some (Timestamp 0)"
    by (simp add: from_unix_millis_def sample_lib_def)
  then show ?thesis using dates_in_any_form [of sample_lib 0 0 "[]" "Timestamp 0"] by blast
qed


section \<open>The cache\<close>

lemma indexes_never_lie_witness:
  "\<exists>r. room_by_name (fold (cache_step sample_lib) [CoUpdateRoom general] (from_config config_default)) ''general'' = Some r
     \<and> room_name r = Some ''general''"
proof -
  have "room_id_by_name (fold (cache_step sample_lib) [CoUpdateRoom general] (from_config config_default)) ''general''
      = Some ''GENERAL''"
    by (simp add: update_room_def store_room_def upsert_def reindex_def room_id_by_name_def general_def Let_def)
  then show ?thesis
    using indexes_never_lie [of config_default sample_lib "[CoUpdateRoom general]" "''general''" "''GENERAL''"]
    by (auto simp: Let_def)
qed

definition no_rooms :: cache_config where
  "no_rooms = with_resource_types (rt_complement ROOM) config_default"

lemma unwanted_never_stored_witness:
  "ca_rooms (fold (cache_step sample_lib) [CoUpdateRoom general] (from_config no_rooms)) = fmempty"
proof -
  have "\<not> wants (fold (cache_step sample_lib) [CoUpdateRoom general] (from_config no_rooms)) ROOM"
    by (simp add: update_room_def store_room_def wants_def no_rooms_def with_resource_types_def rt_contains_iff Let_def
        case_prod_unfold)
  then show ?thesis
    using unwanted_never_stored [of no_rooms sample_lib "[CoUpdateRoom general]" "''general''"]
    by (simp add: Let_def no_rooms_def)
qed

definition one_user :: cache_config where
  "one_user = with_user_cache_size (Some 1) config_default"

lemma users_bounded_witness:
  "cs_users (stats (fold (cache_step sample_lib)
     [CoUpdateUser (blank_user ''u1''), CoUpdateUser (blank_user ''u2'')] (from_config one_user))) \<le> 1"
proof -
  let ?ops = "[CoUpdateUser (blank_user ''u1''), CoUpdateUser (blank_user ''u2'')]"
  let ?c = "fold (cache_step sample_lib) ?ops (from_config one_user)"
  have cfg: "ca_config (cache_step sample_lib x c) = ca_config c" for x c
    by (rule cache_step_config)
  have "cc_user_cache_size (ca_config ?c) = Some 1"
    by (simp add: cfg one_user_def with_user_cache_size_def non_zero_def del: cache_step.simps)
  moreover have "config_ok one_user" by (simp add: one_user_def)
  ultimately show ?thesis using users_bounded [of one_user sample_lib ?ops 1] by (simp add: Let_def)
qed

lemma messages_evictable_witness:
  "\<exists>r. ''m1'' \<in> set (room_message_ids
     (fold (cache_step sample_lib) [CoUpdateMessage (blank_message ''m1'')] (from_config config_default)) r)"
proof -
  have "message_lookup (fold (cache_step sample_lib) [CoUpdateMessage (blank_message ''m1'')] (from_config config_default))
      ''m1'' \<noteq> None"
    by (simp add: update_message_def store_message_def is_deleted_tombstone_def is_edited_def upsert_def link_message_eq
        message_lookup_def room_message_ids_def Let_def)
      (simp add: config_default_def DEFAULT_MESSAGE_CACHE_SIZE_def fmlookup_fold_drop)
  then show ?thesis
    using messages_evictable [of config_default sample_lib "[CoUpdateMessage (blank_message ''m1'')]" "''m1''" "''r''"]
    by (simp add: Let_def)
qed

definition one_message :: cache where
  "one_message = (from_config config_default)\<lparr>ca_messages := fmupd ''m1'' (blank_message ''m1'') fmempty,
     ca_room_messages := fmupd ''GENERAL'' [''m1''] fmempty\<rparr>"

lemma tombstone_honoured_witness:
  "message_lookup (snd (store_message sample_lib tombstone StMerge one_message)) ''m1'' = Some tombstone"
proof -
  have "stores_messages one_message"
    by (simp add: stores_messages_def one_message_def)
      (simp add: config_default_def DEFAULT_MESSAGE_CACHE_SIZE_def)
  moreover have "is_deleted_tombstone tombstone" "msg_id tombstone = ''m1''"
    by (simp_all add: is_deleted_tombstone_def is_edited_def tombstone_def)
  moreover have "message_lookup one_message ''m1'' = Some (blank_message ''m1'')"
    by (simp add: message_lookup_def one_message_def)
  moreover have "cc_tombstone_policy (ca_config one_message) = TpReplace"
    by (simp add: one_message_def) (simp add: config_default_def)
  ultimately show ?thesis
    using tombstone_honoured [of one_message tombstone "blank_message ''m1''" sample_lib StMerge] by (simp add: Let_def)
qed

lemma ring_is_room_witness:
  "set (room_message_ids (fold (cache_step sample_lib)
      [CoUpdateMessage (blank_message ''m1''), CoRemoveMessage ''m1''] (from_config config_default)) ''GENERAL'')
   = {i. \<exists>m. message_lookup (fold (cache_step sample_lib)
        [CoUpdateMessage (blank_message ''m1''), CoRemoveMessage ''m1''] (from_config config_default)) i = Some m
        \<and> msg_rid m = ''GENERAL''}"
proof -
  have "guarded (cache_step sample_lib) same_room
      [CoUpdateMessage (blank_message ''m1''), CoRemoveMessage ''m1''] (from_config config_default)"
    by (simp add: keeps_room_def)
  with config_ok_built(1) show ?thesis by (rule ring_is_room [unfolded Let_def, THEN conjunct2, THEN conjunct2])
qed

end
