(* ===== verification/Bot_Filter.thy ===== *)
theory Bot_Filter
  imports Model_Message
begin

text \<open>
  The declarative filters of a handler, \<open>rocketsocket/src/filter.rs\<close>.  The flags say what to
  allow, so the default, all of them off, blocks everything dangerous.  \<open>local_verdict\<close> settles
  what needs no network access; the role requirement is settled in \<open>Bot_Roles\<close>.

  The lemmas give the exact condition under which a message passes.
\<close>

section \<open>Filters\<close>

datatype authority = AuAnyone | AuAdmin | AuRoomAdmin | AuAdminOrRoomAdmin

record filters =
  fl_allow_self :: bool
  fl_allow_system :: bool
  fl_allow_edits :: bool
  fl_allow_bots :: bool
  fl_prefix :: "str option"
  fl_room :: "str option"
  fl_mentions_me :: bool
  fl_authority :: authority

datatype filtered =
    FdOwnEvent
  | FdSystemMessage
  | FdEdit
  | FdBot
  | FdPrefix
  | FdRoom
  | FdNotMentioned
  | FdAuthority

definition FILTERS_DEFAULT :: filters where
  "FILTERS_DEFAULT = \<lparr>fl_allow_self = False, fl_allow_system = False, fl_allow_edits = False,
     fl_allow_bots = False, fl_prefix = None, fl_room = None, fl_mentions_me = False,
     fl_authority = AuAnyone\<rparr>"

definition allow_self :: "bool \<Rightarrow> filters \<Rightarrow> filters" where
  "allow_self yes f = f\<lparr>fl_allow_self := yes\<rparr>"

definition allow_system :: "bool \<Rightarrow> filters \<Rightarrow> filters" where
  "allow_system yes f = f\<lparr>fl_allow_system := yes\<rparr>"

definition allow_edits :: "bool \<Rightarrow> filters \<Rightarrow> filters" where
  "allow_edits yes f = f\<lparr>fl_allow_edits := yes\<rparr>"

definition allow_bots :: "bool \<Rightarrow> filters \<Rightarrow> filters" where
  "allow_bots yes f = f\<lparr>fl_allow_bots := yes\<rparr>"

definition with_prefix :: "str option \<Rightarrow> filters \<Rightarrow> filters" where
  "with_prefix p f = f\<lparr>fl_prefix := p\<rparr>"

definition with_room :: "str option \<Rightarrow> filters \<Rightarrow> filters" where
  "with_room r f = f\<lparr>fl_room := r\<rparr>"

definition with_mentions_me :: "bool \<Rightarrow> filters \<Rightarrow> filters" where
  "with_mentions_me yes f = f\<lparr>fl_mentions_me := yes\<rparr>"

definition with_authority :: "authority \<Rightarrow> filters \<Rightarrow> filters" where
  "with_authority a f = f\<lparr>fl_authority := a\<rparr>"

section \<open>The verdict that needs no server\<close>

text \<open>Only an explicit mention of the bot's id counts.\<close>

definition mentioned :: "message \<Rightarrow> str option \<Rightarrow> bool" where
  "mentioned x me = (case me of
       None \<Rightarrow> False
     | Some i \<Rightarrow> (case msg_mentions x of
           None \<Rightarrow> False
         | Some ms \<Rightarrow> list_ex (\<lambda>m. mm_id m = i) ms))"

definition local_verdict :: "filters \<Rightarrow> message \<Rightarrow> str \<Rightarrow> str option \<Rightarrow> filtered option" where
  "local_verdict f x room me =
     (if \<not> fl_allow_self f \<and> (case me of Some i \<Rightarrow> ur_id (msg_u x) = i | None \<Rightarrow> False) then Some FdOwnEvent
      else if \<not> fl_allow_system f \<and> is_system x then Some FdSystemMessage
      else if \<not> fl_allow_edits f \<and> is_edited x then Some FdEdit
      else if (case fl_prefix f of Some p \<Rightarrow> \<not> starts_with (msg_msg x) p | None \<Rightarrow> False) then Some FdPrefix
      else if (case fl_room f of Some w \<Rightarrow> room \<noteq> w | None \<Rightarrow> False) then Some FdRoom
      else if fl_mentions_me f \<and> \<not> mentioned x me then Some FdNotMentioned
      else None)"

section \<open>Laws\<close>

lemma mentioned_iff:
  "mentioned x me \<longleftrightarrow> (\<exists>i ms. me = Some i \<and> msg_mentions x = Some ms \<and> i \<in> mm_id ` set ms)"
  by (auto simp: mentioned_def list_ex_iff split: option.split)

definition passes :: "filters \<Rightarrow> message \<Rightarrow> str \<Rightarrow> str option \<Rightarrow> bool" where
  "passes f x room me \<longleftrightarrow>
     (fl_allow_self f \<or> me \<noteq> Some (ur_id (msg_u x)))
     \<and> (fl_allow_system f \<or> \<not> is_system x)
     \<and> (fl_allow_edits f \<or> \<not> is_edited x)
     \<and> (\<forall>p. fl_prefix f = Some p \<longrightarrow> starts_with (msg_msg x) p)
     \<and> (\<forall>w. fl_room f = Some w \<longrightarrow> room = w)
     \<and> (fl_mentions_me f \<longrightarrow> mentioned x me)"

lemma local_verdict_None: "local_verdict f x room me = None \<longleftrightarrow> passes f x room me"
  by (auto simp: local_verdict_def passes_def split: option.splits)

lemma local_verdict_never: "local_verdict f x room me \<noteq> Some FdBot \<and> local_verdict f x room me \<noteq> Some FdAuthority"
  by (simp add: local_verdict_def)

text \<open>What the flags say is not what the others decide: bots are not filtered at all.\<close>

lemma allow_bots_no_op: "local_verdict (allow_bots yes f) x room me = local_verdict f x room me"
  by (simp add: local_verdict_def allow_bots_def)

end
