(* ===== verification/Rest_Roles.thy ===== *)
theory Rest_Roles
  imports Model_Codec
begin

text \<open>
  The answers of the two role endpoints, \<open>rocketsocket-rest/src/roles.rs\<close>: who holds a public
  global role, and who holds a role in a room.  Both envelopes default every member, so what was
  answered counts only when \<open>success\<close> is there and true.
\<close>

section \<open>Holders\<close>

record public_role_holder =
  prh_id :: str
  prh_username :: "str option"
  prh_roles :: "str list"

definition PUBLIC_ROLE_HOLDER_NAMES :: "str list" where
  "PUBLIC_ROLE_HOLDER_NAMES = [
     ''_id'', ''username'', ''roles'']"

definition public_role_holder_fields :: "public_role_holder \<Rightarrow> (str \<times> json option) list" where
  "public_role_holder_fields x = [
     (''_id'', Some (JString (prh_id x))),
     (''username'', map_option JString (prh_username x)),
     (''roles'', Some ((list_to_json JString) (prh_roles x)))]"

definition public_role_holder_to_json :: "public_role_holder \<Rightarrow> json" where
  "public_role_holder_to_json x = struct_to_json (public_role_holder_fields x)"

definition public_role_holder_of_obj :: "obj \<Rightarrow> public_role_holder option" where
  "public_role_holder_of_obj m = do {
     v_id \<leftarrow> req_field as_str m ''_id'';
     v_username \<leftarrow> opt_field as_str m ''username'';
     v_roles \<leftarrow> default_field [] (dec_array as_str) m ''roles'';
     Some \<lparr>
       prh_id = v_id, prh_username = v_username, prh_roles = v_roles\<rparr>
   }"

definition public_role_holder_of_json :: "json \<Rightarrow> public_role_holder option" where
  "public_role_holder_of_json v = Option.bind (struct_obj PUBLIC_ROLE_HOLDER_NAMES v) public_role_holder_of_obj"

definition public_role_holder_ok :: "public_role_holder \<Rightarrow> bool" where
  "public_role_holder_ok x = True"

lemma public_role_holder_names: "map fst (public_role_holder_fields x) = PUBLIC_ROLE_HOLDER_NAMES"
  by (simp add: public_role_holder_fields_def PUBLIC_ROLE_HOLDER_NAMES_def)

lemma public_role_holder_distinct: "distinct PUBLIC_ROLE_HOLDER_NAMES"
  by (simp add: PUBLIC_ROLE_HOLDER_NAMES_def)

lemma public_role_holder_member: "obj_get (obj_of_fields (public_role_holder_fields x)) k = member (public_role_holder_fields x) k"
  by (rule obj_get_fields) (simp only: public_role_holder_names public_role_holder_distinct)

lemma public_role_holder_of_fields:
  assumes ok: "public_role_holder_ok x"
  shows "public_role_holder_of_obj (obj_of_fields (public_role_holder_fields x)) = Some x"
proof -
  obtain fs where fs: "fs = public_role_holder_fields x" by simp
  have g: "obj_get (obj_of_fields (public_role_holder_fields x)) k = member fs k" for k
    by (simp only: fs public_role_holder_member)
  have all: "list_all (\<lambda>(k, v). member fs k = v) (public_role_holder_fields x)"
    unfolding fs by (rule member_all) (simp only: public_role_holder_names public_role_holder_distinct)
  show ?thesis
    unfolding public_role_holder_of_obj_def req_field_def opt_field_read default_field_def g
    using ok all by (simp add: public_role_holder_ok_def public_role_holder_fields_def)
qed

interpretation cprh: codec public_role_holder_to_json public_role_holder_of_json public_role_holder_ok
  by unfold_locales (simp_all add: public_role_holder_to_json_def public_role_holder_of_json_def public_role_holder_of_fields)

record room_role_user =
  rru_id :: str
  rru_username :: "str option"
  rru_name :: "str option"

definition ROOM_ROLE_USER_NAMES :: "str list" where
  "ROOM_ROLE_USER_NAMES = [
     ''_id'', ''username'', ''name'']"

definition room_role_user_fields :: "room_role_user \<Rightarrow> (str \<times> json option) list" where
  "room_role_user_fields x = [
     (''_id'', Some (JString (rru_id x))),
     (''username'', map_option JString (rru_username x)),
     (''name'', map_option JString (rru_name x))]"

definition room_role_user_to_json :: "room_role_user \<Rightarrow> json" where
  "room_role_user_to_json x = struct_to_json (room_role_user_fields x)"

definition room_role_user_of_obj :: "obj \<Rightarrow> room_role_user option" where
  "room_role_user_of_obj m = do {
     v_id \<leftarrow> req_field as_str m ''_id'';
     v_username \<leftarrow> opt_field as_str m ''username'';
     v_name \<leftarrow> opt_field as_str m ''name'';
     Some \<lparr>
       rru_id = v_id, rru_username = v_username, rru_name = v_name\<rparr>
   }"

definition room_role_user_of_json :: "json \<Rightarrow> room_role_user option" where
  "room_role_user_of_json v = Option.bind (struct_obj ROOM_ROLE_USER_NAMES v) room_role_user_of_obj"

definition room_role_user_ok :: "room_role_user \<Rightarrow> bool" where
  "room_role_user_ok x = True"

lemma room_role_user_names: "map fst (room_role_user_fields x) = ROOM_ROLE_USER_NAMES"
  by (simp add: room_role_user_fields_def ROOM_ROLE_USER_NAMES_def)

lemma room_role_user_distinct: "distinct ROOM_ROLE_USER_NAMES"
  by (simp add: ROOM_ROLE_USER_NAMES_def)

lemma room_role_user_member: "obj_get (obj_of_fields (room_role_user_fields x)) k = member (room_role_user_fields x) k"
  by (rule obj_get_fields) (simp only: room_role_user_names room_role_user_distinct)

lemma room_role_user_of_fields:
  assumes ok: "room_role_user_ok x"
  shows "room_role_user_of_obj (obj_of_fields (room_role_user_fields x)) = Some x"
proof -
  obtain fs where fs: "fs = room_role_user_fields x" by simp
  have g: "obj_get (obj_of_fields (room_role_user_fields x)) k = member fs k" for k
    by (simp only: fs room_role_user_member)
  have all: "list_all (\<lambda>(k, v). member fs k = v) (room_role_user_fields x)"
    unfolding fs by (rule member_all) (simp only: room_role_user_names room_role_user_distinct)
  show ?thesis
    unfolding room_role_user_of_obj_def req_field_def opt_field_read default_field_def g
    using ok all by (simp add: room_role_user_ok_def room_role_user_fields_def)
qed

interpretation crru: codec room_role_user_to_json room_role_user_of_json room_role_user_ok
  by unfold_locales (simp_all add: room_role_user_to_json_def room_role_user_of_json_def room_role_user_of_fields)

record room_role_holder =
  rrh_rid :: str
  rrh_u :: room_role_user
  rrh_roles :: "str list"

definition ROOM_ROLE_HOLDER_NAMES :: "str list" where
  "ROOM_ROLE_HOLDER_NAMES = [
     ''rid'', ''u'', ''roles'']"

definition room_role_holder_fields :: "room_role_holder \<Rightarrow> (str \<times> json option) list" where
  "room_role_holder_fields x = [
     (''rid'', Some (JString (rrh_rid x))),
     (''u'', Some (room_role_user_to_json (rrh_u x))),
     (''roles'', Some ((list_to_json JString) (rrh_roles x)))]"

definition room_role_holder_to_json :: "room_role_holder \<Rightarrow> json" where
  "room_role_holder_to_json x = struct_to_json (room_role_holder_fields x)"

definition room_role_holder_of_obj :: "obj \<Rightarrow> room_role_holder option" where
  "room_role_holder_of_obj m = do {
     v_rid \<leftarrow> req_field as_str m ''rid'';
     v_u \<leftarrow> req_field room_role_user_of_json m ''u'';
     v_roles \<leftarrow> default_field [] (dec_array as_str) m ''roles'';
     Some \<lparr>
       rrh_rid = v_rid, rrh_u = v_u, rrh_roles = v_roles\<rparr>
   }"

definition room_role_holder_of_json :: "json \<Rightarrow> room_role_holder option" where
  "room_role_holder_of_json v = Option.bind (struct_obj ROOM_ROLE_HOLDER_NAMES v) room_role_holder_of_obj"

definition room_role_holder_ok :: "room_role_holder \<Rightarrow> bool" where
  "room_role_holder_ok x = (room_role_user_ok (rrh_u x))"

lemma room_role_holder_names: "map fst (room_role_holder_fields x) = ROOM_ROLE_HOLDER_NAMES"
  by (simp add: room_role_holder_fields_def ROOM_ROLE_HOLDER_NAMES_def)

lemma room_role_holder_distinct: "distinct ROOM_ROLE_HOLDER_NAMES"
  by (simp add: ROOM_ROLE_HOLDER_NAMES_def)

lemma room_role_holder_member: "obj_get (obj_of_fields (room_role_holder_fields x)) k = member (room_role_holder_fields x) k"
  by (rule obj_get_fields) (simp only: room_role_holder_names room_role_holder_distinct)

lemma room_role_holder_of_fields:
  assumes ok: "room_role_holder_ok x"
  shows "room_role_holder_of_obj (obj_of_fields (room_role_holder_fields x)) = Some x"
proof -
  obtain fs where fs: "fs = room_role_holder_fields x" by simp
  have g: "obj_get (obj_of_fields (room_role_holder_fields x)) k = member fs k" for k
    by (simp only: fs room_role_holder_member)
  have all: "list_all (\<lambda>(k, v). member fs k = v) (room_role_holder_fields x)"
    unfolding fs by (rule member_all) (simp only: room_role_holder_names room_role_holder_distinct)
  show ?thesis
    unfolding room_role_holder_of_obj_def req_field_def opt_field_read default_field_def g
    using ok all by (simp add: room_role_holder_ok_def room_role_holder_fields_def)
qed

interpretation crrh: codec room_role_holder_to_json room_role_holder_of_json room_role_holder_ok
  by unfold_locales (simp_all add: room_role_holder_to_json_def room_role_holder_of_json_def room_role_holder_of_fields)

section \<open>Envelopes\<close>

record public_roles_envelope =
  pre_success :: bool
  pre_users :: "public_role_holder list"

record room_roles_envelope =
  rre_success :: bool
  rre_roles :: "room_role_holder list"

definition public_roles_of_json :: "json \<Rightarrow> public_roles_envelope option" where
  "public_roles_of_json v = do {
     m \<leftarrow> struct_obj [''success'', ''users''] v;
     v_success \<leftarrow> default_field False as_bool m ''success'';
     v_users \<leftarrow> default_field [] (dec_array public_role_holder_of_json) m ''users'';
     Some \<lparr>pre_success = v_success, pre_users = v_users\<rparr>
   }"

definition room_roles_of_json :: "json \<Rightarrow> room_roles_envelope option" where
  "room_roles_of_json v = do {
     m \<leftarrow> struct_obj [''success'', ''roles''] v;
     v_success \<leftarrow> default_field False as_bool m ''success'';
     v_roles \<leftarrow> default_field [] (dec_array room_role_holder_of_json) m ''roles'';
     Some \<lparr>rre_success = v_success, rre_roles = v_roles\<rparr>
   }"

text \<open>A success is one the object says.\<close>

lemma public_roles_success:
  "public_roles_of_json (JObject m) = Some x \<Longrightarrow> pre_success x \<Longrightarrow> obj_get m ''success'' = Some (JBool True)"
  by (auto simp: public_roles_of_json_def struct_obj_def default_field_def
      split: Option.bind_splits option.splits elim: as_bool.elims)

lemma room_roles_success:
  "room_roles_of_json (JObject m) = Some x \<Longrightarrow> rre_success x \<Longrightarrow> obj_get m ''success'' = Some (JBool True)"
  by (auto simp: room_roles_of_json_def struct_obj_def default_field_def
      split: Option.bind_splits option.splits elim: as_bool.elims)

end
