(* ===== verification/Model_Payload.thy ===== *)
theory Model_Payload
  imports Model_User Model_Subscription
begin

text \<open>
  The payloads of the stream events, \<open>rocketsocket-model/src/event.rs\<close>: its three string enums
  and its structs, with the codecs and round trips of the typed documents, and the reduced or
  full subscription of \<open>subscriptions-changed\<close>, an untagged enum that is read in order.
\<close>

section \<open>String enums\<close>

datatype (plugins only: code size) activity =
    AcUserTyping | AcUserRecording | AcUserUploading | AcUnknown str

primrec activity_name :: "activity \<Rightarrow> str" where
  "activity_name AcUserTyping = ''user-typing''"
| "activity_name AcUserRecording = ''user-recording''"
| "activity_name AcUserUploading = ''user-uploading''"
| "activity_name (AcUnknown s) = s"

definition activity_table :: "(str \<times> activity) list" where
  "activity_table = [
     (''user-typing'', AcUserTyping),
     (''user-recording'', AcUserRecording),
     (''user-uploading'', AcUserUploading)]"

definition activity_of :: "str \<Rightarrow> activity" where
  "activity_of = wire_of activity_table AcUnknown"

definition activity_to_json :: "activity \<Rightarrow> json" where
  "activity_to_json = wire_to_json activity_name"

definition activity_of_json :: "json \<Rightarrow> activity option" where
  "activity_of_json = wire_of_json activity_table AcUnknown"

definition activity_ok :: "activity \<Rightarrow> bool" where
  "activity_ok = wire_canon activity_table AcUnknown activity_name"

interpretation wac: wire_enum activity_table AcUnknown activity_name
  by unfold_locales (simp_all add: activity_table_def)

interpretation cac: codec activity_to_json activity_of_json activity_ok
  unfolding activity_to_json_def activity_of_json_def activity_ok_def by (rule wac.wire_codec)

datatype (plugins only: code size) client_action =
    CaInserted | CaUpdated | CaRemoved | CaChanged | CaUnknown str

primrec client_action_name :: "client_action \<Rightarrow> str" where
  "client_action_name CaInserted = ''inserted''"
| "client_action_name CaUpdated = ''updated''"
| "client_action_name CaRemoved = ''removed''"
| "client_action_name CaChanged = ''changed''"
| "client_action_name (CaUnknown s) = s"

definition client_action_table :: "(str \<times> client_action) list" where
  "client_action_table = [
     (''inserted'', CaInserted),
     (''updated'', CaUpdated),
     (''removed'', CaRemoved),
     (''changed'', CaChanged)]"

definition client_action_of :: "str \<Rightarrow> client_action" where
  "client_action_of = wire_of client_action_table CaUnknown"

definition client_action_to_json :: "client_action \<Rightarrow> json" where
  "client_action_to_json = wire_to_json client_action_name"

definition client_action_of_json :: "json \<Rightarrow> client_action option" where
  "client_action_of_json = wire_of_json client_action_table CaUnknown"

definition client_action_ok :: "client_action \<Rightarrow> bool" where
  "client_action_ok = wire_canon client_action_table CaUnknown client_action_name"

interpretation wca: wire_enum client_action_table CaUnknown client_action_name
  by unfold_locales (simp_all add: client_action_table_def)

interpretation cca: codec client_action_to_json client_action_of_json client_action_ok
  unfolding client_action_to_json_def client_action_of_json_def client_action_ok_def by (rule wca.wire_codec)

datatype (plugins only: code size) role_change_kind =
    RkAdded | RkRemoved | RkChanged | RkUnknown str

primrec role_change_kind_name :: "role_change_kind \<Rightarrow> str" where
  "role_change_kind_name RkAdded = ''added''"
| "role_change_kind_name RkRemoved = ''removed''"
| "role_change_kind_name RkChanged = ''changed''"
| "role_change_kind_name (RkUnknown s) = s"

definition role_change_kind_table :: "(str \<times> role_change_kind) list" where
  "role_change_kind_table = [
     (''added'', RkAdded),
     (''removed'', RkRemoved),
     (''changed'', RkChanged)]"

definition role_change_kind_of :: "str \<Rightarrow> role_change_kind" where
  "role_change_kind_of = wire_of role_change_kind_table RkUnknown"

definition role_change_kind_to_json :: "role_change_kind \<Rightarrow> json" where
  "role_change_kind_to_json = wire_to_json role_change_kind_name"

definition role_change_kind_of_json :: "json \<Rightarrow> role_change_kind option" where
  "role_change_kind_of_json = wire_of_json role_change_kind_table RkUnknown"

definition role_change_kind_ok :: "role_change_kind \<Rightarrow> bool" where
  "role_change_kind_ok = wire_canon role_change_kind_table RkUnknown role_change_kind_name"

interpretation wrk: wire_enum role_change_kind_table RkUnknown role_change_kind_name
  by unfold_locales (simp_all add: role_change_kind_table_def)

interpretation crk: codec role_change_kind_to_json role_change_kind_of_json role_change_kind_ok
  unfolding role_change_kind_to_json_def role_change_kind_of_json_def role_change_kind_ok_def by (rule wrk.wire_codec)

section \<open>Payloads\<close>

interpretation cobj: codec JObject as_object "\<lambda>_. True"
  by unfold_locales simp_all

record my_message_meta =
  mmm_room_participant :: "bool option"
  mmm_room_type :: "room_type option"
  mmm_room_name :: "str option"

definition MY_MESSAGE_META_NAMES :: "str list" where
  "MY_MESSAGE_META_NAMES = [
     ''roomParticipant'', ''roomType'', ''roomName'']"

definition my_message_meta_fields :: "my_message_meta \<Rightarrow> (str \<times> json option) list" where
  "my_message_meta_fields x = [
     (''roomParticipant'', map_option JBool (mmm_room_participant x)),
     (''roomType'', map_option room_type_to_json (mmm_room_type x)),
     (''roomName'', map_option JString (mmm_room_name x))]"

definition my_message_meta_to_json :: "my_message_meta \<Rightarrow> json" where
  "my_message_meta_to_json x = struct_to_json (my_message_meta_fields x)"

definition my_message_meta_of_obj :: "obj \<Rightarrow> my_message_meta option" where
  "my_message_meta_of_obj m = do {
     v_room_participant \<leftarrow> opt_field as_bool m ''roomParticipant'';
     v_room_type \<leftarrow> opt_field room_type_of_json m ''roomType'';
     v_room_name \<leftarrow> opt_field as_str m ''roomName'';
     Some \<lparr>
       mmm_room_participant = v_room_participant, mmm_room_type = v_room_type,
       mmm_room_name = v_room_name\<rparr>
   }"

definition my_message_meta_of_json :: "json \<Rightarrow> my_message_meta option" where
  "my_message_meta_of_json v = Option.bind (struct_obj MY_MESSAGE_META_NAMES v) my_message_meta_of_obj"

definition my_message_meta_ok :: "my_message_meta \<Rightarrow> bool" where
  "my_message_meta_ok x = (pred_option (room_type_ok) (mmm_room_type x))"

lemma my_message_meta_names: "map fst (my_message_meta_fields x) = MY_MESSAGE_META_NAMES"
  by (simp add: my_message_meta_fields_def MY_MESSAGE_META_NAMES_def)

lemma my_message_meta_distinct: "distinct MY_MESSAGE_META_NAMES"
  by (simp add: MY_MESSAGE_META_NAMES_def)

lemma my_message_meta_member: "obj_get (obj_of_fields (my_message_meta_fields x)) k = member (my_message_meta_fields x) k"
  by (rule obj_get_fields) (simp only: my_message_meta_names my_message_meta_distinct)

lemma my_message_meta_of_fields:
  assumes ok: "my_message_meta_ok x"
  shows "my_message_meta_of_obj (obj_of_fields (my_message_meta_fields x)) = Some x"
proof -
  obtain fs where fs: "fs = my_message_meta_fields x" by simp
  have g: "obj_get (obj_of_fields (my_message_meta_fields x)) k = member fs k" for k
    by (simp only: fs my_message_meta_member)
  have all: "list_all (\<lambda>(k, v). member fs k = v) (my_message_meta_fields x)"
    unfolding fs by (rule member_all) (simp only: my_message_meta_names my_message_meta_distinct)
  show ?thesis
    unfolding my_message_meta_of_obj_def req_field_def opt_field_read default_field_def g
    using ok all by (simp add: my_message_meta_ok_def my_message_meta_fields_def)
qed

interpretation cmmm: codec my_message_meta_to_json my_message_meta_of_json my_message_meta_ok
  by unfold_locales (simp_all add: my_message_meta_to_json_def my_message_meta_of_json_def my_message_meta_of_fields)

definition my_message_meta_default :: my_message_meta where
  "my_message_meta_default = \<lparr>mmm_room_participant = None, mmm_room_type = None, mmm_room_name = None\<rparr>"

record bulk_delete =
  bd_rid :: str
  bd_ids :: "str list option"
  bd_ts :: "timestamp strmap option"
  bd_users :: "str list option"
  bd_exclude_pinned :: "bool option"
  bd_ignore_discussion :: "bool option"
  bd_show_deleted_status :: "bool option"
  bd_files_only :: "bool option"
  bd_replace_file_attachments_with :: "json option"

definition BULK_DELETE_NAMES :: "str list" where
  "BULK_DELETE_NAMES = [
     ''rid'', ''ids'', ''ts'', ''users'', ''excludePinned'', ''ignoreDiscussion'',
     ''showDeletedStatus'', ''filesOnly'', ''replaceFileAttachmentsWith'']"

definition bulk_delete_fields :: "bulk_delete \<Rightarrow> (str \<times> json option) list" where
  "bulk_delete_fields x = [
     (''rid'', Some (JString (bd_rid x))),
     (''ids'', map_option (list_to_json JString) (bd_ids x)),
     (''ts'', map_option (map_to_json ts_to_json) (bd_ts x)),
     (''users'', map_option (list_to_json JString) (bd_users x)),
     (''excludePinned'', map_option JBool (bd_exclude_pinned x)),
     (''ignoreDiscussion'', map_option JBool (bd_ignore_discussion x)),
     (''showDeletedStatus'', map_option JBool (bd_show_deleted_status x)),
     (''filesOnly'', map_option JBool (bd_files_only x)),
     (''replaceFileAttachmentsWith'', map_option raw (bd_replace_file_attachments_with x))]"

definition bulk_delete_to_json :: "bulk_delete \<Rightarrow> json" where
  "bulk_delete_to_json x = struct_to_json (bulk_delete_fields x)"

definition bulk_delete_of_obj :: "time_lib \<Rightarrow> obj \<Rightarrow> bulk_delete option" where
  "bulk_delete_of_obj T m = do {
     v_rid \<leftarrow> req_field as_str m ''rid'';
     v_ids \<leftarrow> opt_field (dec_array as_str) m ''ids'';
     v_ts \<leftarrow> opt_field (dec_map (ts_of_json T)) m ''ts'';
     v_users \<leftarrow> opt_field (dec_array as_str) m ''users'';
     v_exclude_pinned \<leftarrow> opt_field as_bool m ''excludePinned'';
     v_ignore_discussion \<leftarrow> opt_field as_bool m ''ignoreDiscussion'';
     v_show_deleted_status \<leftarrow> opt_field as_bool m ''showDeletedStatus'';
     v_files_only \<leftarrow> opt_field as_bool m ''filesOnly'';
     v_replace_file_attachments_with \<leftarrow> opt_field dec_value m ''replaceFileAttachmentsWith'';
     Some \<lparr>
       bd_rid = v_rid, bd_ids = v_ids, bd_ts = v_ts, bd_users = v_users,
       bd_exclude_pinned = v_exclude_pinned, bd_ignore_discussion = v_ignore_discussion,
       bd_show_deleted_status = v_show_deleted_status, bd_files_only = v_files_only,
       bd_replace_file_attachments_with = v_replace_file_attachments_with\<rparr>
   }"

definition bulk_delete_of_json :: "time_lib \<Rightarrow> json \<Rightarrow> bulk_delete option" where
  "bulk_delete_of_json T v = Option.bind (struct_obj BULK_DELETE_NAMES v) (bulk_delete_of_obj T)"

definition bulk_delete_ok :: "time_lib \<Rightarrow> bulk_delete \<Rightarrow> bool" where
  "bulk_delete_ok T x = (pred_option (list_all (\<lambda>(_, x). ts_ok T x)) (bd_ts x) \<and>
      bd_replace_file_attachments_with x \<noteq> Some JNull)"

lemma bulk_delete_names: "map fst (bulk_delete_fields x) = BULK_DELETE_NAMES"
  by (simp add: bulk_delete_fields_def BULK_DELETE_NAMES_def)

lemma bulk_delete_distinct: "distinct BULK_DELETE_NAMES"
  by (simp add: BULK_DELETE_NAMES_def)

lemma bulk_delete_member: "obj_get (obj_of_fields (bulk_delete_fields x)) k = member (bulk_delete_fields x) k"
  by (rule obj_get_fields) (simp only: bulk_delete_names bulk_delete_distinct)

lemma bulk_delete_of_fields:
  assumes ok: "bulk_delete_ok T x"
  shows "bulk_delete_of_obj T (obj_of_fields (bulk_delete_fields x)) = Some x"
proof -
  obtain fs where fs: "fs = bulk_delete_fields x" by simp
  have g: "obj_get (obj_of_fields (bulk_delete_fields x)) k = member fs k" for k
    by (simp only: fs bulk_delete_member)
  have all: "list_all (\<lambda>(k, v). member fs k = v) (bulk_delete_fields x)"
    unfolding fs by (rule member_all) (simp only: bulk_delete_names bulk_delete_distinct)
  show ?thesis
    unfolding bulk_delete_of_obj_def req_field_def opt_field_read default_field_def g
    using ok all by (simp add: bulk_delete_ok_def bulk_delete_fields_def)
qed

interpretation cbd: codec bulk_delete_to_json "bulk_delete_of_json T" "bulk_delete_ok T" for T
  by unfold_locales (simp_all add: bulk_delete_to_json_def bulk_delete_of_json_def bulk_delete_of_fields)

record notification_message =
  nm_msg :: str
  nm_t :: "message_type option"
  nm_content :: "json option"

definition NOTIFICATION_MESSAGE_NAMES :: "str list" where
  "NOTIFICATION_MESSAGE_NAMES = [
     ''msg'', ''t'', ''content'']"

definition notification_message_fields :: "notification_message \<Rightarrow> (str \<times> json option) list" where
  "notification_message_fields x = [
     (''msg'', Some (JString (nm_msg x))),
     (''t'', map_option message_type_to_json (nm_t x)),
     (''content'', map_option raw (nm_content x))]"

definition notification_message_to_json :: "notification_message \<Rightarrow> json" where
  "notification_message_to_json x = struct_to_json (notification_message_fields x)"

definition notification_message_of_obj :: "obj \<Rightarrow> notification_message option" where
  "notification_message_of_obj m = do {
     v_msg \<leftarrow> default_field [] as_str m ''msg'';
     v_t \<leftarrow> opt_field message_type_of_json m ''t'';
     v_content \<leftarrow> opt_field dec_value m ''content'';
     Some \<lparr>
       nm_msg = v_msg, nm_t = v_t, nm_content = v_content\<rparr>
   }"

definition notification_message_of_json :: "json \<Rightarrow> notification_message option" where
  "notification_message_of_json v = Option.bind (struct_obj NOTIFICATION_MESSAGE_NAMES v) notification_message_of_obj"

definition notification_message_ok :: "notification_message \<Rightarrow> bool" where
  "notification_message_ok x = (pred_option (message_type_ok) (nm_t x) \<and>
      nm_content x \<noteq> Some JNull)"

lemma notification_message_names: "map fst (notification_message_fields x) = NOTIFICATION_MESSAGE_NAMES"
  by (simp add: notification_message_fields_def NOTIFICATION_MESSAGE_NAMES_def)

lemma notification_message_distinct: "distinct NOTIFICATION_MESSAGE_NAMES"
  by (simp add: NOTIFICATION_MESSAGE_NAMES_def)

lemma notification_message_member: "obj_get (obj_of_fields (notification_message_fields x)) k = member (notification_message_fields x) k"
  by (rule obj_get_fields) (simp only: notification_message_names notification_message_distinct)

lemma notification_message_of_fields:
  assumes ok: "notification_message_ok x"
  shows "notification_message_of_obj (obj_of_fields (notification_message_fields x)) = Some x"
proof -
  obtain fs where fs: "fs = notification_message_fields x" by simp
  have g: "obj_get (obj_of_fields (notification_message_fields x)) k = member fs k" for k
    by (simp only: fs notification_message_member)
  have all: "list_all (\<lambda>(k, v). member fs k = v) (notification_message_fields x)"
    unfolding fs by (rule member_all) (simp only: notification_message_names notification_message_distinct)
  show ?thesis
    unfolding notification_message_of_obj_def req_field_def opt_field_read default_field_def g
    using ok all by (simp add: notification_message_ok_def notification_message_fields_def)
qed

interpretation cnm: codec notification_message_to_json notification_message_of_json notification_message_ok
  by unfold_locales (simp_all add: notification_message_to_json_def notification_message_of_json_def notification_message_of_fields)

record notification_payload =
  np_id :: str
  np_rid :: str
  np_tmid :: "str option"
  np_sender :: "user_ref option"
  np_room_type :: "room_type option"
  np_name :: "str option"
  np_message :: "notification_message option"
  np_audio_notification_value :: "str option"

definition NOTIFICATION_PAYLOAD_NAMES :: "str list" where
  "NOTIFICATION_PAYLOAD_NAMES = [
     ''_id'', ''rid'', ''tmid'', ''sender'', ''type'', ''name'', ''message'',
     ''audioNotificationValue'']"

definition notification_payload_fields :: "notification_payload \<Rightarrow> (str \<times> json option) list" where
  "notification_payload_fields x = [
     (''_id'', Some (JString (np_id x))),
     (''rid'', Some (JString (np_rid x))),
     (''tmid'', map_option JString (np_tmid x)),
     (''sender'', map_option user_ref_to_json (np_sender x)),
     (''type'', map_option room_type_to_json (np_room_type x)),
     (''name'', map_option JString (np_name x)),
     (''message'', map_option notification_message_to_json (np_message x)),
     (''audioNotificationValue'', map_option JString (np_audio_notification_value x))]"

definition notification_payload_to_json :: "notification_payload \<Rightarrow> json" where
  "notification_payload_to_json x = struct_to_json (notification_payload_fields x)"

definition notification_payload_of_obj :: "obj \<Rightarrow> notification_payload option" where
  "notification_payload_of_obj m = do {
     v_id \<leftarrow> req_field as_str m ''_id'';
     v_rid \<leftarrow> req_field as_str m ''rid'';
     v_tmid \<leftarrow> opt_field as_str m ''tmid'';
     v_sender \<leftarrow> opt_field user_ref_of_json m ''sender'';
     v_room_type \<leftarrow> opt_field room_type_of_json m ''type'';
     v_name \<leftarrow> opt_field as_str m ''name'';
     v_message \<leftarrow> opt_field notification_message_of_json m ''message'';
     v_audio_notification_value \<leftarrow> opt_field as_str m ''audioNotificationValue'';
     Some \<lparr>
       np_id = v_id, np_rid = v_rid, np_tmid = v_tmid, np_sender = v_sender,
       np_room_type = v_room_type, np_name = v_name, np_message = v_message,
       np_audio_notification_value = v_audio_notification_value\<rparr>
   }"

definition notification_payload_of_json :: "json \<Rightarrow> notification_payload option" where
  "notification_payload_of_json v = Option.bind (struct_obj NOTIFICATION_PAYLOAD_NAMES v) notification_payload_of_obj"

definition notification_payload_ok :: "notification_payload \<Rightarrow> bool" where
  "notification_payload_ok x = (pred_option (user_ref_ok) (np_sender x) \<and>
      pred_option (room_type_ok) (np_room_type x) \<and>
      pred_option (notification_message_ok) (np_message x))"

lemma notification_payload_names: "map fst (notification_payload_fields x) = NOTIFICATION_PAYLOAD_NAMES"
  by (simp add: notification_payload_fields_def NOTIFICATION_PAYLOAD_NAMES_def)

lemma notification_payload_distinct: "distinct NOTIFICATION_PAYLOAD_NAMES"
  by (simp add: NOTIFICATION_PAYLOAD_NAMES_def)

lemma notification_payload_member: "obj_get (obj_of_fields (notification_payload_fields x)) k = member (notification_payload_fields x) k"
  by (rule obj_get_fields) (simp only: notification_payload_names notification_payload_distinct)

lemma notification_payload_of_fields:
  assumes ok: "notification_payload_ok x"
  shows "notification_payload_of_obj (obj_of_fields (notification_payload_fields x)) = Some x"
proof -
  obtain fs where fs: "fs = notification_payload_fields x" by simp
  have g: "obj_get (obj_of_fields (notification_payload_fields x)) k = member fs k" for k
    by (simp only: fs notification_payload_member)
  have all: "list_all (\<lambda>(k, v). member fs k = v) (notification_payload_fields x)"
    unfolding fs by (rule member_all) (simp only: notification_payload_names notification_payload_distinct)
  show ?thesis
    unfolding notification_payload_of_obj_def req_field_def opt_field_read default_field_def g
    using ok all by (simp add: notification_payload_ok_def notification_payload_fields_def)
qed

interpretation cnp: codec notification_payload_to_json notification_payload_of_json notification_payload_ok
  by unfold_locales (simp_all add: notification_payload_to_json_def notification_payload_of_json_def notification_payload_of_fields)

record desktop_notification =
  dn_title :: str
  dn_text :: str
  dn_icon :: "str option"
  dn_duration :: "i64 option"
  dn_payload :: notification_payload

definition DESKTOP_NOTIFICATION_NAMES :: "str list" where
  "DESKTOP_NOTIFICATION_NAMES = [
     ''title'', ''text'', ''icon'', ''duration'', ''payload'']"

definition desktop_notification_fields :: "desktop_notification \<Rightarrow> (str \<times> json option) list" where
  "desktop_notification_fields x = [
     (''title'', Some (JString (dn_title x))),
     (''text'', Some (JString (dn_text x))),
     (''icon'', map_option JString (dn_icon x)),
     (''duration'', map_option i64_to_json (dn_duration x)),
     (''payload'', Some (notification_payload_to_json (dn_payload x)))]"

definition desktop_notification_to_json :: "desktop_notification \<Rightarrow> json" where
  "desktop_notification_to_json x = struct_to_json (desktop_notification_fields x)"

definition desktop_notification_of_obj :: "obj \<Rightarrow> desktop_notification option" where
  "desktop_notification_of_obj m = do {
     v_title \<leftarrow> req_field as_str m ''title'';
     v_text \<leftarrow> req_field as_str m ''text'';
     v_icon \<leftarrow> opt_field as_str m ''icon'';
     v_duration \<leftarrow> opt_field as_i64 m ''duration'';
     v_payload \<leftarrow> req_field notification_payload_of_json m ''payload'';
     Some \<lparr>
       dn_title = v_title, dn_text = v_text, dn_icon = v_icon, dn_duration = v_duration,
       dn_payload = v_payload\<rparr>
   }"

definition desktop_notification_of_json :: "json \<Rightarrow> desktop_notification option" where
  "desktop_notification_of_json v = Option.bind (struct_obj DESKTOP_NOTIFICATION_NAMES v) desktop_notification_of_obj"

definition desktop_notification_ok :: "desktop_notification \<Rightarrow> bool" where
  "desktop_notification_ok x = (notification_payload_ok (dn_payload x))"

lemma desktop_notification_names: "map fst (desktop_notification_fields x) = DESKTOP_NOTIFICATION_NAMES"
  by (simp add: desktop_notification_fields_def DESKTOP_NOTIFICATION_NAMES_def)

lemma desktop_notification_distinct: "distinct DESKTOP_NOTIFICATION_NAMES"
  by (simp add: DESKTOP_NOTIFICATION_NAMES_def)

lemma desktop_notification_member: "obj_get (obj_of_fields (desktop_notification_fields x)) k = member (desktop_notification_fields x) k"
  by (rule obj_get_fields) (simp only: desktop_notification_names desktop_notification_distinct)

lemma desktop_notification_of_fields:
  assumes ok: "desktop_notification_ok x"
  shows "desktop_notification_of_obj (obj_of_fields (desktop_notification_fields x)) = Some x"
proof -
  obtain fs where fs: "fs = desktop_notification_fields x" by simp
  have g: "obj_get (obj_of_fields (desktop_notification_fields x)) k = member fs k" for k
    by (simp only: fs desktop_notification_member)
  have all: "list_all (\<lambda>(k, v). member fs k = v) (desktop_notification_fields x)"
    unfolding fs by (rule member_all) (simp only: desktop_notification_names desktop_notification_distinct)
  show ?thesis
    unfolding desktop_notification_of_obj_def req_field_def opt_field_read default_field_def g
    using ok all by (simp add: desktop_notification_ok_def desktop_notification_fields_def)
qed

interpretation cdn: codec desktop_notification_to_json desktop_notification_of_json desktop_notification_ok
  by unfold_locales (simp_all add: desktop_notification_to_json_def desktop_notification_of_json_def desktop_notification_of_fields)

record user_data_event =
  ud_id :: "str option"
  ud_action :: client_action
  ud_data :: "user option"
  ud_diff :: "obj option"
  ud_unset :: "obj option"

definition USER_DATA_EVENT_NAMES :: "str list" where
  "USER_DATA_EVENT_NAMES = [
     ''id'', ''type'', ''data'', ''diff'', ''unset'']"

definition user_data_event_fields :: "user_data_event \<Rightarrow> (str \<times> json option) list" where
  "user_data_event_fields x = [
     (''id'', map_option JString (ud_id x)),
     (''type'', Some (client_action_to_json (ud_action x))),
     (''data'', map_option user_to_json (ud_data x)),
     (''diff'', map_option JObject (ud_diff x)),
     (''unset'', map_option JObject (ud_unset x))]"

definition user_data_event_to_json :: "user_data_event \<Rightarrow> json" where
  "user_data_event_to_json x = struct_to_json (user_data_event_fields x)"

definition user_data_event_of_obj :: "time_lib \<Rightarrow> obj \<Rightarrow> user_data_event option" where
  "user_data_event_of_obj T m = do {
     v_id \<leftarrow> opt_field as_str m ''id'';
     v_action \<leftarrow> req_field client_action_of_json m ''type'';
     v_data \<leftarrow> opt_field (user_of_json T) m ''data'';
     v_diff \<leftarrow> opt_field as_object m ''diff'';
     v_unset \<leftarrow> opt_field as_object m ''unset'';
     Some \<lparr>
       ud_id = v_id, ud_action = v_action, ud_data = v_data, ud_diff = v_diff, ud_unset = v_unset\<rparr>
   }"

definition user_data_event_of_json :: "time_lib \<Rightarrow> json \<Rightarrow> user_data_event option" where
  "user_data_event_of_json T v = Option.bind (struct_obj USER_DATA_EVENT_NAMES v) (user_data_event_of_obj T)"

definition user_data_event_ok :: "time_lib \<Rightarrow> user_data_event \<Rightarrow> bool" where
  "user_data_event_ok T x = (client_action_ok (ud_action x) \<and>
      pred_option (user_ok T) (ud_data x))"

lemma user_data_event_names: "map fst (user_data_event_fields x) = USER_DATA_EVENT_NAMES"
  by (simp add: user_data_event_fields_def USER_DATA_EVENT_NAMES_def)

lemma user_data_event_distinct: "distinct USER_DATA_EVENT_NAMES"
  by (simp add: USER_DATA_EVENT_NAMES_def)

lemma user_data_event_member: "obj_get (obj_of_fields (user_data_event_fields x)) k = member (user_data_event_fields x) k"
  by (rule obj_get_fields) (simp only: user_data_event_names user_data_event_distinct)

lemma user_data_event_of_fields:
  assumes ok: "user_data_event_ok T x"
  shows "user_data_event_of_obj T (obj_of_fields (user_data_event_fields x)) = Some x"
proof -
  obtain fs where fs: "fs = user_data_event_fields x" by simp
  have g: "obj_get (obj_of_fields (user_data_event_fields x)) k = member fs k" for k
    by (simp only: fs user_data_event_member)
  have all: "list_all (\<lambda>(k, v). member fs k = v) (user_data_event_fields x)"
    unfolding fs by (rule member_all) (simp only: user_data_event_names user_data_event_distinct)
  show ?thesis
    unfolding user_data_event_of_obj_def req_field_def opt_field_read default_field_def g
    using ok all by (simp add: user_data_event_ok_def user_data_event_fields_def)
qed

interpretation cud: codec user_data_event_to_json "user_data_event_of_json T" "user_data_event_ok T" for T
  by unfold_locales (simp_all add: user_data_event_to_json_def user_data_event_of_json_def user_data_event_of_fields)

record role_change =
  rc_action :: role_change_kind
  rc_id :: str
  rc_u :: "user_ref option"
  rc_scope :: "str option"

definition ROLE_CHANGE_NAMES :: "str list" where
  "ROLE_CHANGE_NAMES = [
     ''type'', ''_id'', ''u'', ''scope'']"

definition role_change_fields :: "role_change \<Rightarrow> (str \<times> json option) list" where
  "role_change_fields x = [
     (''type'', Some (role_change_kind_to_json (rc_action x))),
     (''_id'', Some (JString (rc_id x))),
     (''u'', map_option user_ref_to_json (rc_u x)),
     (''scope'', map_option JString (rc_scope x))]"

definition role_change_to_json :: "role_change \<Rightarrow> json" where
  "role_change_to_json x = struct_to_json (role_change_fields x)"

definition role_change_of_obj :: "obj \<Rightarrow> role_change option" where
  "role_change_of_obj m = do {
     v_action \<leftarrow> req_field role_change_kind_of_json m ''type'';
     v_id \<leftarrow> req_field as_str m ''_id'';
     v_u \<leftarrow> opt_field user_ref_of_json m ''u'';
     v_scope \<leftarrow> opt_field as_str m ''scope'';
     Some \<lparr>
       rc_action = v_action, rc_id = v_id, rc_u = v_u, rc_scope = v_scope\<rparr>
   }"

definition role_change_of_json :: "json \<Rightarrow> role_change option" where
  "role_change_of_json v = Option.bind (struct_obj ROLE_CHANGE_NAMES v) role_change_of_obj"

definition role_change_ok :: "role_change \<Rightarrow> bool" where
  "role_change_ok x = (role_change_kind_ok (rc_action x) \<and>
      pred_option (user_ref_ok) (rc_u x))"

lemma role_change_names: "map fst (role_change_fields x) = ROLE_CHANGE_NAMES"
  by (simp add: role_change_fields_def ROLE_CHANGE_NAMES_def)

lemma role_change_distinct: "distinct ROLE_CHANGE_NAMES"
  by (simp add: ROLE_CHANGE_NAMES_def)

lemma role_change_member: "obj_get (obj_of_fields (role_change_fields x)) k = member (role_change_fields x) k"
  by (rule obj_get_fields) (simp only: role_change_names role_change_distinct)

lemma role_change_of_fields:
  assumes ok: "role_change_ok x"
  shows "role_change_of_obj (obj_of_fields (role_change_fields x)) = Some x"
proof -
  obtain fs where fs: "fs = role_change_fields x" by simp
  have g: "obj_get (obj_of_fields (role_change_fields x)) k = member fs k" for k
    by (simp only: fs role_change_member)
  have all: "list_all (\<lambda>(k, v). member fs k = v) (role_change_fields x)"
    unfolding fs by (rule member_all) (simp only: role_change_names role_change_distinct)
  show ?thesis
    unfolding role_change_of_obj_def req_field_def opt_field_read default_field_def g
    using ok all by (simp add: role_change_ok_def role_change_fields_def)
qed

interpretation crc: codec role_change_to_json role_change_of_json role_change_ok
  by unfold_locales (simp_all add: role_change_to_json_def role_change_of_json_def role_change_of_fields)

record deleted_message =
  dm_id :: str

definition DELETED_MESSAGE_NAMES :: "str list" where
  "DELETED_MESSAGE_NAMES = [
     ''_id'']"

definition deleted_message_fields :: "deleted_message \<Rightarrow> (str \<times> json option) list" where
  "deleted_message_fields x = [
     (''_id'', Some (JString (dm_id x)))]"

definition deleted_message_to_json :: "deleted_message \<Rightarrow> json" where
  "deleted_message_to_json x = struct_to_json (deleted_message_fields x)"

definition deleted_message_of_obj :: "obj \<Rightarrow> deleted_message option" where
  "deleted_message_of_obj m = do {
     v_id \<leftarrow> req_field as_str m ''_id'';
     Some \<lparr>
       dm_id = v_id\<rparr>
   }"

definition deleted_message_of_json :: "json \<Rightarrow> deleted_message option" where
  "deleted_message_of_json v = Option.bind (struct_obj DELETED_MESSAGE_NAMES v) deleted_message_of_obj"

definition deleted_message_ok :: "deleted_message \<Rightarrow> bool" where
  "deleted_message_ok x = True"

lemma deleted_message_names: "map fst (deleted_message_fields x) = DELETED_MESSAGE_NAMES"
  by (simp add: deleted_message_fields_def DELETED_MESSAGE_NAMES_def)

lemma deleted_message_distinct: "distinct DELETED_MESSAGE_NAMES"
  by (simp add: DELETED_MESSAGE_NAMES_def)

lemma deleted_message_member: "obj_get (obj_of_fields (deleted_message_fields x)) k = member (deleted_message_fields x) k"
  by (rule obj_get_fields) (simp only: deleted_message_names deleted_message_distinct)

lemma deleted_message_of_fields:
  assumes ok: "deleted_message_ok x"
  shows "deleted_message_of_obj (obj_of_fields (deleted_message_fields x)) = Some x"
proof -
  obtain fs where fs: "fs = deleted_message_fields x" by simp
  have g: "obj_get (obj_of_fields (deleted_message_fields x)) k = member fs k" for k
    by (simp only: fs deleted_message_member)
  have all: "list_all (\<lambda>(k, v). member fs k = v) (deleted_message_fields x)"
    unfolding fs by (rule member_all) (simp only: deleted_message_names deleted_message_distinct)
  show ?thesis
    unfolding deleted_message_of_obj_def req_field_def opt_field_read default_field_def g
    using ok all by (simp add: deleted_message_ok_def deleted_message_fields_def)
qed

interpretation cdm: codec deleted_message_to_json deleted_message_of_json deleted_message_ok
  by unfold_locales (simp_all add: deleted_message_to_json_def deleted_message_of_json_def deleted_message_of_fields)

record name_changed =
  nc_id :: str
  nc_username :: "str option"
  nc_name :: "str option"

definition NAME_CHANGED_NAMES :: "str list" where
  "NAME_CHANGED_NAMES = [
     ''_id'', ''username'', ''name'']"

definition name_changed_fields :: "name_changed \<Rightarrow> (str \<times> json option) list" where
  "name_changed_fields x = [
     (''_id'', Some (JString (nc_id x))),
     (''username'', map_option JString (nc_username x)),
     (''name'', map_option JString (nc_name x))]"

definition name_changed_to_json :: "name_changed \<Rightarrow> json" where
  "name_changed_to_json x = struct_to_json (name_changed_fields x)"

definition name_changed_of_obj :: "obj \<Rightarrow> name_changed option" where
  "name_changed_of_obj m = do {
     v_id \<leftarrow> req_field as_str m ''_id'';
     v_username \<leftarrow> opt_field as_str m ''username'';
     v_name \<leftarrow> opt_field as_str m ''name'';
     Some \<lparr>
       nc_id = v_id, nc_username = v_username, nc_name = v_name\<rparr>
   }"

definition name_changed_of_json :: "json \<Rightarrow> name_changed option" where
  "name_changed_of_json v = Option.bind (struct_obj NAME_CHANGED_NAMES v) name_changed_of_obj"

definition name_changed_ok :: "name_changed \<Rightarrow> bool" where
  "name_changed_ok x = True"

lemma name_changed_names: "map fst (name_changed_fields x) = NAME_CHANGED_NAMES"
  by (simp add: name_changed_fields_def NAME_CHANGED_NAMES_def)

lemma name_changed_distinct: "distinct NAME_CHANGED_NAMES"
  by (simp add: NAME_CHANGED_NAMES_def)

lemma name_changed_member: "obj_get (obj_of_fields (name_changed_fields x)) k = member (name_changed_fields x) k"
  by (rule obj_get_fields) (simp only: name_changed_names name_changed_distinct)

lemma name_changed_of_fields:
  assumes ok: "name_changed_ok x"
  shows "name_changed_of_obj (obj_of_fields (name_changed_fields x)) = Some x"
proof -
  obtain fs where fs: "fs = name_changed_fields x" by simp
  have g: "obj_get (obj_of_fields (name_changed_fields x)) k = member fs k" for k
    by (simp only: fs name_changed_member)
  have all: "list_all (\<lambda>(k, v). member fs k = v) (name_changed_fields x)"
    unfolding fs by (rule member_all) (simp only: name_changed_names name_changed_distinct)
  show ?thesis
    unfolding name_changed_of_obj_def req_field_def opt_field_read default_field_def g
    using ok all by (simp add: name_changed_ok_def name_changed_fields_def)
qed

interpretation cnc: codec name_changed_to_json name_changed_of_json name_changed_ok
  by unfold_locales (simp_all add: name_changed_to_json_def name_changed_of_json_def name_changed_of_fields)

section \<open>The subscription that changed\<close>

text \<open>\<open>deny_unknown_fields\<close>: an object with any other member is no stub.\<close>

record subscription_stub =
  ss_stub_id :: str
  ss_stub_rid :: "str option"
  ss_stub_u :: "user_ref option"
  ss_stub_t :: "room_type option"

definition SUBSCRIPTION_STUB_NAMES :: "str list" where
  "SUBSCRIPTION_STUB_NAMES = [
     ''_id'', ''rid'', ''u'', ''t'']"

definition subscription_stub_fields :: "subscription_stub \<Rightarrow> (str \<times> json option) list" where
  "subscription_stub_fields x = [
     (''_id'', Some (JString (ss_stub_id x))),
     (''rid'', map_option JString (ss_stub_rid x)),
     (''u'', map_option user_ref_to_json (ss_stub_u x)),
     (''t'', map_option room_type_to_json (ss_stub_t x))]"

definition subscription_stub_to_json :: "subscription_stub \<Rightarrow> json" where
  "subscription_stub_to_json x = struct_to_json (subscription_stub_fields x)"

definition subscription_stub_of_obj :: "obj \<Rightarrow> subscription_stub option" where
  "subscription_stub_of_obj m = do {
     v_id \<leftarrow> req_field as_str m ''_id'';
     v_rid \<leftarrow> opt_field as_str m ''rid'';
     v_u \<leftarrow> opt_field user_ref_of_json m ''u'';
     v_t \<leftarrow> opt_field room_type_of_json m ''t'';
     Some \<lparr>
       ss_stub_id = v_id, ss_stub_rid = v_rid, ss_stub_u = v_u, ss_stub_t = v_t\<rparr>
   }"

definition subscription_stub_of_json :: "json \<Rightarrow> subscription_stub option" where
  "subscription_stub_of_json v = (case struct_obj SUBSCRIPTION_STUB_NAMES v of
       Some m \<Rightarrow>
         if list_all (\<lambda>(k, x). k \<in> set SUBSCRIPTION_STUB_NAMES) m then subscription_stub_of_obj m else None
     | None \<Rightarrow> None)"

definition subscription_stub_ok :: "subscription_stub \<Rightarrow> bool" where
  "subscription_stub_ok x = (pred_option (user_ref_ok) (ss_stub_u x) \<and>
      pred_option (room_type_ok) (ss_stub_t x))"

lemma subscription_stub_names: "map fst (subscription_stub_fields x) = SUBSCRIPTION_STUB_NAMES"
  by (simp add: subscription_stub_fields_def SUBSCRIPTION_STUB_NAMES_def)

lemma subscription_stub_distinct: "distinct SUBSCRIPTION_STUB_NAMES"
  by (simp add: SUBSCRIPTION_STUB_NAMES_def)

lemma subscription_stub_member: "obj_get (obj_of_fields (subscription_stub_fields x)) k = member (subscription_stub_fields x) k"
  by (rule obj_get_fields) (simp only: subscription_stub_names subscription_stub_distinct)

lemma subscription_stub_of_fields:
  assumes ok: "subscription_stub_ok x"
  shows "subscription_stub_of_obj (obj_of_fields (subscription_stub_fields x)) = Some x"
proof -
  obtain fs where fs: "fs = subscription_stub_fields x" by simp
  have g: "obj_get (obj_of_fields (subscription_stub_fields x)) k = member fs k" for k
    by (simp only: fs subscription_stub_member)
  have all: "list_all (\<lambda>(k, v). member fs k = v) (subscription_stub_fields x)"
    unfolding fs by (rule member_all) (simp only: subscription_stub_names subscription_stub_distinct)
  show ?thesis
    unfolding subscription_stub_of_obj_def req_field_def opt_field_read default_field_def g
    using ok all by (simp add: subscription_stub_ok_def subscription_stub_fields_def)
qed

lemma subscription_stub_keys:
  "list_all (\<lambda>(k, v). k \<in> set SUBSCRIPTION_STUB_NAMES) (obj_of_fields (subscription_stub_fields x))"
proof -
  have "k \<in> set SUBSCRIPTION_STUB_NAMES" if "(k, v) \<in> set (obj_of_fields (subscription_stub_fields x))" for k v
  proof -
    have "obj_get (obj_of_fields (subscription_stub_fields x)) k \<noteq> None"
      using weak_map_of_SomeI [OF that] by (auto simp: obj_get_def)
    then have "k \<in> fst ` set (subscription_stub_fields x)"
      by (auto simp: subscription_stub_member member_def rev_image_eqI dest!: map_of_SomeD split: Option.bind_splits)
    then show ?thesis using subscription_stub_names [of x] by (metis set_map)
  qed
  then show ?thesis by (auto simp: list_all_iff)
qed

interpretation css_stub: codec subscription_stub_to_json subscription_stub_of_json subscription_stub_ok
  by unfold_locales (simp_all add: subscription_stub_to_json_def subscription_stub_of_json_def subscription_stub_of_fields subscription_stub_keys)

datatype subscription_change = ScFull subscription | ScStub subscription_stub

definition subscription_change_of_json :: "time_lib \<Rightarrow> json \<Rightarrow> subscription_change option" where
  "subscription_change_of_json T v = (case subscription_of_json T v of
       Some x \<Rightarrow> Some (ScFull x)
     | None \<Rightarrow> map_option ScStub (subscription_stub_of_json v))"

primrec subscription_change_to_json :: "subscription_change \<Rightarrow> json" where
  "subscription_change_to_json (ScFull x) = subscription_to_json x"
| "subscription_change_to_json (ScStub x) = subscription_stub_to_json x"

primrec sc_id :: "subscription_change \<Rightarrow> str" where
  "sc_id (ScFull x) = sub_id x"
| "sc_id (ScStub x) = ss_stub_id x"

primrec sc_room :: "subscription_change \<Rightarrow> str option" where
  "sc_room (ScFull x) = Some (sub_rid x)"
| "sc_room (ScStub x) = ss_stub_rid x"

primrec sc_full :: "subscription_change \<Rightarrow> subscription option" where
  "sc_full (ScFull x) = Some x"
| "sc_full (ScStub x) = None"

text \<open>A document that names anything but the four members is a full subscription or an error.\<close>

lemma stub_members:
  assumes "subscription_change_of_json T (JObject m) = Some (ScStub s)"
  shows "list_all (\<lambda>(k, v). k \<in> set SUBSCRIPTION_STUB_NAMES) m
    \<and> subscription_of_json T (JObject m) = None"
  using assms
  by (auto simp: subscription_change_of_json_def subscription_stub_of_json_def struct_obj_def split: option.splits if_splits)

lemma full_change_roundtrip:
  "subscription_ok T x \<Longrightarrow> subscription_change_of_json T (subscription_change_to_json (ScFull x)) = Some (ScFull x)"
  by (simp add: subscription_change_of_json_def)

lemma stub_change_roundtrip:
  assumes "subscription_stub_ok x"
  shows "subscription_change_of_json T (subscription_change_to_json (ScStub x)) = Some (ScStub x)"
proof -
  have g: "obj_get (obj_of_fields (subscription_stub_fields x)) k = member (subscription_stub_fields x) k" for k
    by (rule subscription_stub_member)
  have "subscription_of_obj T (obj_of_fields (subscription_stub_fields x)) = None"
    unfolding subscription_of_obj_def req_field_def opt_field_read default_field_def g
    by (simp add: subscription_stub_fields_def split: Option.bind_split)
  then have "subscription_of_json T (subscription_stub_to_json x) = None"
    by (simp add: subscription_of_json_def subscription_stub_to_json_def)
  then show ?thesis using assms by (simp add: subscription_change_of_json_def)
qed

end
