(* ===== verification/Bot_Roles.thy ===== *)
theory Bot_Roles
  imports Bot_Filter Rest_Roles Model_Payload
begin

text \<open>
  The role directory, \<open>rocketsocket/src/roles.rs\<close>: who may use a handler that requires a role,
  asked of the server and remembered for a while.

  \<^item> A slot is an \<open>Arc\<close> of a mutex over an optional answer: here its address, with the answers in
    \<open>rd_cells\<close>, the mutexes held in \<open>rd_locked\<close> and the next address in \<open>rd_next\<close>.  Invalidation
    installs a new address, as the code installs a new \<open>Arc\<close>.
  \<^item> A lookup is a task: it gets its slot under the short lock of the map, waits for the slot's
    mutex, reads the clock, and either takes the answer it finds or asks the server with the
    mutex held.  \<open>role_step\<close> is one such move of one task, or an invalidation; a run is any list
    of them, so every interleaving of lookups and invalidations is one.
  \<^item> \<open>pick\<close> chooses among equally cold rooms, which in the code the iteration order of a
    \<open>HashMap\<close> does; \<open>rest_answers\<close> is what the two endpoints answer, an error as its text.
\<close>

section \<open>Settings\<close>

definition ADMIN_ROLE :: str where
  "ADMIN_ROLE = ''admin''"

definition ROOM_ADMIN_ROLES :: "str list" where
  "ROOM_ADMIN_ROLES = [''owner'', ''moderator'', ''leader'']"

record role_cache_config =
  rcc_ttl :: duration
  rcc_failure_ttl :: duration
  rcc_timeout :: duration
  rcc_max_rooms :: nat

definition ROLE_CACHE_DEFAULT :: role_cache_config where
  "ROLE_CACHE_DEFAULT = \<lparr>rcc_ttl = from_secs 300, rcc_failure_ttl = from_secs 30,
     rcc_timeout = from_secs 5, rcc_max_rooms = 512\<rparr>"

definition set_ttl :: "duration \<Rightarrow> role_cache_config \<Rightarrow> role_cache_config" where
  "set_ttl d c = c\<lparr>rcc_ttl := d\<rparr>"

definition set_failure_ttl :: "duration \<Rightarrow> role_cache_config \<Rightarrow> role_cache_config" where
  "set_failure_ttl d c = c\<lparr>rcc_failure_ttl := d\<rparr>"

definition set_timeout :: "duration \<Rightarrow> role_cache_config \<Rightarrow> role_cache_config" where
  "set_timeout d c = c\<lparr>rcc_timeout := d\<rparr>"

definition set_max_rooms :: "nat \<Rightarrow> role_cache_config \<Rightarrow> role_cache_config" where
  "set_max_rooms n c = c\<lparr>rcc_max_rooms := n\<rparr>"

datatype role_lookup_error =
    RlNotAuthenticated
  | RlUnusable str
  | RlTransport str
  | RlRefused u16 str
  | RlDecode str
  | RlTimeout duration

section \<open>Answers\<close>

record entry =
  en_holders :: "str fset option"
  en_fetched_at :: instant

definition entry_ttl :: "role_cache_config \<Rightarrow> entry \<Rightarrow> duration" where
  "entry_ttl c e = (if en_holders e \<noteq> None then rcc_ttl c else rcc_failure_ttl c)"

definition is_fresh :: "role_cache_config \<Rightarrow> instant \<Rightarrow> entry \<Rightarrow> bool" where
  "is_fresh c now e = (now - en_fetched_at e < entry_ttl c e)"

definition grants :: "entry \<Rightarrow> str \<Rightarrow> bool" where
  "grants e user = (case en_holders e of Some hs \<Rightarrow> user |\<in>| hs | None \<Rightarrow> False)"

datatype lookup = LkGlobal | LkRoom str

primrec lookup_endpoint :: "lookup \<Rightarrow> str" where
  "lookup_endpoint LkGlobal = ''roles.getUsersInPublicRoles''"
| "lookup_endpoint (LkRoom _) = ''rooms.roles''"

definition holds_any :: "str list \<Rightarrow> str list \<Rightarrow> bool" where
  "holds_any held wanted = list_ex (\<lambda>r. r \<in> set wanted) held"

record rest_answers =
  ra_public :: "(public_role_holder list, str) result"
  ra_room :: "str \<Rightarrow> (room_role_holder list, str) result"

primrec fetch_roles :: "rest_answers \<Rightarrow> lookup \<Rightarrow> (str fset, role_lookup_error) result" where
  "fetch_roles A LkGlobal = (case ra_public A of
       Inl e \<Rightarrow> Inl (RlTransport e)
     | Inr hs \<Rightarrow> Inr (fset_of_list (map prh_id (filter (\<lambda>u. holds_any (prh_roles u) [ADMIN_ROLE]) hs))))"
| "fetch_roles A (LkRoom room) = (case ra_room A room of
       Inl e \<Rightarrow> Inl (RlTransport e)
     | Inr hs \<Rightarrow> Inr (fset_of_list (map (rru_id \<circ> rrh_u) (filter (\<lambda>h. holds_any (rrh_roles h) ROOM_ADMIN_ROLES) hs))))"

text \<open>A reply is \<open>None\<close> when the timeout of the lookup ran out first.\<close>

definition reply_holders :: "lookup \<Rightarrow> rest_answers option \<Rightarrow> str fset option" where
  "reply_holders l reply = (case reply of
       None \<Rightarrow> None
     | Some A \<Rightarrow> (case fetch_roles A l of Inl e \<Rightarrow> None | Inr hs \<Rightarrow> Some hs))"

definition fetched_entry :: "lookup \<Rightarrow> instant \<Rightarrow> rest_answers option \<Rightarrow> entry" where
  "fetched_entry l started reply = \<lparr>en_holders = reply_holders l reply, en_fetched_at = started\<rparr>"

definition cached_entry :: "role_cache_config \<Rightarrow> instant \<Rightarrow> entry option \<Rightarrow> entry option" where
  "cached_entry c now cell = (case cell of
       Some e \<Rightarrow> if is_fresh c now e then Some e else None
     | None \<Rightarrow> None)"

section \<open>The directory\<close>

record room_slot =
  rs_slot :: nat
  rs_touched :: instant

type_synonym rooms = "(str, room_slot) fmap"

record directory =
  rd_config :: role_cache_config
  rd_global :: nat
  rd_rooms :: rooms
  rd_cells :: "(nat, entry) fmap"
  rd_locked :: "nat fset"
  rd_next :: nat

definition empty_slot :: "directory \<Rightarrow> nat \<times> directory" where
  "empty_slot d = (rd_next d, d\<lparr>rd_next := Suc (rd_next d)\<rparr>)"

definition directory_new :: "role_cache_config \<Rightarrow> directory" where
  "directory_new c = \<lparr>rd_config = c, rd_global = 0, rd_rooms = fmempty, rd_cells = fmempty,
     rd_locked = {||}, rd_next = 1\<rparr>"

definition coldest :: "(rooms \<Rightarrow> nat) \<Rightarrow> rooms \<Rightarrow> str option" where
  "coldest pick m = (let xs = sorted_list_of_fmap m in
     if xs = [] then None
     else (let t = min_list (map (rs_touched \<circ> snd) xs);
               ks = map fst (filter (\<lambda>(k, x). rs_touched x = t) xs)
           in Some (ks ! (pick m mod length ks))))"

lemma min_list_in: "xs \<noteq> [] \<Longrightarrow> min_list xs \<in> set xs" for xs :: "nat list"
  by (simp add: min_list_Min)

lemma min_list_le: "x \<in> set xs \<Longrightarrow> min_list xs \<le> x" for xs :: "nat list"
  by (subst min_list_Min) auto

lemma set_sorted_fmap: "set (sorted_list_of_fmap m) = {(k, x). fmlookup m k = Some x}"
  by (auto simp: sorted_list_of_fmap_def fmlookup_dom_iff image_iff)

lemma coldest_None: "coldest pick m = None \<longleftrightarrow> m = fmempty"
proof -
  have "sorted_list_of_fmap m = [] \<longleftrightarrow> (\<forall>k. fmlookup m k = None)"
    using set_sorted_fmap [of m] by (auto simp flip: set_empty)
  also have "\<dots> \<longleftrightarrow> m = fmempty" by (metis fmempty_lookup fmap_ext)
  finally show ?thesis by (simp add: coldest_def Let_def)
qed

lemma coldest_Some:
  assumes "coldest pick m = Some k"
  shows "\<exists>x. fmlookup m k = Some x \<and> (\<forall>k' x'. fmlookup m k' = Some x' \<longrightarrow> rs_touched x \<le> rs_touched x')"
proof -
  let ?xs = "sorted_list_of_fmap m"
  let ?t = "min_list (map (rs_touched \<circ> snd) ?xs)"
  let ?ks = "map fst (filter (\<lambda>(k, x). rs_touched x = ?t) ?xs)"
  have ne: "?xs \<noteq> []" using assms by (auto simp: coldest_def)
  then have "?t \<in> set (map (rs_touched \<circ> snd) ?xs)" by (intro min_list_in) simp
  then obtain p where "p \<in> set ?xs" "rs_touched (snd p) = ?t" by (force simp: image_iff)
  then have "p \<in> set (filter (\<lambda>(k, x). rs_touched x = ?t) ?xs)"
    by (simp only: set_filter mem_Collect_eq case_prod_unfold simp_thms)
  then have "?ks \<noteq> []" by (metis list.set_map image_is_empty empty_iff set_empty)
  then have "?ks ! (pick m mod length ?ks) \<in> set ?ks" by (intro nth_mem) simp
  moreover have "k = ?ks ! (pick m mod length ?ks)" using assms ne by (simp add: coldest_def Let_def)
  ultimately obtain x where x: "(k, x) \<in> set ?xs" "rs_touched x = ?t" by auto
  have "rs_touched x \<le> rs_touched x'" if "fmlookup m k' = Some x'" for k' x'
  proof -
    have "(k', x') \<in> set ?xs" using that by (simp add: set_sorted_fmap)
    then have "rs_touched x' \<in> set (map (rs_touched \<circ> snd) ?xs)" by force
    then show ?thesis using min_list_le x(2) by metis
  qed
  with x(1) show ?thesis by (auto simp: set_sorted_fmap)
qed

text \<open>\<open>while rooms.len() >= max_rooms\<close>: every turn removes a room that is there.\<close>

function evict :: "(rooms \<Rightarrow> nat) \<Rightarrow> nat \<Rightarrow> rooms \<Rightarrow> rooms" where
  "evict pick max_rooms m =
     (if fmlen m < max_rooms then m
      else case coldest pick m of
        None \<Rightarrow> m
      | Some k \<Rightarrow> evict pick max_rooms (fmdrop k m))"
  by pat_completeness auto

lemma fmlen_drop_less: "fmlookup m k = Some x \<Longrightarrow> fmlen (fmdrop k m) < fmlen m"
  using fmlen_0 [of m] by (cases "fmlen m") (auto simp: fmlen_drop)

termination evict
  by (relation "measure (\<lambda>(pick, n, m). fmlen m)") (auto dest!: coldest_Some intro: fmlen_drop_less)

declare evict.simps [simp del]

definition room_slot_of :: "(rooms \<Rightarrow> nat) \<Rightarrow> str \<Rightarrow> instant \<Rightarrow> directory \<Rightarrow> nat \<times> directory" where
  "room_slot_of pick room now d = (case fmlookup (rd_rooms d) room of
       Some x \<Rightarrow> (rs_slot x, d\<lparr>rd_rooms := fmupd room (x\<lparr>rs_touched := now\<rparr>) (rd_rooms d)\<rparr>)
     | None \<Rightarrow>
         (let m = (if 0 < rcc_max_rooms (rd_config d) then evict pick (rcc_max_rooms (rd_config d)) (rd_rooms d)
                   else rd_rooms d);
              (slot, d') = empty_slot (d\<lparr>rd_rooms := m\<rparr>)
          in (slot, d'\<lparr>rd_rooms := fmupd room \<lparr>rs_slot = slot, rs_touched = now\<rparr> (rd_rooms d')\<rparr>)))"

definition global_slot :: "directory \<Rightarrow> nat" where
  "global_slot d = rd_global d"

definition slot_of :: "(rooms \<Rightarrow> nat) \<Rightarrow> lookup \<Rightarrow> instant \<Rightarrow> directory \<Rightarrow> nat \<times> directory" where
  "slot_of pick l now d = (case l of
       LkGlobal \<Rightarrow> (global_slot d, d)
     | LkRoom room \<Rightarrow> room_slot_of pick room now d)"

definition cached_rooms :: "directory \<Rightarrow> nat" where
  "cached_rooms d = fmlen (rd_rooms d)"

section \<open>Invalidation\<close>

definition invalidate_global :: "directory \<Rightarrow> directory" where
  "invalidate_global d = (let (slot, d') = empty_slot d in d'\<lparr>rd_global := slot\<rparr>)"

definition invalidate_room :: "str \<Rightarrow> directory \<Rightarrow> directory" where
  "invalidate_room room d = d\<lparr>rd_rooms := fmdrop room (rd_rooms d)\<rparr>"

definition invalidate_all :: "directory \<Rightarrow> directory" where
  "invalidate_all d = (invalidate_global d)\<lparr>rd_rooms := fmempty\<rparr>"

definition apply_role_change :: "role_change \<Rightarrow> directory \<Rightarrow> directory" where
  "apply_role_change c d =
     (if rc_u c = None \<or> rc_action c = RkChanged then invalidate_all d
      else case rc_scope c of
        Some room \<Rightarrow> invalidate_room room d
      | None \<Rightarrow> invalidate_global d)"

section \<open>Lookups as tasks\<close>

datatype lookup_task =
    LtWaiting nat lookup
  | LtFetching nat lookup instant
  | LtDone lookup instant entry

record role_system =
  sy_dir :: directory
  sy_tasks :: "(nat, lookup_task) fmap"

definition role_system_new :: "role_cache_config \<Rightarrow> role_system" where
  "role_system_new c = \<lparr>sy_dir = directory_new c, sy_tasks = fmempty\<rparr>"

datatype role_op =
    DoAsk nat lookup instant
  | DoLock nat instant
  | DoFetched nat "rest_answers option"
  | DoDrop nat
  | DoInvalidateGlobal
  | DoInvalidateRoom str
  | DoInvalidateAll
  | DoRoleChange role_change

definition ask_step :: "(rooms \<Rightarrow> nat) \<Rightarrow> nat \<Rightarrow> lookup \<Rightarrow> instant \<Rightarrow> role_system \<Rightarrow> role_system" where
  "ask_step pick t l now s =
     (if t |\<in>| fmdom (sy_tasks s) then s
      else (let (slot, d) = slot_of pick l now (sy_dir s) in
        s\<lparr>sy_dir := d, sy_tasks := fmupd t (LtWaiting slot l) (sy_tasks s)\<rparr>))"

definition lock_step :: "nat \<Rightarrow> instant \<Rightarrow> role_system \<Rightarrow> role_system" where
  "lock_step t now s = (let d = sy_dir s in case fmlookup (sy_tasks s) t of
       Some (LtWaiting slot l) \<Rightarrow>
         if slot |\<in>| rd_locked d then s
         else (case cached_entry (rd_config d) now (fmlookup (rd_cells d) slot) of
             Some e \<Rightarrow> s\<lparr>sy_tasks := fmupd t (LtDone l now e) (sy_tasks s)\<rparr>
           | None \<Rightarrow> s\<lparr>sy_dir := d\<lparr>rd_locked := finsert slot (rd_locked d)\<rparr>,
               sy_tasks := fmupd t (LtFetching slot l now) (sy_tasks s)\<rparr>)
     | _ \<Rightarrow> s)"

definition fetched_step :: "nat \<Rightarrow> rest_answers option \<Rightarrow> role_system \<Rightarrow> role_system" where
  "fetched_step t reply s = (let d = sy_dir s in case fmlookup (sy_tasks s) t of
       Some (LtFetching slot l started) \<Rightarrow>
         (let e = fetched_entry l started reply in
          s\<lparr>sy_dir := d\<lparr>rd_cells := fmupd slot e (rd_cells d), rd_locked := rd_locked d |-| {|slot|}\<rparr>,
            sy_tasks := fmupd t (LtDone l started e) (sy_tasks s)\<rparr>)
     | _ \<Rightarrow> s)"

text \<open>A lookup whose future is dropped gives up its place in the queue, or the mutex.\<close>

definition drop_step :: "nat \<Rightarrow> role_system \<Rightarrow> role_system" where
  "drop_step t s = (let d = sy_dir s in case fmlookup (sy_tasks s) t of
       Some (LtFetching slot l started) \<Rightarrow>
         s\<lparr>sy_dir := d\<lparr>rd_locked := rd_locked d |-| {|slot|}\<rparr>, sy_tasks := fmdrop t (sy_tasks s)\<rparr>
     | _ \<Rightarrow> s\<lparr>sy_tasks := fmdrop t (sy_tasks s)\<rparr>)"

text \<open>The moves of a task, by what they do.\<close>

lemma lock_step_cases:
  obtains (wait) n l where "fmlookup (sy_tasks s) t = Some (LtWaiting n l)" "n |\<notin>| rd_locked (sy_dir s)"
      "cached_entry (rd_config (sy_dir s)) now (fmlookup (rd_cells (sy_dir s)) n) = None"
      "lock_step t now s = s\<lparr>sy_dir := sy_dir s\<lparr>rd_locked := finsert n (rd_locked (sy_dir s))\<rparr>,
         sy_tasks := fmupd t (LtFetching n l now) (sy_tasks s)\<rparr>"
    | (hit) n l e where "fmlookup (sy_tasks s) t = Some (LtWaiting n l)"
      "cached_entry (rd_config (sy_dir s)) now (fmlookup (rd_cells (sy_dir s)) n) = Some e"
      "lock_step t now s = s\<lparr>sy_tasks := fmupd t (LtDone l now e) (sy_tasks s)\<rparr>"
    | (same) "lock_step t now s = s"
proof (cases "fmlookup (sy_tasks s) t")
  case (Some \<tau>)
  show thesis
  proof (cases \<tau>)
    case (LtWaiting n l)
    note t = Some [unfolded LtWaiting]
    show thesis
    proof (cases "n |\<in>| rd_locked (sy_dir s)")
      case True
      show thesis by (rule that(3)) (simp add: lock_step_def t True)
    next
      case False
      show thesis
      proof (cases "cached_entry (rd_config (sy_dir s)) now (fmlookup (rd_cells (sy_dir s)) n)")
        case None
        show thesis by (rule that(1) [OF t False None]) (simp add: lock_step_def t False None Let_def)
      next
        case (Some e)
        show thesis by (rule that(2) [OF t Some]) (simp add: lock_step_def t False Some)
      qed
    qed
  qed (use Some that(3) in \<open>simp_all add: lock_step_def\<close>)
qed (use that(3) in \<open>simp add: lock_step_def Let_def\<close>)

lemma fetched_step_cases:
  obtains (stored) n l started where "fmlookup (sy_tasks s) t = Some (LtFetching n l started)"
      "fetched_step t reply s = s\<lparr>sy_dir := sy_dir s\<lparr>
           rd_cells := fmupd n (fetched_entry l started reply) (rd_cells (sy_dir s)),
           rd_locked := rd_locked (sy_dir s) |-| {|n|}\<rparr>,
         sy_tasks := fmupd t (LtDone l started (fetched_entry l started reply)) (sy_tasks s)\<rparr>"
    | (same) "fetched_step t reply s = s" "\<And>n l started. fmlookup (sy_tasks s) t \<noteq> Some (LtFetching n l started)"
proof (cases "fmlookup (sy_tasks s) t")
  case (Some \<tau>)
  show thesis
  proof (cases \<tau>)
    case (LtFetching n l started)
    show thesis
      by (rule that(1) [OF Some [unfolded LtFetching]])
        (simp add: fetched_step_def Some LtFetching Let_def)
  qed (use Some that(2) in \<open>simp_all add: fetched_step_def\<close>)
qed (use that(2) in \<open>simp add: fetched_step_def\<close>)

lemma drop_step_cases:
  obtains (release) n l started where "fmlookup (sy_tasks s) t = Some (LtFetching n l started)"
      "drop_step t s = s\<lparr>sy_dir := sy_dir s\<lparr>rd_locked := rd_locked (sy_dir s) |-| {|n|}\<rparr>,
         sy_tasks := fmdrop t (sy_tasks s)\<rparr>"
    | (forget) "drop_step t s = s\<lparr>sy_tasks := fmdrop t (sy_tasks s)\<rparr>"
      "\<And>n l started. fmlookup (sy_tasks s) t \<noteq> Some (LtFetching n l started)"
proof (cases "fmlookup (sy_tasks s) t")
  case (Some \<tau>)
  show thesis
  proof (cases \<tau>)
    case (LtFetching n l started)
    show thesis
      by (rule that(1) [OF Some [unfolded LtFetching]]) (simp add: drop_step_def Some LtFetching Let_def)
  qed (use Some that(2) in \<open>simp_all add: drop_step_def\<close>)
qed (use that(2) in \<open>simp add: drop_step_def\<close>)

lemma ask_step_cases:
  obtains (ask) n d where "fmlookup (sy_tasks s) t = None" "slot_of pick l now (sy_dir s) = (n, d)"
      "ask_step pick t l now s = s\<lparr>sy_dir := d, sy_tasks := fmupd t (LtWaiting n l) (sy_tasks s)\<rparr>"
    | (same) "ask_step pick t l now s = s"
proof (cases "fmlookup (sy_tasks s) t")
  case None
  obtain n d where "slot_of pick l now (sy_dir s) = (n, d)" by force
  with None that(1) show thesis by (simp add: ask_step_def fmlookup_dom_iff)
next
  case (Some \<tau>)
  then have "t |\<in>| fmdom (sy_tasks s)" by (simp add: fmlookup_dom_iff)
  with that(2) show thesis by (simp add: ask_step_def)
qed

primrec role_step :: "(rooms \<Rightarrow> nat) \<Rightarrow> role_op \<Rightarrow> role_system \<Rightarrow> role_system" where
  "role_step pick (DoAsk t l now) s = ask_step pick t l now s"
| "role_step pick (DoLock t now) s = lock_step t now s"
| "role_step pick (DoFetched t reply) s = fetched_step t reply s"
| "role_step pick (DoDrop t) s = drop_step t s"
| "role_step pick DoInvalidateGlobal s = s\<lparr>sy_dir := invalidate_global (sy_dir s)\<rparr>"
| "role_step pick (DoInvalidateRoom room) s = s\<lparr>sy_dir := invalidate_room room (sy_dir s)\<rparr>"
| "role_step pick DoInvalidateAll s = s\<lparr>sy_dir := invalidate_all (sy_dir s)\<rparr>"
| "role_step pick (DoRoleChange c) s = s\<lparr>sy_dir := apply_role_change c (sy_dir s)\<rparr>"

section \<open>One caller\<close>

text \<open>\<open>entry\<close>, \<open>is_admin\<close>, \<open>is_room_admin\<close> and \<open>verdict\<close> for a caller that meets no other: the
  clock is read when the room is looked up and when the slot is locked.\<close>

record lookup_env =
  le_now :: instant
  le_started :: instant
  le_reply :: "rest_answers option"

definition entry_of :: "lookup_env \<Rightarrow> lookup \<Rightarrow> nat \<Rightarrow> directory \<Rightarrow> entry \<times> directory" where
  "entry_of E l slot d = (case cached_entry (rd_config d) (le_started E) (fmlookup (rd_cells d) slot) of
       Some e \<Rightarrow> (e, d)
     | None \<Rightarrow> (let e = fetched_entry l (le_started E) (le_reply E) in
         (e, d\<lparr>rd_cells := fmupd slot e (rd_cells d)\<rparr>)))"

definition is_admin :: "lookup_env \<Rightarrow> str \<Rightarrow> directory \<Rightarrow> bool \<times> directory" where
  "is_admin E user d = (let slot = global_slot d; (e, d') = entry_of E LkGlobal slot d in (grants e user, d'))"

definition is_room_admin ::
  "(rooms \<Rightarrow> nat) \<Rightarrow> lookup_env \<Rightarrow> str \<Rightarrow> str \<Rightarrow> directory \<Rightarrow> bool \<times> directory" where
  "is_room_admin pick E user room d =
     (let (slot, d1) = room_slot_of pick room (le_now E) d;
          (e, d2) = entry_of E (LkRoom room) slot d1
      in (grants e user, d2))"

definition verdict :: "(rooms \<Rightarrow> nat) \<Rightarrow> (lookup \<Rightarrow> lookup_env) \<Rightarrow> authority \<Rightarrow> str \<Rightarrow> str \<Rightarrow> directory
    \<Rightarrow> filtered option \<times> directory" where
  "verdict pick E a author room d = (case a of
       AuAnyone \<Rightarrow> (None, d)
     | _ \<Rightarrow>
         (let (granted, d') = (case a of
              AuAdmin \<Rightarrow> is_admin (E LkGlobal) author d
            | AuRoomAdmin \<Rightarrow> is_room_admin pick (E (LkRoom room)) author room d
            | _ \<Rightarrow> (let (admin, d1) = is_admin (E LkGlobal) author d in
                if admin then (True, d1) else is_room_admin pick (E (LkRoom room)) author room d1))
          in (if granted then None else Some FdAuthority, d')))"

end
