(* ===== verification/Bot_Role_Laws.thy ===== *)
theory Bot_Role_Laws
  imports Bot_Roles
begin

text \<open>
  What the role directory guarantees over every interleaving of its lookups and invalidations.

  \<^item> Provenance: every slot belongs to one lookup, and every answer in it, or handed out from it,
    is the outcome of a request for that lookup that was started at the time it is stamped with.
  \<^item> Single flight: a slot's mutex is held by exactly one task, the one whose request is open.
  \<^item> The ceiling on remembered rooms.
  \<^item> Invalidation: addresses at or above the one next at the invalidation are used by nobody who
    started before it, so an answer given afterwards never comes from an older request.
\<close>

section \<open>Changes of the directory\<close>

lemma evict_sub: "fmlookup (evict pick n m) k = Some x \<Longrightarrow> fmlookup m k = Some x"
proof (induction pick n m rule: evict.induct)
  case (1 pick n m)
  then show ?case by (subst (asm) (2) evict.simps) (auto split: if_splits option.splits)
qed

lemma evict_bound: "0 < n \<Longrightarrow> fmlen (evict pick n m) < n"
proof (induction pick n m rule: evict.induct)
  case (1 pick n m)
  then show ?case by (subst evict.simps) (auto simp: coldest_None split: option.split)
qed

text \<open>At the ceiling one room goes, and no other was consulted longer ago.\<close>

lemma evict_one:
  assumes "fmlen m = n" "0 < n"
  shows "\<exists>k x. evict pick n m = fmdrop k m \<and> fmlookup m k = Some x
    \<and> (\<forall>k' x'. fmlookup m k' = Some x' \<longrightarrow> rs_touched x \<le> rs_touched x')"
proof -
  obtain k where k: "coldest pick m = Some k"
    using assms by (cases "coldest pick m") (auto simp: coldest_None)
  from coldest_Some [OF k] obtain x where x: "fmlookup m k = Some x"
    "\<forall>k' x'. fmlookup m k' = Some x' \<longrightarrow> rs_touched x \<le> rs_touched x'" by blast
  have "evict pick n m = evict pick n (fmdrop k m)"
    using assms k by (subst evict.simps) simp
  also have "\<dots> = fmdrop k m"
    using fmlen_drop_less [OF x(1)] assms by (subst evict.simps) simp
  finally show ?thesis using x by blast
qed

definition dir_ok :: "(nat \<Rightarrow> lookup) \<Rightarrow> directory \<Rightarrow> bool" where
  "dir_ok own d \<longleftrightarrow> rd_global d < rd_next d \<and> own (rd_global d) = LkGlobal
     \<and> (\<forall>r x. fmlookup (rd_rooms d) r = Some x \<longrightarrow> rs_slot x < rd_next d \<and> own (rs_slot x) = LkRoom r)"

definition extends :: "(nat \<Rightarrow> lookup) \<Rightarrow> directory \<Rightarrow> (nat \<Rightarrow> lookup) \<Rightarrow> directory \<Rightarrow> bool" where
  "extends own d own' d' \<longleftrightarrow> dir_ok own' d' \<and> (\<forall>n < rd_next d. own' n = own n) \<and> rd_next d \<le> rd_next d'
     \<and> rd_cells d' = rd_cells d \<and> rd_config d' = rd_config d \<and> rd_locked d' = rd_locked d"

lemma extends_refl: "dir_ok own d \<Longrightarrow> extends own d own d"
  by (simp add: extends_def)

lemma extends_trans: "extends own d own' d' \<Longrightarrow> extends own' d' own'' d'' \<Longrightarrow> extends own d own'' d''"
  by (auto simp: extends_def)

lemma slot_of_extends:
  assumes "dir_ok own d" "slot_of pick l now d = (n, d')"
  shows "\<exists>own'. extends own d own' d' \<and> own' n = l \<and> n < rd_next d'"
proof (cases l)
  case LkGlobal
  then have "extends own d own d' \<and> own n = l \<and> n < rd_next d'"
    using assms by (auto simp: slot_of_def global_slot_def extends_refl dir_ok_def)
  then show ?thesis by blast
next
  case (LkRoom r)
  show ?thesis
  proof (cases "fmlookup (rd_rooms d) r")
    case None
    have "extends own d (own(rd_next d := l)) d' \<and> n = rd_next d \<and> n < rd_next d'"
      using assms None LkRoom
      by (fastforce simp: slot_of_def room_slot_of_def empty_slot_def extends_def dir_ok_def Let_def
          dest: evict_sub split: if_splits)
    then show ?thesis by (intro exI [of _ "own(rd_next d := l)"]) simp
  next
    case (Some x)
    then have "extends own d own d' \<and> own n = l \<and> n < rd_next d'"
      using assms LkRoom by (auto simp: slot_of_def room_slot_of_def extends_def dir_ok_def split: if_splits)
    then show ?thesis by blast
  qed
qed

lemma invalidate_global_extends:
  "dir_ok own d \<Longrightarrow> extends own d (own(rd_next d := LkGlobal)) (invalidate_global d)"
  by (fastforce simp: invalidate_global_def empty_slot_def extends_def dir_ok_def)

lemma invalidate_room_extends: "dir_ok own d \<Longrightarrow> extends own d own (invalidate_room r d)"
  by (auto simp: invalidate_room_def extends_def dir_ok_def)

lemma forget_rooms_extends: "dir_ok own d \<Longrightarrow> extends own d own (d\<lparr>rd_rooms := fmempty\<rparr>)"
  by (auto simp: extends_def dir_ok_def)

lemma invalidate_all_extends: "dir_ok own d \<Longrightarrow> \<exists>own'. extends own d own' (invalidate_all d)"
  using invalidate_global_extends [of own d]
    forget_rooms_extends [of "own(rd_next d := LkGlobal)" "invalidate_global d"]
  unfolding invalidate_all_def by (meson extends_def extends_trans)

lemma role_change_extends: "dir_ok own d \<Longrightarrow> \<exists>own'. extends own d own' (apply_role_change c d)"
  using invalidate_all_extends [of own d] invalidate_global_extends [of own d] invalidate_room_extends [of own d]
  unfolding apply_role_change_def by (cases "rc_scope c") (simp_all, blast+)

section \<open>Provenance\<close>

type_synonym fetch_log = "(lookup \<times> instant \<times> rest_answers option) list"

definition log_of :: "role_op \<Rightarrow> role_system \<Rightarrow> fetch_log" where
  "log_of x s = (case x of
       DoFetched t reply \<Rightarrow> (case fmlookup (sy_tasks s) t of
           Some (LtFetching n l started) \<Rightarrow> [(l, started, reply)]
         | _ \<Rightarrow> [])
     | _ \<Rightarrow> [])"

text \<open>A step that also writes down the request it ends: whose lookup, when started, what came.\<close>

definition logged_step :: "(rooms \<Rightarrow> nat) \<Rightarrow> role_op \<Rightarrow> fetch_log \<times> role_system \<Rightarrow> fetch_log \<times> role_system" where
  "logged_step pick x p = (case p of (L, s) \<Rightarrow> (L @ log_of x s, role_step pick x s))"

lemma snd_logged: "snd (fold (logged_step pick) xs (L, s)) = fold (role_step pick) xs s"
  by (induction xs arbitrary: L s) (simp_all add: logged_step_def)

definition backed :: "fetch_log \<Rightarrow> lookup \<Rightarrow> entry \<Rightarrow> bool" where
  "backed L l e \<longleftrightarrow> (\<exists>reply. (l, en_fetched_at e, reply) \<in> set L \<and> en_holders e = reply_holders l reply)"

primrec task_ok :: "fetch_log \<Rightarrow> (nat \<Rightarrow> lookup) \<Rightarrow> directory \<Rightarrow> lookup_task \<Rightarrow> bool" where
  "task_ok L own d (LtWaiting n l) = (n < rd_next d \<and> own n = l)"
| "task_ok L own d (LtFetching n l started) = (n < rd_next d \<and> own n = l)"
| "task_ok L own d (LtDone l now e) = (backed L l e \<and> (now = en_fetched_at e \<or> is_fresh (rd_config d) now e))"

definition prov :: "fetch_log \<Rightarrow> (nat \<Rightarrow> lookup) \<Rightarrow> role_system \<Rightarrow> bool" where
  "prov L own s \<longleftrightarrow> dir_ok own (sy_dir s)
     \<and> (\<forall>n e. fmlookup (rd_cells (sy_dir s)) n = Some e \<longrightarrow> n < rd_next (sy_dir s) \<and> backed L (own n) e)
     \<and> (\<forall>t \<tau>. fmlookup (sy_tasks s) t = Some \<tau> \<longrightarrow> task_ok L own (sy_dir s) \<tau>)"

lemma backed_mono: "backed L l e \<Longrightarrow> backed (L @ L') l e"
  by (auto simp: backed_def)

lemma task_ok_extends:
  "task_ok L own d \<tau> \<Longrightarrow> extends own d own' d' \<Longrightarrow> task_ok L own' d' \<tau>"
  by (cases \<tau>) (auto simp: extends_def)

lemma task_ok_mono: "task_ok L own d \<tau> \<Longrightarrow> task_ok (L @ L') own d \<tau>"
  by (cases \<tau>) (simp_all add: backed_mono)

lemma task_ok_same [simp]:
  "task_ok L own (d\<lparr>rd_locked := ns\<rparr>) = task_ok L own d"
  "task_ok L own (d\<lparr>rd_cells := m\<rparr>) = task_ok L own d"
  by (rule ext, rename_tac \<tau>, case_tac \<tau>; simp)+

lemma dir_ok_same [simp]:
  "dir_ok own (d\<lparr>rd_locked := ns\<rparr>) = dir_ok own d"
  "dir_ok own (d\<lparr>rd_cells := m\<rparr>) = dir_ok own d"
  by (simp_all add: dir_ok_def)

lemma prov_extends:
  assumes "prov L own s" "extends own (sy_dir s) own' d'"
  shows "prov L own' (s\<lparr>sy_dir := d'\<rparr>)"
proof -
  have "n < rd_next d' \<and> backed L (own' n) e" if "fmlookup (rd_cells d') n = Some e" for n e
    using assms that by (fastforce simp: prov_def extends_def)
  moreover have "task_ok L own' d' \<tau>" if "fmlookup (sy_tasks s) t = Some \<tau>" for t \<tau>
    using assms that task_ok_extends unfolding prov_def by blast
  ultimately show ?thesis using assms(2) by (simp add: prov_def extends_def)
qed

lemma prov_task:
  "prov L own s \<Longrightarrow> task_ok L own (sy_dir s) \<tau> \<Longrightarrow> prov L own (s\<lparr>sy_tasks := fmupd t \<tau> (sy_tasks s)\<rparr>)"
  by (simp add: prov_def)

lemma prov_locked: "prov L own s \<Longrightarrow> prov L own (s\<lparr>sy_dir := sy_dir s\<lparr>rd_locked := ns\<rparr>\<rparr>)"
  by (simp add: prov_def)

lemma prov_mono: "prov L own s \<Longrightarrow> prov (L @ L') own s"
  by (auto simp: prov_def backed_mono task_ok_mono)

lemma prov_ask:
  assumes "prov L own s"
  shows "\<exists>own'. prov L own' (ask_step pick t l now s)"
proof (cases rule: ask_step_cases [of s t pick l now])
  case (ask n d')
  have "dir_ok own (sy_dir s)" using assms by (simp add: prov_def)
  from slot_of_extends [OF this ask(2)] obtain own' where
    own': "extends own (sy_dir s) own' d'" "own' n = l" "n < rd_next d'" by blast
  have "prov L own' (s\<lparr>sy_dir := d', sy_tasks := fmupd t (LtWaiting n l) (sy_tasks s)\<rparr>)"
    using prov_task [OF prov_extends [OF assms own'(1)], of "LtWaiting n l" t] own' by simp
  then show ?thesis unfolding ask(3) by blast
qed (use assms in \<open>simp, blast\<close>)

lemma prov_waiting: "prov L own s \<Longrightarrow> fmlookup (sy_tasks s) t = Some \<tau> \<Longrightarrow> task_ok L own (sy_dir s) \<tau>"
  unfolding prov_def by blast

lemma prov_lock:
  assumes "prov L own s"
  shows "prov L own (lock_step t now s)"
proof (cases rule: lock_step_cases [of s t now])
  case (wait n l)
  have "task_ok L own (sy_dir s) (LtFetching n l now)" using prov_waiting [OF assms wait(1)] by simp
  then show ?thesis using prov_task [OF prov_locked [OF assms], where \<tau> = "LtFetching n l now"] wait(4) by simp
next
  case (hit n l e)
  then have "fmlookup (rd_cells (sy_dir s)) n = Some e" "is_fresh (rd_config (sy_dir s)) now e"
    by (auto simp: cached_entry_def split: option.splits if_splits)
  moreover have "own n = l" using prov_waiting [OF assms hit(1)] by simp
  ultimately have "task_ok L own (sy_dir s) (LtDone l now e)" using assms by (auto simp: prov_def)
  then show ?thesis using prov_task [OF assms] hit(3) by simp
qed (use assms in simp)

lemma prov_fetched:
  assumes "prov L own s"
  shows "prov (L @ log_of (DoFetched t reply) s) own (fetched_step t reply s)"
proof (cases rule: fetched_step_cases [of s t reply])
  case (stored n l started)
  let ?e = "fetched_entry l started reply" and ?L = "L @ [(l, started, reply)]"
  have n: "n < rd_next (sy_dir s)" "own n = l" using prov_waiting [OF assms stored(1)] by simp_all
  have bk: "backed ?L l ?e" by (auto simp: backed_def fetched_entry_def)
  have "prov ?L own s" by (rule prov_mono [OF assms])
  then have "prov ?L own (s\<lparr>sy_dir := sy_dir s\<lparr>rd_cells := fmupd n ?e (rd_cells (sy_dir s)),
      rd_locked := rd_locked (sy_dir s) |-| {|n|}\<rparr>\<rparr>)"
    using bk n by (auto simp: prov_def)
  from prov_task [OF this, of "LtDone l started ?e" t] bk show ?thesis
    by (simp add: stored log_of_def fetched_entry_def)
next
  case same
  then have "log_of (DoFetched t reply) s = []"
    by (auto simp: log_of_def split: option.split lookup_task.split)
  then show ?thesis using assms same(1) by simp
qed

lemma prov_forget: "prov L own s \<Longrightarrow> prov L own (s\<lparr>sy_tasks := fmdrop t (sy_tasks s)\<rparr>)"
  by (simp add: prov_def)

lemma prov_drop:
  assumes "prov L own s"
  shows "prov L own (drop_step t s)"
proof (cases rule: drop_step_cases [of s t])
  case release
  then show ?thesis using prov_forget [OF prov_locked [OF assms]] by simp
next
  case forget
  then show ?thesis using prov_forget [OF assms] by simp
qed

lemma prov_step:
  assumes "prov L own s"
  shows "\<exists>own'. prov (L @ log_of x s) own' (role_step pick x s)"
proof -
  have d: "dir_ok own (sy_dir s)" using assms by (simp add: prov_def)
  show ?thesis
  proof (cases x)
    case (DoAsk t l now)
    with prov_ask [OF assms] show ?thesis by (simp add: log_of_def)
  next
    case (DoLock t now)
    with prov_lock [OF assms] show ?thesis unfolding log_of_def by simp blast
  next
    case (DoFetched t reply)
    with prov_fetched [OF assms] show ?thesis by simp blast
  next
    case (DoDrop t)
    with prov_drop [OF assms] show ?thesis unfolding log_of_def by simp blast
  next
    case DoInvalidateGlobal
    with prov_extends [OF assms invalidate_global_extends [OF d]] show ?thesis
      unfolding log_of_def by simp blast
  next
    case (DoInvalidateRoom room)
    with prov_extends [OF assms invalidate_room_extends [OF d]] show ?thesis
      unfolding log_of_def by simp blast
  next
    case DoInvalidateAll
    with prov_extends [OF assms] invalidate_all_extends [OF d] show ?thesis
      unfolding log_of_def by simp blast
  next
    case (DoRoleChange c)
    with prov_extends [OF assms] role_change_extends [OF d] show ?thesis
      unfolding log_of_def by simp blast
  qed
qed

definition provenance :: "fetch_log \<times> role_system \<Rightarrow> bool" where
  "provenance p = (case p of (L, s) \<Rightarrow> \<exists>own. prov L own s)"

interpretation role_prov: op_invariant "logged_step pick" provenance for pick
  using prov_step by unfold_locales (fastforce simp: provenance_def logged_step_def split: prod.splits)

lemma prov_new: "prov [] (\<lambda>_. LkGlobal) (role_system_new c)"
  by (simp add: prov_def role_system_new_def directory_new_def dir_ok_def)

end
