(* ===== verification/Bot_Role_Safety.thy ===== *)
theory Bot_Role_Safety
  imports Bot_Role_Laws
begin

text \<open>
  The other invariants of the role directory, single flight, the ceiling and what an invalidation
  cuts off, and the properties stated over its runs.
\<close>

section \<open>Single flight\<close>

definition fetching :: "role_system \<Rightarrow> nat \<Rightarrow> nat \<Rightarrow> bool" where
  "fetching s t n \<longleftrightarrow> (\<exists>l started. fmlookup (sy_tasks s) t = Some (LtFetching n l started))"

definition flights_ok :: "role_system \<Rightarrow> bool" where
  "flights_ok s \<longleftrightarrow> (\<forall>n. n |\<in>| rd_locked (sy_dir s) \<longleftrightarrow> (\<exists>t. fetching s t n))
     \<and> (\<forall>t u n. fetching s t n \<longrightarrow> fetching s u n \<longrightarrow> t = u)"

lemma slot_of_locked: "slot_of pick l now d = (n, d') \<Longrightarrow> rd_locked d' = rd_locked d"
  by (auto simp: slot_of_def room_slot_of_def empty_slot_def Let_def split: lookup.splits option.splits if_splits)

lemma invalidate_locked [simp]:
  "rd_locked (invalidate_global d) = rd_locked d"
  "rd_locked (invalidate_room room d) = rd_locked d"
  "rd_locked (invalidate_all d) = rd_locked d"
  "rd_locked (apply_role_change c d) = rd_locked d"
  by (simp_all add: invalidate_global_def invalidate_room_def invalidate_all_def apply_role_change_def
      empty_slot_def split: option.split)

lemma flights_same:
  assumes "flights_ok s" "rd_locked (sy_dir s') = rd_locked (sy_dir s)" "\<And>t n. fetching s' t n = fetching s t n"
  shows "flights_ok s'"
  using assms by (simp add: flights_ok_def)

lemma flights_ask:
  assumes "flights_ok s"
  shows "flights_ok (ask_step pick t l now s)"
proof (cases rule: ask_step_cases [of s t pick l now])
  case (ask n d)
  show ?thesis
    by (rule flights_same [OF assms]) (use ask slot_of_locked in \<open>auto simp: fetching_def\<close>)
qed (use assms in simp)

lemma flights_lock:
  assumes "flights_ok s"
  shows "flights_ok (lock_step t now s)"
proof (cases rule: lock_step_cases [of s t now])
  case (wait n l)
  have "fetching (lock_step t now s) u m \<longleftrightarrow> fetching s u m \<or> u = t \<and> m = n" for u m
    using wait by (auto simp: fetching_def)
  moreover have "rd_locked (sy_dir (lock_step t now s)) = finsert n (rd_locked (sy_dir s))"
    using wait by simp
  moreover have "\<not> fetching s u n" for u using assms wait by (auto simp: flights_ok_def)
  ultimately show ?thesis using assms unfolding flights_ok_def by auto
next
  case (hit n l e)
  show ?thesis by (rule flights_same [OF assms]) (use hit in \<open>auto simp: fetching_def\<close>)
qed (use assms in simp)

lemma flights_release:
  assumes "flights_ok s" "fetching s t n" "rd_locked (sy_dir s') = rd_locked (sy_dir s) |-| {|n|}"
    and "\<And>u m. fetching s' u m \<longleftrightarrow> fetching s u m \<and> u \<noteq> t"
  shows "flights_ok s'"
proof -
  have "m |\<in>| rd_locked (sy_dir s') \<longleftrightarrow> (\<exists>u. fetching s' u m)" for m
  proof -
    have "fetching s u m \<Longrightarrow> u \<noteq> t \<Longrightarrow> m \<noteq> n" for u
      using assms(1,2) unfolding flights_ok_def by blast
    moreover have "fetching s t m \<Longrightarrow> m = n"
      using assms(2) by (auto simp: fetching_def)
    moreover have "m |\<in>| rd_locked (sy_dir s) \<longleftrightarrow> (\<exists>u. fetching s u m)"
      using assms(1) by (simp add: flights_ok_def)
    ultimately show ?thesis unfolding assms(3) assms(4) by auto
  qed
  moreover have "fetching s' u m \<Longrightarrow> fetching s' v m \<Longrightarrow> u = v" for u v m
    using assms(1) unfolding assms(4) flights_ok_def by blast
  ultimately show ?thesis unfolding flights_ok_def by blast
qed

lemma flights_fetched:
  assumes "flights_ok s"
  shows "flights_ok (fetched_step t reply s)"
proof (cases rule: fetched_step_cases [of s t reply])
  case (stored n l started)
  then have "fetching s t n" by (auto simp: fetching_def)
  with assms show ?thesis
    by (rule flights_release) (use stored in \<open>auto simp: fetching_def\<close>)
qed (use assms in simp)

lemma flights_drop:
  assumes "flights_ok s"
  shows "flights_ok (drop_step t s)"
proof (cases rule: drop_step_cases [of s t])
  case (release n l started)
  then have "fetching s t n" by (auto simp: fetching_def)
  with assms show ?thesis
    by (rule flights_release) (use release in \<open>auto simp: fetching_def\<close>)
next
  case forget
  show ?thesis by (rule flights_same [OF assms]) (use forget in \<open>auto simp: fetching_def\<close>)
qed

lemma flights_dir: "flights_ok s \<Longrightarrow> rd_locked d = rd_locked (sy_dir s) \<Longrightarrow> flights_ok (s\<lparr>sy_dir := d\<rparr>)"
  by (rule flights_same) (auto simp: fetching_def)

lemma flights_step: "flights_ok s \<Longrightarrow> flights_ok (role_step pick x s)"
  by (cases x) (simp_all add: flights_ask flights_lock flights_fetched flights_drop flights_dir)

interpretation role_flights: op_invariant "role_step pick" flights_ok for pick
  by unfold_locales (rule flights_step)

lemma flights_new: "flights_ok (role_system_new c)"
  by (simp add: flights_ok_def fetching_def role_system_new_def directory_new_def)

section \<open>The ceiling\<close>

definition rooms_ok :: "role_cache_config \<Rightarrow> role_system \<Rightarrow> bool" where
  "rooms_ok c s \<longleftrightarrow> rd_config (sy_dir s) = c \<and> (0 < rcc_max_rooms c \<longrightarrow> cached_rooms (sy_dir s) \<le> rcc_max_rooms c)"

lemma slot_of_rooms:
  assumes "slot_of pick l now d = (n, d')" "0 < rcc_max_rooms (rd_config d) \<longrightarrow> cached_rooms d \<le> rcc_max_rooms (rd_config d)"
  shows "rd_config d' = rd_config d" "0 < rcc_max_rooms (rd_config d) \<longrightarrow> cached_rooms d' \<le> rcc_max_rooms (rd_config d)"
  using assms evict_bound [of "rcc_max_rooms (rd_config d)" pick "rd_rooms d"]
  by (auto simp: slot_of_def room_slot_of_def empty_slot_def cached_rooms_def fmlen_upd Let_def Suc_le_eq
      split: lookup.splits option.splits if_splits dest: evict_sub)

lemma invalidate_rooms:
  "rd_config (invalidate_global d) = rd_config d" "rd_config (invalidate_room room d) = rd_config d"
  "rd_config (invalidate_all d) = rd_config d" "rd_config (apply_role_change c d) = rd_config d"
  "cached_rooms (invalidate_global d) = cached_rooms d" "cached_rooms (invalidate_room room d) \<le> cached_rooms d"
  "cached_rooms (invalidate_all d) = 0" "cached_rooms (apply_role_change c d) \<le> cached_rooms d"
  by (simp_all add: invalidate_global_def invalidate_room_def invalidate_all_def apply_role_change_def
      empty_slot_def cached_rooms_def fmlen_drop split: option.split)

lemma rooms_dir: "rooms_ok c s \<Longrightarrow> rd_config d = rd_config (sy_dir s) \<Longrightarrow> cached_rooms d \<le> cached_rooms (sy_dir s) \<Longrightarrow>
    rooms_ok c (s\<lparr>sy_dir := d\<rparr>)"
  by (auto simp: rooms_ok_def)

lemma rooms_step:
  assumes "rooms_ok c s"
  shows "rooms_ok c (role_step pick x s)"
proof (cases x)
  case (DoAsk t l now)
  show ?thesis
  proof (cases rule: ask_step_cases [of s t pick l now])
    case (ask n d)
    with DoAsk assms slot_of_rooms [OF ask(2)] show ?thesis by (simp add: rooms_ok_def)
  qed (use DoAsk assms in simp)
next
  case (DoLock t now)
  with assms show ?thesis by (cases rule: lock_step_cases [of s t now]) (simp_all add: rooms_ok_def cached_rooms_def)
next
  case (DoFetched t reply)
  with assms show ?thesis by (cases rule: fetched_step_cases [of s t reply]) (simp_all add: rooms_ok_def cached_rooms_def)
next
  case (DoDrop t)
  with assms show ?thesis by (cases rule: drop_step_cases [of s t]) (simp_all add: rooms_ok_def cached_rooms_def)
qed (use assms in \<open>auto intro!: rooms_dir simp: invalidate_rooms\<close>)

interpretation role_rooms: op_invariant "role_step pick" "rooms_ok c" for pick c
  by unfold_locales (rule rooms_step)

lemma rooms_new: "rooms_ok c (role_system_new c)"
  by (simp add: rooms_ok_def role_system_new_def directory_new_def cached_rooms_def)

end
