(* ===== verification/Bot_Role_Fresh.thy ===== *)
theory Bot_Role_Fresh
  imports Bot_Role_Safety
begin

text \<open>
  What an invalidation cuts off, and the properties of the role directory over its runs.

  \<open>cut A T N i s\<close>: for the lookups that \<open>A\<close> accepts no address below \<open>N\<close> is reachable in \<open>s\<close>, no
  task but those of \<open>T\<close> waits or asks at one, and no request at an address from \<open>N\<close> on was started
  before the instant \<open>i\<close>.
\<close>

section \<open>What an invalidation cuts off\<close>

primrec affects :: "role_op \<Rightarrow> lookup \<Rightarrow> bool" where
  "affects (DoAsk t k now) l = False"
| "affects (DoLock t now) l = False"
| "affects (DoFetched t reply) l = False"
| "affects (DoDrop t) l = False"
| "affects DoInvalidateGlobal l = (l = LkGlobal)"
| "affects (DoInvalidateRoom room) l = (l = LkRoom room)"
| "affects DoInvalidateAll l = True"
| "affects (DoRoleChange c) l =
     (rc_u c = None \<or> rc_action c = RkChanged
      \<or> l = (case rc_scope c of Some room \<Rightarrow> LkRoom room | None \<Rightarrow> LkGlobal))"

primrec reads_from :: "instant \<Rightarrow> role_op \<Rightarrow> bool" where
  "reads_from i (DoAsk t l now) = True"
| "reads_from i (DoLock t now) = (i \<le> now)"
| "reads_from i (DoFetched t reply) = True"
| "reads_from i (DoDrop t) = True"
| "reads_from i DoInvalidateGlobal = True"
| "reads_from i (DoInvalidateRoom room) = True"
| "reads_from i DoInvalidateAll = True"
| "reads_from i (DoRoleChange c) = True"

primrec task_cut :: "(lookup \<Rightarrow> bool) \<Rightarrow> nat \<Rightarrow> instant \<Rightarrow> bool \<Rightarrow> lookup_task \<Rightarrow> bool" where
  "task_cut A N i new (LtWaiting n l) = (new \<and> A l \<longrightarrow> N \<le> n)"
| "task_cut A N i new (LtFetching n l started) = ((N \<le> n \<longrightarrow> i \<le> started) \<and> (new \<and> A l \<longrightarrow> N \<le> n))"
| "task_cut A N i new (LtDone l now e) = (new \<and> A l \<longrightarrow> i \<le> en_fetched_at e)"

definition dir_cut :: "(lookup \<Rightarrow> bool) \<Rightarrow> nat \<Rightarrow> directory \<Rightarrow> bool" where
  "dir_cut A N d \<longleftrightarrow> N \<le> rd_next d \<and> (A LkGlobal \<longrightarrow> N \<le> rd_global d)
     \<and> (\<forall>r x. A (LkRoom r) \<longrightarrow> fmlookup (rd_rooms d) r = Some x \<longrightarrow> N \<le> rs_slot x)"

definition cut :: "(lookup \<Rightarrow> bool) \<Rightarrow> nat fset \<Rightarrow> nat \<Rightarrow> instant \<Rightarrow> role_system \<Rightarrow> bool" where
  "cut A T N i s \<longleftrightarrow> dir_cut A N (sy_dir s)
     \<and> (\<forall>n e. fmlookup (rd_cells (sy_dir s)) n = Some e \<longrightarrow> N \<le> n \<longrightarrow> i \<le> en_fetched_at e)
     \<and> (\<forall>t \<tau>. fmlookup (sy_tasks s) t = Some \<tau> \<longrightarrow> task_cut A N i (t |\<notin>| T) \<tau>)"

lemma dir_cut_same [simp]:
  "dir_cut A N (d\<lparr>rd_locked := ns\<rparr>) = dir_cut A N d"
  "dir_cut A N (d\<lparr>rd_cells := m\<rparr>) = dir_cut A N d"
  by (simp_all add: dir_cut_def)

lemma slot_of_cut:
  assumes "dir_cut A N d" "slot_of pick l now d = (n, d')"
  shows "dir_cut A N d'" and "A l \<longrightarrow> N \<le> n" and "rd_cells d' = rd_cells d"
proof -
  have "dir_cut A N d' \<and> (A l \<longrightarrow> N \<le> n) \<and> rd_cells d' = rd_cells d"
  proof (cases l)
    case LkGlobal
    then show ?thesis using assms by (auto simp: slot_of_def global_slot_def dir_cut_def)
  next
    case (LkRoom r)
    show ?thesis
    proof (cases "fmlookup (rd_rooms d) r")
      case None
      then show ?thesis using assms LkRoom
        by (auto simp: slot_of_def room_slot_of_def empty_slot_def dir_cut_def Let_def
            dest!: evict_sub split: if_splits)
    next
      case (Some x)
      then show ?thesis using assms LkRoom
        by (auto simp: slot_of_def room_slot_of_def dir_cut_def split: if_splits)
    qed
  qed
  then show "dir_cut A N d'" "A l \<longrightarrow> N \<le> n" "rd_cells d' = rd_cells d" by simp_all
qed

lemma invalidate_cut:
  assumes "dir_cut A N d"
  shows "dir_cut A N (invalidate_global d)" "dir_cut A N (invalidate_room room d)"
    "dir_cut A N (invalidate_all d)" "dir_cut A N (apply_role_change c d)"
  using assms
  by (auto simp: invalidate_global_def invalidate_room_def invalidate_all_def apply_role_change_def
      empty_slot_def dir_cut_def split: option.split)

lemma invalidate_cells [simp]:
  "rd_cells (invalidate_global d) = rd_cells d" "rd_cells (invalidate_room room d) = rd_cells d"
  "rd_cells (invalidate_all d) = rd_cells d" "rd_cells (apply_role_change c d) = rd_cells d"
  by (simp_all add: invalidate_global_def invalidate_room_def invalidate_all_def apply_role_change_def
      empty_slot_def split: option.split)

lemma cut_dir: "cut A T N i s \<Longrightarrow> dir_cut A N d \<Longrightarrow> rd_cells d = rd_cells (sy_dir s) \<Longrightarrow> cut A T N i (s\<lparr>sy_dir := d\<rparr>)"
  by (simp add: cut_def)

lemma cut_task:
  "cut A T N i s \<Longrightarrow> task_cut A N i (t |\<notin>| T) \<tau> \<Longrightarrow> cut A T N i (s\<lparr>sy_tasks := fmupd t \<tau> (sy_tasks s)\<rparr>)"
  by (simp add: cut_def)

lemma cut_of_task: "cut A T N i s \<Longrightarrow> fmlookup (sy_tasks s) t = Some \<tau> \<Longrightarrow> task_cut A N i (t |\<notin>| T) \<tau>"
  unfolding cut_def by blast

lemma cut_of_cell: "cut A T N i s \<Longrightarrow> fmlookup (rd_cells (sy_dir s)) n = Some e \<Longrightarrow> N \<le> n \<Longrightarrow> i \<le> en_fetched_at e"
  unfolding cut_def by blast

lemma cut_forget: "cut A T N i s \<Longrightarrow> cut A T N i (s\<lparr>sy_tasks := fmdrop t (sy_tasks s)\<rparr>)"
  by (simp add: cut_def)

lemma cut_locked: "cut A T N i s \<Longrightarrow> cut A T N i (s\<lparr>sy_dir := sy_dir s\<lparr>rd_locked := ns\<rparr>\<rparr>)"
  by (simp add: cut_def)

lemma cut_lock:
  assumes c: "cut A T N i s" and now: "i \<le> now"
  shows "cut A T N i (lock_step t now s)"
proof (cases rule: lock_step_cases [of s t now])
  case (wait n l)
  have "task_cut A N i (t |\<notin>| T) (LtFetching n l now)" using cut_of_task [OF c wait(1)] now by simp
  then show ?thesis using cut_task [OF cut_locked [OF c], where \<tau> = "LtFetching n l now"] wait(4) by simp
next
  case (hit n l e)
  then have "fmlookup (rd_cells (sy_dir s)) n = Some e"
    by (auto simp: cached_entry_def split: option.splits if_splits)
  then have "task_cut A N i (t |\<notin>| T) (LtDone l now e)"
    using cut_of_task [OF c hit(1)] cut_of_cell [OF c] by simp
  then show ?thesis using cut_task [OF c] hit(3) by simp
qed (use c in simp)

lemma cut_fetched:
  assumes c: "cut A T N i s"
  shows "cut A T N i (fetched_step t reply s)"
proof (cases rule: fetched_step_cases [of s t reply])
  case (stored n l started)
  let ?e = "fetched_entry l started reply"
  have t: "task_cut A N i (t |\<notin>| T) (LtFetching n l started)" by (rule cut_of_task [OF c stored(1)])
  have "cut A T N i (s\<lparr>sy_dir := sy_dir s\<lparr>rd_cells := fmupd n ?e (rd_cells (sy_dir s)),
      rd_locked := rd_locked (sy_dir s) |-| {|n|}\<rparr>\<rparr>)"
    using c t by (simp add: cut_def fetched_entry_def)
  from cut_task [OF this, of t "LtDone l started ?e"] t show ?thesis
    by (simp add: stored fetched_entry_def)
qed (use c in simp)

lemma cut_drop:
  assumes c: "cut A T N i s"
  shows "cut A T N i (drop_step t s)"
proof (cases rule: drop_step_cases [of s t])
  case release
  then show ?thesis using cut_forget [OF cut_locked [OF c]] by simp
qed (use cut_forget [OF c] in simp)

lemma cut_ask:
  assumes c: "cut A T N i s"
  shows "cut A T N i (ask_step pick t l now s)"
proof (cases rule: ask_step_cases [of s t pick l now])
  case (ask n d)
  have d: "dir_cut A N (sy_dir s)" using c by (simp add: cut_def)
  note d' = slot_of_cut [OF d ask(2)]
  have "cut A T N i (s\<lparr>sy_dir := d\<rparr>)" by (rule cut_dir [OF c d'(1,3)])
  from cut_task [OF this, of t "LtWaiting n l"] d'(2) show ?thesis by (simp add: ask(3))
qed (use c in simp)

lemma cut_step:
  assumes c: "cut A T N i s" and r: "reads_from i x"
  shows "cut A T N i (role_step pick x s)"
proof -
  have "dir_cut A N (sy_dir s)" using c by (simp add: cut_def)
  note d = cut_dir [OF c] invalidate_cut [OF this]
  show ?thesis
    using r by (cases x) (simp_all add: c d cut_ask cut_lock cut_fetched cut_drop)
qed

interpretation role_cut: guarded_invariant "role_step pick" "\<lambda>x s. reads_from i x" "cut A T N i" for pick i A T N
  by unfold_locales (rule cut_step)

lemma guarded_all: "list_all g xs \<Longrightarrow> guarded step (\<lambda>x s. g x) xs s"
  by (induction xs arbitrary: s) simp_all

lemma cut_begins:
  assumes p: "prov L own s" and a: "affects x l"
  shows "cut (affects x) (fmdom (sy_tasks s)) (rd_next (sy_dir s)) i (role_step pick x s)"
proof -
  have d: "dir_cut (affects x) (rd_next (sy_dir s)) (sy_dir (role_step pick x s))"
    using a by (cases x) (auto simp: dir_cut_def invalidate_global_def invalidate_room_def invalidate_all_def
        apply_role_change_def empty_slot_def split: option.splits)
  have same: "sy_tasks (role_step pick x s) = sy_tasks s"
    "rd_cells (sy_dir (role_step pick x s)) = rd_cells (sy_dir s)"
    using a by (cases x; simp)+
  have cells: "n < rd_next (sy_dir s)" if "fmlookup (rd_cells (sy_dir s)) n = Some e" for n e
    using p that unfolding prov_def by blast
  have "task_cut (affects x) (rd_next (sy_dir s)) i (t |\<notin>| fmdom (sy_tasks s)) \<tau>"
    if "fmlookup (sy_tasks s) t = Some \<tau>" for t \<tau>
    using prov_waiting [OF p that] that by (cases \<tau>) (auto simp: fmlookup_dom_iff)
  with d cells show ?thesis unfolding cut_def same by (meson not_le)
qed

section \<open>Reachable states\<close>

lemma provenance_run:
  "fold (logged_step pick) xs ([], role_system_new c) = (L, s) \<Longrightarrow> \<exists>own. prov L own s"
  using role_prov.run_inv [of "([], role_system_new c)" pick xs] prov_new [of c]
  by (auto simp: provenance_def)

lemma prov_run: "\<exists>L own. prov L own (fold (role_step pick) xs (role_system_new c))"
proof -
  obtain L s where "fold (logged_step pick) xs ([], role_system_new c) = (L, s)" by force
  with provenance_run [OF this] snd_logged [of pick xs "[]" "role_system_new c"] show ?thesis by auto
qed

lemma flights_run: "flights_ok (fold (role_step pick) xs (role_system_new c))"
  by (rule role_flights.run_inv [OF flights_new])

lemma rooms_run: "rooms_ok c (fold (role_step pick) xs (role_system_new c))"
  by (rule role_rooms.run_inv [OF rooms_new])

end
