(* ===== verification/Model_Catalog.thy ===== *)
theory Model_Catalog
  imports Rs_Prelude
begin

text \<open>
  The catalog of streams, the generated module \<open>catalog\<close> of \<open>rocketsocket-model/src/event.rs\<close>:
  which pairs of stream and event key the server declares, with the arities and the declared
  type of their arguments.  An event key is looked up in declaration order, because a stream may
  declare a key that matches everything after its specific ones.
\<close>

section \<open>Patterns of keys\<close>

datatype key_pattern = KpLiteral str | KpSuffix str | KpPrefix str | KpAny

fun key_matches :: "key_pattern \<Rightarrow> str \<Rightarrow> bool" where
  "key_matches (KpLiteral v) key = (key = v)"
| "key_matches (KpSuffix suffix) key = (case split_once (CHR ''/'') key of
       Some (head, rest) \<Rightarrow> head \<noteq> [] \<and> rest = suffix
     | None \<Rightarrow> False)"
| "key_matches (KpPrefix prefix) key = (case split_once (CHR ''/'') key of
       Some (head, rest) \<Rightarrow> head = prefix \<and> rest \<noteq> []
     | None \<Rightarrow> False)"
| "key_matches KpAny key = True"

datatype event_spec = event_spec (es_key: key_pattern) (es_arities: "nat list") (es_variadic: bool) (es_args: str)

record stream_spec =
  sp_name :: str
  sp_events :: "event_spec list"

definition spec_event :: "stream_spec \<Rightarrow> str \<Rightarrow> event_spec option" where
  "spec_event s key = find (\<lambda>e. key_matches (es_key e) key) (sp_events s)"

section \<open>The declared streams\<close>

definition roles_spec :: stream_spec where
  "roles_spec = \<lparr>sp_name = ''roles'', sp_events = [
     event_spec (KpLiteral ''roles'') [1] False
       ''[ IRole & { type: 'inserted' | 'updated' | 'removed' | 'changed'; }, ]'']\<rparr>"

definition notify_room_spec :: stream_spec where
  "notify_room_spec = \<lparr>sp_name = ''notify-room'', sp_events = [
     event_spec (KpSuffix ''user-activity'') [2] False
       ''[username: string, activities: string[]]'',
     event_spec (KpSuffix ''typing'') [2] False
       ''[username: string, typing: boolean]'',
     event_spec (KpSuffix ''deleteMessageBulk'') [1] False
       ''[ args: { rid: IMessage['rid']; excludePinned: boolean; ignoreDiscussion: boolean; ts: Record<string, Date>; users: string[]; ids?: string[]; showDeletedStatus?: boolean; } & ( | { filesOnly: true; replaceFileAttachmentsWith?: MessageAttachment; } | { filesOnly?: false; } ), ]'',
     event_spec (KpSuffix ''deleteMessage'') [1] False
       ''[{ _id: IMessage['_id'] }]'',
     event_spec (KpSuffix ''e2e.keyRequest'') [1] False
       ''[unknown]'',
     event_spec (KpSuffix ''videoconf'') [1] False
       ''[id: string]'',
     event_spec (KpSuffix ''messagesRead'') [1] False
       ''[{ until: Date; tmid?: string }]'',
     event_spec (KpSuffix ''messagesImported'') [1] False
       ''[null]'']\<rparr>"

definition room_messages_spec :: stream_spec where
  "room_messages_spec = \<lparr>sp_name = ''room-messages'', sp_events = [
     event_spec (KpLiteral ''__my_messages__'') [1] False
       ''[IMessage]'',
     event_spec KpAny [1, 2, 3] False
       ''[message: IMessage, user?: IUser, room?: IRoom]'']\<rparr>"

definition notify_all_spec :: stream_spec where
  "notify_all_spec = \<lparr>sp_name = ''notify-all'', sp_events = [
     event_spec (KpLiteral ''public-info'') [1] False
       ''[ | [key: 'public-settings-changed', args: ['inserted' | 'updated' | 'removed' | 'changed', ISetting]] | [key: 'deleteCustomSound', args: [{ soundData: ICustomSound }]] | [key: 'updateCustomSound', args: [{ soundData: ICustomSound }]], ]'',
     event_spec (KpLiteral ''public-settings-changed'') [2] False
       ''['inserted' | 'updated' | 'removed' | 'changed', ISetting]'',
     event_spec (KpLiteral ''deleteCustomSound'') [1] False
       ''[{ soundData: ICustomSound }]'',
     event_spec (KpLiteral ''updateCustomSound'') [1] False
       ''[{ soundData: ICustomSound }]'',
     event_spec (KpLiteral ''license'') [0, 1] False
       ''[{ preventedActions: Record<LicenseLimitKind, boolean> }] | []'']\<rparr>"

definition notify_user_spec :: stream_spec where
  "notify_user_spec = \<lparr>sp_name = ''notify-user'', sp_events = [
     event_spec (KpSuffix ''rooms-changed'') [2] False
       ''['inserted' | 'updated' | 'removed' | 'changed', IRoom]'',
     event_spec (KpSuffix ''subscriptions-changed'') [2] False
       ''| [ 'removed', { _id: string; u?: Pick<IUser, '_id' | 'username' | 'name'>; rid?: string; t?: string; }, ] | [ 'inserted' | 'updated', Pick< ISubscription, | 't' | 'ts' | 'ls' | 'lr' | 'name' | 'fname' | 'rid' | 'code' | 'f' | 'u' | 'open' | 'alert' | 'roles' | 'unread' | 'prid' | 'userMentions' | 'groupMentions' | 'archived' | 'audioNotificationValue' | 'desktopNotifications' | 'mobilePushNotifications' | 'emailNotifications' | 'desktopPrefOrigin' | 'mobilePrefOrigin' | 'emailPrefOrigin' | 'unreadAlert' | '_updatedAt' | 'blocked' | 'blocker' | 'autoTranslate' | 'autoTranslateLanguage' | 'disableNotifications' | 'hideUnreadStatus' | 'hideMentionStatus' | 'muteGroupMentions' | 'ignored' | 'E2EKey' | 'E2ESuggestedKey' | 'oldRoomKeys' | 'tunread' | 'tunreadGroup' | 'tunreadUser' | 'department' | 'v' | 'onHold' >, ]'',
     event_spec (KpSuffix ''message'') [1] False
       ''[IMessage]'',
     event_spec (KpSuffix ''force_logout'') [1] False
       ''[ISession['sessionId'] | undefined]'',
     event_spec (KpSuffix ''webdav'') [1] False
       ''[{ type: 'changed'; account: Partial<IWebdavAccount> } | { type: 'removed'; account: { _id: IWebdavAccount['_id'] } }]'',
     event_spec (KpSuffix ''e2ekeyRequest'') [2] False
       ''[string, string]'',
     event_spec (KpSuffix ''notification'') [1] False
       ''[INotificationDesktop]'',
     event_spec (KpSuffix ''call.hangup'') [1] False
       ''[{ roomId: string }]'',
     event_spec (KpSuffix ''uiInteraction'') [1] False
       ''[UiKit.ServerInteraction]'',
     event_spec (KpSuffix ''video-conference'') [1] False
       ''[{ action: string; params: { callId: VideoConference['_id']; uid: IUser['_id']; rid: IRoom['_id'] } }]'',
     event_spec (KpSuffix ''media-signal'') [1] False
       ''[ServerMediaSignal]'',
     event_spec (KpSuffix ''userData'') [1] False
       ''[IUserDataEvent]'',
     event_spec (KpSuffix ''updateInvites'') [1] False
       ''[unknown]'',
     event_spec (KpSuffix ''departmentAgentData'') [1] False
       ''[unknown]'',
     event_spec (KpSuffix ''calendar'') [1] False
       ''[ICalendarNotification]'',
     event_spec (KpSuffix ''banners'') [1] False
       ''[IBanner]'']\<rparr>"

definition importers_spec :: stream_spec where
  "importers_spec = \<lparr>sp_name = ''importers'', sp_events = [
     event_spec (KpLiteral ''progress'') [1] False
       ''[{ rate: number } | IImportProgress]'']\<rparr>"

definition notify_logged_spec :: stream_spec where
  "notify_logged_spec = \<lparr>sp_name = ''notify-logged'', sp_events = [
     event_spec (KpLiteral ''updateCustomUserStatus'') [1] False
       ''[ { userStatusData: Omit<ICustomUserStatus, '_updatedAt'>; }, ]'',
     event_spec (KpLiteral ''permissions-changed'') [2] False
       ''['inserted' | 'updated' | 'removed' | 'changed', ISetting]'',
     event_spec (KpLiteral ''deleteEmojiCustom'') [1] False
       ''[{ emojiData: IEmoji }]'',
     event_spec (KpLiteral ''updateEmojiCustom'') [1] False
       ''[{ emojiData: IEmoji }]'',
     event_spec (KpLiteral ''new-banner'') [1] False
       ''[{ bannerId: string }]'',
     event_spec (KpLiteral ''banner-changed'') [1] False
       ''[{ bannerId: string }]'',
     event_spec (KpLiteral ''roles-change'') [1] False
       ''[ { type: 'added' | 'removed' | 'changed'; _id: IRole['_id']; u?: { _id: IUser['_id']; username: IUser['username']; name?: IUser['name'] }; scope?: string; }, ]'',
     event_spec (KpLiteral ''Users:NameChanged'') [1] False
       ''[Pick<IUser, '_id' | 'name' | 'username'>]'',
     event_spec (KpLiteral ''private-settings-changed'') [2] False
       ''['inserted' | 'updated' | 'removed' | 'changed', ISetting]'',
     event_spec (KpLiteral ''deleteCustomUserStatus'') [1] False
       ''[{ userStatusData: Omit<ICustomUserStatus, '_updatedAt'> }]'',
     event_spec (KpLiteral ''user-status'') [1] False
       ''[ [ uid: IUser['_id'], username: IUser['username'], status: PresenceStatusCode, statusText: IUser['statusText'], name: IUser['name'], roles: IUser['roles'], statusSource?: IUser['statusSource'], statusExpiresAt?: IUser['statusExpiresAt'], ], ]'',
     event_spec (KpLiteral ''Users:Deleted'') [1] False
       ''[ | { userId: IUser['_id']; messageErasureType: 'Delete'; replaceByUser?: never; } | { userId: IUser['_id']; messageErasureType: 'Unlink'; replaceByUser?: { _id: IUser['_id']; username: IUser['username']; alias: string }; }, ]'',
     event_spec (KpLiteral ''updateAvatar'') [1] False
       ''[{ username: IUser['username']; etag: IUser['avatarETag'] } | { rid: IRoom['_id']; etag: IRoom['avatarETag'] }]'',
     event_spec (KpLiteral ''omnichannel.priority-changed'') [1] False
       ''[{ id: string; clientAction: ClientAction; name?: string }]'']\<rparr>"

definition room_data_spec :: stream_spec where
  "room_data_spec = \<lparr>sp_name = ''room-data'', sp_events = [
     event_spec KpAny [1] False
       ''[IOmnichannelRoom | Pick<IOmnichannelRoom, '_id'>]'']\<rparr>"

definition notify_room_users_spec :: stream_spec where
  "notify_room_users_spec = \<lparr>sp_name = ''notify-room-users'', sp_events = [
     event_spec (KpSuffix ''video-conference'') [1] False
       ''[{ action: string; params: { callId: VideoConference['_id']; uid: IUser['_id']; rid: IRoom['_id'] } }]'',
     event_spec (KpSuffix ''userData'') [] True
       ''unknown[]'']\<rparr>"

definition livechat_room_spec :: stream_spec where
  "livechat_room_spec = \<lparr>sp_name = ''livechat-room'', sp_events = [
     event_spec KpAny [1] False
       ''[ | { type: 'agentStatus'; status: string; } | { type: 'queueData'; data: | { [k: string]: unknown; } | undefined; } | { type: 'agentData'; data: ILivechatAgent | undefined | { hiddenInfo: boolean }; } | { type: 'visitorData'; visitor: unknown; }, ]'']\<rparr>"

definition user_presence_spec :: stream_spec where
  "user_presence_spec = \<lparr>sp_name = ''user-presence'', sp_events = [
     event_spec KpAny [1] False
       ''[ [ username: string, statusChanged?: PresenceStatusCode, statusText?: string, statusSource?: IUser['statusSource'], statusExpiresAt?: IUser['statusExpiresAt'], ], ]'']\<rparr>"

definition integration_history_spec :: stream_spec where
  "integration_history_spec = \<lparr>sp_name = ''integrationHistory'', sp_events = [
     event_spec KpAny [1] False
       ''[ | { type: 'removed'; id: string } | { id: string; diff: unknown; type: 'updated'; } | { type: 'inserted'; data: Partial<IIntegrationHistory>; }, ]'']\<rparr>"

definition canned_responses_spec :: stream_spec where
  "canned_responses_spec = \<lparr>sp_name = ''canned-responses'', sp_events = [
     event_spec (KpLiteral ''canned-responses'') [1, 2] False
       ''| [{ type: 'removed'; _id: string }, { agentsId: string }] | [{ type: 'removed'; _id: string }] | [ { type: 'changed' } & Omit<IOmnichannelCannedResponse, '_updatedAt' | '_createdAt'> & { _createdAt?: Date | undefined; }, ] | [{ type: 'changed' } & IOmnichannelCannedResponse, { agentsId: string }]'']\<rparr>"

definition livechat_inquiry_queue_observer_spec :: stream_spec where
  "livechat_inquiry_queue_observer_spec = \<lparr>sp_name = ''livechat-inquiry-queue-observer'', sp_events = [
     event_spec (KpLiteral ''public'') [1] False
       ''[ { type: 'added' | 'removed' | 'changed'; } & ILivechatInquiryRecord, ]'',
     event_spec (KpPrefix ''department'') [1] False
       ''[ { type: 'added' | 'removed' | 'changed'; } & ILivechatInquiryRecord, ]'',
     event_spec (KpPrefix ''agent'') [1] False
       ''[ { type: 'added' | 'removed' | 'changed'; } & ILivechatInquiryRecord, ]'',
     event_spec KpAny [1] False
       ''[ { _id: string; clientAction: string; }, ]'']\<rparr>"

definition apps_spec :: stream_spec where
  "apps_spec = \<lparr>sp_name = ''apps'', sp_events = [
     event_spec (KpLiteral ''app/added'') [1] False
       ''[string]'',
     event_spec (KpLiteral ''app/removed'') [1] False
       ''[string]'',
     event_spec (KpLiteral ''app/updated'') [1] False
       ''[string]'',
     event_spec (KpLiteral ''app/statusUpdate'') [1] False
       ''[ { appId: string; status: AppStatus; }, ]'',
     event_spec (KpLiteral ''app/settingUpdated'') [1] False
       ''[ { appId: string; setting: AppsSetting; }, ]'',
     event_spec (KpLiteral ''command/added'') [1] False
       ''[string]'',
     event_spec (KpLiteral ''command/disabled'') [1] False
       ''[string]'',
     event_spec (KpLiteral ''command/updated'') [1] False
       ''[string]'',
     event_spec (KpLiteral ''command/removed'') [1] False
       ''[string]'',
     event_spec (KpLiteral ''actions/changed'') [0] False
       ''[]'',
     event_spec (KpLiteral ''apps'') [1] False
       ''[ | [key: 'app/added', args: [string]] | [key: 'app/removed', args: [string]] | [key: 'app/updated', args: [string]] | [ key: 'app/statusUpdate', args: [ { appId: string; status: AppStatus; }, ], ] | [ key: 'app/settingUpdated', args: [ { appId: string; setting: AppsSetting; }, ], ] | [key: 'command/added', args: [string]] | [key: 'command/disabled', args: [string]] | [key: 'command/updated', args: [string]] | [key: 'command/removed', args: [string]] | [key: 'actions/changed', args: []], ]'']\<rparr>"

definition apps_engine_spec :: stream_spec where
  "apps_engine_spec = \<lparr>sp_name = ''apps-engine'', sp_events = [
     event_spec (KpLiteral ''app/added'') [1] False
       ''[string]'',
     event_spec (KpLiteral ''app/removed'') [1] False
       ''[string]'',
     event_spec (KpLiteral ''app/updated'') [1] False
       ''[string]'',
     event_spec (KpLiteral ''app/statusUpdate'') [1] False
       ''[ { appId: string; status: AppStatus; }, ]'',
     event_spec (KpLiteral ''app/settingUpdated'') [1] False
       ''[ { appId: string; setting: AppsSetting; }, ]'',
     event_spec (KpLiteral ''command/added'') [1] False
       ''[string]'',
     event_spec (KpLiteral ''command/disabled'') [1] False
       ''[string]'',
     event_spec (KpLiteral ''command/updated'') [1] False
       ''[string]'',
     event_spec (KpLiteral ''command/removed'') [1] False
       ''[string]'',
     event_spec (KpLiteral ''actions/changed'') [0] False
       ''[]'']\<rparr>"

definition local_spec :: stream_spec where
  "local_spec = \<lparr>sp_name = ''local'', sp_events = [
     event_spec (KpLiteral ''broadcast'') [] True
       ''any[]'']\<rparr>"

definition STREAMS :: "stream_spec list" where
  "STREAMS = [
     roles_spec, notify_room_spec, room_messages_spec, notify_all_spec, notify_user_spec,
     importers_spec, notify_logged_spec, room_data_spec, notify_room_users_spec,
     livechat_room_spec, user_presence_spec, integration_history_spec, canned_responses_spec,
     livechat_inquiry_queue_observer_spec, apps_spec, apps_engine_spec, local_spec]"

definition STREAM_COUNT :: nat where
  "STREAM_COUNT = 17"

definition EVENT_COUNT :: nat where
  "EVENT_COUNT = 80"

section \<open>Looking up\<close>

definition catalog_stream :: "str \<Rightarrow> stream_spec option" where
  "catalog_stream name =
     (let n = (case strip_prefix ''stream-'' name of Some r \<Rightarrow> r | None \<Rightarrow> name) in
      find (\<lambda>s. sp_name s = n) STREAMS)"

definition catalog_event :: "str \<Rightarrow> str \<Rightarrow> event_spec option" where
  "catalog_event stream_name key = Option.bind (catalog_stream stream_name) (\<lambda>s. spec_event s key)"

text \<open>The counts are those of the table.\<close>

lemmas stream_specs =
     roles_spec_def notify_room_spec_def room_messages_spec_def notify_all_spec_def
     notify_user_spec_def importers_spec_def notify_logged_spec_def room_data_spec_def
     notify_room_users_spec_def livechat_room_spec_def user_presence_spec_def
     integration_history_spec_def canned_responses_spec_def
     livechat_inquiry_queue_observer_spec_def apps_spec_def apps_engine_spec_def
     local_spec_def

lemma stream_names:
  "sp_name roles_spec = ''roles''"
  "sp_name notify_room_spec = ''notify-room''"
  "sp_name room_messages_spec = ''room-messages''"
  "sp_name notify_all_spec = ''notify-all''"
  "sp_name notify_user_spec = ''notify-user''"
  "sp_name importers_spec = ''importers''"
  "sp_name notify_logged_spec = ''notify-logged''"
  "sp_name room_data_spec = ''room-data''"
  "sp_name notify_room_users_spec = ''notify-room-users''"
  "sp_name livechat_room_spec = ''livechat-room''"
  "sp_name user_presence_spec = ''user-presence''"
  "sp_name integration_history_spec = ''integrationHistory''"
  "sp_name canned_responses_spec = ''canned-responses''"
  "sp_name livechat_inquiry_queue_observer_spec = ''livechat-inquiry-queue-observer''"
  "sp_name apps_spec = ''apps''"
  "sp_name apps_engine_spec = ''apps-engine''"
  "sp_name local_spec = ''local''"
  by (simp_all only: stream_specs stream_spec.select_convs)

lemma stream_sizes: "map (\<lambda>s. length (sp_events s)) STREAMS = [1, 8, 2, 5, 16, 1, 14, 1, 2, 1, 1, 1, 1, 4, 11, 10, 1]"
  unfolding STREAMS_def list.map stream_specs stream_spec.select_convs by simp

lemma stream_count: "length STREAMS = STREAM_COUNT"
  by (simp add: STREAMS_def STREAM_COUNT_def)

lemma event_count: "sum_list (map (\<lambda>s. length (sp_events s)) STREAMS) = EVENT_COUNT"
  by (simp add: stream_sizes EVENT_COUNT_def)

text \<open>The keys of the four streams with typed events.\<close>

definition keys_of :: "stream_spec \<Rightarrow> key_pattern list" where
  "keys_of s = map es_key (sp_events s)"

lemma spec_event_key: "map_option es_key (spec_event s key) = find (\<lambda>k. key_matches k key) (keys_of s)"
proof -
  have "map_option es_key (find (\<lambda>e. key_matches (es_key e) key) es) = find (\<lambda>k. key_matches k key) (map es_key es)" for es
    by (induction es) simp_all
  then show ?thesis by (simp add: spec_event_def keys_of_def)
qed

lemma room_messages_keys: "keys_of room_messages_spec = [KpLiteral ''__my_messages__'', KpAny]"
  by (simp add: keys_of_def room_messages_spec_def)

lemma notify_room_keys: "keys_of notify_room_spec = map KpSuffix
    [''user-activity'', ''typing'', ''deleteMessageBulk'', ''deleteMessage'', ''e2e.keyRequest'',
     ''videoconf'', ''messagesRead'', ''messagesImported'']"
  by (simp add: keys_of_def notify_room_spec_def)

lemma notify_user_keys: "keys_of notify_user_spec = map KpSuffix
    [''rooms-changed'', ''subscriptions-changed'', ''message'', ''force_logout'', ''webdav'',
     ''e2ekeyRequest'', ''notification'', ''call.hangup'', ''uiInteraction'', ''video-conference'',
     ''media-signal'', ''userData'', ''updateInvites'', ''departmentAgentData'', ''calendar'', ''banners'']"
  by (simp add: keys_of_def notify_user_spec_def)

lemma notify_logged_keys: "keys_of notify_logged_spec = map KpLiteral
    [''updateCustomUserStatus'', ''permissions-changed'', ''deleteEmojiCustom'', ''updateEmojiCustom'',
     ''new-banner'', ''banner-changed'', ''roles-change'', ''Users:NameChanged'',
     ''private-settings-changed'', ''deleteCustomUserStatus'', ''user-status'', ''Users:Deleted'',
     ''updateAvatar'', ''omnichannel.priority-changed'']"
  by (simp add: keys_of_def notify_logged_spec_def)

lemma find_suffix:
  "split_once (CHR ''/'') key = Some (h, r) \<Longrightarrow> h \<noteq> [] \<Longrightarrow>
     find (\<lambda>k. key_matches k key) (map KpSuffix ss) = (if r \<in> set ss then Some (KpSuffix r) else None)"
  by (induction ss) auto

lemma find_literal:
  "find (\<lambda>k. key_matches k key) (map KpLiteral ls) = (if key \<in> set ls then Some (KpLiteral key) else None)"
  by (induction ls) auto

lemma catalog_stream_typed:
  "strip_prefix ''stream-'' name = Some n \<or> strip_prefix ''stream-'' name = None \<and> n = name \<Longrightarrow>
   n = sp_name s \<Longrightarrow> s \<in> {room_messages_spec, notify_room_spec, notify_user_spec, notify_logged_spec} \<Longrightarrow>
     catalog_stream name = Some s"
  by (auto simp: catalog_stream_def STREAMS_def stream_names)

end
