(* ===== verification/Model_Event.thy ===== *)
theory Model_Event
  imports Model_Payload Model_Room Model_Catalog Ddp_Protocol
begin

text \<open>
  The typed stream events, \<open>rocketsocket-model/src/event.rs\<close>: the positional helpers, one
  decoder per stream, and \<open>decode\<close>, which never fails, because whatever has no typed reading
  becomes \<open>MeUnknown\<close> with its inputs.

  The lemmas show the three leniency rules of the module (extra trailing arguments are ignored,
  \<open>null\<close> is absence, a required argument that does not decode makes the whole event unknown) and
  that a typed event tells the stream and key it came under, which the catalog declares with the
  pattern the event belongs to.
\<close>

section \<open>Positional arguments\<close>

definition arg_at :: "json list \<Rightarrow> nat \<Rightarrow> json option" where
  "arg_at args i = (if i < length args then Some (args ! i) else None)"

definition opt_at :: "(json \<Rightarrow> 'a option) \<Rightarrow> json list \<Rightarrow> nat \<Rightarrow> 'a option option" where
  "opt_at dec args i = (case arg_at args i of
       None \<Rightarrow> Some None
     | Some JNull \<Rightarrow> Some None
     | Some v \<Rightarrow> map_option Some (dec v))"

definition req_at :: "(json \<Rightarrow> 'a option) \<Rightarrow> json list \<Rightarrow> nat \<Rightarrow> 'a option" where
  "req_at dec args i = Option.bind (opt_at dec args i) id"

definition str_at :: "json list \<Rightarrow> nat \<Rightarrow> str option" where
  "str_at args i = Option.bind (arg_at args i) as_str"

definition bool_at :: "json list \<Rightarrow> nat \<Rightarrow> bool option" where
  "bool_at args i = Option.bind (arg_at args i) as_bool"

definition array_at :: "json list \<Rightarrow> nat \<Rightarrow> json list option" where
  "array_at args i = Option.bind (arg_at args i) as_array"

definition strings_at :: "json list \<Rightarrow> nat \<Rightarrow> str list option" where
  "strings_at args i = (case arg_at args i of
       None \<Rightarrow> Some []
     | Some JNull \<Rightarrow> Some []
     | Some (JArray items) \<Rightarrow> Some (List.map_filter as_str items)
     | Some _ \<Rightarrow> None)"

definition split_key :: "str \<Rightarrow> (str \<times> str) option" where
  "split_key event_name = (case split_once (CHR ''/'') event_name of
       None \<Rightarrow> None
     | Some (prefix, suffix) \<Rightarrow> if prefix = [] then None else Some (prefix, suffix))"

section \<open>Events\<close>

record user_status_change =
  usc_user :: str
  usc_username :: "str option"
  usc_status :: presence_status
  usc_status_text :: "str option"
  usc_name :: "str option"
  usc_roles :: "str list"
  usc_status_source :: "presence_source option"
  usc_status_expires_at :: "timestamp option"

datatype (plugins only: code size) model_event =
    MeRoomMessage str message
  | MeMyMessage message my_message_meta
  | MeUserActivity str str "activity list"
  | MeTyping str str bool
  | MeMessageDeleted str str
  | MeMessagesDeletedBulk str bulk_delete
  | MeEphemeralMessage str message
  | MeNotification str desktop_notification
  | MeRoomsChanged str client_action room
  | MeSubscriptionsChanged str client_action subscription_change
  | MeUserData str user_data_event
  | MeForceLogout str "str option"
  | MeUserStatusChanged user_status_change
  | MeUserNameChanged str "str option" "str option"
  | MeRolesChanged role_change
  | MeUnknown str str "json list"

section \<open>Decoding\<close>

definition room_messages :: "time_lib \<Rightarrow> str \<Rightarrow> json list \<Rightarrow> model_event option" where
  "room_messages T event_name args =
     (if event_name = ''__my_messages__'' then do {
        x \<leftarrow> req_at (message_of_json T) args 0;
        Some (MeMyMessage x (case opt_at my_message_meta_of_json args 1 of
            Some (Some m) \<Rightarrow> m
          | _ \<Rightarrow> my_message_meta_default))
      }
      else if event_name = [] then None
      else map_option (MeRoomMessage event_name) (req_at (message_of_json T) args 0))"

definition notify_room :: "time_lib \<Rightarrow> str \<Rightarrow> json list \<Rightarrow> model_event option" where
  "notify_room T event_name args = do {
     (room, key) \<leftarrow> split_key event_name;
     if key = ''user-activity'' then do {
       user \<leftarrow> str_at args 0;
       acts \<leftarrow> strings_at args 1;
       Some (MeUserActivity room user (map activity_of acts))
     }
     else if key = ''typing'' then do {
       user \<leftarrow> str_at args 0;
       b \<leftarrow> bool_at args 1;
       Some (MeTyping room user b)
     }
     else if key = ''deleteMessage'' then do {
       d \<leftarrow> req_at deleted_message_of_json args 0;
       Some (MeMessageDeleted room (dm_id d))
     }
     else if key = ''deleteMessageBulk'' then
       map_option (MeMessagesDeletedBulk room) (req_at (bulk_delete_of_json T) args 0)
     else None
   }"

definition notify_user :: "time_lib \<Rightarrow> str \<Rightarrow> json list \<Rightarrow> model_event option" where
  "notify_user T event_name args = do {
     (user, key) \<leftarrow> split_key event_name;
     if key = ''message'' then map_option (MeEphemeralMessage user) (req_at (message_of_json T) args 0)
     else if key = ''notification'' then
       map_option (MeNotification user) (req_at desktop_notification_of_json args 0)
     else if key = ''rooms-changed'' then do {
       action \<leftarrow> req_at client_action_of_json args 0;
       x \<leftarrow> req_at (room_of_json T) args 1;
       Some (MeRoomsChanged user action x)
     }
     else if key = ''subscriptions-changed'' then do {
       action \<leftarrow> req_at client_action_of_json args 0;
       x \<leftarrow> req_at (subscription_change_of_json T) args 1;
       Some (MeSubscriptionsChanged user action x)
     }
     else if key = ''userData'' then map_option (MeUserData user) (req_at (user_data_event_of_json T) args 0)
     else if key = ''force_logout'' then map_option (MeForceLogout user) (opt_at as_str args 0)
     else None
   }"

definition user_status_tuple :: "time_lib \<Rightarrow> json list \<Rightarrow> user_status_change option" where
  "user_status_tuple T tuple = do {
     user \<leftarrow> str_at tuple 0;
     if user = [] then None
     else do {
       v_username \<leftarrow> opt_at as_str tuple 1;
       v_status \<leftarrow> req_at presence_of_json tuple 2;
       v_text \<leftarrow> opt_at as_str tuple 3;
       v_name \<leftarrow> opt_at as_str tuple 4;
       v_roles \<leftarrow> strings_at tuple 5;
       v_source \<leftarrow> opt_at presence_source_of_json tuple 6;
       v_expires \<leftarrow> opt_at (ts_of_json T) tuple 7;
       Some \<lparr>usc_user = user, usc_username = v_username, usc_status = v_status, usc_status_text = v_text,
         usc_name = v_name, usc_roles = v_roles, usc_status_source = v_source,
         usc_status_expires_at = v_expires\<rparr>
     }
   }"

definition notify_logged :: "time_lib \<Rightarrow> str \<Rightarrow> json list \<Rightarrow> model_event option" where
  "notify_logged T event_name args =
     (if event_name = ''user-status'' then do {
        tuple \<leftarrow> array_at args 0;
        map_option MeUserStatusChanged (user_status_tuple T tuple)
      }
      else if event_name = ''Users:NameChanged'' then do {
        changed \<leftarrow> req_at name_changed_of_json args 0;
        Some (MeUserNameChanged (nc_id changed) (nc_username changed) (nc_name changed))
      }
      else if event_name = ''roles-change'' then map_option MeRolesChanged (req_at role_change_of_json args 0)
      else None)"

definition bare_stream :: "str \<Rightarrow> str" where
  "bare_stream stream = (case strip_prefix ''stream-'' stream of Some r \<Rightarrow> r | None \<Rightarrow> stream)"

definition try_decode :: "time_lib \<Rightarrow> str \<Rightarrow> str \<Rightarrow> json list \<Rightarrow> model_event option" where
  "try_decode T stream event_name args = (let s = bare_stream stream in
     if s = ''room-messages'' then room_messages T event_name args
     else if s = ''notify-room'' then notify_room T event_name args
     else if s = ''notify-user'' then notify_user T event_name args
     else if s = ''notify-logged'' then notify_logged T event_name args
     else None)"

definition decode :: "time_lib \<Rightarrow> str \<Rightarrow> str \<Rightarrow> json list \<Rightarrow> model_event" where
  "decode T stream event_name args = (case try_decode T stream event_name args of
       Some ev \<Rightarrow> ev
     | None \<Rightarrow> MeUnknown stream event_name args)"

definition decode_raw :: "time_lib \<Rightarrow> raw_event \<Rightarrow> model_event" where
  "decode_raw T e = decode T (re_stream e) (re_event_name e) (re_args e)"

fun is_unknown_event :: "model_event \<Rightarrow> bool" where
  "is_unknown_event (MeUnknown _ _ _) = True"
| "is_unknown_event _ = False"

fun event_room :: "model_event \<Rightarrow> str option" where
  "event_room (MeRoomMessage room _) = Some room"
| "event_room (MeUserActivity room _ _) = Some room"
| "event_room (MeTyping room _ _) = Some room"
| "event_room (MeMessageDeleted room _) = Some room"
| "event_room (MeMessagesDeletedBulk room _) = Some room"
| "event_room (MeMyMessage x _) = Some (msg_rid x)"
| "event_room (MeEphemeralMessage _ x) = Some (msg_rid x)"
| "event_room _ = None"

section \<open>Holes and extra arguments\<close>

lemma arg_at_nulls:
  "arg_at (args @ replicate n JNull) i = arg_at args i
   \<or> arg_at args i = None \<and> arg_at (args @ replicate n JNull) i = Some JNull"
  by (auto simp: arg_at_def nth_append)

lemma arg_at_extra: "i < length args \<Longrightarrow> arg_at (args @ extra) i = arg_at args i"
  by (simp add: arg_at_def nth_append)

lemma opt_at_cong: "arg_at as i = arg_at bs i \<Longrightarrow> opt_at dec as i = opt_at dec bs i"
  by (simp add: opt_at_def)

lemma opt_at_nulls: "opt_at dec (args @ replicate n JNull) i = opt_at dec args i"
  using arg_at_nulls [of args n i] by (auto simp: opt_at_def)

lemma strings_at_nulls: "strings_at (args @ replicate n JNull) i = strings_at args i"
  using arg_at_nulls [of args n i] by (auto simp: strings_at_def)

lemma values_at_nulls:
  "str_at (args @ replicate n JNull) i = str_at args i"
  "bool_at (args @ replicate n JNull) i = bool_at args i"
  "array_at (args @ replicate n JNull) i = array_at args i"
  using arg_at_nulls [of args n i] by (auto simp: str_at_def bool_at_def array_at_def)

lemmas at_nulls = opt_at_nulls strings_at_nulls values_at_nulls

lemma at_extra:
  assumes "i < length args"
  shows "opt_at dec (args @ extra) i = opt_at dec args i"
    and "strings_at (args @ extra) i = strings_at args i"
    and "str_at (args @ extra) i = str_at args i"
    and "bool_at (args @ extra) i = bool_at args i"
    and "array_at (args @ extra) i = array_at args i"
  using arg_at_extra [OF assms, of extra]
  by (simp_all add: opt_at_def strings_at_def str_at_def bool_at_def array_at_def)

lemmas stream_decoders = room_messages_def notify_room_def notify_user_def notify_logged_def

lemma try_decode_nulls: "try_decode T s e (args @ replicate n JNull) = try_decode T s e args"
  by (simp only: try_decode_def stream_decoders req_at_def at_nulls)

lemma try_decode_extra: "2 \<le> length args \<Longrightarrow> try_decode T s e (args @ extra) = try_decode T s e args"
  by (simp only: try_decode_def stream_decoders req_at_def at_extra less_le_trans [of 0 2] less_le_trans [of 1 2]
      one_less_numeral_iff zero_less_numeral semiring_norm)

lemma user_status_nulls: "user_status_tuple T (tuple @ replicate n JNull) = user_status_tuple T tuple"
  by (simp only: user_status_tuple_def req_at_def at_nulls)

lemma user_status_extra:
  assumes "8 \<le> length tuple"
  shows "user_status_tuple T (tuple @ extra) = user_status_tuple T tuple"
proof -
  have "0 < length tuple" "1 < length tuple" "2 < length tuple" "3 < length tuple" "4 < length tuple"
    "5 < length tuple" "6 < length tuple" "7 < length tuple"
    using assms by auto
  note at = this [THEN at_extra(1)] this [THEN at_extra(2)] this [THEN at_extra(3)]
  show ?thesis by (simp only: user_status_tuple_def req_at_def at)
qed

section \<open>Where an event came from\<close>

fun event_source :: "model_event \<Rightarrow> str \<times> str" where
  "event_source (MeRoomMessage room _) = (''room-messages'', room)"
| "event_source (MeMyMessage _ _) = (''room-messages'', ''__my_messages__'')"
| "event_source (MeUserActivity room _ _) = (''notify-room'', room @ ''/user-activity'')"
| "event_source (MeTyping room _ _) = (''notify-room'', room @ ''/typing'')"
| "event_source (MeMessageDeleted room _) = (''notify-room'', room @ ''/deleteMessage'')"
| "event_source (MeMessagesDeletedBulk room _) = (''notify-room'', room @ ''/deleteMessageBulk'')"
| "event_source (MeEphemeralMessage user _) = (''notify-user'', user @ ''/message'')"
| "event_source (MeNotification user _) = (''notify-user'', user @ ''/notification'')"
| "event_source (MeRoomsChanged user _ _) = (''notify-user'', user @ ''/rooms-changed'')"
| "event_source (MeSubscriptionsChanged user _ _) = (''notify-user'', user @ ''/subscriptions-changed'')"
| "event_source (MeUserData user _) = (''notify-user'', user @ ''/userData'')"
| "event_source (MeForceLogout user _) = (''notify-user'', user @ ''/force_logout'')"
| "event_source (MeUserStatusChanged _) = (''notify-logged'', ''user-status'')"
| "event_source (MeUserNameChanged _ _ _) = (''notify-logged'', ''Users:NameChanged'')"
| "event_source (MeRolesChanged _) = (''notify-logged'', ''roles-change'')"
| "event_source (MeUnknown s e _) = (bare_stream s, e)"

text \<open>The pattern each typed event is supposed to resolve to in the catalog.\<close>

fun declared_key :: "model_event \<Rightarrow> key_pattern option" where
  "declared_key (MeRoomMessage _ _) = Some KpAny"
| "declared_key (MeMyMessage _ _) = Some (KpLiteral ''__my_messages__'')"
| "declared_key (MeUserActivity _ _ _) = Some (KpSuffix ''user-activity'')"
| "declared_key (MeTyping _ _ _) = Some (KpSuffix ''typing'')"
| "declared_key (MeMessageDeleted _ _) = Some (KpSuffix ''deleteMessage'')"
| "declared_key (MeMessagesDeletedBulk _ _) = Some (KpSuffix ''deleteMessageBulk'')"
| "declared_key (MeEphemeralMessage _ _) = Some (KpSuffix ''message'')"
| "declared_key (MeNotification _ _) = Some (KpSuffix ''notification'')"
| "declared_key (MeRoomsChanged _ _ _) = Some (KpSuffix ''rooms-changed'')"
| "declared_key (MeSubscriptionsChanged _ _ _) = Some (KpSuffix ''subscriptions-changed'')"
| "declared_key (MeUserData _ _) = Some (KpSuffix ''userData'')"
| "declared_key (MeForceLogout _ _) = Some (KpSuffix ''force_logout'')"
| "declared_key (MeUserStatusChanged _) = Some (KpLiteral ''user-status'')"
| "declared_key (MeUserNameChanged _ _ _) = Some (KpLiteral ''Users:NameChanged'')"
| "declared_key (MeRolesChanged _) = Some (KpLiteral ''roles-change'')"
| "declared_key (MeUnknown _ _ _) = None"

lemma split_key_Some:
  "split_key e = Some (h, r) \<longleftrightarrow> split_once (CHR ''/'') e = Some (h, r) \<and> h \<noteq> []"
  by (auto simp: split_key_def split: option.splits if_splits)

definition describes :: "stream_spec \<Rightarrow> str \<Rightarrow> model_event \<Rightarrow> bool" where
  "describes s e ev \<longleftrightarrow> \<not> is_unknown_event ev \<and> event_source ev = (sp_name s, e)
     \<and> find (\<lambda>k. key_matches k e) (keys_of s) = declared_key ev"

lemma room_messages_described:
  "room_messages T e args = Some ev \<Longrightarrow> describes room_messages_spec e ev"
  by (auto simp: describes_def room_messages_def room_messages_keys stream_names split: if_splits Option.bind_splits)

lemma suffix_described:
  assumes "split_key e = Some (h, r)" "keys_of s = map KpSuffix ss" "r \<in> set ss"
    and "\<not> is_unknown_event ev" "event_source ev = (sp_name s, h @ CHR ''/'' # r)" "declared_key ev = Some (KpSuffix r)"
  shows "describes s e ev"
  using assms find_suffix [of e h r ss] by (simp add: describes_def split_key_Some split_once_Some)

lemma notify_room_described:
  assumes "notify_room T e args = Some ev"
  shows "describes notify_room_spec e ev"
proof -
  obtain h r where k: "split_key e = Some (h, r)"
    using assms by (cases "split_key e") (auto simp: notify_room_def)
  show ?thesis
    by (rule suffix_described [OF k notify_room_keys])
      (use assms k in \<open>auto simp: notify_room_def stream_names split: if_splits Option.bind_splits\<close>)
qed

lemma notify_user_described:
  assumes "notify_user T e args = Some ev"
  shows "describes notify_user_spec e ev"
proof -
  obtain h r where k: "split_key e = Some (h, r)"
    using assms by (cases "split_key e") (auto simp: notify_user_def)
  show ?thesis
    by (rule suffix_described [OF k notify_user_keys])
      (use assms k in \<open>auto simp: notify_user_def stream_names split: if_splits Option.bind_splits\<close>)
qed

lemma notify_logged_described:
  "notify_logged T e args = Some ev \<Longrightarrow> describes notify_logged_spec e ev"
  by (auto simp: describes_def notify_logged_def notify_logged_keys find_literal stream_names
      simp del: list.map split: if_splits Option.bind_splits)

lemma try_decode_described:
  assumes "try_decode T s e args = Some ev"
  obtains sp where "catalog_stream s = Some sp" "sp_name sp = bare_stream s" "describes sp e ev"
proof -
  have cat: "catalog_stream s = Some sp"
    if "bare_stream s = sp_name sp" "sp \<in> {room_messages_spec, notify_room_spec, notify_user_spec, notify_logged_spec}" for sp
    using that by (intro catalog_stream_typed [of s "bare_stream s"]) (auto simp: bare_stream_def split: option.splits)
  note cases = assms [unfolded try_decode_def Let_def]
  consider "bare_stream s = sp_name room_messages_spec" "room_messages T e args = Some ev"
    | "bare_stream s = sp_name notify_room_spec" "notify_room T e args = Some ev"
    | "bare_stream s = sp_name notify_user_spec" "notify_user T e args = Some ev"
    | "bare_stream s = sp_name notify_logged_spec" "notify_logged T e args = Some ev"
    using cases by (auto simp: stream_names split: if_splits)
  then show thesis
    using room_messages_described notify_room_described notify_user_described notify_logged_described cat that
    by cases (metis insertCI)+
qed

section \<open>Properties\<close>

text \<open>C15: Decoding never loses or misattributes an event.  An event with no typed reading is kept
  with its stream, key and arguments as they were given; a typed event came from the stream and
  key it tells (the key of a room or user event is that id, a slash and the name of the event),
  and the catalog resolves that pair to the pattern the event belongs to, never to a pattern that
  merely matches everything.\<close>

theorem typed_as_declared:
  "(is_unknown_event (decode T s e args) \<longrightarrow> decode T s e args = MeUnknown s e args)
   \<and> (\<not> is_unknown_event (decode T s e args) \<longrightarrow>
        event_source (decode T s e args) = (bare_stream s, e)
        \<and> map_option es_key (catalog_event s e) = declared_key (decode T s e args))"
proof (cases "try_decode T s e args")
  case None
  then show ?thesis by (simp add: decode_def)
next
  case (Some ev)
  then obtain sp where sp: "catalog_stream s = Some sp" "sp_name sp = bare_stream s" "describes sp e ev"
    by (rule try_decode_described)
  then have "map_option es_key (catalog_event s e) = declared_key ev"
    by (simp add: catalog_event_def spec_event_key describes_def)
  with sp Some show ?thesis by (simp add: decode_def describes_def)
qed

theorem typed_as_declared_witness:
  "map_option es_key (catalog_event ''stream-notify-room'' ''GENERAL/typing'') = Some (KpSuffix ''typing'')"
proof -
  have "decode T ''stream-notify-room'' ''GENERAL/typing'' [JString ''alice'', JBool True] = MeTyping ''GENERAL'' ''alice'' True" for T
    by (simp add: decode_def try_decode_def bare_stream_def notify_room_def split_key_def str_at_def bool_at_def arg_at_def)
  then show ?thesis
    using typed_as_declared [of undefined "''stream-notify-room''" "''GENERAL/typing''" "[JString ''alice'', JBool True]"]
    by simp
qed

text \<open>The leniency rules.  Trailing \<open>null\<close>s are absence, in the arguments and in the tuple nested
  in \<open>user-status\<close>, and whatever follows the arguments that are read (two, or eight in that tuple)
  changes nothing, so an event that a newer server extends decodes as before.\<close>

theorem holes_and_extensions:
  "try_decode T s e (args @ replicate n JNull) = try_decode T s e args
   \<and> user_status_tuple T (tuple @ replicate n JNull) = user_status_tuple T tuple
   \<and> (2 \<le> length args \<longrightarrow> try_decode T s e (args @ extra) = try_decode T s e args)
   \<and> (8 \<le> length tuple \<longrightarrow> user_status_tuple T (tuple @ extra) = user_status_tuple T tuple)"
  by (simp add: try_decode_nulls user_status_nulls try_decode_extra user_status_extra)

theorem holes_and_extensions_witness:
  "try_decode \<lparr>tl_parse = \<lambda>_. None, tl_in_range = \<lambda>_. True\<rparr> ''notify-room'' ''GENERAL/typing''
     ([JString ''alice'', JBool True] @ [JString ''new'']) = Some (MeTyping ''GENERAL'' ''alice'' True)"
proof -
  have "try_decode T ''notify-room'' ''GENERAL/typing'' [JString ''alice'', JBool True] = Some (MeTyping ''GENERAL'' ''alice'' True)" for T
    by (simp add: try_decode_def bare_stream_def notify_room_def split_key_def str_at_def bool_at_def arg_at_def)
  then show ?thesis
    using holes_and_extensions [of _ "''notify-room''" "''GENERAL/typing''" "[JString ''alice'', JBool True]" 0 "[]" "[JString ''new'']"]
    by simp
qed

end
