(* ===== verification/Rest_Text.thy ===== *)
theory Rest_Text
  imports Rs_Prelude
begin

text \<open>
  Text out of bytes, as the error reports of the REST client make it: the lossy UTF-8 decoding of
  the standard library, \<open>str::trim\<close>, \<open>str::is_char_boundary\<close>, and \<open>truncate\<close> of
  \<open>rocketsocket-rest/src/error.rs\<close>.  Bytes are a \<^typ>\<open>str\<close> too; \<open>valid_utf8\<close> says which of them
  a Rust \<open>String\<close> may hold.
\<close>

section \<open>UTF-8\<close>

definition is_cont :: "nat \<Rightarrow> bool" where
  "is_cont b = (128 \<le> b \<and> b < 192)"

definition utf8_width :: "nat \<Rightarrow> nat" where
  "utf8_width b =
     (if b < 128 then 1
      else if 194 \<le> b \<and> b < 224 then 2
      else if 224 \<le> b \<and> b < 240 then 3
      else if 240 \<le> b \<and> b < 245 then 4
      else 0)"

text \<open>The second byte excludes overlong forms, surrogates and what lies beyond the last plane.\<close>

definition second_ok :: "nat \<Rightarrow> nat \<Rightarrow> bool" where
  "second_ok b0 b1 =
     (if b0 = 224 then 160 \<le> b1 \<and> b1 < 192
      else if b0 = 237 then 128 \<le> b1 \<and> b1 < 160
      else if b0 = 240 then 144 \<le> b1 \<and> b1 < 192
      else if b0 = 244 then 128 \<le> b1 \<and> b1 < 144
      else is_cont b1)"

definition byte_at :: "str \<Rightarrow> nat \<Rightarrow> nat" where
  "byte_at s i = (if i < length s then of_char (s ! i) else 0)"

text \<open>Whether the bytes begin with a character, and how many bytes it, or the error, takes.\<close>

definition utf8_head :: "str \<Rightarrow> bool \<times> nat" where
  "utf8_head s = (let w = utf8_width (byte_at s 0) in
     if w = 0 then (False, 1)
     else if w = 1 then (True, 1)
     else if \<not> second_ok (byte_at s 0) (byte_at s 1) then (False, 1)
     else if w = 2 then (True, 2)
     else if \<not> is_cont (byte_at s 2) then (False, 2)
     else if w = 3 then (True, 3)
     else if \<not> is_cont (byte_at s 3) then (False, 3)
     else (True, 4))"

lemma utf8_head_limits: "0 < snd (utf8_head s) \<and> snd (utf8_head s) \<le> 4"
  by (simp add: utf8_head_def Let_def)

fun utf8_chunks :: "str \<Rightarrow> (bool \<times> str) list" where
  "utf8_chunks [] = []"
| "utf8_chunks (c # s) = (let (ok, n) = utf8_head (c # s) in
     (ok, take n (c # s)) # utf8_chunks (drop (n - 1) s))"

declare utf8_chunks.simps(2) [simp del]

definition valid_utf8 :: "str \<Rightarrow> bool" where
  "valid_utf8 s = list_all fst (utf8_chunks s)"

definition REPLACEMENT :: str where
  "REPLACEMENT = [char_of (239::nat), char_of (191::nat), char_of (189::nat)]"

definition from_utf8_lossy :: "str \<Rightarrow> str" where
  "from_utf8_lossy s = concat (map (\<lambda>(ok, bytes). if ok then bytes else REPLACEMENT) (utf8_chunks s))"

section \<open>Characters\<close>

definition is_char_boundary :: "str \<Rightarrow> nat \<Rightarrow> bool" where
  "is_char_boundary s i = (i = 0 \<or> i = length s \<or> (i < length s \<and> \<not> is_cont (byte_at s i)))"

primrec boundary_below :: "str \<Rightarrow> nat \<Rightarrow> nat" where
  "boundary_below s 0 = 0"
| "boundary_below s (Suc n) = (if is_char_boundary s (Suc n) then Suc n else boundary_below s n)"

definition truncate_text :: "str \<Rightarrow> nat \<Rightarrow> str" where
  "truncate_text s limit = (if length s \<le> limit then s else take (boundary_below s limit) s)"

text \<open>The white space of Unicode, each character as its bytes.\<close>

definition WHITE_SPACE :: "str list" where
  "WHITE_SPACE = map (map (char_of :: nat \<Rightarrow> char))
     ([[9], [10], [11], [12], [13], [32], [194, 133], [194, 160], [225, 154, 128]]
      @ map (\<lambda>b. [226, 128, b]) [128, 129, 130, 131, 132, 133, 134, 135, 136, 137, 138]
      @ [[226, 128, 168], [226, 128, 169], [226, 128, 175], [226, 129, 159], [227, 128, 128]])"

definition white_prefix :: "str \<Rightarrow> nat" where
  "white_prefix s = (case find (starts_with s) WHITE_SPACE of Some w \<Rightarrow> length w | None \<Rightarrow> 0)"

definition white_suffix :: "str \<Rightarrow> nat" where
  "white_suffix s = (case find (ends_with s) WHITE_SPACE of Some w \<Rightarrow> length w | None \<Rightarrow> 0)"

lemma WHITE_SPACE_nonempty: "w \<in> set WHITE_SPACE \<Longrightarrow> w \<noteq> []"
  by (auto simp: WHITE_SPACE_def)

lemma find_in: "find P xs = Some x \<Longrightarrow> x \<in> set xs \<and> P x"
  by (induction xs) (auto split: if_splits)

lemma white_prefix_cases:
  obtains "white_prefix s = 0" | w r where "w \<in> set WHITE_SPACE" "s = w @ r" "white_prefix s = length w" "0 < length w"
proof (cases "find (starts_with s) WHITE_SPACE")
  case None
  then show thesis using that(1) by (simp add: white_prefix_def)
next
  case (Some w)
  from find_in [OF this] WHITE_SPACE_nonempty that(2) [of w] Some show thesis
    by (auto simp: white_prefix_def starts_with_iff)
qed

lemma white_suffix_cases:
  obtains "white_suffix s = 0" | w r where "w \<in> set WHITE_SPACE" "s = r @ w" "white_suffix s = length w" "0 < length w"
proof (cases "find (ends_with s) WHITE_SPACE")
  case None
  then show thesis using that(1) by (simp add: white_suffix_def)
next
  case (Some w)
  from find_in [OF this] WHITE_SPACE_nonempty that(2) [of w] Some show thesis
    by (auto simp: white_suffix_def ends_with_iff)
qed

function trim_start :: "str \<Rightarrow> str" where
  "trim_start s = (if white_prefix s = 0 then s else trim_start (drop (white_prefix s) s))"
  by pat_completeness auto

termination trim_start
proof (relation "measure length")
  show "(drop (white_prefix s) s, s) \<in> measure length" if "white_prefix s \<noteq> 0" for s
    using that by (cases s rule: white_prefix_cases) auto
qed simp

function trim_stop :: "str \<Rightarrow> str" where
  "trim_stop s = (if white_suffix s = 0 then s else trim_stop (take (length s - white_suffix s) s))"
  by pat_completeness auto

termination trim_stop
proof (relation "measure length")
  show "(take (length s - white_suffix s) s, s) \<in> measure length" if "white_suffix s \<noteq> 0" for s
    using that by (cases s rule: white_suffix_cases) auto
qed simp

declare trim_start.simps [simp del] trim_stop.simps [simp del]

definition trim :: "str \<Rightarrow> str" where
  "trim s = trim_stop (trim_start s)"

section \<open>Valid text\<close>

lemma valid_Nil [simp]: "valid_utf8 []"
  by (simp add: valid_utf8_def)

lemma valid_step:
  "s \<noteq> [] \<Longrightarrow> valid_utf8 s \<longleftrightarrow> fst (utf8_head s) \<and> valid_utf8 (drop (snd (utf8_head s)) s)"
  using utf8_head_limits [of s]
  by (cases s; cases "snd (utf8_head s)")
    (auto simp: valid_utf8_def utf8_chunks.simps Let_def split: prod.split)

lemma byte_at_append [simp]:
  "byte_at (s @ t) i = (if i < length s then byte_at s i else byte_at t (i - length s))"
  by (auto simp: byte_at_def nth_append)

lemma byte_at_drop [simp]: "byte_at (drop n s) i = byte_at s (n + i)"
  by (auto simp: byte_at_def)

lemma byte_at_take: "i < n \<Longrightarrow> byte_at (take n s) i = byte_at s i"
  by (auto simp: byte_at_def)

lemma cont_inside: "is_cont (byte_at s i) \<Longrightarrow> i < length s"
  by (auto simp: byte_at_def is_cont_def split: if_splits)

text \<open>What a character is: its length, one lead byte, then continuation bytes.\<close>

lemma second_ok_cont: "second_ok b0 b1 \<Longrightarrow> is_cont b1"
  by (auto simp: second_ok_def is_cont_def split: if_splits)

lemma width_lead: "utf8_width b \<noteq> 0 \<Longrightarrow> \<not> is_cont b"
  by (auto simp: utf8_width_def is_cont_def split: if_splits)

lemma utf8_width_range: "utf8_width b \<in> {0, 1, 2, 3, 4}"
  by (simp add: utf8_width_def)

lemma head_cases:
  assumes "utf8_head s = (True, n)"
  obtains (one) "n = 1" "utf8_width (byte_at s 0) = 1"
    | (two) "n = 2" "utf8_width (byte_at s 0) = 2" "second_ok (byte_at s 0) (byte_at s 1)"
    | (three) "n = 3" "utf8_width (byte_at s 0) = 3" "second_ok (byte_at s 0) (byte_at s 1)" "is_cont (byte_at s 2)"
    | (four) "n = 4" "utf8_width (byte_at s 0) = 4" "second_ok (byte_at s 0) (byte_at s 1)" "is_cont (byte_at s 2)"
        "is_cont (byte_at s 3)"
  using assms utf8_width_range [of "byte_at s 0"]
  by (elim insertE emptyE) (simp_all add: utf8_head_def Let_def split: if_splits)

lemma head_ok:
  assumes "s \<noteq> []" and "utf8_head s = (True, n)"
  shows "0 < n \<and> n \<le> 4 \<and> n \<le> length s \<and> \<not> is_cont (byte_at s 0) \<and> (\<forall>i. 0 < i \<and> i < n \<longrightarrow> is_cont (byte_at s i))"
proof -
  have few: "i = 1 \<or> i = 2 \<or> i = 3" if "0 < i" "i < 4" for i :: nat
    using that by auto
  have "0 < n \<and> n \<le> 4 \<and> utf8_width (byte_at s 0) \<noteq> 0 \<and> (1 < n \<longrightarrow> is_cont (byte_at s 1))
      \<and> (2 < n \<longrightarrow> is_cont (byte_at s 2)) \<and> (3 < n \<longrightarrow> is_cont (byte_at s 3))"
    using assms(2) by (cases rule: head_cases) (auto dest: second_ok_cont)
  then have conts: "0 < n \<and> n \<le> 4 \<and> utf8_width (byte_at s 0) \<noteq> 0 \<and> (\<forall>i. 0 < i \<and> i < n \<longrightarrow> is_cont (byte_at s i))"
    using few by (metis less_le_trans)
  then have "n = 1 \<or> n - 1 < length s"
    using cont_inside [of s "n - 1"] by (cases "n = 1") (simp_all del: One_nat_def)
  then have "n \<le> length s" using assms(1) by (cases s) auto
  then show ?thesis using conts width_lead by blast
qed

lemma head_self_delimiting:
  assumes "s \<noteq> []" and "utf8_head s = (True, n)"
  shows "utf8_head (take n s @ t) = (True, n)"
proof -
  from head_ok [OF assms] have n: "0 < n" "n \<le> length s" by auto
  have b: "byte_at (take n s @ t) i = byte_at s i" if "i < n" for i
    using that n by (simp add: byte_at_take)
  obtain u where u: "u = take n s @ t" by simp
  from assms(2) show ?thesis
    unfolding u [symmetric]
    using b [of 0, folded u] b [of 1, folded u] b [of 2, folded u] b [of 3, folded u]
    by (cases rule: head_cases) (simp_all add: utf8_head_def Let_def)
qed

lemma valid_induct [consumes 1, case_names empty character]:
  assumes "valid_utf8 s" and "P []"
    and "\<And>s n. s \<noteq> [] \<Longrightarrow> utf8_head s = (True, n) \<Longrightarrow> valid_utf8 s \<Longrightarrow> valid_utf8 (drop n s) \<Longrightarrow> P (drop n s) \<Longrightarrow> P s"
  shows "P s"
  using assms(1)
proof (induction "length s" arbitrary: s rule: less_induct)
  case less
  show ?case
  proof (cases "s = []")
    case False
    obtain ok n where h: "utf8_head s = (ok, n)" by force
    from valid_step [OF False] less.prems h have ok: "ok" "valid_utf8 (drop n s)" by simp_all
    from h utf8_head_limits [of s] have "0 < n" by simp
    with False have "length (drop n s) < length s" by simp
    from less.hyps [OF this ok(2)] False h ok less.prems show ?thesis by (auto intro: assms(3))
  qed (simp add: assms(2))
qed

lemma valid_append: "valid_utf8 s \<Longrightarrow> valid_utf8 (s @ t) \<longleftrightarrow> valid_utf8 t"
proof (induction s rule: valid_induct)
  case (character s n)
  from head_ok [OF character.hyps(1,2)] have n: "0 < n" "n \<le> length s" by auto
  have split: "s @ t = take n s @ (drop n s @ t)" by simp
  have "utf8_head (s @ t) = (True, n)"
    unfolding split by (rule head_self_delimiting [OF character.hyps(1,2)])
  then show ?case using character.hyps(1) character.IH n by (simp add: valid_step)
qed simp

lemma valid_lead: "valid_utf8 s \<Longrightarrow> s \<noteq> [] \<Longrightarrow> \<not> is_cont (byte_at s 0)"
  using head_ok [of s "snd (utf8_head s)"] valid_step [of s] by (metis prod.collapse)

section \<open>Lossy decoding\<close>

lemma chunks_cover: "concat (map snd (utf8_chunks s)) = s"
proof (induction s rule: utf8_chunks.induct)
  case (2 c s)
  obtain ok n where h: "utf8_head (c # s) = (ok, n)" by force
  then have "0 < n" using utf8_head_limits [of "c # s"] by simp
  then show ?case using 2 h by (cases n) (simp_all add: utf8_chunks.simps)
qed simp

lemma lossy_valid_id: "valid_utf8 s \<Longrightarrow> from_utf8_lossy s = s"
proof -
  assume "valid_utf8 s"
  then have "map (\<lambda>(ok, bytes). if ok then bytes else REPLACEMENT) (utf8_chunks s) = map snd (utf8_chunks s)"
    by (auto simp: valid_utf8_def list_all_iff)
  then show ?thesis by (simp only: from_utf8_lossy_def chunks_cover)
qed

lemma valid_replacement: "valid_utf8 REPLACEMENT"
  by (simp add: valid_utf8_def REPLACEMENT_def utf8_chunks.simps utf8_head_def byte_at_def utf8_width_def
      second_ok_def is_cont_def)

lemma valid_character: "s \<noteq> [] \<Longrightarrow> utf8_head s = (True, n) \<Longrightarrow> valid_utf8 (take n s)"
  using head_self_delimiting [of s n "[]"] head_ok [of s n] by (subst valid_step) auto

lemma chunk_valid: "(True, bytes) \<in> set (utf8_chunks s) \<Longrightarrow> valid_utf8 bytes"
proof (induction s rule: utf8_chunks.induct)
  case (2 c s)
  obtain ok n where h: "utf8_head (c # s) = (ok, n)" by force
  with 2 valid_character [of "c # s" n] show ?case by (auto simp: utf8_chunks.simps)
qed simp

lemma valid_concat: "list_all valid_utf8 ss \<Longrightarrow> valid_utf8 (concat ss)"
  by (induction ss) (simp_all add: valid_append)

lemma lossy_valid: "valid_utf8 (from_utf8_lossy s)"
  unfolding from_utf8_lossy_def
  by (rule valid_concat) (auto simp: list_all_iff valid_replacement chunk_valid)

section \<open>Truncation\<close>

lemma boundary_below_le: "boundary_below s n \<le> n"
  by (induction n) simp_all

lemma boundary_below_is: "is_char_boundary s (boundary_below s n)"
  by (induction n) (simp_all add: is_char_boundary_def)

lemma boundary_below_max: "is_char_boundary s j \<Longrightarrow> j \<le> n \<Longrightarrow> j \<le> boundary_below s n"
  by (induction n) (auto simp: le_Suc_eq)

lemma boundary_drop:
  assumes "is_char_boundary s i" and "n \<le> i" and "i \<le> length s"
  shows "is_char_boundary (drop n s) (i - n)"
  using assms by (auto simp: is_char_boundary_def)

lemma valid_take: "valid_utf8 s \<Longrightarrow> is_char_boundary s i \<Longrightarrow> i \<le> length s \<Longrightarrow> valid_utf8 (take i s)"
proof (induction s arbitrary: i rule: valid_induct)
  case (character s n)
  note ok = head_ok [OF character.hyps(1,2)]
  show ?case
  proof (cases "i < n")
    case True
    then have "i = 0" using ok character.prems by (auto simp: is_char_boundary_def)
    then show ?thesis by simp
  next
    case False
    then have "n \<le> i" by simp
    from character.IH [OF boundary_drop [OF character.prems(1) this character.prems(2)]] character.prems
    have "valid_utf8 (take (i - n) (drop n s))" by simp
    moreover have "take i s = take n s @ take (i - n) (drop n s)"
      using \<open>n \<le> i\<close> by (metis le_add_diff_inverse take_add)
    ultimately show ?thesis
      using valid_character [OF character.hyps(1,2)] by (simp add: valid_append)
  qed
qed simp

lemma boundary_near: "valid_utf8 s \<Longrightarrow> i \<le> length s \<Longrightarrow> \<exists>j. is_char_boundary s j \<and> j \<le> i \<and> i < j + 4"
proof (induction s arbitrary: i rule: valid_induct)
  case empty
  then show ?case by (auto simp: is_char_boundary_def)
next
  case (character s n)
  note ok = head_ok [OF character.hyps(1,2)]
  show ?case
  proof (cases "i < n")
    case True
    with ok have "is_char_boundary s 0 \<and> i < 0 + 4" by (simp add: is_char_boundary_def)
    then show ?thesis by blast
  next
    case False
    with character.prems have "i - n \<le> length (drop n s)" by simp
    from character.IH [OF this] obtain j where
      j: "is_char_boundary (drop n s) j" "j \<le> i - n" "i - n < j + 4" by blast
    have "is_char_boundary s (n + j)"
    proof (cases "j = 0 \<and> n < length s")
      case True
      then show ?thesis using valid_lead [OF character.hyps(4)] by (simp add: is_char_boundary_def)
    next
      case False
      then show ?thesis using j(1) ok by (auto simp: is_char_boundary_def)
    qed
    then show ?thesis using j False by (intro exI [of _ "n + j"]) auto
  qed
qed

lemma truncate_prefix: "\<exists>rest. s = truncate_text s limit @ rest"
  by (cases "length s \<le> limit") (auto simp: truncate_text_def intro: append_take_drop_id [symmetric])

lemma truncate_length: "length (truncate_text s limit) \<le> limit"
  using boundary_below_le [of s limit] by (auto simp: truncate_text_def)

lemma truncate_valid:
  assumes "valid_utf8 s"
  shows "valid_utf8 (truncate_text s limit)"
  using assms boundary_below_le [of s limit]
  by (auto simp: truncate_text_def intro!: valid_take boundary_below_is)

lemma truncate_near:
  assumes "valid_utf8 s" and "limit < length s"
  shows "limit < length (truncate_text s limit) + 4"
proof -
  obtain j where "is_char_boundary s j" "j \<le> limit" "limit < j + 4"
    using boundary_near [of s limit] assms by auto
  moreover from this have "j \<le> boundary_below s limit" by (intro boundary_below_max)
  moreover have "length (truncate_text s limit) = boundary_below s limit"
    using assms(2) boundary_below_le [of s limit] by (simp add: truncate_text_def)
  ultimately show ?thesis by simp
qed

section \<open>Trimming\<close>

lemma white_valid: "w \<in> set WHITE_SPACE \<Longrightarrow> valid_utf8 w"
  by (auto simp: WHITE_SPACE_def valid_utf8_def utf8_chunks.simps utf8_head_def byte_at_def utf8_width_def
      second_ok_def is_cont_def)

lemma trim_start_valid: "valid_utf8 s \<Longrightarrow> valid_utf8 (trim_start s)"
proof (induction s rule: trim_start.induct)
  case (1 s)
  show ?case
  proof (cases s rule: white_prefix_cases)
    case 1
    then show ?thesis using "1.prems" by (simp add: trim_start.simps)
  next
    case (2 w r)
    then have "trim_start s = trim_start (drop (white_prefix s) s)" by (subst trim_start.simps) simp
    moreover have "valid_utf8 (drop (white_prefix s) s)"
      using 2 "1.prems" by (simp add: valid_append white_valid)
    ultimately show ?thesis using "1.IH" 2 by simp
  qed
qed

lemma valid_without_suffix:
  assumes "valid_utf8 (r @ w)" and "valid_utf8 w"
  shows "valid_utf8 r"
proof (cases "w = []")
  case False
  then have "is_char_boundary (r @ w) (length r)"
    using valid_lead [OF assms(2) False] by (simp add: is_char_boundary_def)
  from valid_take [OF assms(1) this] show ?thesis by simp
qed (use assms(1) in simp)

lemma trim_stop_valid: "valid_utf8 s \<Longrightarrow> valid_utf8 (trim_stop s)"
proof (induction s rule: trim_stop.induct)
  case (1 s)
  show ?case
  proof (cases s rule: white_suffix_cases)
    case 1
    then show ?thesis using "1.prems" by (simp add: trim_stop.simps)
  next
    case (2 w r)
    then have "trim_stop s = trim_stop (take (length s - white_suffix s) s)" by (subst trim_stop.simps) simp
    moreover have "valid_utf8 (take (length s - white_suffix s) s)"
      using 2 "1.prems" valid_without_suffix [of r w] by (simp add: white_valid)
    ultimately show ?thesis using "1.IH" 2 by simp
  qed
qed

lemma trim_valid: "valid_utf8 s \<Longrightarrow> valid_utf8 (trim s)"
  by (simp add: trim_def trim_start_valid trim_stop_valid)

end
