(* ===== verification/Rest_Error.thy ===== *)
theory Rest_Error
  imports Rest_Text Model_Codec
begin

text \<open>
  What a refused request says, \<open>rocketsocket-rest/src/error.rs\<close>: the four shapes of a refusal
  collapsed into a code and a message, the class of a refusal by its status, and the headers of
  the rate limiter.

  Parameters: \<open>json_lib\<close> is the JSON library (reading a body, printing a fraction, and the
  text of the error when a body is JSON of another shape), and the
  headers of a response are a function from names to their text, \<open>None\<close> when the header is absent
  or is not text.  A \<open>SystemTime\<close> is an integer, the nanoseconds since the Unix epoch.
\<close>

record json_lib =
  jl_parse :: "str \<Rightarrow> (json, str) result"
  jl_print_float :: "rat \<Rightarrow> str"
  jl_type_error :: "str \<Rightarrow> str"

type_synonym status = nat
type_synonym http_headers = "str \<Rightarrow> str option"
type_synonym system_time = int

section \<open>The class of a refusal\<close>

datatype api_error_kind =
    AkBadRequest | AkUnauthorized | AkForbidden | AkNotFound | AkTooManyRequests | AkServer | AkOther

definition kind_from_status :: "status \<Rightarrow> api_error_kind" where
  "kind_from_status s =
     (if s = 400 then AkBadRequest
      else if s = 401 then AkUnauthorized
      else if s = 403 then AkForbidden
      else if s = 404 then AkNotFound
      else if s = 429 then AkTooManyRequests
      else if 500 \<le> s \<and> s \<le> 599 then AkServer
      else AkOther)"

section \<open>The failure envelope\<close>

record failure_envelope =
  fe_error :: "json option"
  fe_error_type :: "str option"
  fe_message :: "str option"
  fe_details :: "json option"

definition FAILURE_ENVELOPE_NAMES :: "str list" where
  "FAILURE_ENVELOPE_NAMES = [''error'', ''errorType'', ''message'', ''details'']"

definition failure_envelope_of_json :: "json \<Rightarrow> failure_envelope option" where
  "failure_envelope_of_json v = do {
     m \<leftarrow> struct_obj FAILURE_ENVELOPE_NAMES v;
     e \<leftarrow> opt_field dec_value m ''error'';
     t \<leftarrow> opt_field as_str m ''errorType'';
     msg \<leftarrow> opt_field as_str m ''message'';
     d \<leftarrow> opt_field dec_value m ''details'';
     Some \<lparr>fe_error = e, fe_error_type = t, fe_message = msg, fe_details = d\<rparr>
   }"

definition number_to_string :: "(rat \<Rightarrow> str) \<Rightarrow> json_number \<Rightarrow> str" where
  "number_to_string pf n = (case n of
       PosInt w \<Rightarrow> nat_to_str (unat w)
     | NegInt w \<Rightarrow> i64_to_str w
     | Float x \<Rightarrow> pf x)"

definition scalar_to_string :: "(rat \<Rightarrow> str) \<Rightarrow> json \<Rightarrow> str option" where
  "scalar_to_string pf v = (case v of
       JString s \<Rightarrow> Some s
     | JNumber n \<Rightarrow> Some (number_to_string pf n)
     | JBool b \<Rightarrow> Some (if b then ''true'' else ''false'')
     | _ \<Rightarrow> None)"

definition normalize :: "(rat \<Rightarrow> str) \<Rightarrow> failure_envelope \<Rightarrow> str option \<times> str option" where
  "normalize pf x = (let e = Option.bind (fe_error x) (scalar_to_string pf) in
     case fe_error_type x of
       Some code \<Rightarrow> (Some code, e)
     | None \<Rightarrow> (case (fe_message x, e) of
           (Some msg, Some code) \<Rightarrow> if msg \<noteq> code then (Some code, Some msg) else (None, Some msg)
         | (Some msg, None) \<Rightarrow> (None, Some msg)
         | (None, _) \<Rightarrow> (None, e)))"

section \<open>The rate limiter\<close>

record rate_limit =
  rl_limit :: "u64 option"
  rl_remaining :: "u64 option"
  rl_reset_epoch_ms :: "i64 option"

definition rate_limit_default :: rate_limit where
  "rate_limit_default = \<lparr>rl_limit = None, rl_remaining = None, rl_reset_epoch_ms = None\<rparr>"

definition parse_u64 :: "str \<Rightarrow> u64 option" where
  "parse_u64 s = Option.bind (case s of [] \<Rightarrow> None | c # r \<Rightarrow> parse_nat (if c = CHR ''+'' then r else s))
     (\<lambda>n. if n < 2 ^ 64 then Some (of_nat n) else None)"

definition header_u64 :: "http_headers \<Rightarrow> str \<Rightarrow> u64 option" where
  "header_u64 h name = Option.bind (h name) (\<lambda>v. parse_u64 (trim v))"

definition header_i64 :: "http_headers \<Rightarrow> str \<Rightarrow> i64 option" where
  "header_i64 h name = Option.bind (h name) (\<lambda>v. parse_i64 (trim v))"

definition from_headers :: "http_headers \<Rightarrow> rate_limit option" where
  "from_headers h = (let parsed = \<lparr>
       rl_limit = header_u64 h ''x-ratelimit-limit'',
       rl_remaining = header_u64 h ''x-ratelimit-remaining'',
       rl_reset_epoch_ms = header_i64 h ''x-ratelimit-reset''\<rparr>
     in if parsed \<noteq> rate_limit_default then Some parsed else None)"

definition MAX_RETRY_AFTER :: duration where
  "MAX_RETRY_AFTER = from_secs 3600"

definition I64_MAX :: int where
  "I64_MAX = 2 ^ 63 - 1"

definition I64_MIN :: int where
  "I64_MIN = - (2 ^ 63)"

text \<open>\<open>UNIX_EPOCH.checked_add\<close> of an \<open>i64\<close> count of milliseconds fits a clock that counts 64-bit
  seconds.\<close>

definition reset_at :: "rate_limit \<Rightarrow> system_time option" where
  "reset_at r = Option.bind (rl_reset_epoch_ms r)
     (\<lambda>w. if sint w < 0 then None else Some (int (from_millis (nat (sint w)))))"

definition epoch_millis :: "system_time \<Rightarrow> int" where
  "epoch_millis now = (let ms = int (as_millis (nat now)) in if ms \<le> I64_MAX then ms else I64_MAX)"

definition i64_saturating_sub :: "int \<Rightarrow> int \<Rightarrow> int" where
  "i64_saturating_sub a b = max I64_MIN (min I64_MAX (a - b))"

definition retry_after_since :: "rate_limit \<Rightarrow> system_time \<Rightarrow> duration option" where
  "retry_after_since r now = Option.bind (rl_reset_epoch_ms r) (\<lambda>reset.
     (let wait_ms = i64_saturating_sub (sint reset) (epoch_millis now) in
      if wait_ms \<le> 0 then Some 0
      else Some (min (from_millis (nat wait_ms)) MAX_RETRY_AFTER)))"

section \<open>Refusals\<close>

record api_error =
  ae_status :: status
  ae_kind :: api_error_kind
  ae_code :: "str option"
  ae_message :: "str option"
  ae_details :: "json option"
  ae_rate_limit :: "rate_limit option"
  ae_body :: "str option"

definition BODY_SNIPPET_LIMIT :: nat where
  "BODY_SNIPPET_LIMIT = 512"

definition from_response :: "json_lib \<Rightarrow> status \<Rightarrow> http_headers \<Rightarrow> str \<Rightarrow> api_error" where
  "from_response lib status headers body =
     (let limit = from_headers headers; kind = kind_from_status status in
      case (case jl_parse lib body of Inl e \<Rightarrow> None | Inr v \<Rightarrow> failure_envelope_of_json v) of
        Some envelope \<Rightarrow>
          (let (code, msg) = normalize (jl_print_float lib) envelope in
           \<lparr>ae_status = status, ae_kind = kind, ae_code = code, ae_message = msg,
            ae_details = fe_details envelope, ae_rate_limit = limit, ae_body = None\<rparr>)
      | None \<Rightarrow>
          (let snippet = truncate_text (trim (from_utf8_lossy body)) BODY_SNIPPET_LIMIT;
               kept = (if snippet = [] then None else Some snippet) in
           \<lparr>ae_status = status, ae_kind = kind, ae_code = None, ae_message = kept,
            ae_details = None, ae_rate_limit = limit, ae_body = kept\<rparr>))"

definition ae_has_code :: "api_error \<Rightarrow> str \<Rightarrow> bool" where
  "ae_has_code e code = (ae_code e = Some code)"

definition ae_is_unauthorized :: "api_error \<Rightarrow> bool" where
  "ae_is_unauthorized e = (ae_kind e = AkUnauthorized)"

definition ae_is_forbidden :: "api_error \<Rightarrow> bool" where
  "ae_is_forbidden e = (ae_kind e = AkForbidden)"

definition ae_is_too_many_requests :: "api_error \<Rightarrow> bool" where
  "ae_is_too_many_requests e = (ae_kind e = AkTooManyRequests)"

definition ae_requires_two_factor :: "api_error \<Rightarrow> bool" where
  "ae_requires_two_factor e = ae_has_code e ''totp-required''"

definition api_error_display :: "api_error \<Rightarrow> str" where
  "api_error_display e = ''Rocket.Chat REST error (HTTP '' @ nat_to_str (ae_status e) @ '')'' @
     (case (ae_code e, ae_message e) of
       (Some code, Some msg) \<Rightarrow> '': '' @ msg @ '' ['' @ code @ '']''
     | (Some code, None) \<Rightarrow> '': '' @ code
     | (None, Some msg) \<Rightarrow> '': '' @ msg
     | (None, None) \<Rightarrow> '''')"

text \<open>\<open>RestError\<close>.  The transport failure of \<open>reqwest\<close> and the parse failure of \<open>serde_json\<close> are
  their text.\<close>

datatype rest_error =
    ReMissingSuccess str
  | ReInvalidUrl str str
  | ReTransport str
  | ReApi api_error
  | ReDecode status str str
  | ReInvalidRequest str
  | ReNotAuthenticated

definition re_api :: "rest_error \<Rightarrow> api_error option" where
  "re_api e = (case e of ReApi a \<Rightarrow> Some a | _ \<Rightarrow> None)"

definition re_is_too_many_requests :: "rest_error \<Rightarrow> bool" where
  "re_is_too_many_requests e = (case re_api e of Some a \<Rightarrow> ae_is_too_many_requests a | None \<Rightarrow> False)"

definition re_retry_after :: "system_time \<Rightarrow> rest_error \<Rightarrow> duration option" where
  "re_retry_after now e = do { a \<leftarrow> re_api e; r \<leftarrow> ae_rate_limit a; retry_after_since r now }"

end
