(* ===== verification/Bot_Framework.thy ===== *)
theory Bot_Framework
  imports Bot_Role_Fresh Model_Event Ddp_Client Rest_Error
begin

text \<open>
  The handler layer, \<open>rocketsocket/src/framework.rs\<close>, and the derivation of the websocket
  endpoint in \<open>bot.rs\<close>.

  A handler is its name, its filters and its body; a body is code of the application, here the
  function from the event to what it returns.  \<open>dispatch\<close> offers one event to the handlers in
  order.  \<open>env i\<close> is what the clock and the server say while the filters of handler \<open>i\<close> are
  applied, and \<open>auth i\<close> the user id the REST client would give then.
\<close>

section \<open>Extractors\<close>

datatype extraction = ExSkip | ExFailed str

type_synonym bot_event = "model_event client_event"

record message_create =
  mc_message :: Model_Message.message
  mc_participant :: "bool option"

record message_deleted =
  md_room :: str
  md_message :: str

definition stream_from_event :: "bot_event \<Rightarrow> (model_event, extraction) result" where
  "stream_from_event ev = (case ev of CeStream k e args \<Rightarrow> Inr e | _ \<Rightarrow> Inl ExSkip)"

definition message_create_from_event :: "bot_event \<Rightarrow> (message_create, extraction) result" where
  "message_create_from_event ev = (case ev of
       CeStream k e args \<Rightarrow> (case e of
           MeMyMessage x meta \<Rightarrow> Inr \<lparr>mc_message = x, mc_participant = mmm_room_participant meta\<rparr>
         | MeRoomMessage room x \<Rightarrow> Inr \<lparr>mc_message = x, mc_participant = None\<rparr>
         | _ \<Rightarrow> Inl ExSkip)
     | _ \<Rightarrow> Inl ExSkip)"

definition message_deleted_from_event :: "bot_event \<Rightarrow> (message_deleted, extraction) result" where
  "message_deleted_from_event ev = (case ev of
       CeStream k e args \<Rightarrow> (case e of
           MeMessageDeleted room x \<Rightarrow> Inr \<lparr>md_room = room, md_message = x\<rparr>
         | _ \<Rightarrow> Inl ExSkip)
     | _ \<Rightarrow> Inl ExSkip)"

text \<open>The parameter list of a handler, each parameter extracted in turn.\<close>

fun extract_args :: "('e \<Rightarrow> ('a, extraction) result) list \<Rightarrow> 'e \<Rightarrow> ('a list, extraction) result" where
  "extract_args [] ev = Inr []"
| "extract_args (p # ps) ev = (case p ev of
       Inl x \<Rightarrow> Inl x
     | Inr a \<Rightarrow> (case extract_args ps ev of Inl x \<Rightarrow> Inl x | Inr r \<Rightarrow> Inr (a # r)))"

section \<open>The framework\<close>

record handler =
  hd_name :: str
  hd_filters :: filters
  hd_call :: "bot_event \<Rightarrow> (unit, str) result"

record framework =
  fw_handlers :: "handler list"
  fw_me :: "str option option"
  fw_roles :: directory

definition framework_new :: framework where
  "framework_new = \<lparr>fw_handlers = [], fw_me = None, fw_roles = directory_new ROLE_CACHE_DEFAULT\<rparr>"

definition role_cache :: "role_cache_config \<Rightarrow> framework \<Rightarrow> framework" where
  "role_cache c fw = fw\<lparr>fw_roles := directory_new c\<rparr>"

definition add_handler :: "handler \<Rightarrow> framework \<Rightarrow> framework" where
  "add_handler h fw = fw\<lparr>fw_handlers := fw_handlers fw @ [h]\<rparr>"

definition add_handlers :: "handler list \<Rightarrow> framework \<Rightarrow> framework" where
  "add_handlers hs fw = fw\<lparr>fw_handlers := fw_handlers fw @ hs\<rparr>"

definition handler_count :: "framework \<Rightarrow> nat" where
  "handler_count fw = length (fw_handlers fw)"

definition has_no_handlers :: "framework \<Rightarrow> bool" where
  "has_no_handlers fw = (fw_handlers fw = [])"

text \<open>Only message-shaped events can be filtered.\<close>

definition filterable :: "bot_event \<Rightarrow> (Model_Message.message \<times> str) option" where
  "filterable ev = (case ev of
       CeStream k e args \<Rightarrow> (case e of
           MeMyMessage x meta \<Rightarrow> Some (x, msg_rid x)
         | MeRoomMessage room x \<Rightarrow> Some (x, room)
         | _ \<Rightarrow> None)
     | _ \<Rightarrow> None)"

text \<open>The cell of the bot's own id: the first answer is kept, whatever it is.\<close>

definition get_me :: "str option \<Rightarrow> framework \<Rightarrow> str option \<times> framework" where
  "get_me auth fw = (case fw_me fw of
       Some me \<Rightarrow> (me, fw)
     | None \<Rightarrow> (auth, fw\<lparr>fw_me := Some auth\<rparr>))"

definition authority_verdict ::
  "(rooms \<Rightarrow> nat) \<Rightarrow> (lookup \<Rightarrow> lookup_env) \<Rightarrow> filters \<Rightarrow> Model_Message.message \<Rightarrow> str \<Rightarrow> directory \<Rightarrow> filtered option \<times> directory" where
  "authority_verdict pick E f x room d = verdict pick E (fl_authority f) (ur_id (msg_u x)) room d"

definition filtered_out ::
  "(rooms \<Rightarrow> nat) \<Rightarrow> (lookup \<Rightarrow> lookup_env) \<Rightarrow> str option \<Rightarrow> handler \<Rightarrow> bot_event \<Rightarrow> framework
    \<Rightarrow> filtered option \<times> framework" where
  "filtered_out pick E auth h ev fw = (case filterable ev of
       None \<Rightarrow> (None, fw)
     | Some (x, room) \<Rightarrow>
         (let (me, fw1) = get_me auth fw in
          case local_verdict (hd_filters h) x room me of
            Some reason \<Rightarrow> (Some reason, fw1)
          | None \<Rightarrow>
              (let (v, d) = authority_verdict pick E (hd_filters h) x room (fw_roles fw1)
               in (v, fw1\<lparr>fw_roles := d\<rparr>))))"

definition observe :: "bot_event \<Rightarrow> framework \<Rightarrow> framework" where
  "observe ev fw = (case ev of
       CeStream k e args \<Rightarrow> (case e of
           MeRolesChanged c \<Rightarrow> fw\<lparr>fw_roles := apply_role_change c (fw_roles fw)\<rparr>
         | _ \<Rightarrow> fw)
     | CeResubscribed epoch n \<Rightarrow> fw\<lparr>fw_roles := invalidate_all (fw_roles fw)\<rparr>
     | _ \<Rightarrow> fw)"

fun offer ::
  "(rooms \<Rightarrow> nat) \<Rightarrow> (nat \<Rightarrow> lookup \<Rightarrow> lookup_env) \<Rightarrow> (nat \<Rightarrow> str option) \<Rightarrow> bot_event \<Rightarrow> nat \<Rightarrow> handler list
    \<Rightarrow> framework \<Rightarrow> (nat \<times> (unit, str) result) list \<times> framework" where
  "offer pick env auth ev i [] fw = ([], fw)"
| "offer pick env auth ev i (h # hs) fw =
     (let (reason, fw1) = filtered_out pick (env i) (auth i) h ev fw;
          (ran, fw2) = offer pick env auth ev (Suc i) hs fw1
      in (if reason = None then (i, hd_call h ev) # ran else ran, fw2))"

definition dispatch ::
  "(rooms \<Rightarrow> nat) \<Rightarrow> (nat \<Rightarrow> lookup \<Rightarrow> lookup_env) \<Rightarrow> (nat \<Rightarrow> str option) \<Rightarrow> bot_event
    \<Rightarrow> framework \<Rightarrow> (nat \<times> (unit, str) result) list \<times> framework" where
  "dispatch pick env auth ev fw =
     (let fw1 = observe ev fw in offer pick env auth ev 0 (fw_handlers fw1) fw1)"

section \<open>The websocket endpoint\<close>

datatype bot_error = BeUrl str | BeRest rest_error

definition trim_end :: "char \<Rightarrow> str \<Rightarrow> str" where
  "trim_end c s = rev (dropWhile (\<lambda>x. x = c) (rev s))"

definition websocket_url :: "str \<Rightarrow> (str, bot_error) result" where
  "websocket_url base_url =
     (let trimmed = trim_end (CHR ''/'') base_url;
          ws = (case strip_prefix ''https://'' trimmed of
              Some rest \<Rightarrow> Some (''wss://'' @ rest)
            | None \<Rightarrow> (case strip_prefix ''http://'' trimmed of
                Some rest \<Rightarrow> Some (''ws://'' @ rest)
              | None \<Rightarrow>
                  if starts_with trimmed ''ws://'' \<or> starts_with trimmed ''wss://'' then Some trimmed
                  else None))
      in case ws of
           Some u \<Rightarrow> Inr (u @ ''/websocket'')
         | None \<Rightarrow> Inl (BeUrl base_url))"

section \<open>Laws of dispatch\<close>

lemma get_me_me: "get_me auth fw = (me, fw1) \<Longrightarrow> fw_me fw1 = Some me \<and> fw_roles fw1 = fw_roles fw"
  by (auto simp: get_me_def split: option.splits)

lemma filtered_me_kept: "fw_me fw = Some me \<Longrightarrow> fw_me (snd (filtered_out pick E auth h ev fw)) = Some me"
  by (auto simp: filtered_out_def get_me_def split: option.split prod.split)

lemma offer_me_kept: "fw_me fw = Some me \<Longrightarrow> fw_me (snd (offer pick env auth ev i hs fw)) = Some me"
proof (induction hs arbitrary: i fw)
  case (Cons h hs)
  obtain reason fw1 where f: "filtered_out pick (env i) (auth i) h ev fw = (reason, fw1)" by force
  then have "fw_me fw1 = Some me" using filtered_me_kept [OF Cons.prems, of pick "env i" "auth i" h ev] by simp
  from Cons.IH [OF this, of "Suc i"] f show ?case by (simp add: case_prod_unfold Let_def)
qed simp

lemma observe_same [simp]: "fw_me (observe ev fw) = fw_me fw" "fw_handlers (observe ev fw) = fw_handlers fw"
  by (simp_all add: observe_def split: client_event.split model_event.split)

text \<open>What it takes for the filters to let an event through.\<close>

definition allowed ::
  "(rooms \<Rightarrow> nat) \<Rightarrow> (lookup \<Rightarrow> lookup_env) \<Rightarrow> filters \<Rightarrow> Model_Message.message \<Rightarrow> str \<Rightarrow> str option \<Rightarrow> directory \<Rightarrow> bool" where
  "allowed pick E f x room me d \<longleftrightarrow>
     passes f x room me \<and> fst (authority_verdict pick E f x room d) = None"

lemma filtered_out_None:
  assumes "filterable ev = Some (x, room)" "filtered_out pick E auth h ev fw = (None, fw1)"
  shows "\<exists>me. fw_me fw1 = Some me \<and> allowed pick E (hd_filters h) x room me (fw_roles fw)"
proof -
  obtain me fw' where me: "get_me auth fw = (me, fw')" by force
  then have "local_verdict (hd_filters h) x room me = None"
    using assms by (auto simp: filtered_out_def split: option.splits prod.splits)
  moreover from this have "fst (authority_verdict pick E (hd_filters h) x room (fw_roles fw')) = None"
      "fw_me fw1 = fw_me fw'"
    using assms me by (auto simp: filtered_out_def split: prod.splits)
  ultimately show ?thesis
    using get_me_me [OF me] by (auto simp: allowed_def local_verdict_None)
qed

lemma offer_allowed:
  assumes "filterable ev = Some (x, room)" "(j, r) \<in> set (fst (offer pick env auth ev i hs fw))"
  shows "\<exists>me d. fw_me (snd (offer pick env auth ev i hs fw)) = Some me \<and> i \<le> j \<and> j < i + length hs
    \<and> r = hd_call (hs ! (j - i)) ev \<and> allowed pick (env j) (hd_filters (hs ! (j - i))) x room me d"
  using assms(2)
proof (induction hs arbitrary: i fw)
  case (Cons h hs)
  obtain reason fw1 where f: "filtered_out pick (env i) (auth i) h ev fw = (reason, fw1)" by force
  obtain ran fw2 where o: "offer pick env auth ev (Suc i) hs fw1 = (ran, fw2)" by force
  show ?case
  proof (cases "reason = None \<and> (j, r) = (i, hd_call h ev)")
    case True
    then obtain me where "fw_me fw1 = Some me" "allowed pick (env i) (hd_filters h) x room me (fw_roles fw)"
      using filtered_out_None [OF assms(1)] f by blast
    moreover from this(1) have "fw_me fw2 = Some me" using offer_me_kept [of fw1 me] o by (metis snd_conv)
    ultimately show ?thesis using True f o by auto
  next
    case False
    then have "(j, r) \<in> set ran" using Cons.prems f o by (auto split: if_splits)
    then have "\<exists>me d. fw_me fw2 = Some me \<and> Suc i \<le> j \<and> j < Suc i + length hs
        \<and> r = hd_call (hs ! (j - Suc i)) ev \<and> allowed pick (env j) (hd_filters (hs ! (j - Suc i))) x room me d"
      using Cons.IH [of "Suc i" fw1] o by simp
    moreover have "(h # hs) ! (j - i) = hs ! (j - Suc i)" if "Suc i \<le> j"
      using that by (simp add: nth_Cons' )
    ultimately show ?thesis using f o by auto
  qed
qed simp

lemma dispatch_allowed:
  assumes "filterable ev = Some (x, room)" "(j, r) \<in> set (fst (dispatch pick env auth ev fw))"
  shows "\<exists>me d. fw_me (snd (dispatch pick env auth ev fw)) = Some me \<and> j < handler_count fw
    \<and> r = hd_call (fw_handlers fw ! j) ev \<and> allowed pick (env j) (hd_filters (fw_handlers fw ! j)) x room me d"
  using offer_allowed [OF assms(1), of j r pick env auth 0 "fw_handlers fw" "observe ev fw"] assms(2)
  by (auto simp: dispatch_def handler_count_def Let_def)

section \<open>What role checks rest on\<close>

text \<open>
  \<open>told l u i\<close>: the server listed \<open>u\<close> for the lookup \<open>l\<close> in its reply to a request started at \<open>i\<close>.
  \<open>dir_told\<close> says that every answer within reach grants only what the server told so.
\<close>

type_synonym told = "lookup \<Rightarrow> str \<Rightarrow> instant \<Rightarrow> bool"

definition entry_told :: "told \<Rightarrow> lookup \<Rightarrow> Bot_Roles.entry \<Rightarrow> bool" where
  "entry_told told l e \<longleftrightarrow> (\<forall>u. grants e u \<longrightarrow> told l u (en_fetched_at e))"

definition env_told :: "told \<Rightarrow> lookup \<Rightarrow> lookup_env \<Rightarrow> bool" where
  "env_told told l E \<longleftrightarrow> entry_told told l (fetched_entry l (le_started E) (le_reply E))"

definition dir_fresh :: "directory \<Rightarrow> bool" where
  "dir_fresh d \<longleftrightarrow> (\<exists>own. dir_ok own d) \<and> (\<forall>n e. fmlookup (rd_cells d) n = Some e \<longrightarrow> n < rd_next d)"

primrec slot_for :: "directory \<Rightarrow> lookup \<Rightarrow> nat option" where
  "slot_for d LkGlobal = Some (rd_global d)"
| "slot_for d (LkRoom r) = map_option rs_slot (fmlookup (rd_rooms d) r)"

definition dir_told :: "told \<Rightarrow> directory \<Rightarrow> bool" where
  "dir_told told d \<longleftrightarrow> dir_fresh d
     \<and> (\<forall>l n e. slot_for d l = Some n \<longrightarrow> fmlookup (rd_cells d) n = Some e \<longrightarrow> entry_told told l e)"

lemma dir_ok_slot: "dir_ok own d \<Longrightarrow> slot_for d l = Some n \<Longrightarrow> n < rd_next d \<and> own n = l"
  by (cases l) (auto simp: dir_ok_def)

lemma slot_for_inj: "dir_fresh d \<Longrightarrow> slot_for d l = Some n \<Longrightarrow> slot_for d k = Some n \<Longrightarrow> l = k"
  using dir_ok_slot unfolding dir_fresh_def by metis

lemma slot_for_below: "dir_fresh d \<Longrightarrow> slot_for d l = Some n \<Longrightarrow> n < rd_next d"
  using dir_ok_slot unfolding dir_fresh_def by metis

lemma fresh_extends: "dir_fresh d \<Longrightarrow> dir_ok own d \<Longrightarrow> extends own d own' d' \<Longrightarrow> dir_fresh d'"
  by (fastforce simp: dir_fresh_def extends_def)

lemma fresh_slot_of:
  assumes "dir_fresh d" "slot_of pick l now d = (n, d')"
  shows "dir_fresh d'"
proof -
  obtain own where own: "dir_ok own d" using assms(1) by (auto simp: dir_fresh_def)
  from slot_of_extends [OF own assms(2)] show ?thesis using fresh_extends [OF assms(1) own] by blast
qed

lemma slot_of_slots:
  "slot_of pick l now d = (n, d') \<Longrightarrow> rd_cells d' = rd_cells d \<and> slot_for d' l = Some n
     \<and> (n = rd_next d \<or> slot_for d l = Some n)
     \<and> (\<forall>k m. slot_for d' k = Some m \<longrightarrow> k \<noteq> l \<longrightarrow> slot_for d k = Some m)"
proof (cases l)
  case (LkRoom r)
  show "slot_of pick l now d = (n, d') \<Longrightarrow> ?thesis"
  proof (cases "fmlookup (rd_rooms d) r")
    case None
    have "slot_for d' k = Some m \<longrightarrow> k \<noteq> l \<longrightarrow> slot_for d k = Some m" if "slot_of pick l now d = (n, d')" for k m
      using that LkRoom None
      by (cases k) (auto simp: slot_of_def room_slot_of_def empty_slot_def Let_def dest!: evict_sub split: if_splits)
    then show "slot_of pick l now d = (n, d') \<Longrightarrow> ?thesis"
      using LkRoom None by (auto simp: slot_of_def room_slot_of_def empty_slot_def Let_def)
  next
    case (Some x)
    have "slot_for d' k = Some m \<longrightarrow> k \<noteq> l \<longrightarrow> slot_for d k = Some m" if "slot_of pick l now d = (n, d')" for k m
      using that LkRoom Some by (cases k) (auto simp: slot_of_def room_slot_of_def)
    then show "slot_of pick l now d = (n, d') \<Longrightarrow> ?thesis"
      using LkRoom Some by (auto simp: slot_of_def room_slot_of_def)
  qed
qed (auto simp: slot_of_def global_slot_def)

lemma told_slot_of:
  assumes "dir_told told d" "slot_of pick l now d = (n, d')"
  shows "dir_told told d' \<and> slot_for d' l = Some n"
proof -
  have f: "dir_fresh d" using assms(1) by (simp add: dir_told_def)
  have s: "rd_cells d' = rd_cells d" "slot_for d' l = Some n" "n = rd_next d \<or> slot_for d l = Some n"
    "\<And>k m. slot_for d' k = Some m \<Longrightarrow> k \<noteq> l \<Longrightarrow> slot_for d k = Some m"
    using slot_of_slots [OF assms(2)] by blast+
  have "entry_told told k e" if "slot_for d' k = Some m" "fmlookup (rd_cells d') m = Some e" for k m e
  proof (cases "k = l")
    case True
    then have "m = n" using that(1) s(2) by simp
    moreover have "m < rd_next d" using f that(2) s(1) by (auto simp: dir_fresh_def)
    ultimately show ?thesis using assms(1) s(1,3) that(2) True unfolding dir_told_def by auto
  next
    case False
    then show ?thesis using assms(1) s(1,4) that unfolding dir_told_def by auto
  qed
  then show ?thesis using fresh_slot_of [OF f assms(2)] s(2) by (simp add: dir_told_def)
qed

lemma told_entry:
  assumes "dir_told told d" "slot_for d l = Some n" "env_told told l E" "entry_of E l n d = (e, d')"
  shows "dir_told told d'" "entry_told told l e"
    "en_fetched_at e = le_started E \<or> is_fresh (rd_config d) (le_started E) e"
proof -
  have f: "dir_fresh d" using assms(1) by (simp add: dir_told_def)
  have "dir_told told d' \<and> entry_told told l e
      \<and> (en_fetched_at e = le_started E \<or> is_fresh (rd_config d) (le_started E) e)"
  proof (cases "cached_entry (rd_config d) (le_started E) (fmlookup (rd_cells d) n)")
    case (Some x)
    then have "fmlookup (rd_cells d) n = Some x" "is_fresh (rd_config d) (le_started E) x"
      by (auto simp: cached_entry_def split: option.splits if_splits)
    then show ?thesis using assms Some by (auto simp: entry_of_def dir_told_def)
  next
    case None
    obtain m where m: "m = fmupd n e (rd_cells d)" by simp
    have e: "e = fetched_entry l (le_started E) (le_reply E)" "d' = d\<lparr>rd_cells := m\<rparr>"
      using None assms(4) m by (auto simp: entry_of_def Let_def)
    have slots: "slot_for d' k = slot_for d k" for k by (cases k) (simp_all add: e)
    have told: "entry_told told l e" using assms(3) e by (simp add: env_told_def)
    have "dir_fresh d'" using f slot_for_below [OF f assms(2)] by (auto simp: dir_fresh_def e(2) m)
    moreover have "entry_told told k y" if "slot_for d' k = Some i" "fmlookup (rd_cells d') i = Some y" for k i y
      using that assms(1,2) told slot_for_inj [OF f] slots
      by (cases "i = n") (auto simp: e(2) m dir_told_def)
    ultimately have "dir_told told d'" unfolding dir_told_def by blast
    with told e(1) show ?thesis by (simp add: fetched_entry_def)
  qed
  then show "dir_told told d'" "entry_told told l e"
    "en_fetched_at e = le_started E \<or> is_fresh (rd_config d) (le_started E) e" by simp_all
qed

text \<open>One lookup: what it leaves, and on what it rests when it grants.\<close>

definition rests :: "told \<Rightarrow> role_cache_config \<Rightarrow> lookup_env \<Rightarrow> lookup \<Rightarrow> str \<Rightarrow> bool" where
  "rests told c E l u \<longleftrightarrow>
     (\<exists>i. told l u i \<and> (le_started E = i \<or> le_started E - i < rcc_ttl c))"

lemma grants_rests:
  assumes "entry_told told l e" "en_fetched_at e = le_started E \<or> is_fresh c (le_started E) e" "grants e u"
  shows "rests told c E l u"
proof -
  have "entry_ttl c e = rcc_ttl c" using assms(3) by (auto simp: grants_def entry_ttl_def split: option.splits)
  then show ?thesis using assms by (auto simp: rests_def entry_told_def is_fresh_def)
qed

lemma slot_of_config: "slot_of pick l now d = (n, d') \<Longrightarrow> rd_config d' = rd_config d"
  by (auto simp: slot_of_def room_slot_of_def empty_slot_def Let_def split: lookup.splits option.splits if_splits)

lemma entry_of_config: "entry_of E l n d = (e, d') \<Longrightarrow> rd_config d' = rd_config d"
  by (auto simp: entry_of_def Let_def split: option.splits)

definition told_dir :: "told \<Rightarrow> role_cache_config \<Rightarrow> directory \<Rightarrow> bool" where
  "told_dir told c d \<longleftrightarrow> dir_told told d \<and> rd_config d = c"

lemma told_admin:
  assumes "told_dir told c d" "env_told told LkGlobal E" "is_admin E u d = (b, d')"
  shows "told_dir told c d'" "b \<Longrightarrow> rests told c E LkGlobal u"
proof -
  obtain e where e: "entry_of E LkGlobal (rd_global d) d = (e, d')" "b = grants e u"
    using assms(3) by (auto simp: is_admin_def global_slot_def Let_def split: prod.splits)
  have "dir_told told d" "slot_for d LkGlobal = Some (rd_global d)" using assms(1) by (simp_all add: told_dir_def)
  note t = told_entry [OF this assms(2) e(1)]
  show "told_dir told c d'" using t(1) entry_of_config [OF e(1)] assms(1) by (simp add: told_dir_def)
  show "b \<Longrightarrow> rests told c E LkGlobal u"
    using grants_rests [OF t(2)] t(3) e(2) assms(1) by (auto simp: told_dir_def)
qed

lemma told_room_admin:
  assumes "told_dir told c d" "env_told told (LkRoom room) E" "is_room_admin pick E u room d = (b, d')"
  shows "told_dir told c d'" "b \<Longrightarrow> rests told c E (LkRoom room) u"
proof -
  obtain n d1 e where s: "slot_of pick (LkRoom room) (le_now E) d = (n, d1)"
    and e: "entry_of E (LkRoom room) n d1 = (e, d')" "b = grants e u"
    using assms(3) by (auto simp: is_room_admin_def slot_of_def split: prod.splits)
  have d1: "dir_told told d1" "slot_for d1 (LkRoom room) = Some n" "rd_config d1 = c"
    using told_slot_of [of told d, OF _ s] slot_of_config [OF s] assms(1) by (simp_all add: told_dir_def)
  note t = told_entry [OF d1(1,2) assms(2) e(1)]
  show "told_dir told c d'" using t(1) entry_of_config [OF e(1)] d1(3) by (simp add: told_dir_def)
  show "b \<Longrightarrow> rests told c E (LkRoom room) u"
    using grants_rests [OF t(2)] t(3) e(2) d1(3) by auto
qed

primrec accepts :: "authority \<Rightarrow> str \<Rightarrow> lookup \<Rightarrow> bool" where
  "accepts AuAnyone room l = True"
| "accepts AuAdmin room l = (l = LkGlobal)"
| "accepts AuRoomAdmin room l = (l = LkRoom room)"
| "accepts AuAdminOrRoomAdmin room l = (l = LkGlobal \<or> l = LkRoom room)"

lemma told_verdict:
  assumes "told_dir told c d" "\<And>l. env_told told l (E l)" "verdict pick E a author room d = (v, d')"
  shows "told_dir told c d'"
    and "v = None \<Longrightarrow> a \<noteq> AuAnyone \<Longrightarrow> \<exists>l. accepts a room l \<and> rests told c (E l) l author"
proof -
  obtain b d1 where b: "is_admin (E LkGlobal) author d = (b, d1)" by force
  note t1 = told_admin [OF assms(1,2) b]
  obtain b2 d2 where b2: "is_room_admin pick (E (LkRoom room)) author room d1 = (b2, d2)" by force
  note t2 = told_room_admin [OF t1(1) assms(2) b2]
  obtain b3 d3 where b3: "is_room_admin pick (E (LkRoom room)) author room d = (b3, d3)" by force
  note t3 = told_room_admin [OF assms(1,2) b3]
  have "told_dir told c d' \<and> (v = None \<longrightarrow> a \<noteq> AuAnyone \<longrightarrow> (\<exists>l. accepts a room l \<and> rests told c (E l) l author))"
    using assms(1,3) b b2 b3 t1 t2 t3 by (cases a) (auto simp: verdict_def split: if_splits)
  then show "told_dir told c d'"
    "v = None \<Longrightarrow> a \<noteq> AuAnyone \<Longrightarrow> \<exists>l. accepts a room l \<and> rests told c (E l) l author" by simp_all
qed

section \<open>Dispatches\<close>

type_synonym world = "bot_event \<times> (nat \<Rightarrow> lookup \<Rightarrow> lookup_env) \<times> (nat \<Rightarrow> str option)"

definition dispatch_step :: "(rooms \<Rightarrow> nat) \<Rightarrow> world \<Rightarrow> framework \<Rightarrow> framework" where
  "dispatch_step pick w fw = (case w of (ev, env, auth) \<Rightarrow> snd (dispatch pick env auth ev fw))"

definition world_told :: "told \<Rightarrow> world \<Rightarrow> bool" where
  "world_told told w \<longleftrightarrow> (case w of (ev, env, auth) \<Rightarrow> \<forall>i l. env_told told l (env i l))"

lemma told_invalidate:
  assumes "dir_told told d"
  shows "dir_told told (invalidate_global d)" "dir_told told (invalidate_room r d)"
    "dir_told told' (invalidate_all d)" "dir_told told (apply_role_change c d)"
proof -
  have f: "dir_fresh d" using assms by (simp add: dir_told_def)
  then obtain own where own: "dir_ok own d" by (auto simp: dir_fresh_def)
  note x = fresh_extends [OF f own]
  have g: "dir_fresh (invalidate_global d)" "dir_fresh (invalidate_room r d)" "dir_fresh (invalidate_all d)" for r
    using x invalidate_global_extends [OF own] invalidate_room_extends [OF own] invalidate_all_extends [OF own] by blast+
  have nocell: "fmlookup (rd_cells d) (rd_next d) = None"
    using f by (cases "fmlookup (rd_cells d) (rd_next d)") (auto simp: dir_fresh_def)
  have slots: "slot_for (invalidate_global d) l = (if l = LkGlobal then Some (rd_next d) else slot_for d l)"
    "slot_for (invalidate_room r d) l = (if l = LkRoom r then None else slot_for d l)"
    "slot_for (invalidate_all d) l = (if l = LkGlobal then Some (rd_next d) else None)" for l r
    by (cases l; simp add: invalidate_global_def invalidate_room_def invalidate_all_def empty_slot_def)+
  show 1: "dir_told told (invalidate_global d)" and 2: "dir_told told (invalidate_room r d)"
    and all: "dir_told told' (invalidate_all d)" for told' r
    using assms g nocell by (auto simp: dir_told_def slots split: if_splits)
  show "dir_told told (apply_role_change c d)"
    by (simp add: apply_role_change_def 1 2 all split: option.split)
qed

lemma told_observe: "told_dir told c (fw_roles fw) \<Longrightarrow> told_dir told c (fw_roles (observe ev fw))"
  by (auto simp: told_dir_def observe_def told_invalidate invalidate_rooms split: client_event.split model_event.split)

lemma told_filtered:
  assumes "told_dir told c (fw_roles fw)" "\<And>l. env_told told l (E l)"
    and "filtered_out pick E auth h ev fw = (v, fw1)"
  shows "told_dir told c (fw_roles fw1)"
    and "filterable ev = Some (x, room) \<Longrightarrow> v = None \<Longrightarrow> fl_authority (hd_filters h) \<noteq> AuAnyone \<Longrightarrow>
      \<exists>l. accepts (fl_authority (hd_filters h)) room l \<and> rests told c (E l) l (ur_id (msg_u x))"
proof -
  have "told_dir told c (fw_roles fw1) \<and> (filterable ev = Some (x, room) \<longrightarrow> v = None \<longrightarrow>
      fl_authority (hd_filters h) \<noteq> AuAnyone \<longrightarrow>
      (\<exists>l. accepts (fl_authority (hd_filters h)) room l \<and> rests told c (E l) l (ur_id (msg_u x))))"
  proof (cases "filterable ev")
    case (Some p)
    obtain y r where p: "p = (y, r)" by (cases p)
    obtain me fw' where me: "get_me auth fw = (me, fw')" by force
    then have t: "told_dir told c (fw_roles fw')" using assms(1) get_me_me by simp
    obtain w d where w: "verdict pick E (fl_authority (hd_filters h)) (ur_id (msg_u y)) r (fw_roles fw') = (w, d)" by force
    note v = told_verdict [OF t assms(2) w]
    show ?thesis
      using assms(3) Some p me t v w
      by (cases "local_verdict (hd_filters h) y r me") (auto simp: filtered_out_def authority_verdict_def)
  qed (use assms in \<open>simp add: filtered_out_def\<close>)
  then show "told_dir told c (fw_roles fw1)"
    and "filterable ev = Some (x, room) \<Longrightarrow> v = None \<Longrightarrow> fl_authority (hd_filters h) \<noteq> AuAnyone \<Longrightarrow>
      \<exists>l. accepts (fl_authority (hd_filters h)) room l \<and> rests told c (E l) l (ur_id (msg_u x))" by blast+
qed

lemma told_offer:
  assumes "told_dir told c (fw_roles fw)" "\<And>i l. env_told told l (env i l)"
  shows "told_dir told c (fw_roles (snd (offer pick env auth ev i hs fw)))
    \<and> (\<forall>x room j r. filterable ev = Some (x, room) \<longrightarrow> (j, r) \<in> set (fst (offer pick env auth ev i hs fw)) \<longrightarrow>
         fl_authority (hd_filters (hs ! (j - i))) \<noteq> AuAnyone \<longrightarrow>
         (\<exists>l. accepts (fl_authority (hd_filters (hs ! (j - i)))) room l \<and> rests told c (env j l) l (ur_id (msg_u x))))"
  using assms(1)
proof (induction hs arbitrary: i fw)
  case (Cons h hs)
  obtain v fw1 where f: "filtered_out pick (env i) (auth i) h ev fw = (v, fw1)" by force
  note t = told_filtered [OF Cons.prems assms(2) f]
  obtain ran fw2 where o: "offer pick env auth ev (Suc i) hs fw1 = (ran, fw2)" by force
  have IH: "told_dir told c (fw_roles fw2)"
    "\<And>x room j r. filterable ev = Some (x, room) \<Longrightarrow> (j, r) \<in> set ran \<Longrightarrow>
       fl_authority (hd_filters (hs ! (j - Suc i))) \<noteq> AuAnyone \<Longrightarrow>
       \<exists>l. accepts (fl_authority (hd_filters (hs ! (j - Suc i)))) room l \<and> rests told c (env j l) l (ur_id (msg_u x))"
    using Cons.IH [OF t(1), of "Suc i"] o by auto
  have later: "(h # hs) ! (j - i) = hs ! (j - Suc i)" if "filterable ev = Some (x, room)" "(j, r) \<in> set ran" for x room j r
  proof -
    have "Suc i \<le> j" using offer_allowed [OF that(1), of j r pick env auth "Suc i" hs fw1] that(2) o by auto
    then show ?thesis by (simp add: nth_Cons')
  qed
  show ?case
  proof (intro conjI allI impI)
    show "told_dir told c (fw_roles (snd (offer pick env auth ev i (h # hs) fw)))" using f o IH(1) by simp
  next
    fix x room j r
    assume x: "filterable ev = Some (x, room)" and j: "(j, r) \<in> set (fst (offer pick env auth ev i (h # hs) fw))"
      and a: "fl_authority (hd_filters ((h # hs) ! (j - i))) \<noteq> AuAnyone"
    consider "(j, r) \<in> set ran" | "j = i" "v = None" using j f o by (auto split: if_splits)
    then show "\<exists>l. accepts (fl_authority (hd_filters ((h # hs) ! (j - i)))) room l \<and> rests told c (env j l) l (ur_id (msg_u x))"
    proof cases
      case 1
      then show ?thesis using IH(2) [OF x 1] a later [OF x 1] by simp
    next
      case 2
      then show ?thesis using t(2) [OF x] a by simp
    qed
  qed
qed simp

lemma told_dispatch:
  assumes "told_dir told c (fw_roles fw)" "world_told told w"
  shows "told_dir told c (fw_roles (dispatch_step pick w fw))"
  using assms told_offer [OF told_observe [OF assms(1)]]
  by (auto simp: dispatch_step_def dispatch_def world_told_def Let_def split: prod.splits)

interpretation dispatches: guarded_invariant "dispatch_step pick" "\<lambda>w fw. world_told told w"
    "\<lambda>fw. told_dir told c (fw_roles fw)" for pick told c
  by unfold_locales (rule told_dispatch)

lemma told_new: "told_dir told c (directory_new c)"
proof -
  have "dir_ok (\<lambda>_. LkGlobal) (directory_new c)" by (simp add: dir_ok_def directory_new_def)
  then show ?thesis by (auto simp: told_dir_def dir_told_def dir_fresh_def directory_new_def)
qed

end
