(* ===== verification/Bot_Dispatch.thy ===== *)
theory Bot_Dispatch
  imports Bot_Framework
begin

text \<open>
  The properties of the handler layer: which handlers an event reaches, on what a role
  requirement rests across reconnects, and the websocket endpoint.
\<close>

section \<open>Which handlers run\<close>

text \<open>C14: The filters guard every handler.  A handler that runs on a message is one whose filters the
  message passes: unless they allow it, the message is not the bot's own, as far as its id was
  resolved, not a system message and not an edit; it starts with the required prefix, is in the
  required room and mentions the bot by id when that is required.\<close>

theorem handlers_guarded:
  assumes "filterable ev = Some (x, room)" and "(j, r) \<in> set (fst (dispatch pick env auth ev fw))"
  shows "\<exists>me f. fw_me (snd (dispatch pick env auth ev fw)) = Some me \<and> j < handler_count fw
    \<and> r = hd_call (fw_handlers fw ! j) ev \<and> f = hd_filters (fw_handlers fw ! j)
    \<and> (\<not> fl_allow_self f \<longrightarrow> me \<noteq> Some (ur_id (msg_u x)))
    \<and> (\<not> fl_allow_system f \<longrightarrow> \<not> is_system x) \<and> (\<not> fl_allow_edits f \<longrightarrow> \<not> is_edited x)
    \<and> (\<forall>p. fl_prefix f = Some p \<longrightarrow> (\<exists>rest. msg_msg x = p @ rest))
    \<and> (\<forall>w. fl_room f = Some w \<longrightarrow> room = w)
    \<and> (fl_mentions_me f \<longrightarrow> (\<exists>i ms. me = Some i \<and> msg_mentions x = Some ms \<and> i \<in> mm_id ` set ms))"
proof -
  from dispatch_allowed [OF assms] obtain me d where
    "fw_me (snd (dispatch pick env auth ev fw)) = Some me" "j < handler_count fw"
    "r = hd_call (fw_handlers fw ! j) ev" "passes (hd_filters (fw_handlers fw ! j)) x room me"
    unfolding allowed_def by blast
  then show ?thesis unfolding passes_def starts_with_iff mentioned_iff by blast
qed

lemma offer_nothing: "filterable ev = None \<Longrightarrow> fw_roles (snd (offer pick env auth ev i hs fw)) = fw_roles fw"
  by (induction hs arbitrary: i fw) (simp_all add: filtered_out_def case_prod_unfold Let_def)

section \<open>Role requirements\<close>

text \<open>C13: A role requirement rests on what the server said lately.  Take a framework that is new, or
  has just resubscribed after a reconnect, whatever it did before; let \<open>told\<close> hold of everything the
  server lists in its replies from then on.  After any further events, a handler with a role
  requirement runs on a message only when its author was told, in the last \<open>ttl\<close>, to hold the
  role in the workspace or in that room, as the requirement accepts.  In particular nothing
  known before the reconnect counts.\<close>

theorem roles_rest_on_replies:
  assumes "start = fw0\<lparr>fw_roles := directory_new c\<rparr>
      \<or> start = dispatch_step pick (CeResubscribed epoch n, env0, auth0)
          (fold (dispatch_step pick) before (fw0\<lparr>fw_roles := directory_new c\<rparr>))"
    and "list_all (world_told told) ws" and "world_told told (ev, env, auth)"
    and "fw = fold (dispatch_step pick) ws start" and "filterable ev = Some (x, room)"
    and "(j, r) \<in> set (fst (dispatch pick env auth ev fw))"
    and "fl_authority (hd_filters (fw_handlers fw ! j)) = a" and "a \<noteq> AuAnyone"
  shows "\<exists>l i. accepts a room l \<and> told l (ur_id (msg_u x)) i
    \<and> (le_started (env j l) = i \<or> le_started (env j l) - i < rcc_ttl c)"
proof -
  let ?new = "fw0\<lparr>fw_roles := directory_new c\<rparr>"
  have anything: "world_told (\<lambda>_ _ _. True) w" for w
    by (simp add: world_told_def env_told_def entry_told_def split: prod.split)
  have "told_dir told c (fw_roles start)"
    using assms(1)
  proof
    assume s: "start = dispatch_step pick (CeResubscribed epoch n, env0, auth0) (fold (dispatch_step pick) before ?new)"
    let ?old = "fold (dispatch_step pick) before ?new"
    have "told_dir (\<lambda>_ _ _. True) c (fw_roles ?old)"
      by (rule dispatches.guarded_run) (simp_all add: told_new guarded_all anything list_all_iff)
    then have "dir_told told (invalidate_all (fw_roles ?old))" "rd_config (fw_roles ?old) = c"
      using told_invalidate(3) unfolding told_dir_def by blast+
    then have "told_dir told c (invalidate_all (fw_roles ?old))"
      by (simp add: told_dir_def invalidate_rooms)
    then show ?thesis
      by (simp add: s dispatch_step_def dispatch_def observe_def filterable_def offer_nothing Let_def)
  qed (simp add: told_new)
  then have "told_dir told c (fw_roles fw)"
    unfolding assms(4) by (rule dispatches.guarded_run [OF _ guarded_all [OF assms(2)]])
  from told_observe [OF this, of ev] have "told_dir told c (fw_roles (observe ev fw))" .
  from told_offer [OF this, of env pick auth ev 0 "fw_handlers fw"] assms(3,5-8)
  have "\<exists>l. accepts a room l \<and> rests told c (env j l) l (ur_id (msg_u x))"
    by (auto simp: dispatch_def world_told_def Let_def)
  then show ?thesis by (auto simp: rests_def)
qed

section \<open>An id resolved too early\<close>

text \<open>The bot's id is resolved by the first message and kept even when there was none: from then on
  the guard against its own messages is off, whoever logs in later.\<close>

lemma own_message_unguarded:
  assumes "filterable ev = Some (x, room)" "fw_me fw = Some None"
    and "passes (hd_filters h) x room None" "fl_authority (hd_filters h) = AuAnyone"
  shows "filtered_out pick E (Some (ur_id (msg_u x))) h ev fw = (None, fw\<lparr>fw_roles := fw_roles fw\<rparr>)"
  using assms local_verdict_None [of "hd_filters h" x room None]
  by (simp add: filtered_out_def get_me_def authority_verdict_def verdict_def)

section \<open>The endpoint\<close>

lemma trim_end_snoc: "trim_end c (s @ replicate n c) = trim_end c s"
proof -
  have "dropWhile (\<lambda>x. x = c) (replicate n c @ xs) = dropWhile (\<lambda>x. x = c) xs" for xs
    by (induction n) simp_all
  then show ?thesis by (simp add: trim_end_def)
qed

lemma trim_end_id: "s = [] \<or> last s \<noteq> c \<Longrightarrow> trim_end c s = s"
  by (cases s rule: rev_cases) (simp_all add: trim_end_def)

text \<open>The websocket endpoint of a workspace is its URL without trailing slashes, with the scheme
  of the same security, followed by \<open>/websocket\<close>.\<close>

theorem endpoint_derived:
  assumes "rest \<noteq> []" and "last rest \<noteq> CHR ''/''"
  shows "websocket_url (''https://'' @ rest @ replicate n (CHR ''/'')) = Inr (''wss://'' @ rest @ ''/websocket'')
    \<and> websocket_url (''http://'' @ rest @ replicate n (CHR ''/'')) = Inr (''ws://'' @ rest @ ''/websocket'')
    \<and> websocket_url (''wss://'' @ rest @ replicate n (CHR ''/'')) = Inr (''wss://'' @ rest @ ''/websocket'')
    \<and> websocket_url (''ws://'' @ rest @ replicate n (CHR ''/'')) = Inr (''ws://'' @ rest @ ''/websocket'')"
proof -
  have "trim_end (CHR ''/'') (p @ rest @ replicate n (CHR ''/'')) = p @ rest" for p
    using trim_end_snoc [of "CHR ''/''" "p @ rest" n] trim_end_id [of "p @ rest" "CHR ''/''"] assms by simp
  note t = this [of "''https://''"] this [of "''http://''"] this [of "''wss://''"] this [of "''ws://''"]
  show ?thesis
    unfolding websocket_url_def t by (simp add: starts_with_def Let_def)
qed

theorem endpoint_derived_witness:
  "websocket_url ''https://chat.example.com//'' = Inr ''wss://chat.example.com/websocket''"
  using endpoint_derived [of "''chat.example.com''" 2] by (simp add: numeral_2_eq_2)

end
