(* ===== verification/Bot_Witnesses.thy ===== *)
theory Bot_Witnesses
  imports Bot_Dispatch Model_Samples
begin

text \<open>The properties of the handler layer applied to concrete dispatches.\<close>

section \<open>A handler and an event\<close>

definition echo_handler :: "authority \<Rightarrow> handler" where
  "echo_handler a = \<lparr>hd_name = ''echo'',
     hd_filters = with_authority a (with_prefix (Some ''hel'') FILTERS_DEFAULT), hd_call = (\<lambda>ev. Inr ())\<rparr>"

definition hello_event :: bot_event where
  "hello_event = CeStream \<lparr>sk_stream = ''room-messages'', sk_event = ''GENERAL''\<rparr>
     (MeRoomMessage ''GENERAL'' (blank_message ''m1'')) []"

definition admin_reply :: rest_answers where
  "admin_reply = \<lparr>ra_public = Inr [\<lparr>prh_id = ''u1'', prh_username = None, prh_roles = [''admin'']\<rparr>],
     ra_room = (\<lambda>room. Inl ''error-invalid-room'')\<rparr>"

definition admin_env :: "nat \<Rightarrow> lookup \<Rightarrow> lookup_env" where
  "admin_env i l = \<lparr>le_now = 6, le_started = 7, le_reply = Some admin_reply\<rparr>"

definition echo_framework :: "authority \<Rightarrow> framework" where
  "echo_framework a = \<lparr>fw_handlers = [echo_handler a], fw_me = None, fw_roles = directory_new ROLE_CACHE_DEFAULT\<rparr>"

lemma hello_filterable: "filterable hello_event = Some (blank_message ''m1'', ''GENERAL'')"
  by (simp add: filterable_def hello_event_def)

lemma hello_passes: "local_verdict (hd_filters (echo_handler a)) (blank_message ''m1'') ''GENERAL'' (Some ''bot'') = None"
  by (simp add: local_verdict_def echo_handler_def with_authority_def with_prefix_def FILTERS_DEFAULT_def
      blank_message_def is_system_def is_edited_def starts_with_def)

lemma hello_observed: "observe hello_event fw = fw"
  by (simp add: observe_def hello_event_def)

lemma admin_holders:
  "reply_holders l (Some admin_reply) = (case l of LkGlobal \<Rightarrow> Some {|''u1''|} | LkRoom r \<Rightarrow> None)"
  by (cases l) (simp_all add: reply_holders_def admin_reply_def holds_any_def ADMIN_ROLE_def)

lemma echo_runs: "fst (dispatch pick admin_env (\<lambda>i. Some ''bot'') hello_event (echo_framework AuAdmin)) = [(0, Inr ())]"
proof -
  have "hd_call (echo_handler a) ev = Inr ()" "fl_authority (hd_filters (echo_handler a)) = a" for a ev
    by (simp_all add: echo_handler_def with_authority_def)
  moreover have "ur_id (msg_u (blank_message i)) = ''u1''" for i by (simp add: blank_message_def)
  ultimately show ?thesis
    using hello_passes [of AuAdmin]
    by (simp add: dispatch_def hello_observed echo_framework_def filtered_out_def hello_filterable get_me_def
        authority_verdict_def verdict_def is_admin_def entry_of_def cached_entry_def directory_new_def
        fetched_entry_def admin_env_def admin_holders grants_def Let_def)
qed

section \<open>Witnesses\<close>

theorem handlers_guarded_witness:
  "\<exists>me f. f = hd_filters (echo_handler AuAdmin) \<and> (\<not> fl_allow_self f \<longrightarrow> me \<noteq> Some ''u1'')"
proof -
  have "(0, Inr ()) \<in> set (fst (dispatch (\<lambda>_. 0) admin_env (\<lambda>i. Some ''bot'') hello_event (echo_framework AuAdmin)))"
    by (simp add: echo_runs)
  from handlers_guarded [OF hello_filterable this]
  show ?thesis by (auto simp: echo_framework_def)
qed

theorem roles_rest_on_replies_witness:
  "\<exists>l i. accepts AuAdmin ''GENERAL'' l \<and> (l, i) = (LkGlobal, 7::nat)"
proof -
  let ?told = "\<lambda>l u i. l = LkGlobal \<and> u = ''u1'' \<and> i = 7"
  let ?fw = "echo_framework AuAdmin"
  have "world_told ?told (hello_event, admin_env, \<lambda>i. Some ''bot'')"
    by (auto simp: world_told_def env_told_def entry_told_def fetched_entry_def admin_env_def admin_holders grants_def
        split: lookup.splits)
  moreover have "(0, Inr ()) \<in> set (fst (dispatch (\<lambda>_. 0) admin_env (\<lambda>i. Some ''bot'') hello_event ?fw))"
    by (simp add: echo_runs)
  moreover have "?fw = ?fw\<lparr>fw_roles := directory_new ROLE_CACHE_DEFAULT\<rparr>" by (simp add: echo_framework_def)
  moreover have "fl_authority (hd_filters (fw_handlers ?fw ! 0)) = AuAdmin"
    by (simp add: echo_framework_def echo_handler_def with_authority_def)
  ultimately show ?thesis
    using roles_rest_on_replies [of ?fw ROLE_CACHE_DEFAULT ?fw "\<lambda>_. 0" 0 0 admin_env "\<lambda>i. None" "[]" ?told "[]"
        hello_event admin_env "\<lambda>i. Some ''bot''" ?fw "blank_message ''m1''" "''GENERAL''" 0 "Inr ()" AuAdmin]
      hello_filterable by simp
qed

end
