(* ===== verification/Bot_Role_Properties.thy ===== *)
theory Bot_Role_Properties
  imports Bot_Role_Fresh
begin

text \<open>
  The properties of the role directory over every run of its lookups and invalidations, each
  with a run it applies to.
\<close>

section \<open>Fail closed\<close>

lemma grants_holder: "grants e user \<Longrightarrow> \<exists>hs. en_holders e = Some hs \<and> user |\<in>| hs"
  by (auto simp: grants_def split: option.splits)

lemma reply_holders_Some:
  "reply_holders l reply = Some hs \<Longrightarrow> \<exists>A. reply = Some A \<and> fetch_roles A l = Inr hs"
  by (auto simp: reply_holders_def split: option.splits sum.splits)

text \<open>C11: The role filter fails closed.  Whenever a lookup ends with an answer that grants the role to
  a user, a request for that very lookup, the workspace or that room, had come back in time and
  well formed with the user among its holders, and it had been started when the mutex was taken
  for this answer or less than \<open>ttl\<close> before.  No credentials, a transport error, a refusal, a body
  that does not parse and a timeout all grant nothing.\<close>

theorem grant_is_established:
  assumes "fold (logged_step pick) xs ([], role_system_new c) = (L, s)"
    and "fmlookup (sy_tasks s) t = Some (LtDone l now e)" and "grants e user"
  shows "\<exists>A hs. (l, en_fetched_at e, Some A) \<in> set L \<and> fetch_roles A l = Inr hs \<and> user |\<in>| hs
    \<and> (now = en_fetched_at e \<or> now - en_fetched_at e < rcc_ttl c)"
proof -
  from provenance_run [OF assms(1)] obtain own where p: "prov L own s" by blast
  have "s = fold (role_step pick) xs (role_system_new c)"
    using snd_logged [of pick xs "[]" "role_system_new c"] assms(1) by simp
  then have "rd_config (sy_dir s) = c" using rooms_run [of c pick xs] by (simp add: rooms_ok_def)
  moreover obtain hs where hs: "en_holders e = Some hs" "user |\<in>| hs"
    using grants_holder [OF assms(3)] by blast
  moreover have "backed L l e" "now = en_fetched_at e \<or> is_fresh (rd_config (sy_dir s)) now e"
    using prov_waiting [OF p assms(2)] by simp_all
  moreover from this(1) hs(1) obtain reply where r: "(l, en_fetched_at e, reply) \<in> set L" "reply_holders l reply = Some hs"
    by (auto simp: backed_def)
  moreover from reply_holders_Some [OF r(2)] obtain A where "reply = Some A" "fetch_roles A l = Inr hs" by blast
  ultimately show ?thesis by (auto simp: is_fresh_def entry_ttl_def)
qed

definition sample_answers :: rest_answers where
  "sample_answers = \<lparr>ra_public = Inr [\<lparr>prh_id = ''u1'', prh_username = None, prh_roles = [''user'', ''admin'']\<rparr>,
       \<lparr>prh_id = ''u2'', prh_username = None, prh_roles = [''livechat-agent'']\<rparr>],
     ra_room = (\<lambda>room. Inl ''error-invalid-room'')\<rparr>"

definition sample_config :: role_cache_config where
  "sample_config = \<lparr>rcc_ttl = 100, rcc_failure_ttl = 10, rcc_timeout = 5, rcc_max_rooms = 2\<rparr>"

lemmas run_simps = role_system_new_def directory_new_def logged_step_def log_of_def ask_step_def
  slot_of_def global_slot_def lock_step_def cached_entry_def fetched_step_def fetched_entry_def
  invalidate_global_def empty_slot_def Let_def

lemma sample_admins: "reply_holders LkGlobal (Some sample_answers) = Some {|''u1''|}"
  by (simp add: reply_holders_def sample_answers_def holds_any_def ADMIN_ROLE_def)

theorem grant_is_established_witness:
  "\<exists>A hs. fetch_roles A LkGlobal = Inr hs \<and> ''u1'' |\<in>| hs"
proof -
  let ?e = "\<lparr>en_holders = Some {|''u1''|}, en_fetched_at = 3\<rparr>"
  have "fold (logged_step (\<lambda>_. 0))
      [DoAsk 0 LkGlobal 1, DoLock 0 3, DoFetched 0 (Some sample_answers), DoAsk 1 LkGlobal 7, DoLock 1 8]
      ([], role_system_new sample_config) =
    ([(LkGlobal, 3, Some sample_answers)],
     \<lparr>sy_dir = \<lparr>rd_config = sample_config, rd_global = 0, rd_rooms = fmempty, rd_cells = fmupd 0 ?e fmempty,
        rd_locked = {||}, rd_next = 1\<rparr>,
      sy_tasks = fmupd 1 (LtDone LkGlobal 8 ?e) (fmupd 0 (LtDone LkGlobal 3 ?e) fmempty)\<rparr>)"
    by (simp add: run_simps sample_admins is_fresh_def entry_ttl_def sample_config_def)
  from grant_is_established [OF this, of 1 LkGlobal 8 ?e "''u1''"] show ?thesis
    by (auto simp: grants_def)
qed

section \<open>Invalidation\<close>

text \<open>C12: An invalidation is final.  Take any reachable state, with lookups waiting and requests under
  way, and any invalidation, a \<open>roles-change\<close> event for instance.  Whatever happens afterwards, a
  lookup it affects that begins after it is never answered from a request started before the
  clock readings that follow, though requests from before it may still complete.\<close>

theorem no_answer_from_before:
  assumes "affects x l" and "list_all (reads_from i) after"
    and "fmlookup (sy_tasks (fold (role_step pick) before (role_system_new c))) t = None"
    and "fmlookup (sy_tasks (fold (role_step pick) after
           (role_step pick x (fold (role_step pick) before (role_system_new c))))) t = Some (LtDone l now e)"
  shows "i \<le> en_fetched_at e"
proof -
  obtain s where s: "s = fold (role_step pick) before (role_system_new c)" by simp
  obtain L own where p: "prov L own s" using prov_run [of pick before c] s by auto
  have "cut (affects x) (fmdom (sy_tasks s)) (rd_next (sy_dir s)) i
      (fold (role_step pick) after (role_step pick x s))"
    by (rule role_cut.guarded_run [OF cut_begins [OF p assms(1)] guarded_all [OF assms(2)]])
  moreover have "t |\<notin>| fmdom (sy_tasks s)" using assms(3) s by (simp add: fmlookup_dom_iff)
  ultimately show ?thesis
    using cut_of_task [of "affects x"] assms(1,4) s by fastforce
qed

theorem no_answer_from_before_witness:
  "(5::nat) \<le> en_fetched_at \<lparr>en_holders = None, en_fetched_at = 6\<rparr>"
proof (rule no_answer_from_before)
  show "affects DoInvalidateGlobal LkGlobal" by simp
  show "list_all (reads_from 5)
      [DoAsk 1 LkGlobal 5, DoLock 1 6, DoFetched 0 (Some sample_answers), DoFetched 1 None]" by simp
  show "fmlookup (sy_tasks (fold (role_step (\<lambda>_. 0)) [DoAsk 0 LkGlobal 1, DoLock 0 2]
      (role_system_new sample_config))) 1 = None"
    by (simp add: run_simps)
  show "fmlookup (sy_tasks (fold (role_step (\<lambda>_. 0))
      [DoAsk 1 LkGlobal 5, DoLock 1 6, DoFetched 0 (Some sample_answers), DoFetched 1 None]
      (role_step (\<lambda>_. 0) DoInvalidateGlobal (fold (role_step (\<lambda>_. 0)) [DoAsk 0 LkGlobal 1, DoLock 0 2]
        (role_system_new sample_config))))) 1 = Some (LtDone LkGlobal 6 \<lparr>en_holders = None, en_fetched_at = 6\<rparr>)"
    by (simp add: run_simps reply_holders_def)
qed

section \<open>Single flight\<close>

text \<open>C40: No stampede.  In every reachable state at most one task asks the server through a slot, and a
  task that waited behind it takes the answer it left, without a request of its own, as long as
  that answer is fresh.\<close>

theorem single_flight:
  assumes "s = fold (role_step pick) xs (role_system_new c)"
    and "fmlookup (sy_tasks s) t = Some (LtFetching n l started)"
  shows "(fmlookup (sy_tasks s) u = Some (LtFetching n l' started') \<longrightarrow> u = t)
    \<and> (fmlookup (sy_tasks s) u = Some (LtWaiting n l') \<longrightarrow>
       now - started < entry_ttl c (fetched_entry l started reply) \<longrightarrow>
       fmlookup (sy_tasks (lock_step u now (fetched_step t reply s))) u =
         Some (LtDone l' now (fetched_entry l started reply)))"
proof (intro conjI)
  show "fmlookup (sy_tasks s) u = Some (LtFetching n l' started') \<longrightarrow> u = t"
    using flights_run [of pick xs c] assms unfolding flights_ok_def fetching_def by blast
  have "rd_config (sy_dir s) = c" using rooms_run [of c pick xs] assms(1) by (simp add: rooms_ok_def)
  then show "fmlookup (sy_tasks s) u = Some (LtWaiting n l') \<longrightarrow>
       now - started < entry_ttl c (fetched_entry l started reply) \<longrightarrow>
       fmlookup (sy_tasks (lock_step u now (fetched_step t reply s))) u =
         Some (LtDone l' now (fetched_entry l started reply))"
    using assms(2) by (auto simp: fetched_step_def lock_step_def cached_entry_def is_fresh_def fetched_entry_def Let_def)
qed

theorem single_flight_witness:
  "fmlookup (sy_tasks (fold (role_step (\<lambda>_. 0))
      [DoAsk 0 LkGlobal 1, DoAsk 1 LkGlobal 2, DoLock 0 3, DoFetched 0 None, DoLock 1 5]
      (role_system_new sample_config))) 1 = Some (LtDone LkGlobal 5 \<lparr>en_holders = None, en_fetched_at = 3\<rparr>)"
proof -
  obtain s where s: "s = fold (role_step (\<lambda>_. 0)) [DoAsk 0 LkGlobal 1, DoAsk 1 LkGlobal 2, DoLock 0 3]
      (role_system_new sample_config)" by simp
  then have "fmlookup (sy_tasks s) 0 = Some (LtFetching 0 LkGlobal 3)" "fmlookup (sy_tasks s) 1 = Some (LtWaiting 0 LkGlobal)"
    by (simp_all add: run_simps)
  moreover have "(5::nat) - 3 < entry_ttl sample_config (fetched_entry LkGlobal 3 None)"
    by (simp add: entry_ttl_def fetched_entry_def reply_holders_def sample_config_def)
  ultimately have "fmlookup (sy_tasks (lock_step 1 5 (fetched_step 0 None s))) 1
      = Some (LtDone LkGlobal 5 (fetched_entry LkGlobal 3 None))"
    using single_flight [OF s, of 0 0 LkGlobal 3] by blast
  then show ?thesis by (simp add: s fetched_entry_def reply_holders_def)
qed

section \<open>The ceiling\<close>

text \<open>At most \<open>max_rooms\<close> rooms are remembered, the one consulted is among them, and when the
  ceiling is met it takes the place of a single room, one consulted no later than any other.\<close>

theorem rooms_capped:
  assumes "s = fold (role_step pick) xs (role_system_new c)" and "0 < rcc_max_rooms c"
    and "room_slot_of pick room now (sy_dir s) = (n, d)"
  shows "cached_rooms (sy_dir s) \<le> rcc_max_rooms c \<and> cached_rooms d \<le> rcc_max_rooms c
    \<and> map_option rs_touched (fmlookup (rd_rooms d) room) = Some now
    \<and> (fmlookup (rd_rooms (sy_dir s)) room = None \<and> cached_rooms (sy_dir s) = rcc_max_rooms c \<longrightarrow>
        (\<exists>cold x. fmlookup (rd_rooms (sy_dir s)) cold = Some x
          \<and> (\<forall>k y. fmlookup (rd_rooms (sy_dir s)) k = Some y \<longrightarrow> rs_touched x \<le> rs_touched y)
          \<and> rd_rooms d = fmupd room \<lparr>rs_slot = n, rs_touched = now\<rparr> (fmdrop cold (rd_rooms (sy_dir s)))))"
proof -
  have ok: "rd_config (sy_dir s) = c" "cached_rooms (sy_dir s) \<le> rcc_max_rooms c"
    using rooms_run [of c pick xs] assms(1,2) by (simp_all add: rooms_ok_def)
  have "slot_of pick (LkRoom room) now (sy_dir s) = (n, d)" using assms(3) by (simp add: slot_of_def)
  then have "cached_rooms d \<le> rcc_max_rooms c" using slot_of_rooms(2) ok assms(2) by blast
  moreover have "map_option rs_touched (fmlookup (rd_rooms d) room) = Some now"
    using assms(3) by (auto simp: room_slot_of_def empty_slot_def Let_def split: option.splits)
  moreover have "rd_rooms d = fmupd room \<lparr>rs_slot = n, rs_touched = now\<rparr>
      (evict pick (rcc_max_rooms c) (rd_rooms (sy_dir s)))"
    if "fmlookup (rd_rooms (sy_dir s)) room = None"
    using assms(2,3) that ok(1) by (auto simp: room_slot_of_def empty_slot_def Let_def)
  ultimately show ?thesis
    using ok(2) evict_one [of "rd_rooms (sy_dir s)" "rcc_max_rooms c" pick] assms(2)
    unfolding cached_rooms_def by metis
qed

theorem rooms_capped_witness:
  "cached_rooms (sy_dir (fold (role_step (\<lambda>_. 0)) [DoAsk 0 (LkRoom ''a'') 1, DoAsk 1 (LkRoom ''b'') 2]
      (role_system_new sample_config))) \<le> 2"
proof -
  obtain s where s: "s = fold (role_step (\<lambda>_. 0)) [DoAsk 0 (LkRoom ''a'') 1, DoAsk 1 (LkRoom ''b'') 2]
      (role_system_new sample_config)" by simp
  obtain n d where "room_slot_of (\<lambda>_. 0) ''c'' 3 (sy_dir s) = (n, d)" by force
  from rooms_capped [OF s _ this] show ?thesis by (simp add: s sample_config_def)
qed

section \<open>One caller\<close>

text \<open>The functions of one caller refine the tasks: a lookup that begins when its slot's mutex is
  free and runs to its end undisturbed leaves the directory and the answer that \<open>entry_of\<close> gives.\<close>

theorem one_caller_refines:
  assumes "fmlookup (sy_tasks s) t = None" and "slot_of pick l (le_now E) (sy_dir s) = (n, d)"
    and "n |\<notin>| rd_locked d" and "entry_of E l n d = (e, d')"
  shows "fold (role_step pick) [DoAsk t l (le_now E), DoLock t (le_started E), DoFetched t (le_reply E)] s
    = s\<lparr>sy_dir := d', sy_tasks := fmupd t (LtDone l (le_started E) e) (sy_tasks s)\<rparr>"
proof -
  have ask: "ask_step pick t l (le_now E) s = s\<lparr>sy_dir := d, sy_tasks := fmupd t (LtWaiting n l) (sy_tasks s)\<rparr>"
    using assms(1,2) by (simp add: ask_step_def fmlookup_dom_iff)
  have upd: "fmupd t x (fmupd t y m) = fmupd t x m" for x y and m :: "(nat, lookup_task) fmap"
    by (rule fmap_ext) simp
  have lock: "finsert n (rd_locked d) |-| {|n|} = rd_locked d" using assms(3) by auto
  show ?thesis
  proof (cases "cached_entry (rd_config d) (le_started E) (fmlookup (rd_cells d) n)")
    case None
    then show ?thesis using assms(3,4)
      by (auto simp: ask lock_step_def fetched_step_def entry_of_def upd lock Let_def)
  next
    case (Some x)
    then show ?thesis using assms(3,4)
      by (simp add: ask lock_step_def fetched_step_def entry_of_def upd Let_def)
  qed
qed

theorem one_caller_refines_witness:
  "fold (role_step (\<lambda>_. 0)) [DoAsk 0 LkGlobal 1, DoLock 0 2, DoFetched 0 None] (role_system_new sample_config)
   = (role_system_new sample_config)\<lparr>
       sy_dir := (directory_new sample_config)\<lparr>rd_cells := fmupd 0 \<lparr>en_holders = None, en_fetched_at = 2\<rparr> fmempty\<rparr>,
       sy_tasks := fmupd 0 (LtDone LkGlobal 2 \<lparr>en_holders = None, en_fetched_at = 2\<rparr>) fmempty\<rparr>"
proof -
  let ?E = "\<lparr>le_now = 1, le_started = 2, le_reply = None\<rparr>"
  let ?e = "\<lparr>en_holders = None, en_fetched_at = 2\<rparr>"
  have "fold (role_step (\<lambda>_. 0)) [DoAsk 0 LkGlobal (le_now ?E), DoLock 0 (le_started ?E), DoFetched 0 (le_reply ?E)]
      (role_system_new sample_config) = (role_system_new sample_config)\<lparr>
       sy_dir := (directory_new sample_config)\<lparr>rd_cells := fmupd 0 ?e (rd_cells (directory_new sample_config))\<rparr>,
       sy_tasks := fmupd 0 (LtDone LkGlobal (le_started ?E) ?e) (sy_tasks (role_system_new sample_config))\<rparr>"
    by (rule one_caller_refines [where n = 0 and d = "directory_new sample_config"])
      (simp_all add: run_simps entry_of_def reply_holders_def)
  then show ?thesis by (simp add: role_system_new_def directory_new_def)
qed

end
