(* ===== verification/Rest_Refusals.thy ===== *)
theory Rest_Refusals
  imports Rest_Error
begin

text \<open>
  The properties of refusals: every shape the server refuses in is read back, a body that is not
  JSON is kept as bounded valid text, and the wait the rate limiter asks for is exact and capped.
\<close>

section \<open>The shapes of a refusal\<close>

text \<open>How the server says no, one constructor for each producer: \<open>failure()\<close> with its code and
  text, the helpers for 401, 403, 404 and 429, the login route, which puts the code where the
  others put the text, and the middleware that says one sentence twice.\<close>

datatype refusal =
    RfFailure str str
  | RfHelper str
  | RfLogin json str
  | RfMiddleware str

definition refusal_members :: "refusal \<Rightarrow> (str \<times> json option) list" where
  "refusal_members r = (case r of
       RfFailure code human \<Rightarrow> [(''error'', Some (JString human)), (''errorType'', Some (JString code)), (''message'', None)]
     | RfHelper human \<Rightarrow> [(''error'', Some (JString human)), (''errorType'', None), (''message'', None)]
     | RfLogin code human \<Rightarrow> [(''error'', Some code), (''errorType'', None), (''message'', Some (JString human))]
     | RfMiddleware human \<Rightarrow> [(''error'', Some (JString human)), (''errorType'', None), (''message'', Some (JString human))])"

definition refusal_body :: "refusal \<Rightarrow> json option \<Rightarrow> (str \<times> json option) list \<Rightarrow> json" where
  "refusal_body r details extra = struct_to_json (refusal_members r @ (''details'', details) # extra)"

definition refusal_code :: "(rat \<Rightarrow> str) \<Rightarrow> refusal \<Rightarrow> str option" where
  "refusal_code pf r = (case r of
       RfFailure code human \<Rightarrow> Some code
     | RfLogin code human \<Rightarrow> scalar_to_string pf code
     | _ \<Rightarrow> None)"

definition refusal_message :: "refusal \<Rightarrow> str" where
  "refusal_message r = (case r of
       RfFailure code human \<Rightarrow> human
     | RfHelper human \<Rightarrow> human
     | RfLogin code human \<Rightarrow> human
     | RfMiddleware human \<Rightarrow> human)"

text \<open>A login refusal whose code reads like its text is the sentence said twice.\<close>

definition refusal_ok :: "(rat \<Rightarrow> str) \<Rightarrow> refusal \<Rightarrow> bool" where
  "refusal_ok pf r = (case r of RfLogin code human \<Rightarrow> code \<noteq> JNull \<and> scalar_to_string pf code \<noteq> Some human | _ \<Rightarrow> True)"

lemma refusal_names: "map fst (refusal_members r) = [''error'', ''errorType'', ''message'']"
  by (cases r) (simp_all add: refusal_members_def)

lemma refusal_read:
  assumes "distinct (map fst extra)" and "set (map fst extra) \<inter> set FAILURE_ENVELOPE_NAMES = {}"
    and "details \<noteq> Some JNull"
  shows "failure_envelope_of_json (refusal_body r details extra) = do {
      e \<leftarrow> opt_read dec_value (member (refusal_members r) ''error'');
      t \<leftarrow> opt_read as_str (member (refusal_members r) ''errorType'');
      msg \<leftarrow> opt_read as_str (member (refusal_members r) ''message'');
      Some \<lparr>fe_error = e, fe_error_type = t, fe_message = msg, fe_details = details\<rparr> }"
proof -
  let ?fs = "refusal_members r @ (''details'', details) # extra"
  have "distinct (map fst ?fs)"
    using assms(1,2) by (auto simp: refusal_names FAILURE_ENVELOPE_NAMES_def)
  note g = obj_get_fields [OF this]
  have other: "map_of extra k = None" if "k \<in> set FAILURE_ENVELOPE_NAMES" for k
    using assms(2) that by (auto simp: map_of_eq_None_iff)
  have m: "member ?fs k = (if k = ''details'' then details else member (refusal_members r) k)"
    if "k \<in> set FAILURE_ENVELOPE_NAMES" for k
    using other [OF that] refusal_names [of r] that
    by (cases r) (auto simp: member_def refusal_members_def map_add_def FAILURE_ENVELOPE_NAMES_def)
  have d: "opt_read dec_value details = Some details"
    using assms(3) by (cases details) (auto simp: opt_read_def dec_value_def split: json.split)
  show ?thesis
    unfolding refusal_body_def failure_envelope_of_json_def struct_obj_to_json
    by (simp add: opt_field_read g m d FAILURE_ENVELOPE_NAMES_def)
qed

lemma opt_read_string [simp]: "opt_read as_str (Some (JString s)) = Some (Some s)"
  by (simp add: opt_read_def)

lemma opt_read_none [simp]: "opt_read f None = Some None"
  by (simp add: opt_read_def)

lemma opt_read_some_value: "v \<noteq> JNull \<Longrightarrow> opt_read dec_value (Some v) = Some (Some v)"
  by (cases v) (simp_all add: opt_read_def dec_value_def)


definition sample_json :: json_lib where
  "sample_json = \<lparr>
     jl_parse = (\<lambda>body. if body = ''{}'' then Inr (refusal_body (RfLogin (JNumber (PosInt 403)) ''User not found'')
       None [(''success'', Some (JBool False))]) else Inl ''expected value''),
     jl_print_float = (\<lambda>_. ''0.5''), jl_type_error = (\<lambda>_. ''invalid type'')\<rparr>"


section \<open>A body that is not JSON\<close>

text \<open>A refusal that is no JSON envelope keeps its proof.  The message is the text of the body,
  decoded, trimmed and cut: valid UTF-8 of at most 512 bytes that the text begins with, cut only
  when the text is longer and then at the last character boundary, less than one character short.
  Only an empty text leaves no message.\<close>

theorem body_text_kept:
  assumes "\<forall>v. jl_parse lib body = Inr v \<longrightarrow> failure_envelope_of_json v = None"
  shows "ae_code (from_response lib status headers body) = None
    \<and> ae_kind (from_response lib status headers body) = kind_from_status status
    \<and> (case ae_message (from_response lib status headers body) of
          None \<Rightarrow> trim (from_utf8_lossy body) = []
        | Some t \<Rightarrow> t \<noteq> [] \<and> valid_utf8 t \<and> length t \<le> 512 \<and> ae_body (from_response lib status headers body) = Some t
            \<and> (\<exists>rest. trim (from_utf8_lossy body) = t @ rest \<and> (rest = [] \<or> 508 < length t)))"
proof -
  let ?s = "trim (from_utf8_lossy body)"
  let ?t = "truncate_text ?s 512"
  have valid: "valid_utf8 ?s" by (intro trim_valid lossy_valid)
  obtain rest where rest: "?s = ?t @ rest" using truncate_prefix by blast
  have "rest = [] \<or> 508 < length ?t"
  proof (cases "512 < length ?s")
    case True
    then show ?thesis using truncate_near [OF valid, of 512] by simp
  next
    case False
    then show ?thesis using rest by (simp add: truncate_text_def)
  qed
  moreover from this rest have "?t = [] \<Longrightarrow> ?s = []" by auto
  moreover have "valid_utf8 ?t" "length ?t \<le> 512"
    using truncate_valid [OF valid] truncate_length by auto
  moreover have "(case jl_parse lib body of Inl e \<Rightarrow> None | Inr v \<Rightarrow> failure_envelope_of_json v) = None"
    using assms by (simp split: sum.split)
  ultimately show ?thesis
    using rest by (simp add: from_response_def Let_def BODY_SNIPPET_LIMIT_def del: not_None_eq) blast
qed

theorem body_text_kept_witness:
  "ae_message (from_response sample_json 401 (\<lambda>_. None) ''No'') \<noteq> None"
proof
  assume none: "ae_message (from_response sample_json 401 (\<lambda>_. None) ''No'') = None"
  have "\<forall>v. jl_parse sample_json ''No'' = Inr v \<longrightarrow> failure_envelope_of_json v = None"
    by (simp add: sample_json_def)
  from body_text_kept [OF this, of 401 "\<lambda>_. None"]
  have "trim (from_utf8_lossy ''No'') = []" unfolding none option.case by blast
  moreover have "from_utf8_lossy ''No'' = ''No''"
    by (simp add: from_utf8_lossy_def utf8_chunks.simps utf8_head_def byte_at_def utf8_width_def)
  ultimately show False
    by (simp add: trim_def trim_start.simps trim_stop.simps white_prefix_def white_suffix_def
        WHITE_SPACE_def starts_with_def ends_with_def char_of_eq_iff)
qed

section \<open>The wait the rate limiter asks for\<close>

text \<open>The wait is the time to the reset, capped.  Whatever the server sent and whatever the clock
  says, saturation and conversion never show: the answer is the distance from now to the reset,
  in whole milliseconds, nothing when the reset has passed, and never more than an hour.\<close>

theorem retry_after_exact:
  "retry_after_since r now = map_option
     (\<lambda>w. min (from_millis (nat (sint w - int (as_millis (nat now))))) MAX_RETRY_AFTER) (rl_reset_epoch_ms r)
   \<and> pred_option (\<lambda>d. d \<le> from_secs 3600) (retry_after_since r now)"
proof (cases "rl_reset_epoch_ms r")
  case None
  then show ?thesis by (simp add: retry_after_since_def)
next
  case (Some w)
  have w: "I64_MIN \<le> sint w" "sint w \<le> I64_MAX"
    using sint_ge [of w] sint_lt [of w] by (simp_all add: I64_MIN_def I64_MAX_def)
  obtain ms where ms: "ms = int (as_millis (nat now))" "0 \<le> ms" by simp
  have wait: "nat (i64_saturating_sub (sint w) (epoch_millis now)) = nat (sint w - ms)"
  proof (cases "ms \<le> I64_MAX")
    case True
    then have "epoch_millis now = ms" by (simp add: epoch_millis_def ms(1) Let_def)
    then show ?thesis using w(2) ms(2) by (simp add: i64_saturating_sub_def I64_MIN_def)
  next
    case False
    then have "epoch_millis now = I64_MAX" by (simp add: epoch_millis_def ms(1) Let_def)
    then show ?thesis using w(2) False by (simp add: i64_saturating_sub_def I64_MIN_def)
  qed
  have "retry_after_since r now = Some (min (from_millis (nat (sint w - ms))) MAX_RETRY_AFTER)"
    using wait by (cases "i64_saturating_sub (sint w) (epoch_millis now) \<le> 0")
      (simp_all add: retry_after_since_def Some Let_def from_millis_def)
  then show ?thesis by (simp add: Some ms(1) MAX_RETRY_AFTER_def)
qed

end
