(* ===== verification/Rest_Pagination.thy ===== *)
theory Rest_Pagination
  imports Model_Codec
begin

text \<open>
  Paging, \<open>rocketsocket-rest/src/pagination.rs\<close>: a page request whose size is never zero, and the
  paging members of a reply.  A \<open>NonZeroU32\<close> is a \<^typ>\<open>u32\<close> that \<open>nonzero\<close> let through.
\<close>

section \<open>Counts\<close>

definition u32_saturating_add :: "u32 \<Rightarrow> u32 \<Rightarrow> u32" where
  "u32_saturating_add a b = (if unat a + unat b < 2 ^ 32 then a + b else of_nat (2 ^ 32 - 1))"

definition nonzero :: "u32 \<Rightarrow> u32 option" where
  "nonzero n = (if n = 0 then None else Some n)"

definition u32_to_json :: "u32 \<Rightarrow> json" where
  "u32_to_json n = JNumber (PosInt (ucast n))"

definition u32_of_json :: "json \<Rightarrow> u32 option" where
  "u32_of_json v = Option.bind (as_u64 v) (\<lambda>n. if unat n < 2 ^ 32 then Some (ucast n) else None)"

section \<open>Requests\<close>

record pagination =
  pg_offset :: u32
  pg_count :: u32

definition SERVER_DEFAULT_COUNT :: u32 where
  "SERVER_DEFAULT_COUNT = 50"

definition DEFAULT_UPPER_LIMIT :: u32 where
  "DEFAULT_UPPER_LIMIT = 100"

definition pagination_new :: "u32 \<Rightarrow> pagination" where
  "pagination_new count = \<lparr>pg_offset = 0, pg_count = count\<rparr>"

definition pagination_try_new :: "u32 \<Rightarrow> pagination option" where
  "pagination_try_new count = (case nonzero count of Some n \<Rightarrow> Some (pagination_new n) | None \<Rightarrow> None)"

definition with_offset :: "u32 \<Rightarrow> pagination \<Rightarrow> pagination" where
  "with_offset offset p = p\<lparr>pg_offset := offset\<rparr>"

definition pagination_next_page :: "pagination \<Rightarrow> pagination" where
  "pagination_next_page p = \<lparr>pg_offset = u32_saturating_add (pg_offset p) (pg_count p), pg_count = pg_count p\<rparr>"

definition pagination_default :: pagination where
  "pagination_default = \<lparr>pg_offset = 0, pg_count = SERVER_DEFAULT_COUNT\<rparr>"

definition pagination_to_json :: "pagination \<Rightarrow> json" where
  "pagination_to_json p = struct_to_json
     [(''offset'', Some (u32_to_json (pg_offset p))), (''count'', Some (u32_to_json (pg_count p)))]"

section \<open>Replies\<close>

record page_info =
  pi_count :: u32
  pi_offset :: u32
  pi_total :: u32

definition PAGE_INFO_NAMES :: "str list" where
  "PAGE_INFO_NAMES = [''count'', ''offset'', ''total'']"

definition page_info_of_json :: "json \<Rightarrow> page_info option" where
  "page_info_of_json v = do {
     m \<leftarrow> struct_obj PAGE_INFO_NAMES v;
     c \<leftarrow> default_field 0 u32_of_json m ''count'';
     p \<leftarrow> default_field 0 u32_of_json m ''offset'';
     t \<leftarrow> default_field 0 u32_of_json m ''total'';
     Some \<lparr>pi_count = c, pi_offset = p, pi_total = t\<rparr>
   }"

definition has_more :: "page_info \<Rightarrow> bool" where
  "has_more x = (u32_saturating_add (pi_offset x) (pi_count x) < pi_total x)"

definition page_info_next_page :: "page_info \<Rightarrow> pagination option" where
  "page_info_next_page x =
     (if \<not> has_more x then None
      else case nonzero (pi_count x) of
        None \<Rightarrow> None
      | Some count \<Rightarrow> Some (with_offset (u32_saturating_add (pi_offset x) (pi_count x)) (pagination_new count)))"

section \<open>Laws\<close>

lemma unat_u32_less [simp]: "unat (a :: u32) < 2 ^ 32"
  using unsigned_less [of a] by simp

lemma unat_saturating_add: "unat (u32_saturating_add a b) = min (2 ^ 32 - 1) (unat a + unat b)"
proof (cases "unat a + unat b < 2 ^ 32")
  case True
  then show ?thesis by (simp add: u32_saturating_add_def unat_word_ariths)
next
  case False
  then show ?thesis by (simp add: u32_saturating_add_def unat_word_ariths)
qed

lemma has_more_iff: "has_more x \<longleftrightarrow> unat (pi_offset x) + unat (pi_count x) < unat (pi_total x)"
  using unat_u32_less [of "pi_total x"]
  by (auto simp: has_more_def word_less_nat_alt unat_saturating_add)

lemma next_page_Some:
  "page_info_next_page x = Some q \<longleftrightarrow> has_more x \<and> pi_count x \<noteq> 0
     \<and> unat (pg_offset q) = unat (pi_offset x) + unat (pi_count x) \<and> pg_count q = pi_count x"
proof
  assume "page_info_next_page x = Some q"
  then have q: "has_more x" "pi_count x \<noteq> 0"
      "q = \<lparr>pg_offset = u32_saturating_add (pi_offset x) (pi_count x), pg_count = pi_count x\<rparr>"
    by (auto simp: page_info_next_page_def nonzero_def with_offset_def pagination_new_def split: if_splits)
  moreover have "unat (u32_saturating_add (pi_offset x) (pi_count x)) = unat (pi_offset x) + unat (pi_count x)"
    using q(1) unat_u32_less [of "pi_total x"] by (simp add: has_more_iff unat_saturating_add)
  ultimately show "has_more x \<and> pi_count x \<noteq> 0
     \<and> unat (pg_offset q) = unat (pi_offset x) + unat (pi_count x) \<and> pg_count q = pi_count x" by simp
next
  assume r: "has_more x \<and> pi_count x \<noteq> 0
     \<and> unat (pg_offset q) = unat (pi_offset x) + unat (pi_count x) \<and> pg_count q = pi_count x"
  then have "unat (pg_offset q) = unat (u32_saturating_add (pi_offset x) (pi_count x))"
    using unat_u32_less [of "pi_total x"] by (simp add: has_more_iff unat_saturating_add)
  then have "pg_offset q = u32_saturating_add (pi_offset x) (pi_count x)" by (simp add: word_unat_eq_iff)
  with r show "page_info_next_page x = Some q"
    by (simp add: page_info_next_page_def nonzero_def with_offset_def pagination_new_def)
qed

lemma next_page_None:
  "page_info_next_page x = None \<longleftrightarrow> \<not> has_more x \<or> pi_count x = 0"
  by (auto simp: page_info_next_page_def nonzero_def)

lemma pages_never_unlimited:
  "pg_count pagination_default \<noteq> 0" "pagination_try_new n = Some p \<Longrightarrow> pg_count p \<noteq> 0"
  "pg_count p \<noteq> 0 \<Longrightarrow> pg_count (pagination_next_page p) \<noteq> 0"
  by (auto simp: pagination_default_def SERVER_DEFAULT_COUNT_def pagination_try_new_def nonzero_def
      pagination_new_def pagination_next_page_def split: if_splits)

section \<open>Walking a collection\<close>

text \<open>A caller that asks for page after page: \<open>srv\<close> is what the server replies to each request.
  The walk is the list of the requests made, and no value when it never ends.\<close>

partial_function (option) walk :: "(pagination \<Rightarrow> page_info) \<Rightarrow> pagination \<Rightarrow> pagination list option" where
  "walk srv p = (case page_info_next_page (srv p) of
       None \<Rightarrow> Some [p]
     | Some q \<Rightarrow> Option.bind (walk srv q) (\<lambda>ps. Some (p # ps)))"

text \<open>Each request continues where the last reply stopped, and the last reply was the end of the
  collection or empty.\<close>

fun tiles :: "(pagination \<Rightarrow> page_info) \<Rightarrow> pagination list \<Rightarrow> bool" where
  "tiles srv [] = False"
| "tiles srv [p] = (pi_count (srv p) = 0
     \<or> unat (pi_total (srv p)) \<le> unat (pg_offset p) + unat (pi_count (srv p)))"
| "tiles srv (p # q # ps) = (unat (pg_offset q) = unat (pg_offset p) + unat (pi_count (srv p))
     \<and> unat (pg_offset p) < unat (pg_offset q) \<and> pg_count q \<noteq> 0 \<and> tiles srv (q # ps))"

lemma walk_head: "walk srv p = Some ps \<Longrightarrow> \<exists>qs. ps = p # qs"
  by (subst (asm) walk.simps) (auto split: option.splits bind_splits)

lemma walk_exists:
  assumes "\<And>p. pi_offset (srv p) = pg_offset p"
  shows "\<exists>ps. walk srv p = Some ps \<and> tiles srv ps \<and> length ps + unat (pg_offset p) \<le> 2 ^ 32"
proof (induction "2 ^ 32 - unat (pg_offset p)" arbitrary: p rule: less_induct)
  case less
  show ?case
  proof (cases "page_info_next_page (srv p)")
    case None
    then have "walk srv p = Some [p]" by (subst walk.simps) simp
    moreover have "tiles srv [p]" using None assms by (auto simp: next_page_None has_more_iff)
    ultimately show ?thesis using unat_u32_less [of "pg_offset p"] by (intro exI [of _ "[p]"]) simp
  next
    case (Some q)
    then have q: "unat (pg_offset q) = unat (pg_offset p) + unat (pi_count (srv p))" "pi_count (srv p) \<noteq> 0" "pg_count q \<noteq> 0"
      by (simp_all add: next_page_Some assms)
    from q(2) have "0 < unat (pi_count (srv p))" by (simp add: unat_gt_0)
    with q(1) have lt: "unat (pg_offset p) < unat (pg_offset q)" by simp
    from less [of q] lt unat_u32_less [of "pg_offset q"] obtain ps where
      ps: "walk srv q = Some ps" "tiles srv ps" "length ps + unat (pg_offset q) \<le> 2 ^ 32" by (auto simp: diff_less_mono2)
    obtain qs where qs: "ps = q # qs" using walk_head [OF ps(1)] by blast
    have "walk srv p = Some (p # ps)" by (subst walk.simps) (simp add: Some ps(1))
    moreover have "tiles srv (p # ps)" using ps(2) q lt by (simp add: qs)
    moreover have "length (p # ps) + unat (pg_offset p) \<le> 2 ^ 32" using ps(3) lt by simp
    ultimately show ?thesis by blast
  qed
qed

text \<open>C33: Following \<open>next_page\<close> ends and misses nothing.  Against any server that says in each reply
  how many rows it skipped, however its totals and page sizes vary between replies, the walk
  returns; each request continues exactly where the last reply stopped, with a size that is not
  zero, and it stops only at the end the server announced or at an empty page.\<close>

theorem walk_ends:
  assumes "\<And>p. pi_offset (srv p) = pg_offset p"
  shows "\<exists>ps. walk srv p = Some ps \<and> hd ps = p \<and> tiles srv ps \<and> length ps \<le> 2 ^ 32 - unat (pg_offset p)"
proof -
  from walk_exists [OF assms, of p] obtain ps where
    ps: "walk srv p = Some ps" "tiles srv ps" "length ps + unat (pg_offset p) \<le> 2 ^ 32" by blast
  with walk_head [OF ps(1)] show ?thesis by force
qed

theorem walk_ends_witness:
  "\<exists>ps. walk (\<lambda>p. \<lparr>pi_count = min 50 (120 - pg_offset p), pi_offset = pg_offset p, pi_total = 120\<rparr>) pagination_default = Some ps
    \<and> tiles (\<lambda>p. \<lparr>pi_count = min 50 (120 - pg_offset p), pi_offset = pg_offset p, pi_total = 120\<rparr>) ps"
  using walk_ends [of "\<lambda>p. \<lparr>pi_count = min 50 (120 - pg_offset p), pi_offset = pg_offset p, pi_total = 120\<rparr>" pagination_default]
  by auto

end
