(* ===== verification/Rest_Bodies.thy ===== *)
theory Rest_Bodies
  imports Model_Codec
begin

text \<open>
  The bodies the REST client sends: \<open>SendMessage\<close> and \<open>PostMessage\<close> of
  \<open>rocketsocket-rest/src/chat.rs\<close>, \<open>FileUpload\<close> and \<open>ConfirmUpload\<close> of \<open>upload.rs\<close>, with the
  builders that fill them and their serializers.  A member that was not set is not sent.
\<close>

section \<open>One message to one room\<close>

record send_message =
  sm_rid :: str
  sm_id :: "str option"
  sm_msg :: "str option"
  sm_tmid :: "str option"
  sm_tshow :: "bool option"
  sm_alias :: "str option"
  sm_emoji :: "str option"
  sm_avatar :: "str option"
  sm_attachments :: "json list option"
  sm_blocks :: "json list option"
  sm_custom_fields :: "json option"
  sm_preview_urls :: "str list option"

definition send_new :: "str \<Rightarrow> send_message" where
  "send_new rid = \<lparr>sm_rid = rid, sm_id = None, sm_msg = None, sm_tmid = None, sm_tshow = None, sm_alias = None,
     sm_emoji = None, sm_avatar = None, sm_attachments = None, sm_blocks = None, sm_custom_fields = None,
     sm_preview_urls = None\<rparr>"

definition send_text :: "str \<Rightarrow> send_message \<Rightarrow> send_message" where
  "send_text s x = x\<lparr>sm_msg := Some s\<rparr>"

definition send_client_id :: "str \<Rightarrow> send_message \<Rightarrow> send_message" where
  "send_client_id s x = x\<lparr>sm_id := Some s\<rparr>"

definition send_thread :: "str \<Rightarrow> send_message \<Rightarrow> send_message" where
  "send_thread s x = x\<lparr>sm_tmid := Some s\<rparr>"

definition send_thread_show :: "bool \<Rightarrow> send_message \<Rightarrow> send_message" where
  "send_thread_show yes x = x\<lparr>sm_tshow := Some yes\<rparr>"

definition send_alias :: "str \<Rightarrow> send_message \<Rightarrow> send_message" where
  "send_alias s x = x\<lparr>sm_alias := Some s\<rparr>"

definition send_emoji :: "str \<Rightarrow> send_message \<Rightarrow> send_message" where
  "send_emoji s x = x\<lparr>sm_emoji := Some s\<rparr>"

definition send_avatar :: "str \<Rightarrow> send_message \<Rightarrow> send_message" where
  "send_avatar s x = x\<lparr>sm_avatar := Some s\<rparr>"

definition send_attachments :: "json list \<Rightarrow> send_message \<Rightarrow> send_message" where
  "send_attachments vs x = x\<lparr>sm_attachments := Some vs\<rparr>"

definition send_blocks :: "json list \<Rightarrow> send_message \<Rightarrow> send_message" where
  "send_blocks vs x = x\<lparr>sm_blocks := Some vs\<rparr>"

definition send_custom_fields :: "json \<Rightarrow> send_message \<Rightarrow> send_message" where
  "send_custom_fields v x = x\<lparr>sm_custom_fields := Some v\<rparr>"

definition send_preview_urls :: "str list \<Rightarrow> send_message \<Rightarrow> send_message" where
  "send_preview_urls urls x = x\<lparr>sm_preview_urls := Some urls\<rparr>"

definition outgoing_fields :: "send_message \<Rightarrow> (str \<times> json option) list" where
  "outgoing_fields x = [
     (''rid'', Some (JString (sm_rid x))),
     (''_id'', map_option JString (sm_id x)),
     (''msg'', map_option JString (sm_msg x)),
     (''tmid'', map_option JString (sm_tmid x)),
     (''tshow'', map_option JBool (sm_tshow x)),
     (''alias'', map_option JString (sm_alias x)),
     (''emoji'', map_option JString (sm_emoji x)),
     (''avatar'', map_option JString (sm_avatar x)),
     (''attachments'', map_option JArray (sm_attachments x)),
     (''blocks'', map_option JArray (sm_blocks x)),
     (''customFields'', sm_custom_fields x)]"

definition send_message_to_json :: "send_message \<Rightarrow> json" where
  "send_message_to_json x = struct_to_json
     [(''message'', Some (struct_to_json (outgoing_fields x))),
      (''previewUrls'', map_option (list_to_json JString) (sm_preview_urls x))]"

section \<open>One message to several targets\<close>

datatype post_target = PtRoomIds "str list" | PtChannels "str list"

record post_message =
  pm_target :: post_target
  pm_text :: "str option"
  pm_alias :: "str option"
  pm_emoji :: "str option"
  pm_avatar :: "str option"
  pm_attachments :: "json list option"
  pm_custom_fields :: "json option"
  pm_parse_urls :: "bool option"
  pm_tmid :: "str option"

definition post_new :: "post_target \<Rightarrow> post_message" where
  "post_new target = \<lparr>pm_target = target, pm_text = None, pm_alias = None, pm_emoji = None, pm_avatar = None,
     pm_attachments = None, pm_custom_fields = None, pm_parse_urls = None, pm_tmid = None\<rparr>"

definition post_to_room :: "str \<Rightarrow> post_message" where
  "post_to_room rid = post_new (PtRoomIds [rid])"

definition post_to_rooms :: "str list \<Rightarrow> post_message" where
  "post_to_rooms rids = post_new (PtRoomIds rids)"

definition post_to_channel :: "str \<Rightarrow> post_message" where
  "post_to_channel channel = post_new (PtChannels [channel])"

definition post_to_channels :: "str list \<Rightarrow> post_message" where
  "post_to_channels channels = post_new (PtChannels channels)"

definition post_text :: "str \<Rightarrow> post_message \<Rightarrow> post_message" where
  "post_text s x = x\<lparr>pm_text := Some s\<rparr>"

definition post_alias :: "str \<Rightarrow> post_message \<Rightarrow> post_message" where
  "post_alias s x = x\<lparr>pm_alias := Some s\<rparr>"

definition post_emoji :: "str \<Rightarrow> post_message \<Rightarrow> post_message" where
  "post_emoji s x = x\<lparr>pm_emoji := Some s\<rparr>"

definition post_avatar :: "str \<Rightarrow> post_message \<Rightarrow> post_message" where
  "post_avatar s x = x\<lparr>pm_avatar := Some s\<rparr>"

definition post_attachments :: "json list \<Rightarrow> post_message \<Rightarrow> post_message" where
  "post_attachments vs x = x\<lparr>pm_attachments := Some vs\<rparr>"

definition post_custom_fields :: "json \<Rightarrow> post_message \<Rightarrow> post_message" where
  "post_custom_fields v x = x\<lparr>pm_custom_fields := Some v\<rparr>"

definition post_parse_urls :: "bool \<Rightarrow> post_message \<Rightarrow> post_message" where
  "post_parse_urls yes x = x\<lparr>pm_parse_urls := Some yes\<rparr>"

definition post_thread :: "str \<Rightarrow> post_message \<Rightarrow> post_message" where
  "post_thread s x = x\<lparr>pm_tmid := Some s\<rparr>"

definition post_target_field :: "post_target \<Rightarrow> str \<times> json option" where
  "post_target_field t = (case t of
       PtRoomIds ids \<Rightarrow> (''roomId'', Some (list_to_json JString ids))
     | PtChannels names \<Rightarrow> (''channel'', Some (list_to_json JString names)))"

definition post_fields :: "post_message \<Rightarrow> (str \<times> json option) list" where
  "post_fields x = post_target_field (pm_target x) # [
     (''text'', map_option JString (pm_text x)),
     (''alias'', map_option JString (pm_alias x)),
     (''emoji'', map_option JString (pm_emoji x)),
     (''avatar'', map_option JString (pm_avatar x)),
     (''attachments'', map_option JArray (pm_attachments x)),
     (''customFields'', pm_custom_fields x),
     (''parseUrls'', map_option JBool (pm_parse_urls x)),
     (''tmid'', map_option JString (pm_tmid x))]"

definition post_message_to_json :: "post_message \<Rightarrow> json" where
  "post_message_to_json x = struct_to_json (post_fields x)"

section \<open>Files\<close>

record file_upload =
  fu_file_name :: str
  fu_content_type :: "str option"
  fu_bytes :: str

definition file_new :: "str \<Rightarrow> str \<Rightarrow> file_upload" where
  "file_new name bytes = \<lparr>fu_file_name = name, fu_content_type = None, fu_bytes = bytes\<rparr>"

definition file_content_type :: "str \<Rightarrow> file_upload \<Rightarrow> file_upload" where
  "file_content_type mime x = x\<lparr>fu_content_type := Some mime\<rparr>"

record uploaded_file =
  uf_id :: str
  uf_url :: str

definition uploaded_file_of_json :: "json \<Rightarrow> uploaded_file option" where
  "uploaded_file_of_json v = do {
     m \<leftarrow> struct_obj [''_id'', ''url''] v;
     i \<leftarrow> req_field as_str m ''_id'';
     u \<leftarrow> req_field as_str m ''url'';
     Some \<lparr>uf_id = i, uf_url = u\<rparr>
   }"

definition media_envelope_of_json :: "json \<Rightarrow> uploaded_file option" where
  "media_envelope_of_json v = do { m \<leftarrow> struct_obj [''file''] v; req_field uploaded_file_of_json m ''file'' }"

record confirm_upload =
  cu_description :: "str option"
  cu_file_name :: "str option"
  cu_msg :: "str option"
  cu_tmid :: "str option"
  cu_alias :: "str option"
  cu_emoji :: "str option"
  cu_avatar :: "str option"
  cu_groupable :: "bool option"
  cu_custom_fields :: "str option"

definition confirm_new :: confirm_upload where
  "confirm_new = \<lparr>cu_description = None, cu_file_name = None, cu_msg = None, cu_tmid = None, cu_alias = None,
     cu_emoji = None, cu_avatar = None, cu_groupable = None, cu_custom_fields = None\<rparr>"

definition confirm_text :: "str \<Rightarrow> confirm_upload \<Rightarrow> confirm_upload" where
  "confirm_text s x = x\<lparr>cu_msg := Some s\<rparr>"

definition confirm_description :: "str \<Rightarrow> confirm_upload \<Rightarrow> confirm_upload" where
  "confirm_description s x = x\<lparr>cu_description := Some s\<rparr>"

definition confirm_file_name :: "str \<Rightarrow> confirm_upload \<Rightarrow> confirm_upload" where
  "confirm_file_name s x = x\<lparr>cu_file_name := Some s\<rparr>"

definition confirm_thread :: "str \<Rightarrow> confirm_upload \<Rightarrow> confirm_upload" where
  "confirm_thread s x = x\<lparr>cu_tmid := Some s\<rparr>"

definition confirm_alias :: "str \<Rightarrow> confirm_upload \<Rightarrow> confirm_upload" where
  "confirm_alias s x = x\<lparr>cu_alias := Some s\<rparr>"

definition confirm_emoji :: "str \<Rightarrow> confirm_upload \<Rightarrow> confirm_upload" where
  "confirm_emoji s x = x\<lparr>cu_emoji := Some s\<rparr>"

definition confirm_avatar :: "str \<Rightarrow> confirm_upload \<Rightarrow> confirm_upload" where
  "confirm_avatar s x = x\<lparr>cu_avatar := Some s\<rparr>"

definition confirm_groupable :: "bool \<Rightarrow> confirm_upload \<Rightarrow> confirm_upload" where
  "confirm_groupable yes x = x\<lparr>cu_groupable := Some yes\<rparr>"

text \<open>\<open>print\<close> is \<open>serde_json::to_string\<close>, which may fail.\<close>

definition confirm_custom_fields :: "(json \<Rightarrow> str option) \<Rightarrow> json \<Rightarrow> confirm_upload \<Rightarrow> confirm_upload" where
  "confirm_custom_fields print v x = (case print v of Some s \<Rightarrow> x\<lparr>cu_custom_fields := Some s\<rparr> | None \<Rightarrow> x)"

definition confirm_fields :: "confirm_upload \<Rightarrow> (str \<times> json option) list" where
  "confirm_fields x = [
     (''description'', map_option JString (cu_description x)),
     (''fileName'', map_option JString (cu_file_name x)),
     (''msg'', map_option JString (cu_msg x)),
     (''tmid'', map_option JString (cu_tmid x)),
     (''alias'', map_option JString (cu_alias x)),
     (''emoji'', map_option JString (cu_emoji x)),
     (''avatar'', map_option JString (cu_avatar x)),
     (''groupable'', map_option JBool (cu_groupable x)),
     (''customFields'', map_option JString (cu_custom_fields x))]"

definition confirm_upload_to_json :: "confirm_upload \<Rightarrow> json" where
  "confirm_upload_to_json x = struct_to_json (confirm_fields x)"

section \<open>What a body contains\<close>

text \<open>The members a JSON object has, and those a struct's serializer writes.\<close>

definition body_members :: "json \<Rightarrow> str set" where
  "body_members v = (case v of JObject m \<Rightarrow> {k. obj_get m k \<noteq> None} | _ \<Rightarrow> {})"

lemma body_members_struct:
  "distinct (map fst fs) \<Longrightarrow> body_members (struct_to_json fs) = {k. member fs k \<noteq> None}"
  by (simp add: body_members_def struct_to_json_def obj_get_fields)

lemma json_member_struct: "distinct (map fst fs) \<Longrightarrow> json_member (struct_to_json fs) k = member fs k"
  by (simp add: struct_to_json_def obj_get_fields)

lemma post_fields_distinct: "distinct (map fst (post_fields x))"
  by (cases "pm_target x") (simp_all add: post_fields_def post_target_field_def)

lemma confirm_fields_distinct: "distinct (map fst (confirm_fields x))"
  by (simp add: confirm_fields_def)

lemma outgoing_fields_distinct: "distinct (map fst (outgoing_fields x))"
  by (simp add: outgoing_fields_def)

text \<open>The members each endpoint's schema allows.\<close>

definition CONFIRM_WHITELIST :: "str set" where
  "CONFIRM_WHITELIST = {''description'', ''fileName'', ''fileContent'', ''avatar'', ''emoji'', ''alias'', ''groupable'',
     ''msg'', ''tmid'', ''customFields'', ''t'', ''content''}"

definition POST_MEMBERS :: "str set" where
  "POST_MEMBERS = {''text'', ''alias'', ''emoji'', ''avatar'', ''attachments'', ''customFields'', ''parseUrls'', ''tmid''}"

text \<open>The strict endpoints are sent only what their schemas allow.  A post names its target in
  exactly one of the two exclusive members and carries nothing else than the members of the
  schema, so no blocks and no grouping; a confirmation carries only whitelisted members, and its
  custom fields, when it has any, as a string.\<close>

theorem bodies_fit_schemas:
  "body_members (post_message_to_json p) \<subseteq> insert (case pm_target p of PtRoomIds _ \<Rightarrow> ''roomId'' | PtChannels _ \<Rightarrow> ''channel'') POST_MEMBERS
   \<and> json_member (post_message_to_json p) ''roomId'' = (case pm_target p of PtRoomIds ids \<Rightarrow> Some (JArray (map JString ids)) | _ \<Rightarrow> None)
   \<and> json_member (post_message_to_json p) ''channel'' = (case pm_target p of PtChannels ns \<Rightarrow> Some (JArray (map JString ns)) | _ \<Rightarrow> None)
   \<and> body_members (confirm_upload_to_json c) \<subseteq> CONFIRM_WHITELIST
   \<and> json_member (confirm_upload_to_json c) ''customFields'' = map_option JString (cu_custom_fields c)"
  unfolding post_message_to_json_def confirm_upload_to_json_def
    body_members_struct [OF post_fields_distinct] json_member_struct [OF post_fields_distinct]
    body_members_struct [OF confirm_fields_distinct] json_member_struct [OF confirm_fields_distinct]
  by (cases "pm_target p") (auto simp: post_fields_def post_target_field_def confirm_fields_def
      CONFIRM_WHITELIST_def POST_MEMBERS_def list_to_json_def split: if_splits)

end
