(* ===== verification/Rest_Client.thy ===== *)
theory Rest_Client
  imports Rest_Error Rest_Bodies Rest_Roles Model_User Model_Message
begin

text \<open>
  The REST client, \<open>rocketsocket-rest/src/client.rs\<close> with the credentials of \<open>auth.rs\<close>: building a
  request, reading a response, and the endpoints.

  The state is what the clones of a client share, the credential slot, and the requests sent so
  far.  The network is the parameter \<open>net\<close>: what the n-th request of the run is answered, or why
  it was not.  Other parameters, for libraries outside the repository: \<open>lc_endpoint\<close> appends path
  segments to a URL, percent-encoding each, and fails on a URL that has no path;
  \<open>lc_header_ok\<close> and \<open>lc_mime\<close> say which text is a header value or a MIME type (the error's text,
  when it is not); \<open>lc_json\<close> and \<open>lc_time\<close> are the JSON and time libraries.
\<close>

section \<open>Credentials\<close>

record authentication =
  au_user_id :: str
  au_token :: str

datatype credentials =
    CrPersonalAccessToken str str
  | CrPassword str str

definition personal_access_token :: "str \<Rightarrow> str \<Rightarrow> credentials" where
  "personal_access_token user_id token = CrPersonalAccessToken user_id token"

definition password :: "str \<Rightarrow> str \<Rightarrow> credentials" where
  "password user secret = CrPassword user secret"

definition as_authentication :: "credentials \<Rightarrow> authentication option" where
  "as_authentication c = (case c of
       CrPersonalAccessToken user_id token \<Rightarrow> Some \<lparr>au_user_id = user_id, au_token = token\<rparr>
     | CrPassword user secret \<Rightarrow> None)"

datatype two_factor_method = TmTotp | TmEmail | TmPassword | TmOther str

definition two_factor_as_str :: "two_factor_method \<Rightarrow> str" where
  "two_factor_as_str m = (case m of
       TmTotp \<Rightarrow> ''totp''
     | TmEmail \<Rightarrow> ''email''
     | TmPassword \<Rightarrow> ''password''
     | TmOther name \<Rightarrow> name)"

record two_factor =
  tf_code :: str
  tf_method :: two_factor_method

definition totp :: "str \<Rightarrow> two_factor" where
  "totp code = \<lparr>tf_code = code, tf_method = TmTotp\<rparr>"

definition email :: "str \<Rightarrow> two_factor" where
  "email code = \<lparr>tf_code = code, tf_method = TmEmail\<rparr>"

record login_data =
  ld_user_id :: str
  ld_auth_token :: str
  ld_me :: user

definition login_data_of_json :: "time_lib \<Rightarrow> json \<Rightarrow> login_data option" where
  "login_data_of_json T v = do {
     m \<leftarrow> struct_obj [''userId'', ''authToken'', ''me''] v;
     i \<leftarrow> req_field as_str m ''userId'';
     t \<leftarrow> req_field as_str m ''authToken'';
     u \<leftarrow> req_field (user_of_json T) m ''me'';
     Some \<lparr>ld_user_id = i, ld_auth_token = t, ld_me = u\<rparr>
   }"

definition login_envelope_of_json :: "time_lib \<Rightarrow> json \<Rightarrow> login_data option" where
  "login_envelope_of_json T v = do { m \<leftarrow> struct_obj [''data''] v; req_field (login_data_of_json T) m ''data'' }"

definition login_request_to_json :: "str \<Rightarrow> str \<Rightarrow> json" where
  "login_request_to_json user secret = struct_to_json
     [(''user'', Some (JString user)), (''password'', Some (JString secret))]"

record login_outcome =
  lo_authentication :: authentication
  lo_me :: user

section \<open>Requests and responses\<close>

datatype http_method = GET | POST

datatype http_body =
    NoBody
  | JsonBody json
  | MultipartBody str file_upload

record 'u http_request =
  hr_method :: http_method
  hr_url :: 'u
  hr_auth :: "authentication option"
  hr_two_factor :: "(str \<times> str) option"
  hr_query :: "(str \<times> str) list"
  hr_body :: http_body

record http_response =
  hs_status :: status
  hs_headers :: http_headers
  hs_body :: str

record 'u client_libs =
  lc_endpoint :: "'u \<Rightarrow> str list \<Rightarrow> 'u option"
  lc_header_ok :: "str \<Rightarrow> bool"
  lc_mime :: "str \<Rightarrow> str option"
  lc_json :: json_lib
  lc_time :: time_lib

record 'u client =
  cl_libs :: "'u client_libs"
  cl_api_base :: 'u
  cl_two_factor :: "two_factor option"

record 'u client_state =
  st_auth :: "authentication option"
  st_sent :: "'u http_request list"

type_synonym 'u net = "nat \<Rightarrow> 'u http_request \<Rightarrow> (http_response, str) result"

type_synonym ('u, 'a) call = "'u client_state \<Rightarrow> ('a, rest_error) result \<times> 'u client_state"

definition client_build :: "'u client_libs \<Rightarrow> 'u \<Rightarrow> authentication option \<Rightarrow> 'u client \<times> 'u client_state" where
  "client_build libs base auth =
     (\<lparr>cl_libs = libs, cl_api_base = base, cl_two_factor = None\<rparr>, \<lparr>st_auth = auth, st_sent = []\<rparr>)"

definition with_two_factor :: "two_factor \<Rightarrow> 'u client \<Rightarrow> 'u client" where
  "with_two_factor tf c = c\<lparr>cl_two_factor := Some tf\<rparr>"

definition without_two_factor :: "'u client \<Rightarrow> 'u client" where
  "without_two_factor c = c\<lparr>cl_two_factor := None\<rparr>"

definition set_authentication :: "authentication option \<Rightarrow> 'u client_state \<Rightarrow> 'u client_state" where
  "set_authentication a s = s\<lparr>st_auth := a\<rparr>"

fun join_segments :: "str list \<Rightarrow> str" where
  "join_segments [] = ''''"
| "join_segments [x] = x"
| "join_segments (x # xs) = x @ ''/'' @ join_segments xs"

definition endpoint :: "'u client \<Rightarrow> str list \<Rightarrow> ('u, rest_error) result" where
  "endpoint c segments = (case lc_endpoint (cl_libs c) (cl_api_base c) segments of
       Some url \<Rightarrow> Inr url
     | None \<Rightarrow> Inl (ReInvalidUrl (join_segments segments) ''the base URL cannot have path segments''))"

definition apply_two_factor :: "'u client \<Rightarrow> 'u http_request \<Rightarrow> 'u http_request" where
  "apply_two_factor c rq = (case cl_two_factor c of
       Some tf \<Rightarrow> rq\<lparr>hr_two_factor := Some (tf_code tf, two_factor_as_str (tf_method tf))\<rparr>
     | None \<Rightarrow> rq)"

definition blank_request :: "http_method \<Rightarrow> 'u \<Rightarrow> 'u http_request" where
  "blank_request m url = \<lparr>hr_method = m, hr_url = url, hr_auth = None, hr_two_factor = None, hr_query = [],
     hr_body = NoBody\<rparr>"

definition anonymous_request :: "'u client \<Rightarrow> http_method \<Rightarrow> 'u \<Rightarrow> 'u http_request" where
  "anonymous_request c m url = apply_two_factor c (blank_request m url)"

definition authenticated_request ::
  "'u client \<Rightarrow> http_method \<Rightarrow> 'u \<Rightarrow> 'u client_state \<Rightarrow> ('u http_request, rest_error) result" where
  "authenticated_request c m url s = (case st_auth s of
       None \<Rightarrow> Inl ReNotAuthenticated
     | Some a \<Rightarrow>
         if \<not> lc_header_ok (cl_libs c) (au_user_id a) then Inl (ReInvalidRequest ''user id is not a valid header value'')
         else if \<not> lc_header_ok (cl_libs c) (au_token a) then Inl (ReInvalidRequest ''auth token is not a valid header value'')
         else Inr (apply_two_factor c ((blank_request m url)\<lparr>hr_auth := Some a\<rparr>)))"

section \<open>Reading a response\<close>

definition SNIPPET_LIMIT :: nat where
  "SNIPPET_LIMIT = 512"

definition is_success :: "status \<Rightarrow> bool" where
  "is_success s = (200 \<le> s \<and> s \<le> 299)"

definition is_failure_envelope :: "json_lib \<Rightarrow> str \<Rightarrow> bool" where
  "is_failure_envelope lib body = (case jl_parse lib body of
       Inl e \<Rightarrow> False
     | Inr v \<Rightarrow> Option.bind (struct_obj [''success''] v) (\<lambda>m. opt_field as_bool m ''success'') = Some (Some False))"

definition from_slice :: "json_lib \<Rightarrow> (json \<Rightarrow> 'a option) \<Rightarrow> str \<Rightarrow> ('a, str) result" where
  "from_slice lib dec body = (case jl_parse lib body of
       Inl e \<Rightarrow> Inl e
     | Inr v \<Rightarrow> (case dec v of Some x \<Rightarrow> Inr x | None \<Rightarrow> Inl (jl_type_error lib body)))"

definition decode :: "json_lib \<Rightarrow> (json \<Rightarrow> 'a option) \<Rightarrow> http_response \<Rightarrow> ('a, rest_error) result" where
  "decode lib dec r =
     (if \<not> is_success (hs_status r) then Inl (ReApi (from_response lib (hs_status r) (hs_headers r) (hs_body r)))
      else case from_slice lib dec (hs_body r) of
        Inr x \<Rightarrow> Inr x
      | Inl source \<Rightarrow>
          if is_failure_envelope lib (hs_body r)
          then Inl (ReApi (from_response lib (hs_status r) (hs_headers r) (hs_body r)))
          else Inl (ReDecode (hs_status r) (truncate_text (from_utf8_lossy (hs_body r)) SNIPPET_LIMIT) source))"

text \<open>\<open>send().await\<close> and \<open>decode\<close>: one request, its answer read.\<close>

definition perform :: "'u net \<Rightarrow> json_lib \<Rightarrow> (json \<Rightarrow> 'a option) \<Rightarrow> 'u http_request \<Rightarrow> ('u, 'a) call" where
  "perform net lib dec rq s =
     ((case net (length (st_sent s)) rq of Inl e \<Rightarrow> Inl (ReTransport e) | Inr r \<Rightarrow> decode lib dec r),
      s\<lparr>st_sent := st_sent s @ [rq]\<rparr>)"

text \<open>What every authenticated endpoint does: the URL, the credentials, the request, its answer.\<close>

definition authed_call :: "'u net \<Rightarrow> 'u client \<Rightarrow> http_method \<Rightarrow> str list \<Rightarrow> ('u http_request \<Rightarrow> 'u http_request)
    \<Rightarrow> (json \<Rightarrow> 'a option) \<Rightarrow> ('u, 'a) call" where
  "authed_call net c m segments fill dec s = (case endpoint c segments of
       Inl e \<Rightarrow> (Inl e, s)
     | Inr url \<Rightarrow> (case authenticated_request c m url s of
           Inl e \<Rightarrow> (Inl e, s)
         | Inr rq \<Rightarrow> perform net (lc_json (cl_libs c)) dec (fill rq) s))"

section \<open>Authentication\<close>

definition me :: "'u net \<Rightarrow> 'u client \<Rightarrow> ('u, user) call" where
  "me net c = authed_call net c GET [''me''] (\<lambda>rq. rq) (user_of_json (lc_time (cl_libs c)))"

definition install :: "authentication \<Rightarrow> 'u client_state \<Rightarrow> authentication option \<times> 'u client_state" where
  "install a s = (st_auth s, s\<lparr>st_auth := Some a\<rparr>)"

definition settle_login :: "authentication \<Rightarrow> authentication option \<Rightarrow> (user, rest_error) result
    \<Rightarrow> ('u, login_outcome) call" where
  "settle_login a previous result s = (case result of
       Inr u \<Rightarrow> (Inr \<lparr>lo_authentication = a, lo_me = u\<rparr>, s)
     | Inl e \<Rightarrow> (Inl e, s\<lparr>st_auth := previous\<rparr>))"

definition login :: "'u net \<Rightarrow> 'u client \<Rightarrow> credentials \<Rightarrow> ('u, login_outcome) call" where
  "login net c cr s = (case cr of
       CrPersonalAccessToken user_id token \<Rightarrow>
         (let a = \<lparr>au_user_id = user_id, au_token = token\<rparr>;
              (previous, s1) = install a s;
              (result, s2) = me net c s1
          in settle_login a previous result s2)
     | CrPassword user secret \<Rightarrow> (case endpoint c [''login''] of
           Inl e \<Rightarrow> (Inl e, s)
         | Inr url \<Rightarrow>
             (let rq = (anonymous_request c POST url)\<lparr>hr_body := JsonBody (login_request_to_json user secret)\<rparr>;
                  (result, s1) = perform net (lc_json (cl_libs c)) (login_envelope_of_json (lc_time (cl_libs c))) rq s
              in case result of
                Inl e \<Rightarrow> (Inl e, s1)
              | Inr d \<Rightarrow>
                  (let a = \<lparr>au_user_id = ld_user_id d, au_token = ld_auth_token d\<rparr>
                   in (Inr \<lparr>lo_authentication = a, lo_me = ld_me d\<rparr>, s1\<lparr>st_auth := Some a\<rparr>)))))"

definition logout :: "'u net \<Rightarrow> 'u client \<Rightarrow> ('u, unit) call" where
  "logout net c s = (case endpoint c [''logout''] of
       Inl e \<Rightarrow> (Inl e, s)
     | Inr url \<Rightarrow> (case authenticated_request c POST url s of
           Inl e \<Rightarrow> (Inl e, s)
         | Inr rq \<Rightarrow>
             (let (result, s1) = perform net (lc_json (cl_libs c)) dec_value rq s in
              case result of
                Inr v \<Rightarrow> (Inr (), s1\<lparr>st_auth := None\<rparr>)
              | Inl e \<Rightarrow> (Inl e, if (case re_api e of Some a \<Rightarrow> ae_is_unauthorized a | None \<Rightarrow> False)
                  then s1\<lparr>st_auth := None\<rparr> else s1))))"

section \<open>Roles\<close>

definition map_call :: "('a \<Rightarrow> ('b, rest_error) result) \<Rightarrow> ('u, 'a) call \<Rightarrow> ('u, 'b) call" where
  "map_call f op s = (let (result, s') = op s in (case result of Inl e \<Rightarrow> Inl e | Inr x \<Rightarrow> f x, s'))"

definition users_in_public_roles :: "'u net \<Rightarrow> 'u client \<Rightarrow> ('u, public_role_holder list) call" where
  "users_in_public_roles net c = map_call
     (\<lambda>envelope. if \<not> pre_success envelope then Inl (ReMissingSuccess ''roles.getUsersInPublicRoles'')
       else Inr (pre_users envelope))
     (authed_call net c GET [''roles.getUsersInPublicRoles''] (\<lambda>rq. rq) public_roles_of_json)"

definition room_roles :: "'u net \<Rightarrow> 'u client \<Rightarrow> str \<Rightarrow> ('u, room_role_holder list) call" where
  "room_roles net c room = map_call
     (\<lambda>envelope. if \<not> rre_success envelope then Inl (ReMissingSuccess ''rooms.roles'')
       else Inr (rre_roles envelope))
     (authed_call net c GET [''rooms.roles''] (\<lambda>rq. rq\<lparr>hr_query := [(''rid'', room)]\<rparr>) room_roles_of_json)"

section \<open>Messages\<close>

definition message_envelope_of_json :: "time_lib \<Rightarrow> json \<Rightarrow> Model_Message.message option" where
  "message_envelope_of_json T v = do { m \<leftarrow> struct_obj [''message''] v; req_field (message_of_json T) m ''message'' }"

record posted_message =
  pd_channel :: str
  pd_message :: Model_Message.message
  pd_ts :: i64

definition posted_message_of_json :: "time_lib \<Rightarrow> json \<Rightarrow> posted_message option" where
  "posted_message_of_json T v = do {
     m \<leftarrow> struct_obj [''channel'', ''message'', ''ts''] v;
     ch \<leftarrow> req_field as_str m ''channel'';
     msg \<leftarrow> req_field (message_of_json T) m ''message'';
     t \<leftarrow> req_field as_i64 m ''ts'';
     Some \<lparr>pd_channel = ch, pd_message = msg, pd_ts = t\<rparr>
   }"

definition send_message :: "'u net \<Rightarrow> 'u client \<Rightarrow> Rest_Bodies.send_message \<Rightarrow> ('u, Model_Message.message) call" where
  "send_message net c x = authed_call net c POST [''chat.sendMessage'']
     (\<lambda>rq. rq\<lparr>hr_body := JsonBody (send_message_to_json x)\<rparr>) (message_envelope_of_json (lc_time (cl_libs c)))"

definition post_message :: "'u net \<Rightarrow> 'u client \<Rightarrow> Rest_Bodies.post_message \<Rightarrow> ('u, posted_message) call" where
  "post_message net c x = authed_call net c POST [''chat.postMessage'']
     (\<lambda>rq. rq\<lparr>hr_body := JsonBody (post_message_to_json x)\<rparr>) (posted_message_of_json (lc_time (cl_libs c)))"

section \<open>Files\<close>

datatype upload_error =
    UeUpload rest_error
  | UeConfirm uploaded_file rest_error

definition orphaned_file :: "upload_error \<Rightarrow> uploaded_file option" where
  "orphaned_file e = (case e of UeConfirm f source \<Rightarrow> Some f | UeUpload source \<Rightarrow> None)"

definition source_error :: "upload_error \<Rightarrow> rest_error" where
  "source_error e = (case e of UeUpload source \<Rightarrow> source | UeConfirm f source \<Rightarrow> source)"

definition upload_media :: "'u net \<Rightarrow> 'u client \<Rightarrow> str \<Rightarrow> file_upload \<Rightarrow> ('u, uploaded_file) call" where
  "upload_media net c rid f s = (case endpoint c [''rooms.media'', rid] of
       Inl e \<Rightarrow> (Inl e, s)
     | Inr url \<Rightarrow> (case Option.bind (fu_content_type f) (lc_mime (cl_libs c)) of
           Some e \<Rightarrow> (Inl (ReInvalidRequest (''invalid content type: '' @ e)), s)
         | None \<Rightarrow> (case authenticated_request c POST url s of
               Inl e \<Rightarrow> (Inl e, s)
             | Inr rq \<Rightarrow> perform net (lc_json (cl_libs c)) media_envelope_of_json
                 (rq\<lparr>hr_body := MultipartBody ''file'' f\<rparr>) s)))"

definition confirm_media :: "'u net \<Rightarrow> 'u client \<Rightarrow> str \<Rightarrow> str \<Rightarrow> confirm_upload \<Rightarrow> ('u, Model_Message.message) call" where
  "confirm_media net c rid file_id confirm = authed_call net c POST [''rooms.mediaConfirm'', rid, file_id]
     (\<lambda>rq. rq\<lparr>hr_body := JsonBody (confirm_upload_to_json confirm)\<rparr>) (message_envelope_of_json (lc_time (cl_libs c)))"

definition upload_file :: "'u net \<Rightarrow> 'u client \<Rightarrow> str \<Rightarrow> file_upload \<Rightarrow> confirm_upload \<Rightarrow> 'u client_state
    \<Rightarrow> (Model_Message.message, upload_error) result \<times> 'u client_state" where
  "upload_file net c rid f confirm s = (case upload_media net c rid f s of
       (Inl e, s1) \<Rightarrow> (Inl (UeUpload e), s1)
     | (Inr uploaded, s1) \<Rightarrow> (case confirm_media net c rid (uf_id uploaded) confirm s1 of
           (Inr x, s2) \<Rightarrow> (Inr x, s2)
         | (Inl source, s2) \<Rightarrow> (Inl (UeConfirm uploaded source), s2)))"

end
