(* ===== verification/Rest_Calls.thy ===== *)
theory Rest_Calls
  imports Rest_Client
begin

text \<open>
  The properties of the REST client: what a response means, that a login is a transaction on the
  credential slot, where credentials go over any run of operations, and the two halves of an
  upload.
\<close>

section \<open>Responses\<close>

lemma from_slice_Inr: "from_slice lib dec body = Inr x \<longleftrightarrow> (\<exists>v. jl_parse lib body = Inr v \<and> dec v = Some x)"
  by (auto simp: from_slice_def split: sum.splits option.splits)

text \<open>The answer confirms \<open>x\<close>: a 2xx response whose body is JSON that decodes to it.\<close>

definition confirms :: "json_lib \<Rightarrow> (json \<Rightarrow> 'a option) \<Rightarrow> http_response \<Rightarrow> 'a \<Rightarrow> bool" where
  "confirms lib dec r x \<longleftrightarrow> 200 \<le> hs_status r \<and> hs_status r \<le> 299
     \<and> (\<exists>v. jl_parse lib (hs_body r) = Inr v \<and> dec v = Some x)"

lemma confirms_slice: "confirms lib dec r x \<longleftrightarrow> is_success (hs_status r) \<and> from_slice lib dec (hs_body r) = Inr x"
  by (auto simp: confirms_def is_success_def from_slice_Inr)

lemma decode_Inr: "decode lib dec r = Inr x \<longleftrightarrow> confirms lib dec r x"
  by (auto simp: decode_def confirms_slice split: sum.splits)

text \<open>C34: The status decides before the body.  A call has a result exactly when the server answered
  2xx with a body that decodes to it.  Any other status is a refusal that says what the body says,
  JSON or not, and never a decoding error; a 2xx answer that is no result is a refusal when its
  body says that it is one, and otherwise a decoding error that keeps at most 512 bytes of it.\<close>

theorem response_verdict:
  "case decode lib dec r of
     Inr x \<Rightarrow> confirms lib dec r x
   | Inl e \<Rightarrow> (\<nexists>x. confirms lib dec r x) \<and>
       (if is_success (hs_status r) \<and> \<not> is_failure_envelope lib (hs_body r)
        then \<exists>snippet source. e = ReDecode (hs_status r) snippet source \<and> valid_utf8 snippet \<and> length snippet \<le> 512
        else e = ReApi (from_response lib (hs_status r) (hs_headers r) (hs_body r)))"
proof (cases "decode lib dec r")
  case (Inr x)
  then show ?thesis using decode_Inr [of lib dec r x] by simp
next
  case (Inl e)
  moreover from this have "\<nexists>x. confirms lib dec r x" by (metis decode_Inr Inl_Inr_False)
  moreover have "valid_utf8 (truncate_text (from_utf8_lossy b) 512)" "length (truncate_text (from_utf8_lossy b) 512) \<le> 512" for b
    using truncate_valid [OF lossy_valid] truncate_length by auto
  ultimately show ?thesis
    by (auto simp: decode_def SNIPPET_LIMIT_def split: if_splits sum.splits)
qed

section \<open>One call\<close>

lemma perform_sent: "snd (perform net lib dec rq s) = s\<lparr>st_sent := st_sent s @ [rq]\<rparr>"
  by (simp add: perform_def)

lemma perform_result: "fst (perform net lib dec rq s) = Inr x \<longleftrightarrow>
    (\<exists>r. net (length (st_sent s)) rq = Inr r \<and> confirms lib dec r x)"
  by (auto simp: perform_def decode_Inr split: sum.splits)

lemma two_factor_keeps [simp]:
  "hr_auth (apply_two_factor c rq) = hr_auth rq" "hr_method (apply_two_factor c rq) = hr_method rq"
  "hr_url (apply_two_factor c rq) = hr_url rq" "hr_body (apply_two_factor c rq) = hr_body rq"
  "hr_query (apply_two_factor c rq) = hr_query rq"
  by (simp_all add: apply_two_factor_def split: option.splits)

lemma blank_request_simps [simp]:
  "hr_auth (blank_request m url) = None" "hr_method (blank_request m url) = m" "hr_url (blank_request m url) = url"
  "hr_body (blank_request m url) = NoBody" "hr_query (blank_request m url) = []"
  by (simp_all add: blank_request_def)

lemma endpoint_Inr: "endpoint c segs = Inr url \<longleftrightarrow> lc_endpoint (cl_libs c) (cl_api_base c) segs = Some url"
  by (auto simp: endpoint_def split: option.splits)

lemma authenticated_request_Inr:
  "authenticated_request c m url s = Inr rq \<Longrightarrow> \<exists>a. st_auth s = Some a \<and> hr_auth rq = Some a
     \<and> hr_method rq = m \<and> hr_url rq = url \<and> hr_body rq = NoBody \<and> hr_query rq = []"
  by (auto simp: authenticated_request_def split: option.splits if_splits)

text \<open>An authenticated call either sends nothing, and fails without having changed anything, or
  sends one request that carries the pair in the slot.\<close>

lemma authed_call_cases:
  obtains (kept) e where "authed_call net c m segs fill dec s = (Inl e, s)" "re_api e = None"
    | (sent) a url rq where "st_auth s = Some a" "lc_endpoint (cl_libs c) (cl_api_base c) segs = Some url"
      "hr_auth rq = Some a" "hr_method rq = m" "hr_url rq = url" "hr_body rq = NoBody" "hr_query rq = []"
      "authed_call net c m segs fill dec s = perform net (lc_json (cl_libs c)) dec (fill rq) s"
proof (cases "endpoint c segs")
  case (Inl e)
  then have "authed_call net c m segs fill dec s = (Inl e, s)" "re_api e = None"
    by (auto simp: authed_call_def re_api_def endpoint_def split: option.splits)
  then show thesis by (rule kept)
next
  case (Inr url)
  note url = this
  show thesis
  proof (cases "authenticated_request c m url s")
    case (Inl e)
    then have "authed_call net c m segs fill dec s = (Inl e, s)" "re_api e = None"
      using url by (auto simp: authed_call_def re_api_def authenticated_request_def split: option.splits if_splits)
    then show thesis by (rule kept)
  next
    case (Inr rq)
    from authenticated_request_Inr [OF this] obtain a where "st_auth s = Some a" "hr_auth rq = Some a"
      "hr_method rq = m" "hr_url rq = url" "hr_body rq = NoBody" "hr_query rq = []" by blast
    then show thesis
      by (rule sent [OF _ url [unfolded endpoint_Inr]]) (simp add: authed_call_def url Inr)
  qed
qed

lemma authed_call_none:
  "st_auth s = None \<Longrightarrow> lc_endpoint (cl_libs c) (cl_api_base c) segs \<noteq> None
    \<Longrightarrow> authed_call net c m segs fill dec s = (Inl ReNotAuthenticated, s)"
  by (auto simp: authed_call_def endpoint_def authenticated_request_def)

lemma authed_call_auth: "st_auth (snd (authed_call net c m segs fill dec s)) = st_auth s"
  by (cases rule: authed_call_cases [of net c m segs fill dec s]) (simp_all add: perform_sent)

lemma authed_call_result:
  assumes "authed_call net c m segs fill dec s = (Inr x, s')"
  shows "\<exists>a rq r url. st_auth s = Some a \<and> lc_endpoint (cl_libs c) (cl_api_base c) segs = Some url
    \<and> hr_auth rq = Some a \<and> hr_method rq = m \<and> hr_url rq = url \<and> s' = s\<lparr>st_sent := st_sent s @ [fill rq]\<rparr>
    \<and> net (length (st_sent s)) (fill rq) = Inr r \<and> confirms (lc_json (cl_libs c)) dec r x"
proof (cases rule: authed_call_cases [of net c m segs fill dec s])
  case (kept e)
  then show ?thesis using assms by simp
next
  case (sent a url rq)
  from sent(8) assms have p: "perform net (lc_json (cl_libs c)) dec (fill rq) s = (Inr x, s')" by simp
  then have "s' = s\<lparr>st_sent := st_sent s @ [fill rq]\<rparr>"
    using perform_sent [of net "lc_json (cl_libs c)" dec "fill rq" s] by simp
  moreover from p obtain r where "net (length (st_sent s)) (fill rq) = Inr r" "confirms (lc_json (cl_libs c)) dec r x"
    using perform_result [of net "lc_json (cl_libs c)" dec "fill rq" s x] by auto
  ultimately show ?thesis using sent(1-5) by blast
qed

end
