(* ===== verification/Rest_Sessions.thy ===== *)
theory Rest_Sessions
  imports Rest_Calls
begin

text \<open>
  The properties of the REST client over its state: logins and logouts as transactions on the
  credential slot, where credentials go in any run of operations, and uploads.
\<close>

section \<open>Logging in\<close>

lemma settle_login_cases:
  "settle_login a previous result s = (case result of
     Inr u \<Rightarrow> (Inr \<lparr>lo_authentication = a, lo_me = u\<rparr>, s) | Inl e \<Rightarrow> (Inl e, s\<lparr>st_auth := previous\<rparr>))"
  by (simp add: settle_login_def)

definition login_answered :: "'u client \<Rightarrow> credentials \<Rightarrow> 'u http_request \<Rightarrow> http_response \<Rightarrow> login_outcome \<Rightarrow> bool" where
  "login_answered c cr rq r o' \<longleftrightarrow> (case cr of
       CrPersonalAccessToken user_id token \<Rightarrow>
         lo_authentication o' = \<lparr>au_user_id = user_id, au_token = token\<rparr>
         \<and> hr_method rq = GET \<and> hr_auth rq = Some (lo_authentication o')
         \<and> lc_endpoint (cl_libs c) (cl_api_base c) [''me''] = Some (hr_url rq)
         \<and> confirms (lc_json (cl_libs c)) (user_of_json (lc_time (cl_libs c))) r (lo_me o')
     | CrPassword user secret \<Rightarrow>
         hr_method rq = POST \<and> hr_auth rq = None \<and> hr_body rq = JsonBody (login_request_to_json user secret)
         \<and> lc_endpoint (cl_libs c) (cl_api_base c) [''login''] = Some (hr_url rq)
         \<and> confirms (lc_json (cl_libs c)) (login_envelope_of_json (lc_time (cl_libs c))) r
             \<lparr>ld_user_id = au_user_id (lo_authentication o'), ld_auth_token = au_token (lo_authentication o'),
              ld_me = lo_me o'\<rparr>)"

lemma login_token:
  "login net c (CrPersonalAccessToken i t) s = (let a = \<lparr>au_user_id = i, au_token = t\<rparr>;
      (result, s2) = me net c (s\<lparr>st_auth := Some a\<rparr>) in settle_login a (st_auth s) result s2)"
  by (simp add: login_def install_def)

lemma me_auth: "st_auth (snd (me net c s)) = st_auth s"
  by (simp add: me_def authed_call_auth)

lemma login_settles_token:
  "case login net c (CrPersonalAccessToken i t) s of
     (Inl e, s') \<Rightarrow> st_auth s' = st_auth s
   | (Inr o', s') \<Rightarrow> st_auth s' = Some (lo_authentication o')
       \<and> (\<exists>rq r. st_sent s' = st_sent s @ [rq] \<and> net (length (st_sent s)) rq = Inr r \<and> login_answered c (CrPersonalAccessToken i t) rq r o')"
proof -
  let ?a = "\<lparr>au_user_id = i, au_token = t\<rparr>"
  let ?s1 = "s\<lparr>st_auth := Some ?a\<rparr>"
  obtain result s2 where m: "me net c ?s1 = (result, s2)" by force
  show ?thesis
  proof (cases result)
    case (Inl e)
    then show ?thesis by (simp add: login_token m settle_login_def)
  next
    case (Inr u)
    from authed_call_result [OF m [unfolded Inr me_def]] have
      "\<exists>rq r url. lc_endpoint (cl_libs c) (cl_api_base c) [''me''] = Some url \<and> hr_auth rq = Some ?a \<and> hr_method rq = GET
        \<and> hr_url rq = url \<and> s2 = ?s1\<lparr>st_sent := st_sent s @ [rq]\<rparr> \<and> net (length (st_sent s)) rq = Inr r
        \<and> confirms (lc_json (cl_libs c)) (user_of_json (lc_time (cl_libs c))) r u" by auto
    then show ?thesis
      by (auto simp: login_token m settle_login_def Inr login_answered_def)
  qed
qed

lemma login_settles_password:
  "case login net c (CrPassword user secret) s of
     (Inl e, s') \<Rightarrow> st_auth s' = st_auth s
   | (Inr o', s') \<Rightarrow> st_auth s' = Some (lo_authentication o')
       \<and> (\<exists>rq r. st_sent s' = st_sent s @ [rq] \<and> net (length (st_sent s)) rq = Inr r \<and> login_answered c (CrPassword user secret) rq r o')"
proof -
  show ?thesis
  proof (cases "endpoint c [''login'']")
    case (Inl e)
    then show ?thesis by (simp add: login_def)
  next
    case (Inr url)
    let ?rq = "(anonymous_request c POST url)\<lparr>hr_body := JsonBody (login_request_to_json user secret)\<rparr>"
    let ?dec = "login_envelope_of_json (lc_time (cl_libs c))"
    obtain result s1 where p: "perform net (lc_json (cl_libs c)) ?dec ?rq s = (result, s1)" by force
    have s1: "s1 = s\<lparr>st_sent := st_sent s @ [?rq]\<rparr>"
      using perform_sent [of net "lc_json (cl_libs c)" ?dec ?rq s] p by simp
    have login: "login net c (CrPassword user secret) s = (case result of Inl e \<Rightarrow> (Inl e, s1)
        | Inr d \<Rightarrow> (let a = \<lparr>au_user_id = ld_user_id d, au_token = ld_auth_token d\<rparr>
            in (Inr \<lparr>lo_authentication = a, lo_me = ld_me d\<rparr>, s1\<lparr>st_auth := Some a\<rparr>)))"
      by (simp add: login_def Inr p)
    show ?thesis
    proof (cases result)
      case (Inl e)
      then show ?thesis by (simp add: login s1)
    next
      case (Inr d)
      with p obtain r where r: "net (length (st_sent s)) ?rq = Inr r" "confirms (lc_json (cl_libs c)) ?dec r d"
        using perform_result [of net "lc_json (cl_libs c)" ?dec ?rq s d] by auto
      let ?a = "\<lparr>au_user_id = ld_user_id d, au_token = ld_auth_token d\<rparr>"
      let ?o = "\<lparr>lo_authentication = ?a, lo_me = ld_me d\<rparr>"
      have "login net c (CrPassword user secret) s = (Inr ?o, s1\<lparr>st_auth := Some ?a\<rparr>)"
        by (simp add: login Inr Let_def)
      moreover have "login_answered c (CrPassword user secret) ?rq r ?o"
        using r(2) \<open>endpoint c [''login''] = Inr url\<close>
        by (cases d) (simp add: login_answered_def anonymous_request_def endpoint_Inr)
      ultimately show ?thesis using r(1) by (auto simp: s1)
    qed
  qed
qed

lemma login_settles:
  "case login net c cr s of
     (Inl e, s') \<Rightarrow> st_auth s' = st_auth s
   | (Inr o', s') \<Rightarrow> st_auth s' = Some (lo_authentication o')
       \<and> (\<exists>rq r. st_sent s' = st_sent s @ [rq] \<and> net (length (st_sent s)) rq = Inr r \<and> login_answered c cr rq r o')"
  using login_settles_token login_settles_password by (cases cr) (simp_all only:)

text \<open>C19: A login is a transaction.  When it succeeds, the slot holds exactly the pair it reports, and
  the one request it made was answered 2xx: with the user of that very pair, presented in the
  request, for a token; with the pair and its user, to a request that carried no credentials, for
  a password.  When it fails, the slot is what it was before.\<close>

theorem login_transaction:
  "case login net c cr s of
     (Inl e, s') \<Rightarrow> st_auth s' = st_auth s
   | (Inr o', s') \<Rightarrow> st_auth s' = Some (lo_authentication o')
       \<and> (\<exists>rq r. st_sent s' = st_sent s @ [rq] \<and> net (length (st_sent s)) rq = Inr r \<and> login_answered c cr rq r o')"
  by (rule login_settles)

section \<open>Logging out\<close>

lemma from_response_kind: "ae_kind (from_response lib status headers body) = kind_from_status status
    \<and> ae_status (from_response lib status headers body) = status"
  by (simp add: from_response_def Let_def split: option.split prod.split)

lemma decode_kind: "decode lib dec r = Inl e \<Longrightarrow> re_api e = Some a \<Longrightarrow> ae_is_unauthorized a \<longleftrightarrow> ae_status a = 401"
  using from_response_kind [of lib "hs_status r" "hs_headers r" "hs_body r"]
  by (auto simp: decode_def re_api_def ae_is_unauthorized_def kind_from_status_def
      split: if_splits sum.splits)

lemma perform_kind:
  "perform net lib dec rq s = (Inl e, s') \<Longrightarrow> re_api e = Some a \<Longrightarrow> ae_is_unauthorized a \<longleftrightarrow> ae_status a = 401"
  by (auto simp: perform_def re_api_def [of "ReTransport _"] dest: decode_kind split: sum.splits)

lemma logout_call: "logout net c s = (let (result, s1) = authed_call net c POST [''logout''] (\<lambda>rq. rq) dec_value s in
    case result of
      Inr v \<Rightarrow> (Inr (), s1\<lparr>st_auth := None\<rparr>)
    | Inl e \<Rightarrow> (Inl e, if (case re_api e of Some a \<Rightarrow> ae_is_unauthorized a | None \<Rightarrow> False)
        then s1\<lparr>st_auth := None\<rparr> else s1))"
  by (auto simp: logout_def authed_call_def endpoint_def authenticated_request_def re_api_def
      split: option.splits if_splits)

text \<open>A logout forgets exactly the credentials the server no longer takes.  The slot is emptied
  when the server confirmed the logout or refused the pair with a 401, and in every other case,
  also when nothing was sent, it is what it was; at most one request goes out, with the pair.\<close>

theorem logout_transaction:
  "case logout net c s of (result, s') \<Rightarrow>
     st_auth s' = (case result of
         Inr _ \<Rightarrow> None
       | Inl e \<Rightarrow> (case re_api e of Some a \<Rightarrow> if ae_status a = 401 then None else st_auth s | None \<Rightarrow> st_auth s))
     \<and> (st_sent s' = st_sent s \<and> (\<exists>e. result = Inl e)
        \<or> (\<exists>rq. st_sent s' = st_sent s @ [rq] \<and> hr_method rq = POST \<and> hr_auth rq = st_auth s \<and> st_auth s \<noteq> None
            \<and> lc_endpoint (cl_libs c) (cl_api_base c) [''logout''] = Some (hr_url rq)))"
proof (cases rule: authed_call_cases [of net c POST "[''logout'']" "\<lambda>rq. rq" dec_value s])
  case (kept e)
  then show ?thesis by (simp add: logout_call)
next
  case (sent a url rq)
  obtain result s1 where p: "perform net (lc_json (cl_libs c)) dec_value rq s = (result, s1)" by force
  have s1: "s1 = s\<lparr>st_sent := st_sent s @ [rq]\<rparr>"
    using perform_sent [of net "lc_json (cl_libs c)" dec_value rq s] p by simp
  show ?thesis
  proof (cases result)
    case (Inl e)
    note k = perform_kind [OF p [unfolded Inl]]
    show ?thesis
      by (cases "re_api e") (use k sent in \<open>auto simp: logout_call p Inl s1\<close>)
  next
    case (Inr v)
    then show ?thesis using sent by (auto simp: logout_call p s1)
  qed
qed

section \<open>Uploads\<close>

definition is_media :: "'u client \<Rightarrow> str \<Rightarrow> file_upload \<Rightarrow> authentication \<Rightarrow> 'u http_request \<Rightarrow> bool" where
  "is_media c rid f a rq \<longleftrightarrow> hr_method rq = POST \<and> hr_auth rq = Some a \<and> hr_body rq = MultipartBody ''file'' f
     \<and> lc_endpoint (cl_libs c) (cl_api_base c) [''rooms.media'', rid] = Some (hr_url rq)"

definition is_confirm :: "'u client \<Rightarrow> str \<Rightarrow> str \<Rightarrow> confirm_upload \<Rightarrow> authentication \<Rightarrow> 'u http_request \<Rightarrow> bool" where
  "is_confirm c rid i conf a rq \<longleftrightarrow> hr_method rq = POST \<and> hr_auth rq = Some a
     \<and> hr_body rq = JsonBody (confirm_upload_to_json conf)
     \<and> lc_endpoint (cl_libs c) (cl_api_base c) [''rooms.mediaConfirm'', rid, i] = Some (hr_url rq)"

lemma upload_media_call:
  "upload_media net c rid f s =
     (if Option.bind (fu_content_type f) (lc_mime (cl_libs c)) = None
      then authed_call net c POST [''rooms.media'', rid] (\<lambda>rq. rq\<lparr>hr_body := MultipartBody ''file'' f\<rparr>) media_envelope_of_json s
      else (case endpoint c [''rooms.media'', rid] of Inl e \<Rightarrow> (Inl e, s)
        | Inr url \<Rightarrow> (Inl (ReInvalidRequest (''invalid content type: '' @ the (Option.bind (fu_content_type f) (lc_mime (cl_libs c))))), s)))"
  by (auto simp: upload_media_def authed_call_def split: sum.split)

lemma upload_media_cases:
  obtains (kept) e where "upload_media net c rid f s = (Inl e, s)"
    | (failed) a rq e where "st_auth s = Some a" "is_media c rid f a rq"
      "upload_media net c rid f s = (Inl e, s\<lparr>st_sent := st_sent s @ [rq]\<rparr>)"
    | (stored) a rq r up where "st_auth s = Some a" "is_media c rid f a rq"
      "net (length (st_sent s)) rq = Inr r" "confirms (lc_json (cl_libs c)) media_envelope_of_json r up"
      "upload_media net c rid f s = (Inr up, s\<lparr>st_sent := st_sent s @ [rq]\<rparr>)"
proof (cases "Option.bind (fu_content_type f) (lc_mime (cl_libs c)) = None")
  case False
  then show thesis using kept by (cases "endpoint c [''rooms.media'', rid]") (auto simp: upload_media_call)
next
  case True
  let ?fill = "\<lambda>rq. rq\<lparr>hr_body := MultipartBody ''file'' f\<rparr>"
  note call = upload_media_call [of net c rid f s] True
  show thesis
  proof (cases rule: authed_call_cases [of net c POST "[''rooms.media'', rid]" ?fill media_envelope_of_json s])
    case (kept e)
    then show thesis using that(1) call by simp
  next
    case (sent a url rq)
    let ?rq = "?fill rq"
    have m: "is_media c rid f a ?rq" using sent by (simp add: is_media_def)
    have up: "upload_media net c rid f s = perform net (lc_json (cl_libs c)) media_envelope_of_json ?rq s"
      using sent call by simp
    obtain result where p: "perform net (lc_json (cl_libs c)) media_envelope_of_json ?rq s
        = (result, s\<lparr>st_sent := st_sent s @ [?rq]\<rparr>)" by (simp add: perform_def)
    show thesis
    proof (cases result)
      case (Inl e)
      then show thesis using that(2) [OF sent(1) m] up p by simp
    next
      case (Inr x)
      with p perform_result [of net "lc_json (cl_libs c)" media_envelope_of_json ?rq s x] obtain r where
        "net (length (st_sent s)) ?rq = Inr r" "confirms (lc_json (cl_libs c)) media_envelope_of_json r x" by auto
      then show thesis using that(3) [OF sent(1) m] up p Inr by simp
    qed
  qed
qed

lemma confirm_media_cases:
  obtains (kept) e where "confirm_media net c rid i conf s = (Inl e, s)"
    | (failed) a rq e where "st_auth s = Some a" "is_confirm c rid i conf a rq"
      "confirm_media net c rid i conf s = (Inl e, s\<lparr>st_sent := st_sent s @ [rq]\<rparr>)"
    | (posted) a rq r x where "st_auth s = Some a" "is_confirm c rid i conf a rq"
      "net (length (st_sent s)) rq = Inr r"
      "confirms (lc_json (cl_libs c)) (message_envelope_of_json (lc_time (cl_libs c))) r x"
      "confirm_media net c rid i conf s = (Inr x, s\<lparr>st_sent := st_sent s @ [rq]\<rparr>)"
proof -
  let ?fill = "\<lambda>rq. rq\<lparr>hr_body := JsonBody (confirm_upload_to_json conf)\<rparr>"
  let ?dec = "message_envelope_of_json (lc_time (cl_libs c))"
  show thesis
  proof (cases rule: authed_call_cases [of net c POST "[''rooms.mediaConfirm'', rid, i]" ?fill ?dec s])
    case (kept e)
    then show thesis using that(1) by (simp add: confirm_media_def)
  next
    case (sent a url rq)
    let ?rq = "?fill rq"
    have m: "is_confirm c rid i conf a ?rq" using sent by (simp add: is_confirm_def)
    have up: "confirm_media net c rid i conf s = perform net (lc_json (cl_libs c)) ?dec ?rq s"
      using sent by (simp add: confirm_media_def)
    obtain result where p: "perform net (lc_json (cl_libs c)) ?dec ?rq s
        = (result, s\<lparr>st_sent := st_sent s @ [?rq]\<rparr>)" by (simp add: perform_def)
    show thesis
    proof (cases result)
      case (Inl e)
      then show thesis using that(2) [OF sent(1) m] up p by simp
    next
      case (Inr x)
      with p perform_result [of net "lc_json (cl_libs c)" ?dec ?rq s x] obtain r where
        "net (length (st_sent s)) ?rq = Inr r" "confirms (lc_json (cl_libs c)) ?dec r x" by auto
      then show thesis using that(3) [OF sent(1) m] up p Inr by simp
    qed
  qed
qed

text \<open>C21: An upload is two requests in order, and its errors say which half failed.  A message is
  returned only when the server stored the file and then confirmed the very id it had given.  An
  upload error means that no confirmation was sent; a confirmation error carries the file that was
  stored, and the bytes went out once.\<close>

theorem upload_transaction:
  "case upload_file net c rid f conf s of
     (Inr x, s') \<Rightarrow> \<exists>a rq1 rq2 r1 r2 up. st_auth s = Some a \<and> is_media c rid f a rq1 \<and> is_confirm c rid (uf_id up) conf a rq2
       \<and> s' = s\<lparr>st_sent := st_sent s @ [rq1, rq2]\<rparr>
       \<and> net (length (st_sent s)) rq1 = Inr r1 \<and> confirms (lc_json (cl_libs c)) media_envelope_of_json r1 up
       \<and> net (Suc (length (st_sent s))) rq2 = Inr r2
       \<and> confirms (lc_json (cl_libs c)) (message_envelope_of_json (lc_time (cl_libs c))) r2 x
   | (Inl (UeUpload e), s') \<Rightarrow> s' = s \<or> (\<exists>a rq. is_media c rid f a rq \<and> s' = s\<lparr>st_sent := st_sent s @ [rq]\<rparr>)
   | (Inl (UeConfirm up e), s') \<Rightarrow> \<exists>a rq1 r1. is_media c rid f a rq1
       \<and> net (length (st_sent s)) rq1 = Inr r1 \<and> confirms (lc_json (cl_libs c)) media_envelope_of_json r1 up
       \<and> (s' = s\<lparr>st_sent := st_sent s @ [rq1]\<rparr>
          \<or> (\<exists>rq2. is_confirm c rid (uf_id up) conf a rq2 \<and> s' = s\<lparr>st_sent := st_sent s @ [rq1, rq2]\<rparr>))"
proof (cases rule: upload_media_cases [of net c rid f s])
  case (kept e)
  then show ?thesis by (simp add: upload_file_def)
next
  case (failed a rq e)
  then show ?thesis by (auto simp: upload_file_def)
next
  case (stored a rq1 r1 up)
  let ?s1 = "s\<lparr>st_sent := st_sent s @ [rq1]\<rparr>"
  show ?thesis
  proof (cases rule: confirm_media_cases [of net c rid "uf_id up" conf ?s1])
    case (kept e)
    then show ?thesis using stored by (auto simp: upload_file_def)
  next
    case (failed a' rq2 e)
    then show ?thesis using stored by (auto simp: upload_file_def)
  next
    case (posted a' rq2 r2 x)
    have s2: "upload_file net c rid f conf s = (Inr x, s\<lparr>st_sent := st_sent s @ [rq1, rq2]\<rparr>)"
      using stored posted by (simp add: upload_file_def)
    have "is_confirm c rid (uf_id up) conf a rq2" "net (Suc (length (st_sent s))) rq2 = Inr r2"
      using posted stored(1) by simp_all
    then show ?thesis unfolding s2 prod.case sum.case using stored posted(4) by blast
  qed
qed

section \<open>Where credentials go\<close>

datatype 'u rest_op =
    RoSetAuthentication "authentication option"
  | RoLogin credentials
  | RoLogout
  | RoMe
  | RoPublicRoles
  | RoRoomRoles str
  | RoSend Rest_Bodies.send_message
  | RoPost Rest_Bodies.post_message
  | RoUploadMedia str file_upload
  | RoConfirmMedia str str confirm_upload
  | RoUploadFile str file_upload confirm_upload

primrec rest_step :: "'u net \<Rightarrow> 'u client \<Rightarrow> 'u rest_op \<Rightarrow> 'u client_state \<Rightarrow> 'u client_state" where
  "rest_step net c (RoSetAuthentication a) s = set_authentication a s"
| "rest_step net c (RoLogin cr) s = snd (login net c cr s)"
| "rest_step net c RoLogout s = snd (logout net c s)"
| "rest_step net c RoMe s = snd (me net c s)"
| "rest_step net c RoPublicRoles s = snd (users_in_public_roles net c s)"
| "rest_step net c (RoRoomRoles room) s = snd (room_roles net c room s)"
| "rest_step net c (RoSend x) s = snd (send_message net c x s)"
| "rest_step net c (RoPost x) s = snd (post_message net c x s)"
| "rest_step net c (RoUploadMedia rid f) s = snd (upload_media net c rid f s)"
| "rest_step net c (RoConfirmMedia rid i conf) s = snd (confirm_media net c rid i conf s)"
| "rest_step net c (RoUploadFile rid f conf) s = snd (upload_file net c rid f conf s)"

text \<open>The pairs an operation brings in, and those the server hands out.\<close>

definition given :: "(authentication \<Rightarrow> bool) \<Rightarrow> 'u rest_op \<Rightarrow> bool" where
  "given ok op = (case op of
       RoSetAuthentication a \<Rightarrow> pred_option ok a
     | RoLogin cr \<Rightarrow> pred_option ok (as_authentication cr)
     | _ \<Rightarrow> True)"

definition issued :: "(authentication \<Rightarrow> bool) \<Rightarrow> 'u net \<Rightarrow> 'u client \<Rightarrow> bool" where
  "issued ok net c \<longleftrightarrow> (\<forall>n rq r d. net n rq = Inr r
     \<longrightarrow> confirms (lc_json (cl_libs c)) (login_envelope_of_json (lc_time (cl_libs c))) r d
     \<longrightarrow> ok \<lparr>au_user_id = ld_user_id d, au_token = ld_auth_token d\<rparr>)"

definition request_ok :: "(authentication \<Rightarrow> bool) \<Rightarrow> 'u client \<Rightarrow> 'u http_request \<Rightarrow> bool" where
  "request_ok ok c rq = (case hr_auth rq of
       Some a \<Rightarrow> ok a
     | None \<Rightarrow> hr_method rq = POST \<and> lc_endpoint (cl_libs c) (cl_api_base c) [''login''] = Some (hr_url rq)
         \<and> (\<exists>user secret. hr_body rq = JsonBody (login_request_to_json user secret)))"

definition creds_ok :: "(authentication \<Rightarrow> bool) \<Rightarrow> 'u client \<Rightarrow> 'u client_state \<Rightarrow> bool" where
  "creds_ok ok c s \<longleftrightarrow> pred_option ok (st_auth s) \<and> list_all (request_ok ok c) (st_sent s)"

lemma creds_sent: "creds_ok ok c s \<Longrightarrow> request_ok ok c rq \<Longrightarrow> creds_ok ok c (s\<lparr>st_sent := st_sent s @ [rq]\<rparr>)"
  by (simp add: creds_ok_def)

lemma creds_auth: "creds_ok ok c s \<Longrightarrow> pred_option ok a \<Longrightarrow> creds_ok ok c (s\<lparr>st_auth := a\<rparr>)"
  by (simp add: creds_ok_def)

lemma creds_authed_call:
  assumes "creds_ok ok c s" and "\<And>rq. hr_auth (fill rq) = hr_auth rq"
  shows "creds_ok ok c (snd (authed_call net c m segs fill dec s))"
proof (cases rule: authed_call_cases [of net c m segs fill dec s])
  case (kept e)
  then show ?thesis using assms(1) by simp
next
  case (sent a url rq)
  then have "request_ok ok c (fill rq)" using assms by (simp add: request_ok_def creds_ok_def)
  then show ?thesis using sent(8) creds_sent [OF assms(1)] by (simp add: perform_sent)
qed

lemma creds_me: "creds_ok ok c s \<Longrightarrow> creds_ok ok c (snd (me net c s))"
  by (simp add: me_def creds_authed_call)

lemma creds_login:
  assumes "creds_ok ok c s" and "pred_option ok (as_authentication cr)" and "issued ok net c"
  shows "creds_ok ok c (snd (login net c cr s))"
proof (cases cr)
  case (CrPersonalAccessToken i t)
  let ?s1 = "s\<lparr>st_auth := Some \<lparr>au_user_id = i, au_token = t\<rparr>\<rparr>"
  obtain result s2 where m: "me net c ?s1 = (result, s2)" by force
  have "creds_ok ok c ?s1" using assms(1,2) CrPersonalAccessToken by (simp add: creds_auth as_authentication_def)
  from creds_me [OF this, of net] m have "creds_ok ok c s2" by simp
  moreover have "pred_option ok (st_auth s)" using assms(1) by (simp add: creds_ok_def)
  ultimately show ?thesis
    by (cases result) (simp_all add: CrPersonalAccessToken login_token m settle_login_def creds_auth)
next
  case (CrPassword user secret)
  show ?thesis
  proof (cases "endpoint c [''login'']")
    case (Inl e)
    then show ?thesis using assms(1) by (simp add: CrPassword login_def)
  next
    case (Inr url)
    let ?rq = "(anonymous_request c POST url)\<lparr>hr_body := JsonBody (login_request_to_json user secret)\<rparr>"
    let ?dec = "login_envelope_of_json (lc_time (cl_libs c))"
    obtain result s1 where p: "perform net (lc_json (cl_libs c)) ?dec ?rq s = (result, s1)" by force
    have s1: "s1 = s\<lparr>st_sent := st_sent s @ [?rq]\<rparr>"
      using perform_sent [of net "lc_json (cl_libs c)" ?dec ?rq s] p by simp
    have "request_ok ok c ?rq"
      using Inr by (auto simp: request_ok_def anonymous_request_def endpoint_Inr)
    then have c1: "creds_ok ok c s1" unfolding s1 by (rule creds_sent [OF assms(1)])
    show ?thesis
    proof (cases result)
      case (Inl e)
      then show ?thesis using c1 \<open>endpoint c [''login''] = Inr url\<close> by (simp add: CrPassword login_def p)
    next
      case (Inr d)
      with p perform_result [of net "lc_json (cl_libs c)" ?dec ?rq s d]
      have "ok \<lparr>au_user_id = ld_user_id d, au_token = ld_auth_token d\<rparr>"
        using assms(3) unfolding issued_def by fastforce
      then show ?thesis
        using c1 Inr \<open>endpoint c [''login''] = Inr url\<close> by (simp add: CrPassword login_def p Let_def creds_auth)
    qed
  qed
qed

lemma creds_logout: "creds_ok ok c s \<Longrightarrow> creds_ok ok c (snd (logout net c s))"
proof -
  assume s: "creds_ok ok c s"
  obtain result s1 where a: "authed_call net c POST [''logout''] (\<lambda>rq. rq) dec_value s = (result, s1)" by force
  with creds_authed_call [OF s, of "\<lambda>rq. rq" net POST "[''logout'']" dec_value] have "creds_ok ok c s1" by simp
  then show ?thesis by (cases result) (simp_all add: logout_call a creds_auth split: option.split)
qed

lemma creds_map_call: "creds_ok ok c (snd (op s)) \<Longrightarrow> creds_ok ok c (snd (map_call f op s))"
  by (simp add: map_call_def case_prod_unfold Let_def)

lemma creds_media: "creds_ok ok c s \<Longrightarrow> creds_ok ok c (snd (upload_media net c rid f s))"
  by (auto simp: upload_media_call creds_authed_call split: sum.split)

lemma creds_confirm: "creds_ok ok c s \<Longrightarrow> creds_ok ok c (snd (confirm_media net c rid i conf s))"
  by (simp add: confirm_media_def creds_authed_call)

lemma creds_upload: "creds_ok ok c s \<Longrightarrow> creds_ok ok c (snd (upload_file net c rid f conf s))"
proof -
  assume s: "creds_ok ok c s"
  obtain result s1 where a: "upload_media net c rid f s = (result, s1)" by force
  then have s1: "creds_ok ok c s1" using creds_media [OF s, of net rid f] by simp
  show ?thesis
  proof (cases result)
    case (Inr up)
    obtain result2 s2 where b: "confirm_media net c rid (uf_id up) conf s1 = (result2, s2)" by force
    then have "creds_ok ok c s2" using creds_confirm [OF s1, of net rid "uf_id up" conf] by simp
    then show ?thesis by (cases result2) (simp_all add: upload_file_def a b Inr)
  qed (use a s1 in \<open>simp add: upload_file_def\<close>)
qed

lemma creds_step:
  assumes "creds_ok ok c s" and "given ok op" and "issued ok net c"
  shows "creds_ok ok c (rest_step net c op s)"
  using assms
  by (cases op) (simp_all add: given_def set_authentication_def creds_auth creds_login creds_logout creds_me
      users_in_public_roles_def room_roles_def creds_map_call creds_authed_call send_message_def post_message_def
      creds_media creds_confirm creds_upload)

interpretation sessions: guarded_invariant "rest_step net c" "\<lambda>op s. given ok op \<and> issued ok net c" "creds_ok ok c"
  for net c ok
  by unfold_locales (blast intro: creds_step)

lemma guarded_given: "list_all (given ok) ops \<Longrightarrow> issued ok net c
    \<Longrightarrow> guarded (rest_step net c) (\<lambda>op s. given ok op \<and> issued ok net c) ops s"
  by (induction ops arbitrary: s) simp_all

text \<open>C20: Credentials come from where they were given and go nowhere else.  In any run of operations,
  every request carries either a pair that was there at the start, was set, was passed to a login
  as a token or was handed out by the server for a password, or no pair at all: and then it is a
  login request with a name and a password.\<close>

theorem credentials_stay:
  assumes "client_build libs base auth = (c, s)" and "pred_option ok auth" and "list_all (given ok) ops"
    and "issued ok net c" and "rq \<in> set (st_sent (fold (rest_step net c) ops s))"
  shows "case hr_auth rq of
      Some a \<Rightarrow> ok a
    | None \<Rightarrow> hr_method rq = POST \<and> lc_endpoint libs base [''login''] = Some (hr_url rq)
        \<and> (\<exists>user secret. hr_body rq = JsonBody (login_request_to_json user secret))"
proof -
  have c: "cl_libs c = libs" "cl_api_base c = base" "creds_ok ok c s"
    using assms(1,2) by (auto simp: client_build_def creds_ok_def)
  have "creds_ok ok c (fold (rest_step net c) ops s)"
    by (rule sessions.guarded_run [OF c(3) guarded_given [OF assms(3,4)]])
  with assms(5) have "request_ok ok c rq" by (auto simp: creds_ok_def list_all_iff)
  then show ?thesis unfolding request_ok_def c .
qed

definition sample_libs :: "str list client_libs" where
  "sample_libs = \<lparr>lc_endpoint = (\<lambda>base segs. Some (base @ segs)), lc_header_ok = (\<lambda>_. True), lc_mime = (\<lambda>_. None),
     lc_json = \<lparr>jl_parse = (\<lambda>_. Inl ''expected value''), jl_print_float = (\<lambda>_. ''0.5''), jl_type_error = (\<lambda>_. ''invalid type'')\<rparr>,
     lc_time = \<lparr>tl_parse = (\<lambda>_. None), tl_in_range = (\<lambda>_. True)\<rparr>\<rparr>"

definition sample_client :: "str list client" where
  "sample_client = \<lparr>cl_libs = sample_libs, cl_api_base = [''api'', ''v1''], cl_two_factor = None\<rparr>"

definition sample_pair :: authentication where
  "sample_pair = \<lparr>au_user_id = ''u1'', au_token = ''t1''\<rparr>"

definition sample_request :: "str list http_request" where
  "sample_request = \<lparr>hr_method = GET, hr_url = [''api'', ''v1'', ''me''], hr_auth = Some sample_pair, hr_two_factor = None,
     hr_query = [], hr_body = NoBody\<rparr>"

lemma sample_me: "st_auth s = Some sample_pair \<Longrightarrow>
    me (\<lambda>_ _. Inl ''offline'') sample_client s = (Inl (ReTransport ''offline''), s\<lparr>st_sent := st_sent s @ [sample_request]\<rparr>)"
  by (simp add: me_def authed_call_def sample_client_def sample_libs_def endpoint_def authenticated_request_def
      apply_two_factor_def blank_request_def perform_def sample_request_def)

theorem credentials_stay_witness: "sample_pair = the (hr_auth sample_request)"
proof -
  let ?net = "\<lambda>_ _. Inl ''offline'' :: (http_response, str) result"
  let ?op = "RoLogin (CrPersonalAccessToken ''u1'' ''t1'')"
  have "sample_request \<in> set (st_sent (fold (rest_step ?net sample_client) [?op] \<lparr>st_auth = None, st_sent = []\<rparr>))"
    using sample_me [of "\<lparr>st_auth = Some sample_pair, st_sent = []\<rparr>"]
    by (simp add: login_token settle_login_def sample_pair_def)
  with credentials_stay [of sample_libs "[''api'', ''v1'']" None sample_client "\<lparr>st_auth = None, st_sent = []\<rparr>"
      "\<lambda>a. a = sample_pair" "[?op]" ?net sample_request]
  show ?thesis
    by (simp add: client_build_def sample_client_def given_def as_authentication_def sample_pair_def issued_def
        sample_request_def)
qed

section \<open>Logins that overlap\<close>

text \<open>The slot is shared by the clones of a client, and a token login checks whatever pair is in it
  by then.  When another login installs its pair in between, the first one reports its own pair
  with the user of the other; and when both fail, in the order they began, the pair the server
  refused first is what stays.\<close>

lemma overlapping_logins:
  assumes "install a s = (pa, s1)" and "install b s1 = (pb, s2)" and "me net c s2 = (Inr u, s3)"
  shows "settle_login a pa (Inr u) s3 = (Inr \<lparr>lo_authentication = a, lo_me = u\<rparr>, s3) \<and> st_auth s3 = Some b
    \<and> (\<exists>rq. st_sent s3 = st_sent s @ [rq] \<and> hr_auth rq = Some b)"
proof -
  have s2: "s2 = s\<lparr>st_auth := Some b\<rparr>" using assms(1,2) by (auto simp: install_def)
  have "st_auth s3 = Some b" using me_auth [of net c s2] assms(3) s2 by simp
  then show ?thesis
    using authed_call_result [OF assms(3) [unfolded me_def]] s2 by (auto simp: settle_login_def)
qed

lemma overlapping_rollbacks:
  assumes "install a s = (pa, s1)" and "install b s1 = (pb, s2)"
  shows "st_auth (snd (settle_login b pb (Inl e') (snd (settle_login a pa (Inl e) s2)))) = Some a"
  using assms by (auto simp: install_def settle_login_def)

end
