(* ===== verification/Rest_Grants.thy ===== *)
theory Rest_Grants
  imports Rest_Sessions Bot_Roles
begin

text \<open>
  The role directory over the REST client: the answers a lookup gets are those of the client's two
  role calls, so a role is granted only on an answer the server confirmed.
\<close>

text \<open>\<open>fetch\<close> of \<open>rocketsocket/src/roles.rs\<close> asks the client; \<open>shown\<close> is the text of its error.\<close>

definition role_answers :: "'u net \<Rightarrow> 'u client \<Rightarrow> (rest_error \<Rightarrow> str) \<Rightarrow> 'u client_state \<Rightarrow> rest_answers" where
  "role_answers net c shown s = \<lparr>
     ra_public = (case fst (users_in_public_roles net c s) of Inl e \<Rightarrow> Inl (shown e) | Inr hs \<Rightarrow> Inr hs),
     ra_room = (\<lambda>room. case fst (room_roles net c room s) of Inl e \<Rightarrow> Inl (shown e) | Inr hs \<Rightarrow> Inr hs)\<rparr>"

lemma map_call_result:
  assumes "fst (map_call f op s) = Inr y"
  obtains x s' where "op s = (Inr x, s')" "f x = Inr y"
  using assms by (cases "op s") (auto simp: map_call_def split: sum.splits)

lemma public_roles_answered:
  assumes "fst (users_in_public_roles net c s) = Inr us"
  shows "\<exists>a rq r. st_auth s = Some a \<and> hr_auth rq = Some a \<and> hr_query rq = []
    \<and> net (length (st_sent s)) rq = Inr r
    \<and> confirms (lc_json (cl_libs c)) public_roles_of_json r \<lparr>pre_success = True, pre_users = us\<rparr>"
proof -
  from assms obtain x s' where x: "authed_call net c GET [''roles.getUsersInPublicRoles''] (\<lambda>rq. rq) public_roles_of_json s = (Inr x, s')"
    "(if \<not> pre_success x then Inl (ReMissingSuccess ''roles.getUsersInPublicRoles'') else Inr (pre_users x)) = Inr us"
    unfolding users_in_public_roles_def by (rule map_call_result)
  then have "x = \<lparr>pre_success = True, pre_users = us\<rparr>" by (cases x) (auto split: if_splits)
  then show ?thesis
    using x(1) perform_result [of net "lc_json (cl_libs c)" public_roles_of_json _ s x]
    by (cases rule: authed_call_cases [of net c GET "[''roles.getUsersInPublicRoles'']" "\<lambda>rq. rq" public_roles_of_json s])
      (auto, metis fst_conv)
qed

lemma room_roles_answered:
  assumes "fst (room_roles net c room s) = Inr rs"
  shows "\<exists>a rq r. st_auth s = Some a \<and> hr_auth rq = Some a \<and> hr_query rq = [(''rid'', room)]
    \<and> net (length (st_sent s)) rq = Inr r
    \<and> confirms (lc_json (cl_libs c)) room_roles_of_json r \<lparr>rre_success = True, rre_roles = rs\<rparr>"
proof -
  let ?fill = "\<lambda>rq. rq\<lparr>hr_query := [(''rid'', room)]\<rparr>"
  from assms obtain x s' where x: "authed_call net c GET [''rooms.roles''] ?fill room_roles_of_json s = (Inr x, s')"
    "(if \<not> rre_success x then Inl (ReMissingSuccess ''rooms.roles'') else Inr (rre_roles x)) = Inr rs"
    unfolding room_roles_def by (rule map_call_result)
  then have e: "x = \<lparr>rre_success = True, rre_roles = rs\<rparr>" by (cases x) (auto split: if_splits)
  from authed_call_result [OF x(1)] obtain a rq r where
    "st_auth s = Some a" "hr_auth rq = Some a" "net (length (st_sent s)) (?fill rq) = Inr r"
    "confirms (lc_json (cl_libs c)) room_roles_of_json r x" by blast
  then show ?thesis unfolding e by (intro exI [of _ a] exI [of _ "?fill rq"] exI [of _ r]) simp
qed

lemma holder_listed: "user |\<in>| fset_of_list (map f (filter P xs)) \<Longrightarrow> \<exists>x\<in>set xs. P x \<and> f x = user"
  by (auto simp: fset_of_list_elem)

lemma holds_any_iff: "holds_any held wanted \<longleftrightarrow> set held \<inter> set wanted \<noteq> {}"
  by (auto simp: holds_any_def list_ex_iff)

text \<open>C18: A role is granted only on a confirmed answer.  When the answer to a lookup puts a user among
  the holders, the client had credentials, its request carried them, and the server answered 2xx
  with an envelope that says success and lists that user with the role, in that room for a room
  role.  An empty 200 from a proxy, or an envelope without the flag, grants nothing.\<close>

theorem grant_needs_confirmation:
  assumes "reply_holders l (Some (role_answers net c shown s)) = Some hs" and "user |\<in>| hs"
  shows "\<exists>a rq r. st_auth s = Some a \<and> hr_auth rq = Some a \<and> net (length (st_sent s)) rq = Inr r \<and>
    (case l of
       LkGlobal \<Rightarrow> \<exists>us h. confirms (lc_json (cl_libs c)) public_roles_of_json r \<lparr>pre_success = True, pre_users = us\<rparr>
         \<and> h \<in> set us \<and> prh_id h = user \<and> ADMIN_ROLE \<in> set (prh_roles h)
     | LkRoom room \<Rightarrow> hr_query rq = [(''rid'', room)]
         \<and> (\<exists>rs h. confirms (lc_json (cl_libs c)) room_roles_of_json r \<lparr>rre_success = True, rre_roles = rs\<rparr>
             \<and> h \<in> set rs \<and> rru_id (rrh_u h) = user \<and> set (rrh_roles h) \<inter> set ROOM_ADMIN_ROLES \<noteq> {}))"
proof (cases l)
  case LkGlobal
  with assms(1) obtain us where us: "fst (users_in_public_roles net c s) = Inr us"
    "hs = fset_of_list (map prh_id (filter (\<lambda>u. holds_any (prh_roles u) [ADMIN_ROLE]) us))"
    by (auto simp: reply_holders_def role_answers_def split: sum.splits)
  from holder_listed [OF assms(2) [unfolded us(2)]] obtain h where
    "h \<in> set us" "prh_id h = user" "ADMIN_ROLE \<in> set (prh_roles h)"
    by (auto simp: holds_any_iff)
  with public_roles_answered [OF us(1)] show ?thesis unfolding LkGlobal lookup.case by blast
next
  case (LkRoom room)
  with assms(1) obtain rs where rs: "fst (room_roles net c room s) = Inr rs"
    "hs = fset_of_list (map (rru_id \<circ> rrh_u) (filter (\<lambda>h. holds_any (rrh_roles h) ROOM_ADMIN_ROLES) rs))"
    by (auto simp: reply_holders_def role_answers_def split: sum.splits)
  from holder_listed [OF assms(2) [unfolded rs(2)]] obtain h where
    "h \<in> set rs" "rru_id (rrh_u h) = user" "set (rrh_roles h) \<inter> set ROOM_ADMIN_ROLES \<noteq> {}"
    by (auto simp: holds_any_iff)
  with room_roles_answered [OF rs(1)] show ?thesis unfolding LkRoom lookup.case by blast
qed

definition granting_libs :: "str list client_libs" where
  "granting_libs = sample_libs\<lparr>lc_json := (lc_json sample_libs)\<lparr>jl_parse := (\<lambda>_. Inr (JObject
     [(''success'', JBool True),
      (''users'', JArray [JObject [(''_id'', JString ''u1''), (''roles'', JArray [JString ''admin''])]])]))\<rparr>\<rparr>"

definition granting_net :: "str list net" where
  "granting_net n rq = Inr \<lparr>hs_status = 200, hs_headers = (\<lambda>_. None), hs_body = ''{}''\<rparr>"

definition granting_state :: "str list client_state" where
  "granting_state = \<lparr>st_auth = Some sample_pair, st_sent = []\<rparr>"

lemma granting_reply:
  "reply_holders LkGlobal (Some (role_answers granting_net (sample_client\<lparr>cl_libs := granting_libs\<rparr>) (\<lambda>_. []) granting_state))
    = Some {|''u1''|}"
  by (simp add: reply_holders_def role_answers_def users_in_public_roles_def map_call_def authed_call_def
      endpoint_def authenticated_request_def apply_two_factor_def blank_request_def perform_def decode_def
      from_slice_def is_success_def granting_libs_def granting_net_def granting_state_def sample_client_def
      sample_libs_def public_roles_of_json_def public_role_holder_of_json_def public_role_holder_of_obj_def
      PUBLIC_ROLE_HOLDER_NAMES_def struct_obj_def default_field_def req_field_def opt_field_def obj_get_def
      dec_array_def holds_any_def ADMIN_ROLE_def)

theorem grant_needs_confirmation_witness:
  "\<exists>rq. hr_auth rq = Some sample_pair \<and> granting_net 0 rq = Inr \<lparr>hs_status = 200, hs_headers = (\<lambda>_. None), hs_body = ''{}''\<rparr>"
  using grant_needs_confirmation [OF granting_reply, of "''u1''"] by (auto simp: granting_state_def granting_net_def)

end
