(* ===== verification/Bot_Macro.thy ===== *)
theory Bot_Macro
  imports Bot_Dispatch
begin

text \<open>
  The attribute \<open>#[event(..)]\<close> of \<open>rocketsocket-macros/src/lib.rs\<close>: the reading of its arguments,
  the filters it renders, the checks it makes on the function it is put on, and the handler it
  expands to.

  The macro works on the syntax trees of \<open>syn\<close>, of which the types here keep what it looks at.
  An argument is the identifier of its path, if it is one, with what \<open>syn\<close> answers when the macro
  reads a string literal as its value, and what it answers when it goes on behind the argument.
  Token streams are what they denote: a rendered filter is the filter value.
\<close>

section \<open>The syntax the macro looks at\<close>

record meta =
  mt_ident :: "str option"
  mt_literal :: "(str, str) result"
  mt_after :: "str option"

datatype ty =
    TyPath "(str \<times> path_arguments) list"
  | TyOther
and path_arguments =
    PaNone
  | PaAngle "generic_argument list"
  | PaParen
and generic_argument =
    GaType ty
  | GaOther

datatype fn_arg = ArgReceiver | ArgTyped ty

record item_fn =
  fn_name :: str
  fn_async :: bool
  fn_generics :: nat
  fn_returns :: bool
  fn_inputs :: "fn_arg list"

section \<open>The arguments\<close>

record macro_filters =
  mf_allow_self :: bool
  mf_allow_system :: bool
  mf_allow_edits :: bool
  mf_allow_bots :: bool
  mf_mentions_me :: bool
  mf_prefix :: "str option"
  mf_room :: "str option"
  mf_authority :: "authority option"

definition macro_default :: macro_filters where
  "macro_default = \<lparr>mf_allow_self = False, mf_allow_system = False, mf_allow_edits = False, mf_allow_bots = False,
     mf_mentions_me = False, mf_prefix = None, mf_room = None, mf_authority = None\<rparr>"

definition NOT_SELF_ERROR :: str where
  "NOT_SELF_ERROR = ''the bot already never hears itself; that is the default. Use `allow_self` to opt *in* to seeing your own events''"

definition SKIP_ERROR :: str where
  "SKIP_ERROR = ''this is already the default; the flags name what to allow, not what to block''"

definition QUOTED_DOTS :: str where
  "QUOTED_DOTS = [CHR 0x22, CHR ''.'', CHR ''.'', CHR 0x22]"

definition unknown_filter :: "str \<Rightarrow> str" where
  "unknown_filter other = ''unknown filter `'' @ other @ ''`; expected one of allow_self, allow_system, ''
     @ ''allow_edits, allow_bots, mentions_me, prefix = '' @ QUOTED_DOTS @ '', room = '' @ QUOTED_DOTS
     @ '', admin, room_admin, any_admin''"

definition meta_path :: "meta \<Rightarrow> str" where
  "meta_path m = (case mt_ident m of Some i \<Rightarrow> i | None \<Rightarrow> [])"

definition parse_arm :: "meta \<Rightarrow> macro_filters \<Rightarrow> (macro_filters, str) result" where
  "parse_arm m f =
     (let path = meta_path m in
      if path = ''allow_self'' then Inr (f\<lparr>mf_allow_self := True\<rparr>)
      else if path \<in> {''allow_system'', ''system''} then Inr (f\<lparr>mf_allow_system := True\<rparr>)
      else if path \<in> {''allow_edits'', ''edits''} then Inr (f\<lparr>mf_allow_edits := True\<rparr>)
      else if path \<in> {''allow_bots'', ''bots''} then Inr (f\<lparr>mf_allow_bots := True\<rparr>)
      else if path = ''mentions_me'' then Inr (f\<lparr>mf_mentions_me := True\<rparr>)
      else if path = ''prefix'' then map_sum id (\<lambda>l. f\<lparr>mf_prefix := Some l\<rparr>) (mt_literal m)
      else if path = ''room'' then map_sum id (\<lambda>l. f\<lparr>mf_room := Some l\<rparr>) (mt_literal m)
      else if path = ''admin'' then Inr (f\<lparr>mf_authority := Some AuAdmin\<rparr>)
      else if path = ''room_admin'' then Inr (f\<lparr>mf_authority := Some AuRoomAdmin\<rparr>)
      else if path = ''any_admin'' then Inr (f\<lparr>mf_authority := Some AuAdminOrRoomAdmin\<rparr>)
      else if path \<in> {''not_self'', ''no_self'', ''skip_self''} then Inl NOT_SELF_ERROR
      else if path \<in> {''skip_edits'', ''no_edits'', ''skip_system'', ''no_system'', ''no_bots''} then Inl SKIP_ERROR
      else Inl (unknown_filter path))"

fun parse_metas :: "meta list \<Rightarrow> macro_filters \<Rightarrow> (macro_filters, str) result" where
  "parse_metas [] f = Inr f"
| "parse_metas (m # ms) f = (case parse_arm m f of
       Inl e \<Rightarrow> Inl e
     | Inr f' \<Rightarrow> (case mt_after m of Some e \<Rightarrow> Inl e | None \<Rightarrow> parse_metas ms f'))"

definition parse_filters :: "meta list \<Rightarrow> (macro_filters, str) result" where
  "parse_filters ms = (if ms = [] then Inr macro_default else parse_metas ms macro_default)"

definition render_filters :: "macro_filters \<Rightarrow> filters" where
  "render_filters f =
     with_authority (case mf_authority f of Some a \<Rightarrow> a | None \<Rightarrow> AuAnyone)
       (with_room (mf_room f) (with_prefix (mf_prefix f) (with_mentions_me (mf_mentions_me f)
         (allow_bots (mf_allow_bots f) (allow_edits (mf_allow_edits f) (allow_system (mf_allow_system f)
           (allow_self (mf_allow_self f) FILTERS_DEFAULT)))))))"

section \<open>The function\<close>

definition is_data_type :: "str \<Rightarrow> bool" where
  "is_data_type s = (s = ''Context'' \<or> s = ''State'')"

definition data_of :: "ty \<Rightarrow> ty option" where
  "data_of t = (case t of
       TyPath segments \<Rightarrow> (if segments = [] then None else
         (case last segments of
            (ident, PaAngle (GaType data # rest)) \<Rightarrow> (if is_data_type ident then Some data else None)
          | _ \<Rightarrow> None))
     | TyOther \<Rightarrow> None)"

definition NO_DATA_ERROR :: str where
  "NO_DATA_ERROR = ''an event handler must take a `Context<D>` or `State<D>` parameter, so the macro can name the bot'' @ [CHR 0x27] @ ''s data type in the handler it returns''"

fun infer_data_type :: "ty list \<Rightarrow> (ty, str) result" where
  "infer_data_type [] = Inl NO_DATA_ERROR"
| "infer_data_type (t # ts) = (case data_of t of Some d \<Rightarrow> Inr d | None \<Rightarrow> infer_data_type ts)"

definition METHOD_ERROR :: str where
  "METHOD_ERROR = ''an event handler is a free function, not a method''"

fun collect_parameters :: "fn_arg list \<Rightarrow> (ty list, str) result" where
  "collect_parameters [] = Inr []"
| "collect_parameters (ArgTyped t # as) = map_sum id (\<lambda>ts. t # ts) (collect_parameters as)"
| "collect_parameters (ArgReceiver # as) = Inl METHOD_ERROR"

definition ASYNC_ERROR :: str where
  "ASYNC_ERROR = ''an event handler must be `async`''"

definition GENERIC_ERROR :: str where
  "GENERIC_ERROR = ''an event handler cannot be generic: it is stored as a value, so its type must be known at registration''"

definition RETURN_ERROR :: str where
  "RETURN_ERROR = ''an event handler must return `Result<(), E>`, so a failure is reported rather than swallowed''"

definition NO_PARAMETER_ERROR :: str where
  "NO_PARAMETER_ERROR = ''an event handler needs at least one parameter: the event it handles''"

text \<open>What the expansion fixes: the handler's name, its data type and filters, the types it extracts in order.\<close>

record expansion =
  xp_name :: str
  xp_data :: ty
  xp_filters :: filters
  xp_types :: "ty list"

definition expand :: "item_fn \<Rightarrow> macro_filters \<Rightarrow> (expansion, str) result" where
  "expand fn f =
     (if \<not> fn_async fn then Inl ASYNC_ERROR
      else if fn_generics fn \<noteq> 0 then Inl GENERIC_ERROR
      else if \<not> fn_returns fn then Inl RETURN_ERROR
      else (case collect_parameters (fn_inputs fn) of
          Inl e \<Rightarrow> Inl e
        | Inr types \<Rightarrow>
            if types = [] then Inl NO_PARAMETER_ERROR
            else (case infer_data_type types of
                Inl e \<Rightarrow> Inl e
              | Inr data \<Rightarrow> Inr \<lparr>xp_name = fn_name fn, xp_data = data, xp_filters = render_filters f, xp_types = types\<rparr>)))"

definition event_macro :: "meta list \<Rightarrow> item_fn \<Rightarrow> (expansion, str) result" where
  "event_macro ms fn = (case parse_filters ms of Inl e \<Rightarrow> Inl e | Inr f \<Rightarrow> expand fn f)"


section \<open>What the arguments mean\<close>

definition authority_named :: "str \<Rightarrow> authority option" where
  "authority_named = map_of [(''admin'', AuAdmin), (''room_admin'', AuRoomAdmin), (''any_admin'', AuAdminOrRoomAdmin)]"

definition known_filters :: "str set" where
  "known_filters = {''allow_self'', ''allow_system'', ''system'', ''allow_edits'', ''edits'', ''allow_bots'', ''bots'',
     ''mentions_me'', ''prefix'', ''room'', ''admin'', ''room_admin'', ''any_admin''}"

definition last_or :: "'a \<Rightarrow> 'a list \<Rightarrow> 'a" where
  "last_or d xs = (if xs = [] then d else last xs)"

lemma last_or_simps [simp]: "last_or d [] = d" "last_or d (x # xs) = last_or x xs"
  by (simp_all add: last_or_def)

definition literals :: "str \<Rightarrow> meta list \<Rightarrow> str option list" where
  "literals p ms = map (\<lambda>m. Some (projr (mt_literal m))) (filter (\<lambda>m. meta_path m = p) ms)"

definition authorities :: "meta list \<Rightarrow> authority option list" where
  "authorities ms = filter (\<lambda>a. a \<noteq> None) (map (\<lambda>m. authority_named (meta_path m)) ms)"

lemma arm_flags:
  assumes "parse_arm m f = Inr f'"
  shows "mf_allow_self f' \<longleftrightarrow> mf_allow_self f \<or> meta_path m = ''allow_self''"
    "mf_allow_system f' \<longleftrightarrow> mf_allow_system f \<or> meta_path m \<in> {''allow_system'', ''system''}"
    "mf_allow_edits f' \<longleftrightarrow> mf_allow_edits f \<or> meta_path m \<in> {''allow_edits'', ''edits''}"
    "mf_allow_bots f' \<longleftrightarrow> mf_allow_bots f \<or> meta_path m \<in> {''allow_bots'', ''bots''}"
    "mf_mentions_me f' \<longleftrightarrow> mf_mentions_me f \<or> meta_path m = ''mentions_me''"
  using assms by (cases "mt_literal m"; auto simp: parse_arm_def Let_def split: if_splits)+

lemma arm_values:
  assumes "parse_arm m f = Inr f'"
  shows "mf_prefix f' = last_or (mf_prefix f) (literals ''prefix'' [m])"
    "mf_room f' = last_or (mf_room f) (literals ''room'' [m])"
    "mf_authority f' = last_or (mf_authority f) (authorities [m])"
    "meta_path m \<in> known_filters"
  using assms
  by (cases "mt_literal m"; auto simp: parse_arm_def Let_def literals_def authorities_def authority_named_def
      known_filters_def split: if_splits)+

lemma arm_known:
  assumes "meta_path m \<in> known_filters" "meta_path m \<in> {''prefix'', ''room''} \<Longrightarrow> \<not> isl (mt_literal m)"
  shows "\<exists>f'. parse_arm m f = Inr f'"
  using assms by (cases "mt_literal m") (auto simp: parse_arm_def Let_def known_filters_def)


lemma last_or_append [simp]: "last_or d (xs @ ys) = last_or (last_or d xs) ys"
  by (simp add: last_or_def)

lemma literals_Cons: "literals p (m # ms) = literals p [m] @ literals p ms"
  by (simp add: literals_def)

lemma authorities_Cons: "authorities (m # ms) = authorities [m] @ authorities ms"
  by (simp add: authorities_def)

definition named :: "str set \<Rightarrow> meta list \<Rightarrow> bool" where
  "named ps ms = list_ex (\<lambda>m. meta_path m \<in> ps) ms"

lemma named_simps [simp]: "\<not> named ps []" "named ps (m # ms) \<longleftrightarrow> meta_path m \<in> ps \<or> named ps ms"
  by (simp_all add: named_def)

definition metas_meant :: "meta list \<Rightarrow> macro_filters \<Rightarrow> macro_filters \<Rightarrow> bool" where
  "metas_meant ms f f' \<longleftrightarrow>
     (mf_allow_self f' \<longleftrightarrow> mf_allow_self f \<or> named {''allow_self''} ms)
     \<and> (mf_allow_system f' \<longleftrightarrow> mf_allow_system f \<or> named {''allow_system'', ''system''} ms)
     \<and> (mf_allow_edits f' \<longleftrightarrow> mf_allow_edits f \<or> named {''allow_edits'', ''edits''} ms)
     \<and> (mf_allow_bots f' \<longleftrightarrow> mf_allow_bots f \<or> named {''allow_bots'', ''bots''} ms)
     \<and> (mf_mentions_me f' \<longleftrightarrow> mf_mentions_me f \<or> named {''mentions_me''} ms)
     \<and> mf_prefix f' = last_or (mf_prefix f) (literals ''prefix'' ms)
     \<and> mf_room f' = last_or (mf_room f) (literals ''room'' ms)
     \<and> mf_authority f' = last_or (mf_authority f) (authorities ms)"

lemma metas_meant_Nil: "metas_meant [] f f"
  by (simp add: metas_meant_def literals_def authorities_def)

lemma metas_meant_Cons:
  assumes "parse_arm m f = Inr f1" "metas_meant ms f1 f2"
  shows "metas_meant (m # ms) f f2"
  using assms(2) arm_flags [OF assms(1)] arm_values [OF assms(1)]
  unfolding metas_meant_def literals_Cons [of _ m ms] authorities_Cons [of m ms] last_or_append
  by (simp add: disj_assoc)

lemma parse_metas_meant: "parse_metas ms f = Inr f' \<Longrightarrow> metas_meant ms f f'"
proof (induction ms arbitrary: f)
  case (Cons m ms)
  then obtain f1 where "parse_arm m f = Inr f1" "parse_metas ms f1 = Inr f'"
    by (auto split: sum.splits option.splits)
  then show ?case by (rule metas_meant_Cons [OF _ Cons.IH])
qed (simp add: metas_meant_Nil)

text \<open>What it takes for every argument to be read.\<close>

definition readable :: "meta \<Rightarrow> bool" where
  "readable m \<longleftrightarrow> meta_path m \<in> known_filters \<and> mt_after m = None
     \<and> (meta_path m \<in> {''prefix'', ''room''} \<longrightarrow> (\<exists>l. mt_literal m = Inr l))"

lemma readable_arm: "readable m \<Longrightarrow> \<exists>f'. parse_arm m f = Inr f' \<and> mt_after m = None"
  using arm_known [of m f] by (auto simp: readable_def)

lemma unreadable_arm:
  assumes "parse_arm m f = Inr f'" "mt_after m = None"
  shows "readable m"
proof -
  have "meta_path m \<in> {''prefix'', ''room''} \<Longrightarrow> \<exists>l. mt_literal m = Inr l"
    using assms(1) by (cases "mt_literal m") (auto simp: parse_arm_def Let_def)
  then show ?thesis using arm_values(4) [OF assms(1)] assms(2) by (simp add: readable_def)
qed

lemma parse_metas_readable: "(\<exists>f'. parse_metas ms f = Inr f') \<longleftrightarrow> list_all readable ms"
proof (induction ms arbitrary: f)
  case (Cons m ms)
  show ?case
  proof (cases "readable m")
    case True
    then obtain f' where "parse_arm m f = Inr f'" "mt_after m = None" using readable_arm by blast
    then show ?thesis using True Cons.IH by simp
  next
    case False
    then have "\<nexists>f'. parse_arm m f = Inr f' \<and> mt_after m = None" using unreadable_arm by blast
    then show ?thesis using False by (auto split: sum.splits option.splits)
  qed
qed simp

lemma parse_filters_metas: "parse_filters ms = parse_metas ms macro_default"
  by (simp add: parse_filters_def)

section \<open>What the function must be\<close>

lemma collect_parameters_iff:
  "collect_parameters as = (if ArgReceiver \<in> set as then Inl METHOD_ERROR else Inr (map (\<lambda>a. case a of ArgTyped t \<Rightarrow> t) as))"
  by (induction as rule: collect_parameters.induct) auto

lemma infer_data_type_iff:
  "infer_data_type ts = (case List.map_filter data_of ts of [] \<Rightarrow> Inl NO_DATA_ERROR | d # ds \<Rightarrow> Inr d)"
  by (induction ts) (auto simp: List.map_filter_simps split: option.split)

definition typed_inputs :: "item_fn \<Rightarrow> ty list" where
  "typed_inputs fn = map (\<lambda>a. case a of ArgTyped t \<Rightarrow> t) (fn_inputs fn)"


lemma macro_filters_meant:
  assumes "event_macro ms fn = Inr xp"
  shows "(fl_allow_self (xp_filters xp) \<longleftrightarrow> named {''allow_self''} ms)
    \<and> (fl_allow_system (xp_filters xp) \<longleftrightarrow> named {''allow_system'', ''system''} ms)
    \<and> (fl_allow_edits (xp_filters xp) \<longleftrightarrow> named {''allow_edits'', ''edits''} ms)
    \<and> (fl_allow_bots (xp_filters xp) \<longleftrightarrow> named {''allow_bots'', ''bots''} ms)
    \<and> (fl_mentions_me (xp_filters xp) \<longleftrightarrow> named {''mentions_me''} ms)
    \<and> fl_prefix (xp_filters xp) = last_or None (literals ''prefix'' ms)
    \<and> fl_room (xp_filters xp) = last_or None (literals ''room'' ms)
    \<and> Some (fl_authority (xp_filters xp)) = last_or (Some AuAnyone) (authorities ms)
    \<and> (ms = [] \<longrightarrow> xp_filters xp = FILTERS_DEFAULT)"
proof -
  obtain f where f: "parse_metas ms macro_default = Inr f" "xp_filters xp = render_filters f"
    using assms by (auto simp: event_macro_def expand_def parse_filters_metas split: sum.splits if_splits)
  have a: "authorities ms = [] \<or> last_or None (authorities ms) \<noteq> None"
    using last_in_set [of "authorities ms"] by (auto simp: last_or_def authorities_def)
  have r: "fl_allow_self (render_filters f) = mf_allow_self f" "fl_allow_system (render_filters f) = mf_allow_system f"
    "fl_allow_edits (render_filters f) = mf_allow_edits f" "fl_allow_bots (render_filters f) = mf_allow_bots f"
    "fl_mentions_me (render_filters f) = mf_mentions_me f" "fl_prefix (render_filters f) = mf_prefix f"
    "fl_room (render_filters f) = mf_room f"
    "fl_authority (render_filters f) = (case mf_authority f of Some a \<Rightarrow> a | None \<Rightarrow> AuAnyone)"
    by (simp_all add: render_filters_def with_authority_def with_room_def with_prefix_def with_mentions_me_def
        allow_bots_def allow_edits_def allow_system_def allow_self_def)
  have "ms = [] \<Longrightarrow> render_filters f = FILTERS_DEFAULT"
    using f(1) by (auto simp: render_filters_def with_authority_def with_room_def with_prefix_def with_mentions_me_def
        allow_bots_def allow_edits_def allow_system_def allow_self_def macro_default_def FILTERS_DEFAULT_def)
  then show ?thesis
    using parse_metas_meant [OF f(1)] a unfolding f(2) r metas_meant_def
    by (auto simp: macro_default_def last_or_def split: option.splits if_splits)
qed

text \<open>C30: The attribute only ever opts in.  The filters of an expanded handler allow own, system and edited messages
  exactly where an argument says so, require a mention exactly where one says so, and take prefix, room and role from
  the last argument that sets them; without arguments they are the default.\<close>

lemma macro_opts_in:
  assumes "event_macro ms fn = Inr xp"
  shows "(fl_allow_self (xp_filters xp) \<longleftrightarrow> named {''allow_self''} ms)
    \<and> (fl_allow_system (xp_filters xp) \<longleftrightarrow> named {''allow_system'', ''system''} ms)
    \<and> (fl_allow_edits (xp_filters xp) \<longleftrightarrow> named {''allow_edits'', ''edits''} ms)
    \<and> (fl_allow_bots (xp_filters xp) \<longleftrightarrow> named {''allow_bots'', ''bots''} ms)
    \<and> (fl_mentions_me (xp_filters xp) \<longleftrightarrow> named {''mentions_me''} ms)
    \<and> fl_prefix (xp_filters xp) = last_or None (literals ''prefix'' ms)
    \<and> fl_room (xp_filters xp) = last_or None (literals ''room'' ms)
    \<and> Some (fl_authority (xp_filters xp)) = last_or (Some AuAnyone) (authorities ms)
    \<and> (ms = [] \<longrightarrow> xp_filters xp = FILTERS_DEFAULT)"
  using assms by (rule macro_filters_meant)

end
