(* ===== verification/Bot_Connect.thy ===== *)
theory Bot_Connect
  imports Rest_Sessions Bot_Dispatch Ddp_Witnesses Model_Samples
begin

text \<open>
  One credential, both transports: building the REST client (\<open>rocketsocket-rest/src/client.rs\<close>,
  the builder and \<open>api_base\<close>) and \<open>Bot::connect\<close> of \<open>rocketsocket/src/bot.rs\<close>.  The operations of
  the URL type and whether the platform's HTTP client can be built are parameters.
\<close>

section \<open>Building a client\<close>

record 'u url_lib =
  ul_parse :: "str \<Rightarrow> ('u, str) result"
  ul_no_query :: "'u \<Rightarrow> 'u"
  ul_no_fragment :: "'u \<Rightarrow> 'u"
  ul_path :: "'u \<Rightarrow> str"
  ul_set_path :: "str \<Rightarrow> 'u \<Rightarrow> 'u"
  ul_join :: "str \<Rightarrow> 'u \<Rightarrow> ('u, str) result"

definition API_PREFIX :: str where
  "API_PREFIX = ''api/v1/''"

definition api_base :: "'u url_lib \<Rightarrow> str \<Rightarrow> ('u, rest_error) result" where
  "api_base lib base_url = (case ul_parse lib base_url of
       Inl reason \<Rightarrow> Inl (ReInvalidUrl base_url reason)
     | Inr parsed \<Rightarrow>
         (let url = ul_no_fragment lib (ul_no_query lib parsed);
              url2 = (if \<not> ends_with (ul_path lib url) ''/'' then ul_set_path lib (ul_path lib url @ ''/'') url else url)
          in case ul_join lib API_PREFIX url2 of
            Inl reason \<Rightarrow> Inl (ReInvalidUrl base_url reason)
          | Inr base \<Rightarrow> Inr base))"

record 'u client_builder =
  cb_api_base :: 'u
  cb_http :: bool
  cb_authentication :: "authentication option"

definition builder_new :: "'u url_lib \<Rightarrow> str \<Rightarrow> ('u client_builder, rest_error) result" where
  "builder_new lib base_url = (case api_base lib base_url of
       Inl e \<Rightarrow> Inl e
     | Inr base \<Rightarrow> Inr \<lparr>cb_api_base = base, cb_http = False, cb_authentication = None\<rparr>)"

definition builder_http_client :: "'u client_builder \<Rightarrow> 'u client_builder" where
  "builder_http_client b = b\<lparr>cb_http := True\<rparr>"

definition builder_authentication :: "authentication \<Rightarrow> 'u client_builder \<Rightarrow> 'u client_builder" where
  "builder_authentication a b = b\<lparr>cb_authentication := Some a\<rparr>"

definition builder_credentials :: "credentials \<Rightarrow> 'u client_builder \<Rightarrow> 'u client_builder" where
  "builder_credentials cr b = b\<lparr>cb_authentication := as_authentication cr\<rparr>"

text \<open>\<open>tls\<close> is why the default HTTP client cannot be built, if it cannot.\<close>

definition builder_build :: "str option \<Rightarrow> 'u client_libs \<Rightarrow> 'u client_builder
    \<Rightarrow> ('u client \<times> 'u client_state, rest_error) result" where
  "builder_build tls libs b = (case (if cb_http b then None else tls) of
       Some e \<Rightarrow> Inl (ReTransport e)
     | None \<Rightarrow> Inr (client_build libs (cb_api_base b) (cb_authentication b)))"

definition client_new :: "'u url_lib \<Rightarrow> str option \<Rightarrow> 'u client_libs \<Rightarrow> str
    \<Rightarrow> ('u client \<times> 'u client_state, rest_error) result" where
  "client_new lib tls libs base_url = (case builder_new lib base_url of
       Inl e \<Rightarrow> Inl e
     | Inr b \<Rightarrow> builder_build tls libs b)"

section \<open>Connecting\<close>

text \<open>A bot is a REST client with the state its clones share, and a connection task spawned with a
  configuration.  The requests sent are part of the result also when there is no bot.\<close>

record 'u bot =
  bt_rest :: "'u client"
  bt_state :: "'u client_state"
  bt_config :: config

definition bot_connect :: "'u url_lib \<Rightarrow> str option \<Rightarrow> 'u client_libs \<Rightarrow> 'u net \<Rightarrow> str \<Rightarrow> credentials
    \<Rightarrow> ('u bot, bot_error) result \<times> 'u http_request list" where
  "bot_connect lib tls libs net base_url cr = (case client_new lib tls libs base_url of
       Inl e \<Rightarrow> (Inl (BeRest e), [])
     | Inr (c, s) \<Rightarrow>
         (let (result, s1) = login net c cr s in
          case result of
            Inl e \<Rightarrow> (Inl (BeRest e), st_sent s1)
          | Inr outcome \<Rightarrow>
              (case websocket_url base_url of
                 Inl e \<Rightarrow> (Inl e, st_sent s1)
               | Inr url \<Rightarrow> (Inr \<lparr>bt_rest = c, bt_state = s1,
                     bt_config = config_new url (Resume (au_token (lo_authentication outcome)))\<rparr>, st_sent s1))))"

definition bot_user_id :: "'u bot \<Rightarrow> str option" where
  "bot_user_id b = map_option au_user_id (st_auth (bt_state b))"

lemma client_new_fresh:
  assumes "client_new lib tls libs base_url = Inr (c, s)"
  shows "st_sent s = [] \<and> st_auth s = None \<and> cl_libs c = libs"
  using assms
  by (auto simp: client_new_def builder_new_def builder_build_def client_build_def split: sum.splits option.splits if_splits)

lemma connect_cases:
  assumes "bot_connect lib tls libs net base_url cr = (Inr b, sent)"
  obtains s outcome url where "client_new lib tls libs base_url = Inr (bt_rest b, s)"
    "login net (bt_rest b) cr s = (Inr outcome, bt_state b)" "websocket_url base_url = Inr url"
    "bt_config b = config_new url (Resume (au_token (lo_authentication outcome)))" "sent = st_sent (bt_state b)"
  using assms by (auto simp: bot_connect_def split: sum.splits prod.splits)

text \<open>C3: One credential, both transports.  A bot connects only after the server confirmed its
  credential in the one request that was sent; the pair it then holds is the confirmed one, its
  user id is the confirmed one, and until the websocket login is accepted, in any connection of
  any life of the task, nothing leaves but the handshake, pings and logins that present exactly
  the confirmed token, to the endpoint derived from the same base URL.\<close>

theorem one_token_both_transports:
  assumes "bot_connect lib tls libs net base_url cr = (Inr b, sent)"
    and "spawn g now (bt_config b) = Some r" and "run draw parse as r = Some (Running, r')"
    and "rn_socket r'" and "rn_ready_at r' = None"
  shows "\<exists>rq answer outcome. sent = [rq] \<and> net 0 rq = Inr answer \<and> login_answered (bt_rest b) cr rq answer outcome
    \<and> st_auth (bt_state b) = Some (lo_authentication outcome)
    \<and> bot_user_id b = Some (au_user_id (lo_authentication outcome))
    \<and> websocket_url base_url = Inr (cf_url (bt_config b))
    \<and> list_all (protocol_frame (Resume (au_token (lo_authentication outcome)))) (rn_wire r')"
proof -
  obtain s outcome url where c: "client_new lib tls libs base_url = Inr (bt_rest b, s)"
    and l: "login net (bt_rest b) cr s = (Inr outcome, bt_state b)" and u: "websocket_url base_url = Inr url"
    and cfg: "bt_config b = config_new url (Resume (au_token (lo_authentication outcome)))"
    and sent: "sent = st_sent (bt_state b)" by (rule connect_cases [OF assms(1)])
  have "cf_credential (bt_config b) = Resume (au_token (lo_authentication outcome))" "cf_url (bt_config b) = url"
    by (simp_all add: cfg config_new_def)
  moreover have "list_all (protocol_frame (cf_credential (bt_config b))) (rn_wire r')"
    using precedes_login [OF assms(2-5)] by simp
  moreover have "st_auth (bt_state b) = Some (lo_authentication outcome)
      \<and> (\<exists>rq answer. st_sent (bt_state b) = [rq] \<and> net 0 rq = Inr answer \<and> login_answered (bt_rest b) cr rq answer outcome)"
    using login_settles [where net = net and c = "bt_rest b" and cr = cr and s = s] client_new_fresh [OF c] by (simp add: l)
  ultimately show ?thesis using u sent by (auto simp: bot_user_id_def)
qed

section \<open>A bot that connects\<close>

definition sample_urls :: "str list url_lib" where
  "sample_urls = \<lparr>ul_parse = (\<lambda>s. Inr [s]), ul_no_query = id, ul_no_fragment = id, ul_path = (\<lambda>_. ''/''),
     ul_set_path = (\<lambda>_ u. u), ul_join = (\<lambda>p u. Inr (u @ [p]))\<rparr>"

definition welcoming_libs :: "str list client_libs" where
  "welcoming_libs = sample_libs\<lparr>lc_json := (lc_json sample_libs)\<lparr>jl_parse := (\<lambda>_. Inr (user_to_json (blank_user ''u1'')))\<rparr>\<rparr>"

definition welcoming_net :: "str list net" where
  "welcoming_net n rq = Inr \<lparr>hs_status = 200, hs_headers = (\<lambda>_. None), hs_body = ''{}''\<rparr>"

lemma sample_connect:
  "\<exists>b sent. bot_connect sample_urls None welcoming_libs welcoming_net ''https://chat''
      (CrPersonalAccessToken ''u1'' ''token'') = (Inr b, sent) \<and> bt_config b = sample_config"
proof -
  let ?c = "\<lparr>cl_libs = welcoming_libs, cl_api_base = [''https://chat'', ''api/v1/''], cl_two_factor = None\<rparr>"
  have new: "client_new sample_urls None welcoming_libs ''https://chat'' = Inr (?c, \<lparr>st_auth = None, st_sent = []\<rparr>)"
    by (simp add: client_new_def builder_new_def builder_build_def api_base_def client_build_def sample_urls_def
        API_PREFIX_def Let_def ends_with_iff)
  have user: "user_of_json T (user_to_json (blank_user ''u1'')) = Some (blank_user ''u1'')" for T
    by (rule cusr.dec_enc) (simp add: user_ok_def blank_user_def)
  obtain s where "login welcoming_net ?c (CrPersonalAccessToken ''u1'' ''token'') \<lparr>st_auth = None, st_sent = []\<rparr>
      = (Inr \<lparr>lo_authentication = \<lparr>au_user_id = ''u1'', au_token = ''token''\<rparr>, lo_me = blank_user ''u1''\<rparr>, s)"
    by (simp add: login_token settle_login_def me_def authed_call_def endpoint_def authenticated_request_def
        apply_two_factor_def blank_request_def perform_def Rest_Client.decode_def from_slice_def is_success_def Let_def
        welcoming_libs_def welcoming_net_def sample_libs_def user)
  moreover have "websocket_url ''https://chat'' = Inr ''wss://chat/websocket''"
    by (simp add: websocket_url_def trim_end_def Let_def)
  ultimately show ?thesis by (simp add: bot_connect_def new sample_config_def)
qed

theorem one_token_both_transports_witness:
  "\<exists>b sent r. bot_connect sample_urls None welcoming_libs welcoming_net ''https://chat''
      (CrPersonalAccessToken ''u1'' ''token'') = (Inr b, sent) \<and> length sent = 1
    \<and> run sample_draw sample_parse [sample_attempt [sample_poll None None]] sample_runner = Some (Running, r)"
proof -
  obtain b sent where b: "bot_connect sample_urls None welcoming_libs welcoming_net ''https://chat''
      (CrPersonalAccessToken ''u1'' ''token'') = (Inr b, sent)" "bt_config b = sample_config"
    using sample_connect by blast
  obtain r where r: "run sample_draw sample_parse [sample_attempt [sample_poll None None]] sample_runner = Some (Running, r)"
    "rn_socket r" "rn_ready_at r = None" using sample_idle_run by blast
  from one_token_both_transports [OF b(1) sample_spawn [folded b(2)] r] b r show ?thesis by fastforce
qed

section \<open>What is refused late\<close>

text \<open>A base URL the websocket cannot use is refused after the login, when a token may have been
  issued already: nothing of it is kept.\<close>

lemma refused_after_login:
  assumes "client_new lib tls libs base_url = Inr (c, s)" and "login net c cr s = (Inr outcome, s1)"
    and "websocket_url base_url = Inl e"
  shows "\<exists>rq. bot_connect lib tls libs net base_url cr = (Inl e, [rq])"
  using login_settles [where net = net and c = c and cr = cr and s = s] client_new_fresh [OF assms(1)] assms by (auto simp: bot_connect_def)

text \<open>The query of a base URL is discarded by the one transport and kept by the other.\<close>

lemma query_kept:
  "websocket_url ''https://chat.example.com?a'' = Inr ''wss://chat.example.com?a/websocket''"
  by (simp add: websocket_url_def trim_end_def Let_def)

end
