(* ===== verification/Bot_Handler.thy ===== *)
theory Bot_Handler
  imports Bot_Macro Bot_Connect Bot_Witnesses
begin

text \<open>
  A handler as the attribute makes it: the context it is handed, the extraction of its parameters
  and the closure around its body (\<open>rocketsocket/src/framework.rs\<close>, and the code
  \<open>rocketsocket-macros/src/lib.rs\<close> generates); and the operations of a bot that only call its
  two clients (\<open>rocketsocket/src/bot.rs\<close>).

  \<open>impl\<close> is the implementation of \<open>FromEvent\<close> that the compiler selects for a parameter type, the
  crate's own ones or the application's; \<open>body\<close> is the function the attribute is put on, and
  \<open>debug\<close> the standard library's rendering of a reason.
\<close>

section \<open>Contexts and extractors\<close>

record ('d, 'b) bot_context =
  cx_data :: 'd
  cx_bot :: 'b

definition context_new :: "'b \<Rightarrow> 'd \<Rightarrow> ('d, 'b) bot_context" where
  "context_new the_bot data = \<lparr>cx_data = data, cx_bot = the_bot\<rparr>"

definition context_from_event :: "bot_event \<Rightarrow> ('d, 'b) bot_context \<Rightarrow> (('d, 'b) bot_context, extraction) result" where
  "context_from_event ev context = Inr context"

datatype 'd state = State 'd

definition state_from_event :: "bot_event \<Rightarrow> ('d, 'b) bot_context \<Rightarrow> ('d state, extraction) result" where
  "state_from_event ev context = Inr (State (cx_data context))"

text \<open>The values a parameter can have: the crate's own, or one of the application's types.\<close>

datatype ('d, 'b, 'x) parameter =
    PmContext "('d, 'b) bot_context"
  | PmState "'d state"
  | PmStream model_event
  | PmMessageCreate message_create
  | PmMessageDeleted message_deleted
  | PmOther 'x

definition crate_extractor ::
  "str \<Rightarrow> (bot_event \<Rightarrow> ('d, 'b) bot_context \<Rightarrow> (('d, 'b, 'x) parameter, extraction) result) option" where
  "crate_extractor name =
     (if name = ''Context'' then Some (\<lambda>ev c. map_sum id PmContext (context_from_event ev c))
      else if name = ''State'' then Some (\<lambda>ev c. map_sum id PmState (state_from_event ev c))
      else if name = ''Stream'' then Some (\<lambda>ev c. map_sum id PmStream (stream_from_event ev))
      else if name = ''MessageCreate'' then Some (\<lambda>ev c. map_sum id PmMessageCreate (message_create_from_event ev))
      else if name = ''MessageDeleted'' then Some (\<lambda>ev c. map_sum id PmMessageDeleted (message_deleted_from_event ev))
      else None)"

section \<open>Errors of handlers\<close>

text \<open>A boxed error is the text it displays.\<close>

datatype handler_error = HandlerError str

definition from_handler :: "str \<Rightarrow> handler_error" where
  "from_handler error = HandlerError error"

definition extraction_error :: "str \<Rightarrow> handler_error" where
  "extraction_error reason = HandlerError reason"

fun handler_error_inner :: "handler_error \<Rightarrow> str" where
  "handler_error_inner (HandlerError e) = e"

definition handler_error_display :: "handler_error \<Rightarrow> str" where
  "handler_error_display e = handler_error_inner e"

section \<open>The generated handler\<close>

definition generated_call ::
  "(extraction \<Rightarrow> str) \<Rightarrow> (('a, extraction) result) \<Rightarrow> ('a \<Rightarrow> (unit, str) result) \<Rightarrow> (unit, handler_error) result" where
  "generated_call debug extracted body = (case extracted of
       Inr args \<Rightarrow> map_sum from_handler id (body args)
     | Inl ExSkip \<Rightarrow> Inr ()
     | Inl reason \<Rightarrow> Inl (extraction_error (debug reason)))"

definition macro_handler ::
  "(extraction \<Rightarrow> str) \<Rightarrow> (ty \<Rightarrow> bot_event \<Rightarrow> ('d, 'b) bot_context \<Rightarrow> ('a, extraction) result)
    \<Rightarrow> ('a list \<Rightarrow> (unit, str) result) \<Rightarrow> ('d, 'b) bot_context \<Rightarrow> expansion \<Rightarrow> handler" where
  "macro_handler debug impl body context xp =
     \<lparr>hd_name = xp_name xp, hd_filters = xp_filters xp,
      hd_call = (\<lambda>ev. map_sum handler_error_display id
        (generated_call debug (extract_args (map (\<lambda>t ev. impl t ev context) (xp_types xp)) ev) body))\<rparr>"

section \<open>Operations of the bot\<close>

definition watch_all_messages ::
  "(str \<Rightarrow> json list \<Rightarrow> call_error + str) \<Rightarrow> registry \<Rightarrow> (call_error + unit) \<times> registry" where
  "watch_all_messages connection_subscribe r =
     (case subscribe ''room-messages'' ''__my_messages__'' connection_subscribe r of
        (Inl e, r') \<Rightarrow> (Inl e, r')
      | (Inr k, r') \<Rightarrow> (Inr (), r'))"

definition watch_role_changes ::
  "(str \<Rightarrow> json list \<Rightarrow> call_error + str) \<Rightarrow> registry \<Rightarrow> (call_error + unit) \<times> registry" where
  "watch_role_changes connection_subscribe r =
     (case subscribe ''notify-logged'' ''roles-change'' connection_subscribe r of
        (Inl e, r') \<Rightarrow> (Inl e, r')
      | (Inr k, r') \<Rightarrow> (Inr (), r'))"

text \<open>The command a shutdown sends down the connection's lane.\<close>

definition bot_shutdown :: "command list \<Rightarrow> command list" where
  "bot_shutdown cmds = cmds @ [CmdShutdown]"

section \<open>Extraction\<close>

lemma extract_args_all:
  "extract_args ps ev = (case List.find (\<lambda>p. isl (p ev)) ps of
       Some p \<Rightarrow> Inl (projl (p ev))
     | None \<Rightarrow> Inr (map (\<lambda>p. projr (p ev)) ps))"
  by (induction ps) (auto split: sum.split option.split)


text \<open>A handler's body runs exactly when every parameter can be extracted.  It is then given the values in the
  order of the parameters and its error is the handler's; otherwise the first parameter that cannot be extracted
  decides: one that skips the event ends the handler silently, one that failed is reported.\<close>

lemma macro_handler_call:
  "hd_call (macro_handler debug impl body context xp) ev =
     (case List.find (\<lambda>t. isl (impl t ev context)) (xp_types xp) of
        None \<Rightarrow> body (map (\<lambda>t. projr (impl t ev context)) (xp_types xp))
      | Some t \<Rightarrow> (case projl (impl t ev context) of ExSkip \<Rightarrow> Inr () | reason \<Rightarrow> Inl (debug reason)))"
proof -
  have find: "List.find P (map f xs) = map_option f (List.find (\<lambda>x. P (f x)) xs)" for P :: "'z \<Rightarrow> bool" and f :: "ty \<Rightarrow> 'z" and xs
    by (induction xs) auto
  have "map_sum handler_error_display id (map_sum from_handler id r) = r" for r :: "(unit, str) result"
    by (cases r) (simp_all add: handler_error_display_def from_handler_def)
  then show ?thesis
    by (simp add: macro_handler_def generated_call_def extract_args_all find comp_def handler_error_display_def
        extraction_error_def split: option.split extraction.split)
qed

section \<open>A bot does not hear itself\<close>

definition me_is :: "str option \<Rightarrow> framework \<Rightarrow> bool" where
  "me_is u fw \<longleftrightarrow> fw_me fw = None \<or> fw_me fw = Some u"

lemma me_is_filtered: "me_is u fw \<Longrightarrow> me_is u (snd (filtered_out pick E u h ev fw))"
  by (auto simp: me_is_def filtered_out_def get_me_def split: option.split prod.split)

lemma me_is_offer: "me_is u fw \<Longrightarrow> me_is u (snd (offer pick env (\<lambda>_. u) ev i hs fw))"
proof (induction hs arbitrary: i fw)
  case (Cons h hs)
  then show ?case using me_is_filtered [OF Cons.prems, of pick "env i" h ev] by (simp add: case_prod_unfold Let_def)
qed simp

lemma me_is_dispatch: "me_is u fw \<Longrightarrow> me_is u (snd (dispatch pick env (\<lambda>_. u) ev fw))"
  by (simp add: dispatch_def Let_def me_is_offer me_is_def [of u "observe ev fw"] me_is_def [of u fw])

interpretation knows_itself: guarded_invariant "dispatch_step pick" "\<lambda>w fw. snd (snd w) = (\<lambda>_. u)" "me_is u" for pick u
  by unfold_locales (auto simp: dispatch_step_def me_is_dispatch split: prod.splits)

lemma guarded_each: "list_all P xs \<Longrightarrow> guarded step (\<lambda>x s. P x) xs s"
  by (induction xs arbitrary: s) simp_all

lemma connected_id:
  assumes "bot_connect lib tls libs net base_url cr = (Inr b, sent)"
  shows "bot_user_id b \<noteq> None"
proof -
  obtain s outcome where "login net (bt_rest b) cr s = (Inr outcome, bt_state b)" by (rule connect_cases [OF assms])
  then show ?thesis
    using login_settles [where net = net and c = "bt_rest b" and cr = cr and s = s] by (auto simp: bot_user_id_def)
qed

text \<open>C9: A bot does not hear itself unless it asks to.  In a connected bot, whatever was dispatched before while it
  stayed logged in, a handler the attribute made runs on a message only if the message is not the bot's own or an
  argument allows own messages; only if it is no system message, and no edit, unless an argument allows those; and
  only if it satisfies the last prefix and the last room given.\<close>

theorem declared_filters_hold:
  assumes "bot_connect lib tls libs net base_url cr = (Inr b, sent)" and "event_macro ms fn = Inr xp"
    and "list_all (\<lambda>w. snd (snd w) = (\<lambda>_. bot_user_id b)) ws"
    and "fw = fold (dispatch_step pick) ws (add_handlers hs framework_new)"
    and "fw_handlers fw ! j = macro_handler debug impl body context xp"
    and "filterable ev = Some (x, room)"
    and "(j, r) \<in> set (fst (dispatch pick env (\<lambda>_. bot_user_id b) ev fw))"
  shows "(bot_user_id b \<noteq> Some (ur_id (msg_u x)) \<or> named {''allow_self''} ms)
    \<and> (\<not> is_system x \<or> named {''allow_system'', ''system''} ms)
    \<and> (\<not> is_edited x \<or> named {''allow_edits'', ''edits''} ms)
    \<and> (\<forall>p. last_or None (literals ''prefix'' ms) = Some p \<longrightarrow> (\<exists>rest. msg_msg x = p @ rest))
    \<and> (\<forall>w. last_or None (literals ''room'' ms) = Some w \<longrightarrow> room = w)
    \<and> r = hd_call (macro_handler debug impl body context xp) ev"
proof -
  let ?u = "bot_user_id b"
  have "me_is ?u (add_handlers hs framework_new)" by (simp add: me_is_def add_handlers_def framework_new_def)
  then have "me_is ?u fw"
    unfolding assms(4) by (rule knows_itself.guarded_run) (rule guarded_each [OF assms(3)])
  then have me: "me_is ?u (snd (dispatch pick env (\<lambda>_. ?u) ev fw))" by (rule me_is_dispatch)
  from dispatch_allowed [OF assms(6,7)] obtain m d where
    m: "fw_me (snd (dispatch pick env (\<lambda>_. ?u) ev fw)) = Some m" and r: "r = hd_call (fw_handlers fw ! j) ev"
    and p: "passes (hd_filters (fw_handlers fw ! j)) x room m"
    unfolding allowed_def by blast
  have "m = ?u" using me m by (simp add: me_is_def)
  moreover have "hd_filters (fw_handlers fw ! j) = xp_filters xp" by (simp add: assms(5) macro_handler_def)
  ultimately have "passes (xp_filters xp) x room ?u" using p by simp
  then show ?thesis
    using macro_filters_meant [OF assms(2)] r unfolding passes_def starts_with_iff by (simp add: assms(5)) metis
qed


section \<open>Witnesses\<close>

definition context_type :: ty where
  "context_type = TyPath [(''Context'', PaAngle [GaType (TyPath [(''Data'', PaNone)])])]"

definition message_type :: ty where
  "message_type = TyPath [(''MessageCreate'', PaNone)]"

definition echo_fn :: item_fn where
  "echo_fn = \<lparr>fn_name = ''echo'', fn_async = True, fn_generics = 0, fn_returns = True,
     fn_inputs = [ArgTyped context_type, ArgTyped message_type]\<rparr>"

definition echo_args :: "meta list" where
  "echo_args = [\<lparr>mt_ident = Some ''prefix'', mt_literal = Inr ''hel'', mt_after = None\<rparr>,
     \<lparr>mt_ident = Some ''allow_self'', mt_literal = Inl ''expected `=`'', mt_after = None\<rparr>]"

definition echo_expansion :: expansion where
  "echo_expansion = \<lparr>xp_name = ''echo'', xp_data = TyPath [(''Data'', PaNone)],
     xp_filters = allow_self True (with_prefix (Some ''hel'') FILTERS_DEFAULT), xp_types = [context_type, message_type]\<rparr>"

lemma echo_expands: "event_macro echo_args echo_fn = Inr echo_expansion"
  by (simp add: event_macro_def parse_filters_def echo_args_def parse_arm_def meta_path_def expand_def echo_fn_def
      data_of_def is_data_type_def context_type_def message_type_def echo_expansion_def render_filters_def
      macro_default_def FILTERS_DEFAULT_def with_authority_def with_room_def with_prefix_def with_mentions_me_def
      allow_bots_def allow_edits_def allow_system_def allow_self_def Let_def)

theorem macro_opts_in_witness:
  "fl_allow_self (xp_filters echo_expansion) \<and> \<not> fl_allow_edits (xp_filters echo_expansion)
    \<and> fl_prefix (xp_filters echo_expansion) = Some ''hel''"
proof -
  have "named {''allow_self''} echo_args" "\<not> named {''allow_edits'', ''edits''} echo_args"
    "last_or None (literals ''prefix'' echo_args) = Some ''hel''"
    by (simp_all add: echo_args_def meta_path_def literals_def)
  then show ?thesis using macro_opts_in [OF echo_expands] by simp
qed

definition echo_impl :: "ty \<Rightarrow> bot_event \<Rightarrow> (nat, nat) bot_context \<Rightarrow> ((nat, nat, unit) parameter, extraction) result" where
  "echo_impl t ev c = (case crate_extractor (if t = context_type then ''Context'' else ''MessageCreate'') of
       Some x \<Rightarrow> x ev c
     | None \<Rightarrow> Inl ExSkip)"

definition declared_echo :: handler where
  "declared_echo = macro_handler (\<lambda>_. ''failed'') echo_impl (\<lambda>_. Inr ()) (context_new 0 7) echo_expansion"

lemma declared_echo_runs:
  "(0, Inr ()) \<in> set (fst (dispatch pick env (\<lambda>_. u) hello_event (add_handlers [declared_echo] framework_new)))"
proof -
  have "hd_call declared_echo hello_event = Inr ()"
    unfolding declared_echo_def macro_handler_call
    by (simp add: echo_expansion_def echo_impl_def crate_extractor_def context_from_event_def message_create_from_event_def
        hello_event_def context_type_def message_type_def)
  moreover have "local_verdict (hd_filters declared_echo) (blank_message ''m1'') ''GENERAL'' u = None"
    by (simp add: local_verdict_def declared_echo_def macro_handler_def echo_expansion_def allow_self_def with_prefix_def
        FILTERS_DEFAULT_def blank_message_def is_system_def is_edited_def starts_with_def)
  moreover have "fl_authority (hd_filters declared_echo) = AuAnyone"
    by (simp add: declared_echo_def macro_handler_def echo_expansion_def allow_self_def with_prefix_def FILTERS_DEFAULT_def)
  ultimately show ?thesis
    by (simp add: dispatch_def hello_observed add_handlers_def framework_new_def filtered_out_def hello_filterable
        get_me_def authority_verdict_def verdict_def Let_def)
qed


theorem declared_filters_hold_witness:
  "\<exists>b sent. bot_connect sample_urls None welcoming_libs welcoming_net ''https://chat''
      (CrPersonalAccessToken ''u1'' ''token'') = (Inr b, sent)
    \<and> (\<exists>rest. msg_msg (blank_message ''m1'') = ''hel'' @ rest) \<and> named {''allow_self''} echo_args"
proof -
  obtain b sent where b: "bot_connect sample_urls None welcoming_libs welcoming_net ''https://chat''
      (CrPersonalAccessToken ''u1'' ''token'') = (Inr b, sent)"
    using sample_connect by blast
  let ?fw = "add_handlers [declared_echo] framework_new"
  have fw: "?fw = fold (dispatch_step (\<lambda>_. 0)) [] (add_handlers [declared_echo] framework_new)"
    and h: "fw_handlers ?fw ! 0 = macro_handler (\<lambda>_. ''failed'') echo_impl (\<lambda>_. Inr ()) (context_new 0 7) echo_expansion"
    by (simp_all add: add_handlers_def framework_new_def declared_echo_def)
  have "last_or None (literals ''prefix'' echo_args) = Some ''hel''" "named {''allow_self''} echo_args"
    by (simp_all add: echo_args_def meta_path_def literals_def)
  then show ?thesis
    using declared_filters_hold [OF b echo_expands _ fw h hello_filterable declared_echo_runs] b by auto
qed

end
