(* ===== verification/Ddp_Durable.thy ===== *)
theory Ddp_Durable
  imports Ddp_Client
begin

text \<open>
  The durable client as it runs: the supervisor of \<open>rocketsocket-realtime/src/client.rs\<close>
  beside the connection that feeds it and the application tasks that subscribe, one step of
  one of them at a time.

  The connection broadcasts its events; what the supervisor has not received yet is
  \<open>du_queue\<close>.  The broadcast channel is not modelled: what a \<open>recv\<close> on it answers is an
  argument of the step, and \<open>recv_contract\<close> states what the channel promises (events come in
  order, a receiver that lags loses the oldest).  The server is what the sources' comments say of it:
  a subscription it granted is live (\<open>du_live\<close>) until the connection ends, which tears all of
  them down.  \<open>du_granted\<close> holds the grants whose \<open>subscribe\<close> has not yet recorded them.
\<close>

section \<open>State\<close>

datatype recv_answer = RecvOk event | RecvLagged u64 | RecvClosed

fun events_recv :: "recv_answer \<Rightarrow> event option" where
  "events_recv (RecvOk e) = Some e"
| "events_recv (RecvLagged missed) = Some (EvLagged missed)"
| "events_recv RecvClosed = None"

fun consumed :: "recv_answer \<Rightarrow> nat" where
  "consumed (RecvOk e) = 1"
| "consumed (RecvLagged missed) = unat missed"
| "consumed RecvClosed = 0"

type_synonym replay_entry = "str \<times> stream_key \<times> json list"

text \<open>Where the supervisor stands: waiting for an event, inside \<open>replay\<close> with the entries left,
  the count so far and the answer to the first entry's \<open>subscribe\<close>, or returned.\<close>

datatype supervisor =
    SupIdle
  | SupReplaying u64 "replay_entry list" nat "(call_error + str) option"
  | SupDone

record 'e durable =
  du_queue :: "event list"
  du_up :: bool
  du_epoch :: u64
  du_live :: "(str, stream_key) fmap"
  du_registry :: registry
  du_granted :: "(str, stream_key \<times> json list) fmap"
  du_supervisor :: supervisor
  du_open :: bool
  du_out :: "'e client_event list"

definition durable_new :: "'e durable" where
  "durable_new = \<lparr>du_queue = [], du_up = False, du_epoch = 0, du_live = fmempty, du_registry = registry_new,
     du_granted = fmempty, du_supervisor = SupIdle, du_open = True, du_out = []\<rparr>"

section \<open>The connection\<close>

definition login_events :: "u64 \<Rightarrow> event list" where
  "login_events e = [EvReady e, EvResubscribe e]"

lemma login_events_emitted:
  "rn_events (apply_action now AResubscribe r) = rn_events r @ login_events (co_epoch (rn_methods r))"
  by (simp add: login_events_def emit_def sync_state_def set_state_def Let_def)

definition du_notice :: "event \<Rightarrow> 'e durable \<Rightarrow> 'e durable" where
  "du_notice ev s = s\<lparr>du_queue := du_queue s @ [ev]\<rparr>"

definition du_login :: "'e durable \<Rightarrow> 'e durable" where
  "du_login s = s\<lparr>du_queue := du_queue s @ login_events (du_epoch s), du_up := True\<rparr>"

definition du_drop :: "str \<Rightarrow> 'e durable \<Rightarrow> 'e durable" where
  "du_drop reason s = s\<lparr>du_queue := du_queue s @ [EvDisconnected reason], du_up := False,
     du_epoch := epoch_next (du_epoch s), du_live := fmempty\<rparr>"

section \<open>The application\<close>

text \<open>A \<open>subscribe\<close> is granted under a fresh id, and its task records it when it runs next.\<close>

definition du_grant :: "str \<Rightarrow> stream_key \<Rightarrow> 'e durable \<Rightarrow> 'e durable" where
  "du_grant i k s = s\<lparr>du_live := fmupd i k (du_live s), du_granted := fmupd i (k, subscribe_params k) (du_granted s)\<rparr>"

definition du_record :: "str \<Rightarrow> 'e durable \<Rightarrow> 'e durable" where
  "du_record i s = (case fmlookup (du_granted s) i of
       None \<Rightarrow> s
     | Some (k, params) \<Rightarrow> s\<lparr>du_registry := reg_insert i k params (du_registry s), du_granted := fmdrop i (du_granted s)\<rparr>)"

section \<open>The supervisor\<close>

definition tell :: "'e client_event \<Rightarrow> bool \<Rightarrow> 'e durable \<Rightarrow> 'e durable" where
  "tell ev continue s =
     (if \<not> du_open s then s\<lparr>du_supervisor := SupDone\<rparr>
      else s\<lparr>du_out := du_out s @ [ev], du_supervisor := (if continue then SupIdle else SupDone)\<rparr>)"

fun replay_next :: "u64 \<Rightarrow> replay_entry list \<Rightarrow> nat \<Rightarrow> 'e durable \<Rightarrow> 'e durable" where
  "replay_next e [] restored s = tell (CeResubscribed e restored) True s"
| "replay_next e (p # ps) restored s = s\<lparr>du_supervisor := SupReplaying e (p # ps) restored None\<rparr>"

definition take_event :: "(str \<Rightarrow> str \<Rightarrow> json list \<Rightarrow> 'e) \<Rightarrow> event \<Rightarrow> 'e durable \<Rightarrow> 'e durable" where
  "take_event decode ev s = (case ev of
       EvResubscribe e \<Rightarrow> replay_next e (to_replay (du_registry s)) 0 s
     | _ \<Rightarrow> (let (out, r, continue) = supervise_event decode (\<lambda>_. Inl NotSent) ev (du_registry s)
            in tell out continue (s\<lparr>du_registry := r\<rparr>)))"

definition du_receive :: "(str \<Rightarrow> str \<Rightarrow> json list \<Rightarrow> 'e) \<Rightarrow> recv_answer \<Rightarrow> 'e durable \<Rightarrow> 'e durable" where
  "du_receive decode a s =
     (if du_supervisor s \<noteq> SupIdle then s
      else (case events_recv a of
          None \<Rightarrow> s\<lparr>du_supervisor := SupDone\<rparr>
        | Some ev \<Rightarrow> take_event decode ev (s\<lparr>du_queue := drop (consumed a) (du_queue s)\<rparr>)))"

text \<open>The answer to the replay's outstanding \<open>subscribe\<close>; granted, it is live on the server.\<close>

definition du_answer :: "(call_error + str) \<Rightarrow> 'e durable \<Rightarrow> 'e durable" where
  "du_answer a s = (case du_supervisor s of
       SupReplaying e ((old, k, ps) # rest) n None \<Rightarrow>
         s\<lparr>du_supervisor := SupReplaying e ((old, k, ps) # rest) n (Some a),
           du_live := (case a of Inr i \<Rightarrow> fmupd i k (du_live s) | Inl err \<Rightarrow> du_live s)\<rparr>
     | _ \<Rightarrow> s)"

definition du_resume :: "'e durable \<Rightarrow> 'e durable" where
  "du_resume s = (case du_supervisor s of
       SupReplaying e (p # rest) n (Some a) \<Rightarrow>
         (let (r, n') = replay_one (\<lambda>_. a) p (du_registry s, n)
          in replay_next e rest n' (s\<lparr>du_registry := r\<rparr>))
     | _ \<Rightarrow> s)"

definition du_close :: "'e durable \<Rightarrow> 'e durable" where
  "du_close s = s\<lparr>du_open := False\<rparr>"

datatype durable_op =
    DuNotice event
  | DuLogin
  | DuDrop str
  | DuGrant str stream_key
  | DuRecord str
  | DuReceive recv_answer
  | DuAnswer "call_error + str"
  | DuResume
  | DuClose

fun du_step :: "(str \<Rightarrow> str \<Rightarrow> json list \<Rightarrow> 'e) \<Rightarrow> durable_op \<Rightarrow> 'e durable \<Rightarrow> 'e durable" where
  "du_step decode (DuNotice ev) s = du_notice ev s"
| "du_step decode DuLogin s = du_login s"
| "du_step decode (DuDrop reason) s = du_drop reason s"
| "du_step decode (DuGrant i k) s = du_grant i k s"
| "du_step decode (DuRecord i) s = du_record i s"
| "du_step decode (DuReceive a) s = du_receive decode a s"
| "du_step decode (DuAnswer a) s = du_answer a s"
| "du_step decode DuResume s = du_resume s"
| "du_step decode DuClose s = du_close s"

section \<open>What the environment promises\<close>

definition is_resubscribe :: "event \<Rightarrow> bool" where
  "is_resubscribe ev = (case ev of EvResubscribe e \<Rightarrow> True | _ \<Rightarrow> False)"

definition told :: "'e durable \<Rightarrow> bool" where
  "told s = (\<not> list_ex is_resubscribe (du_queue s))"

fun left_to_replay :: "supervisor \<Rightarrow> replay_entry list" where
  "left_to_replay (SupReplaying e ps n a) = ps"
| "left_to_replay _ = []"

fun answered_id :: "supervisor \<Rightarrow> str option" where
  "answered_id (SupReplaying e ps n (Some (Inr i))) = Some i"
| "answered_id _ = None"

definition unused :: "str \<Rightarrow> 'e durable \<Rightarrow> bool" where
  "unused i s = (fmlookup (du_live s) i = None \<and> reg_abs (du_registry s) i = None
     \<and> fmlookup (du_granted s) i = None \<and> answered_id (du_supervisor s) \<noteq> Some i)"

fun recv_contract :: "recv_answer \<Rightarrow> event list \<Rightarrow> bool" where
  "recv_contract (RecvOk e) q = (take 1 q = [e])"
| "recv_contract (RecvLagged missed) q = (unat missed \<le> length q)"
| "recv_contract RecvClosed q = True"

text \<open>The connection announces only its own logins, answers in order, and grants under unused ids while it is up.\<close>

fun du_env :: "durable_op \<Rightarrow> 'e durable \<Rightarrow> bool" where
  "du_env (DuNotice ev) s = (\<not> is_resubscribe ev)"
| "du_env (DuGrant i k) s = (du_up s \<and> unused i s)"
| "du_env (DuReceive a) s = recv_contract a (du_queue s)"
| "du_env (DuAnswer (Inr i)) s = (du_up s \<and> unused i s)"
| "du_env _ s = True"

text \<open>What the code leaves to chance: no lag swallows the request to replay, and a grant of an
  earlier connection is recorded before the supervisor takes that request.\<close>

definition grants_live :: "'e durable \<Rightarrow> bool" where
  "grants_live s = (du_up s \<longrightarrow> (\<forall>i \<in> fset (fmdom (du_granted s)). fmlookup (du_live s) i \<noteq> None))"

fun du_lucky :: "durable_op \<Rightarrow> 'e durable \<Rightarrow> bool" where
  "du_lucky (DuReceive (RecvLagged missed)) s = (\<not> list_ex is_resubscribe (take (unat missed) (du_queue s)))"
| "du_lucky (DuReceive (RecvOk (EvResubscribe e))) s = grants_live s"
| "du_lucky _ s = True"

definition settled :: "'e durable \<Rightarrow> bool" where
  "settled s = (du_up s \<and> told s \<and> du_supervisor s = SupIdle)"


section \<open>What no step of another party touches\<close>

lemma tell_simps [simp]:
  "du_queue (tell ev c s) = du_queue s" "du_up (tell ev c s) = du_up s" "du_live (tell ev c s) = du_live s"
  "du_registry (tell ev c s) = du_registry s" "du_granted (tell ev c s) = du_granted s"
  "left_to_replay (du_supervisor (tell ev c s)) = []" "answered_id (du_supervisor (tell ev c s)) = None"
  by (simp_all add: tell_def)

lemma replay_next_simps [simp]:
  "du_queue (replay_next e ps n s) = du_queue s" "du_up (replay_next e ps n s) = du_up s"
  "du_live (replay_next e ps n s) = du_live s" "du_registry (replay_next e ps n s) = du_registry s"
  "du_granted (replay_next e ps n s) = du_granted s"
  "left_to_replay (du_supervisor (replay_next e ps n s)) = ps"
  "answered_id (du_supervisor (replay_next e ps n s)) = None"
  by (cases ps; simp)+

lemma supervise_event_registry:
  "\<not> is_resubscribe ev \<Longrightarrow> reg_abs (fst (snd (supervise_event decode answers ev r))) = reg_abs r"
  using reg_abs_step [of RgConnectionLost r]
  by (cases ev) (auto simp: supervise_event_def is_resubscribe_def split: option.split)

lemma take_event_simps [simp]:
  "du_queue (take_event decode ev s) = du_queue s" "du_up (take_event decode ev s) = du_up s"
  "du_live (take_event decode ev s) = du_live s" "du_granted (take_event decode ev s) = du_granted s"
  "answered_id (du_supervisor (take_event decode ev s)) = None"
  by (cases ev; simp add: take_event_def case_prod_unfold Let_def)+

lemma take_event_registry: "reg_abs (du_registry (take_event decode ev s)) = reg_abs (du_registry s)"
  using supervise_event_registry [of ev decode "\<lambda>_. Inl NotSent" "du_registry s"]
  by (cases ev) (simp_all add: take_event_def case_prod_unfold Let_def is_resubscribe_def)

lemma take_event_left:
  "left_to_replay (du_supervisor (take_event decode ev s)) =
     (if is_resubscribe ev then to_replay (du_registry s) else [])"
  by (cases ev) (simp_all add: take_event_def case_prod_unfold Let_def is_resubscribe_def)

lemma answered_left: "answered_id p = Some i \<Longrightarrow> left_to_replay p \<noteq> [] \<or> (\<exists>e n a. p = SupReplaying e [] n a)"
  by (cases p) auto

section \<open>The invariant\<close>

definition remembered :: "'e durable \<Rightarrow> str \<Rightarrow> (stream_key \<times> json list) option" where
  "remembered s = reg_abs (du_registry s)"

definition replay_sound :: "'e durable \<Rightarrow> bool" where
  "replay_sound s = (distinct (map fst (left_to_replay (du_supervisor s)))
     \<and> (\<forall>(old, k, ps) \<in> set (left_to_replay (du_supervisor s)). remembered s old = Some (k, ps)))"

definition ids_apart :: "'e durable \<Rightarrow> bool" where
  "ids_apart s =
     ((\<forall>i. fmlookup (du_granted s) i \<noteq> None \<longrightarrow> remembered s i = None \<and> answered_id (du_supervisor s) \<noteq> Some i)
      \<and> (\<forall>i. answered_id (du_supervisor s) = Some i \<longrightarrow> remembered s i = None))"

definition kept :: "'e durable \<Rightarrow> bool" where
  "kept s =
     ((\<forall>i k ps. remembered s i = Some (k, ps) \<longrightarrow>
         fmlookup (du_live s) i = Some k \<or> i \<in> fst ` set (left_to_replay (du_supervisor s)))
      \<and> (\<forall>i k ps. fmlookup (du_granted s) i = Some (k, ps) \<longrightarrow> fmlookup (du_live s) i = Some k)
      \<and> (\<forall>i old k ps rest. answered_id (du_supervisor s) = Some i \<longrightarrow>
           left_to_replay (du_supervisor s) = (old, k, ps) # rest \<longrightarrow> fmlookup (du_live s) i = Some k))"

text \<open>A live grant is live under the key it was asked for.\<close>

definition grants_keyed :: "'e durable \<Rightarrow> bool" where
  "grants_keyed s = (\<forall>i k ps k'. fmlookup (du_granted s) i = Some (k, ps) \<longrightarrow> fmlookup (du_live s) i = Some k' \<longrightarrow> k' = k)"

definition du_inv :: "'e durable \<Rightarrow> bool" where
  "du_inv s = (replay_sound s \<and> ids_apart s \<and> grants_keyed s \<and> (\<not> du_up s \<longrightarrow> du_live s = fmempty)
     \<and> (du_up s \<and> told s \<longrightarrow> kept s))"

lemmas du_inv_defs = du_inv_def replay_sound_def ids_apart_def kept_def grants_keyed_def told_def remembered_def

lemma du_inv_new: "du_inv durable_new"
  by (simp add: du_inv_defs durable_new_def)

lemma du_inv_notice: "du_inv s \<Longrightarrow> \<not> is_resubscribe ev \<Longrightarrow> du_inv (du_notice ev s)"
  by (simp add: du_inv_defs du_notice_def)

lemma du_inv_login: "du_inv s \<Longrightarrow> du_inv (du_login s)"
  by (auto simp add: du_inv_defs du_login_def login_events_def is_resubscribe_def)

lemma du_inv_drop: "du_inv s \<Longrightarrow> du_inv (du_drop reason s)"
  by (simp add: du_inv_defs du_drop_def)

lemma du_inv_grant: "du_inv s \<Longrightarrow> du_up s \<Longrightarrow> unused i s \<Longrightarrow> du_inv (du_grant i k s)"
  by (auto simp: du_inv_defs du_grant_def unused_def split: if_splits)

lemma reg_abs_insert: "reg_abs (reg_insert i k ps r) = (reg_abs r)(i := Some (k, ps))"
  using reg_abs_step [of "RgInsert i k ps" r] by simp

lemma du_inv_record: "du_inv s \<Longrightarrow> du_inv (du_record i s)"
  by (auto simp: du_inv_defs du_record_def reg_abs_insert split: option.split if_splits)


lemma du_receive_idle:
  assumes "du_supervisor s = SupIdle" "events_recv a = Some ev"
  shows "du_receive decode a s = take_event decode ev (s\<lparr>du_queue := drop (consumed a) (du_queue s)\<rparr>)"
  using assms by (simp add: du_receive_def)

lemma to_replay_remembers: "(old, k, ps) \<in> set (to_replay r) \<longleftrightarrow> reg_abs r old = Some (k, ps)"
  by (simp add: to_replay_exact(1))

lemma to_replay_distinct: "distinct (map fst (to_replay r))"
  using to_replay_exact(2) [of r] by (simp add: strict_sorted_iff)

lemma told_drop:
  assumes "recv_contract a (du_queue s)" "du_lucky (DuReceive a) s" "events_recv a = Some ev" "\<not> is_resubscribe ev"
    and "\<not> list_ex is_resubscribe (drop (consumed a) (du_queue s))"
  shows "told s"
proof (cases a)
  case (RecvOk e)
  then obtain q where "du_queue s = e # q" using assms(1) by (cases "du_queue s") auto
  then show ?thesis using assms RecvOk by (simp add: told_def)
next
  case (RecvLagged n)
  then have "\<not> list_ex is_resubscribe (take (unat n) (du_queue s) @ drop (unat n) (du_queue s))"
    using assms(2,5) by (simp only: list_ex_append) simp
  then show ?thesis by (simp add: told_def)
qed (use assms in simp)

lemma du_inv_receive:
  assumes "du_inv s" "recv_contract a (du_queue s)" "du_lucky (DuReceive a) s"
  shows "du_inv (du_receive decode a s)"
proof (cases "du_supervisor s = SupIdle \<and> events_recv a \<noteq> None")
  case False
  then show ?thesis using assms(1) by (auto simp: du_receive_def du_inv_defs)
next
  case True
  then obtain ev where idle: "du_supervisor s = SupIdle" and ev: "events_recv a = Some ev" by blast
  let ?s = "s\<lparr>du_queue := drop (consumed a) (du_queue s)\<rparr>"
  show ?thesis
  proof (cases "is_resubscribe ev")
    case False
    then show ?thesis
      using assms(1) told_drop [OF assms(2,3) ev]
      by (auto simp: du_receive_idle [OF idle ev] du_inv_defs take_event_registry take_event_left idle)
  next
    case True
    then obtain e where "a = RecvOk (EvResubscribe e)"
      using ev by (cases a) (auto simp: is_resubscribe_def split: event.splits)
    then have "grants_live s" using assms(3) by simp
    then have "du_up s \<Longrightarrow> fmlookup (du_granted s) i = Some (k, ps) \<Longrightarrow> fmlookup (du_live s) i = Some k" for i k ps
      using assms(1) by (fastforce simp: grants_live_def du_inv_def grants_keyed_def fmlookup_dom_iff)
    moreover have "i \<in> fst ` set (to_replay (du_registry s))" if "reg_abs (du_registry s) i = Some (k, ps)" for i k ps
      using that by (metis to_replay_remembers fst_conv image_eqI)
    ultimately have "du_up s \<Longrightarrow> kept (du_receive decode a s)"
      using True by (simp add: du_receive_idle [OF idle ev] kept_def remembered_def take_event_registry take_event_left)
    moreover have "replay_sound (du_receive decode a s)"
      using True by (auto simp: du_receive_idle [OF idle ev] replay_sound_def remembered_def take_event_registry
        take_event_left to_replay_remembers to_replay_distinct)
    ultimately show ?thesis
      using assms(1) by (simp add: du_receive_idle [OF idle ev] du_inv_def ids_apart_def grants_keyed_def
        remembered_def take_event_registry idle)
  qed
qed

lemma du_answer_cases:
  "du_answer a s = s \<or> (\<exists>e old k ps rest n. du_supervisor s = SupReplaying e ((old, k, ps) # rest) n None)"
  by (auto simp: du_answer_def split: supervisor.splits list.splits option.splits)

lemma du_inv_answer:
  assumes "du_inv s" "du_env (DuAnswer a) s"
  shows "du_inv (du_answer a s)"
proof (cases "du_answer a s = s")
  case False
  then obtain e old k ps rest n where "du_supervisor s = SupReplaying e ((old, k, ps) # rest) n None"
    using du_answer_cases by blast
  then show ?thesis
    using assms by (cases a) (auto simp: du_inv_defs du_answer_def unused_def)
qed (use assms in simp)

lemma replay_one_registry:
  "reg_abs (fst (replay_one (\<lambda>_. a) (old, k, ps) (r, n))) =
     (case a of Inr new \<Rightarrow> (if reg_abs r old = None then reg_abs r else (reg_abs r)(old := None, new := reg_abs r old))
      | Inl e \<Rightarrow> (reg_abs r)(old := None))"
  by (simp add: replay_one_abs split: sum.split)

lemma du_resume_registry:
  assumes "du_supervisor s = SupReplaying e (p # rest) n (Some a)"
  shows "du_resume s = replay_next e rest (snd (replay_one (\<lambda>_. a) p (du_registry s, n)))
    (s\<lparr>du_registry := fst (replay_one (\<lambda>_. a) p (du_registry s, n))\<rparr>)"
  using assms by (simp add: du_resume_def case_prod_unfold Let_def)

lemma du_resume_cases:
  "du_resume s = s \<or> (\<exists>e old k ps rest n a. du_supervisor s = SupReplaying e ((old, k, ps) # rest) n (Some a))"
  by (auto simp: du_resume_def split: supervisor.splits list.splits option.splits)

lemma resumed_remembers:
  assumes "du_inv s" "du_supervisor s = SupReplaying e ((old, k, ps) # rest) n (Some a)"
  shows "remembered (du_resume s) = (case a of Inr new \<Rightarrow> (remembered s)(old := None, new := Some (k, ps))
      | Inl err \<Rightarrow> (remembered s)(old := None))"
    and "left_to_replay (du_supervisor (du_resume s)) = rest" "answered_id (du_supervisor (du_resume s)) = None"
    and "du_live (du_resume s) = du_live s" "du_granted (du_resume s) = du_granted s"
    and "du_up (du_resume s) = du_up s" "du_queue (du_resume s) = du_queue s"
  using assms by (auto simp: du_resume_registry replay_one_registry du_inv_defs split: sum.split)

lemma du_inv_resume:
  assumes "du_inv s"
  shows "du_inv (du_resume s)"
proof (cases "du_resume s = s")
  case False
  then obtain e old k ps rest n a where sup: "du_supervisor s = SupReplaying e ((old, k, ps) # rest) n (Some a)"
    using du_resume_cases by blast
  note after = resumed_remembers [OF assms sup]
  have old: "remembered s old = Some (k, ps)" "old \<notin> fst ` set rest"
    using assms sup by (auto simp: du_inv_def replay_sound_def)
  have new: "remembered s i = None" if "a = Inr i" for i
    using assms sup that by (simp add: du_inv_def ids_apart_def)
  have "replay_sound (du_resume s)"
  proof -
    have "remembered (du_resume s) o1 = Some (k1, ps1)" if x: "(o1, k1, ps1) \<in> set rest" for o1 k1 ps1
    proof -
      have "remembered s o1 = Some (k1, ps1)" using assms sup x by (auto simp: du_inv_def replay_sound_def)
      moreover have "o1 \<noteq> old" using old(2) x by force
      ultimately show ?thesis using new by (auto simp: after split: sum.split)
    qed
    then show ?thesis using assms sup by (auto simp: du_inv_def replay_sound_def after)
  qed
  moreover have "ids_apart (du_resume s)"
    using assms sup by (cases a) (auto simp: du_inv_def ids_apart_def after)
  moreover have "kept (du_resume s)" if "kept s"
    using that sup new by (cases a) (auto simp: kept_def after)
  ultimately show ?thesis
    using assms by (simp add: du_inv_def grants_keyed_def told_def after)
qed (use assms in simp)

definition du_guard :: "durable_op \<Rightarrow> 'e durable \<Rightarrow> bool" where
  "du_guard x s = (du_env x s \<and> du_lucky x s)"

lemma du_inv_step: "du_inv s \<Longrightarrow> du_guard x s \<Longrightarrow> du_inv (du_step decode x s)"
  by (cases x)
    (auto simp: du_guard_def du_inv_notice du_inv_login du_inv_drop du_inv_grant du_inv_record du_inv_resume
      du_inv_receive du_inv_answer du_close_def, simp add: du_inv_defs)

interpretation durable: guarded_invariant "du_step decode" du_guard du_inv for decode
  by unfold_locales (rule du_inv_step)

section \<open>Nothing is subscribed twice\<close>

text \<open>The supervisor keeps up: a login follows a lost connection and the replay before it is over, and a grant is
  recorded after it took the request to replay of its own connection.\<close>

fun du_prompt :: "durable_op \<Rightarrow> 'e durable \<Rightarrow> bool" where
  "du_prompt DuLogin s = (\<not> du_up s \<and> told s \<and> left_to_replay (du_supervisor s) = [])"
| "du_prompt (DuRecord i) s = told s"
| "du_prompt _ s = True"

definition accounted :: "'e durable \<Rightarrow> bool" where
  "accounted s = (\<forall>i. fmlookup (du_live s) i \<noteq> None \<longrightarrow>
     remembered s i \<noteq> None \<and> i \<notin> fst ` set (left_to_replay (du_supervisor s))
     \<or> fmlookup (du_granted s) i \<noteq> None \<or> answered_id (du_supervisor s) = Some i)"

definition one_request :: "'e durable \<Rightarrow> bool" where
  "one_request s = (told s \<or> left_to_replay (du_supervisor s) = []
     \<and> (\<forall>i. fmlookup (du_live s) i \<noteq> None \<longrightarrow> fmlookup (du_granted s) i \<noteq> None)
     \<and> length (filter is_resubscribe (du_queue s)) = 1)"

definition du_exact :: "'e durable \<Rightarrow> bool" where
  "du_exact s = (du_inv s \<and> accounted s \<and> one_request s)"

lemma told_filter: "told s \<longleftrightarrow> filter is_resubscribe (du_queue s) = []"
  by (simp add: told_def list_ex_iff filter_empty_conv)

lemma queue_drop:
  assumes "recv_contract a q" "events_recv a = Some ev"
    and "\<And>n. a = RecvLagged n \<Longrightarrow> \<not> list_ex is_resubscribe (take (unat n) q)"
  shows "filter is_resubscribe q = (if is_resubscribe ev then [ev] else []) @ filter is_resubscribe (drop (consumed a) q)"
proof (cases a)
  case (RecvOk e)
  then show ?thesis using assms(1,2) by (cases q) auto
next
  case (RecvLagged n)
  have "filter is_resubscribe q = filter is_resubscribe (take (unat n) q) @ filter is_resubscribe (drop (unat n) q)"
    by (metis append_take_drop_id filter_append)
  moreover have "filter is_resubscribe (take (unat n) q) = []"
    using assms(3) [OF RecvLagged] by (simp add: list_ex_iff filter_empty_conv)
  moreover have "\<not> is_resubscribe ev" using assms(2) RecvLagged by (auto simp: is_resubscribe_def)
  ultimately show ?thesis using RecvLagged by simp
qed (use assms in simp)

lemma exact_receive:
  assumes "du_exact s" "recv_contract a (du_queue s)" "du_lucky (DuReceive a) s"
  shows "accounted (du_receive decode a s) \<and> one_request (du_receive decode a s)"
proof (cases "du_supervisor s = SupIdle \<and> events_recv a \<noteq> None")
  case False
  then show ?thesis using assms(1)
    by (auto simp: du_receive_def du_exact_def accounted_def one_request_def told_def remembered_def)
next
  case True
  then obtain ev where idle: "du_supervisor s = SupIdle" and ev: "events_recv a = Some ev" by blast
  let ?s = "s\<lparr>du_queue := drop (consumed a) (du_queue s)\<rparr>"
  have q: "filter is_resubscribe (du_queue s) =
      (if is_resubscribe ev then [ev] else []) @ filter is_resubscribe (drop (consumed a) (du_queue s))"
    by (rule queue_drop [OF assms(2) ev]) (use assms(3) in auto)
  show ?thesis
  proof (cases "is_resubscribe ev")
    case False
    then show ?thesis using assms(1) q
      by (auto simp: du_receive_idle [OF idle ev] du_exact_def accounted_def one_request_def told_filter
          remembered_def take_event_registry take_event_left idle)
  next
    case True
    then have "\<not> told s" using q by (simp add: told_filter)
    then have "\<And>i. fmlookup (du_live s) i \<noteq> None \<Longrightarrow> fmlookup (du_granted s) i \<noteq> None"
      and "filter is_resubscribe (drop (consumed a) (du_queue s)) = []"
      using assms(1) q True by (simp_all add: du_exact_def one_request_def)
    then show ?thesis
      by (simp add: du_receive_idle [OF idle ev] accounted_def one_request_def told_filter)
  qed
qed

lemma exact_answer:
  assumes "du_exact s" "du_env (DuAnswer a) s"
  shows "accounted (du_answer a s) \<and> one_request (du_answer a s)"
proof (cases "du_answer a s = s")
  case False
  then obtain e old k ps rest n where "du_supervisor s = SupReplaying e ((old, k, ps) # rest) n None"
    using du_answer_cases by blast
  then show ?thesis using assms
    by (cases a) (auto simp: du_exact_def accounted_def one_request_def du_answer_def remembered_def told_def)
qed (use assms in \<open>simp add: du_exact_def\<close>)

lemma exact_resume:
  assumes "du_exact s"
  shows "accounted (du_resume s) \<and> one_request (du_resume s)"
proof (cases "du_resume s = s")
  case False
  then obtain e old k ps rest n a where sup: "du_supervisor s = SupReplaying e ((old, k, ps) # rest) n (Some a)"
    using du_resume_cases by blast
  have inv: "du_inv s" and told: "told s" using assms sup by (auto simp: du_exact_def one_request_def)
  note after = resumed_remembers [OF inv sup]
  have "remembered s old \<noteq> None" using inv sup by (auto simp: du_inv_def replay_sound_def)
  then have dead: "fmlookup (du_live s) old = None"
    using assms inv sup by (auto simp: du_exact_def accounted_def du_inv_def ids_apart_def)
  have new: "i \<notin> fst ` set rest" if "a = Inr i" for i
    using inv sup that by (auto simp: du_inv_def ids_apart_def replay_sound_def)
  have "accounted (du_resume s)" unfolding accounted_def after
  proof (intro allI impI)
    fix i assume live: "fmlookup (du_live s) i \<noteq> None"
    then have "i \<noteq> old" using dead by auto
    then show "(case a of Inl err \<Rightarrow> (remembered s)(old := None) | Inr new \<Rightarrow> (remembered s)(old := None, new := Some (k, ps))) i \<noteq> None
        \<and> i \<notin> fst ` set rest \<or> fmlookup (du_granted s) i \<noteq> None \<or> None = Some i"
      using assms sup live new by (cases a) (auto simp: du_exact_def accounted_def)
  qed
  then show ?thesis using told by (simp add: one_request_def told_def after)
qed (use assms in \<open>simp add: du_exact_def\<close>)

lemma exact_record:
  assumes "du_exact s" "told s"
  shows "accounted (du_record i s) \<and> one_request (du_record i s)"
proof (cases "fmlookup (du_granted s) i")
  case (Some g)
  then obtain k ps where g: "fmlookup (du_granted s) i = Some (k, ps)" by (cases g) auto
  then have "i \<notin> fst ` set (left_to_replay (du_supervisor s))"
    using assms(1) by (fastforce simp: du_exact_def du_inv_def ids_apart_def replay_sound_def)
  then show ?thesis using assms g
    by (auto simp: du_exact_def accounted_def one_request_def told_def du_record_def remembered_def reg_abs_insert)
qed (use assms in \<open>simp add: du_exact_def du_record_def\<close>)

lemma exact_others:
  "\<lbrakk>accounted s; one_request s; \<not> is_resubscribe ev\<rbrakk> \<Longrightarrow> accounted (du_notice ev s) \<and> one_request (du_notice ev s)"
  "\<lbrakk>accounted s; one_request s; told s; du_live s = fmempty; left_to_replay (du_supervisor s) = []\<rbrakk>
    \<Longrightarrow> accounted (du_login s) \<and> one_request (du_login s)"
  "\<lbrakk>accounted s; one_request s\<rbrakk> \<Longrightarrow> accounted (du_drop reason s) \<and> one_request (du_drop reason s)"
  "\<lbrakk>accounted s; one_request s\<rbrakk> \<Longrightarrow> accounted (du_grant i k s) \<and> one_request (du_grant i k s)"
  "\<lbrakk>accounted s; one_request s\<rbrakk> \<Longrightarrow> accounted (du_close s) \<and> one_request (du_close s)"
  by (auto simp add: accounted_def one_request_def told_filter remembered_def du_notice_def du_login_def
      login_events_def is_resubscribe_def du_drop_def du_grant_def du_close_def split: event.splits)

lemma du_exact_step:
  assumes "du_exact s" "du_guard x s" "du_prompt x s"
  shows "du_exact (du_step decode x s)"
proof -
  have ex: "accounted s" "one_request s" using assms(1) by (simp_all add: du_exact_def)
  have "accounted (du_step decode x s) \<and> one_request (du_step decode x s)"
  proof (cases x)
    case DuLogin
    then have "du_live s = fmempty" using assms by (simp add: du_exact_def du_inv_def)
    then show ?thesis using assms(3) DuLogin exact_others(2) [OF ex] by simp
  next
    case (DuNotice ev)
    then show ?thesis using assms(2) exact_others(1) [OF ex] by (simp add: du_guard_def)
  next
    case (DuReceive a)
    then have "recv_contract a (du_queue s)" "du_lucky (DuReceive a) s" using assms(2) by (simp_all add: du_guard_def)
    then show ?thesis using exact_receive [OF assms(1)] DuReceive by simp
  next
    case (DuAnswer a)
    then have "du_env (DuAnswer a) s" using assms(2) by (simp add: du_guard_def)
    then show ?thesis using exact_answer [OF assms(1)] DuAnswer by simp
  qed (use assms exact_others(3-5) [OF ex] exact_resume exact_record in simp_all)
  then show ?thesis using assms du_inv_step by (auto simp: du_exact_def)
qed

interpretation prompt: guarded_invariant "du_step decode" "\<lambda>x s. du_guard x s \<and> du_prompt x s" du_exact for decode
  by unfold_locales (simp add: du_exact_step)

lemma du_exact_new: "du_exact durable_new"
  using du_inv_new by (simp add: du_exact_def accounted_def one_request_def told_def, simp add: durable_new_def)

end
