(* ===== verification/Ddp_Recovery.thy ===== *)
theory Ddp_Recovery
  imports Ddp_Durable
begin

text \<open>
  What the durable client's supervisor achieves when it is left to run, and what it does not
  when it is overtaken: undisturbed it is the \<open>supervise\<close> of \<open>Ddp_Client\<close>, step for step; a
  reconnect then restores on the server exactly what is remembered; and concrete runs in
  which a replay is overtaken, delayed or lost.
\<close>

section \<open>The supervisor left to run\<close>

function drain :: "(str \<Rightarrow> str \<Rightarrow> json list \<Rightarrow> 'e) \<Rightarrow> (str \<Rightarrow> call_error + str) \<Rightarrow> 'e durable \<Rightarrow> 'e durable" where
  "drain decode answers s =
     (case du_supervisor s of
        SupIdle \<Rightarrow> (case du_queue s of
            [] \<Rightarrow> s
          | ev # q \<Rightarrow> drain decode answers (du_receive decode (RecvOk ev) s))
      | SupReplaying e ((old, k, ps) # rest) n None \<Rightarrow> drain decode answers (du_answer (answers old) s)
      | SupReplaying e (p # rest) n (Some a) \<Rightarrow> drain decode answers (du_resume s)
      | _ \<Rightarrow> s)"
  by pat_completeness auto

fun awaiting :: "supervisor \<Rightarrow> nat" where
  "awaiting (SupReplaying e ps n None) = 1"
| "awaiting _ = 0"

lemma awaiting_next [simp]: "awaiting (du_supervisor (replay_next e ps n s)) < 2"
  by (cases ps) (simp_all add: tell_def)

termination drain
  by (relation "measures [\<lambda>(_, _, s). length (du_queue s),
    \<lambda>(_, _, s). 2 * length (left_to_replay (du_supervisor s)) + awaiting (du_supervisor s)]")
    (auto simp: du_receive_idle du_resume_registry du_answer_def)

declare drain.simps [simp del]

definition relive :: "(str \<Rightarrow> call_error + str) \<Rightarrow> replay_entry \<Rightarrow> (str, stream_key) fmap \<Rightarrow> (str, stream_key) fmap" where
  "relive answers p m = (case p of (old, k, ps) \<Rightarrow> (case answers old of Inr i \<Rightarrow> fmupd i k m | Inl err \<Rightarrow> m))"

lemma replay_next_cong:
  "s\<lparr>du_supervisor := SupDone\<rparr> = s'\<lparr>du_supervisor := SupDone\<rparr> \<Longrightarrow> replay_next e ps n s = replay_next e ps n s'"
  by (cases ps) (cases s, cases s', auto simp: tell_def)+

lemma drain_replay:
  "drain decode answers (replay_next e ps n s) =
     drain decode answers (tell (CeResubscribed e (snd (fold (replay_one answers) ps (du_registry s, n)))) True
       (s\<lparr>du_registry := fst (fold (replay_one answers) ps (du_registry s, n)), du_live := fold (relive answers) ps (du_live s)\<rparr>))"
proof (induction ps arbitrary: s n)
  case (Cons p ps)
  obtain old k params where p: "p = (old, k, params)" by (cases p) auto
  let ?r = "replay_one answers p (du_registry s, n)"
  let ?s = "s\<lparr>du_live := relive answers p (du_live s), du_registry := fst ?r\<rparr>"
  have one: "replay_one (\<lambda>_. answers old) p x = replay_one answers p x" for x
    by (simp add: replay_one_def p split: prod.split)
  have "drain decode answers (replay_next e (p # ps) n s) = drain decode answers (replay_next e ps (snd ?r) ?s)"
    by (subst drain.simps, simp add: p du_answer_def, subst drain.simps)
      (auto simp add: du_resume_def one [unfolded p] case_prod_unfold Let_def relive_def
        intro!: arg_cong [where f = "drain decode answers"] replay_next_cong split: sum.split)
  then show ?case by (simp add: Cons.IH)
qed simp


text \<open>Every event before a terminal failure is told, and the rest stays where it is.\<close>

lemma receive_other:
  assumes "du_open s" "du_supervisor s = SupIdle" "\<not> is_resubscribe ev"
  shows "du_receive decode (RecvOk ev) s =
    s\<lparr>du_queue := drop 1 (du_queue s), du_out := du_out s @ [fst (supervise_event decode answers ev (du_registry s))],
      du_registry := fst (snd (supervise_event decode answers ev (du_registry s))),
      du_supervisor := (if snd (snd (supervise_event decode answers ev (du_registry s))) then SupIdle else SupDone)\<rparr>"
  using assms by (cases ev)
    (auto simp: du_receive_def take_event_def tell_def supervise_event_def is_resubscribe_def split: option.split)

lemma drain_idle_empty: "du_supervisor s = SupIdle \<Longrightarrow> du_queue s = [] \<Longrightarrow> drain decode answers s = s"
  by (subst drain.simps) simp

lemma drain_done: "du_supervisor s = SupDone \<Longrightarrow> drain decode answers s = s"
  by (subst drain.simps) simp

lemma drain_receive:
  "du_supervisor s = SupIdle \<Longrightarrow> du_queue s = ev # q \<Longrightarrow>
     drain decode answers s = drain decode answers (du_receive decode (RecvOk ev) s)"
  by (subst drain.simps) simp

text \<open>One event, drained.\<close>

lemma drain_event:
  assumes "du_open s" "du_supervisor s = SupIdle" "du_queue s = ev # q"
  shows "drain decode answers s = (let (out, r, continue) = supervise_event decode answers ev (du_registry s) in
    drain decode answers (s\<lparr>du_queue := q, du_out := du_out s @ [out], du_registry := r,
      du_supervisor := (if continue then SupIdle else SupDone),
      du_live := (if is_resubscribe ev then fold (relive answers) (to_replay (du_registry s)) (du_live s) else du_live s)\<rparr>))"
proof (cases "is_resubscribe ev")
  case False
  then show ?thesis
    by (simp add: drain_receive [OF assms(2,3)] receive_other [OF assms(1,2) False, of decode answers] assms(3)
      case_prod_unfold Let_def)
next
  case True
  then obtain e where ev: "ev = EvResubscribe e" by (auto simp: is_resubscribe_def split: event.splits)
  have "drain decode answers s = drain decode answers (replay_next e (to_replay (du_registry s)) 0 (s\<lparr>du_queue := q\<rparr>))"
    by (simp add: drain_receive [OF assms(2,3)] du_receive_def assms(2,3) ev take_event_def)
  then show ?thesis
    using assms(1) by (cases s) (simp add: drain_replay tell_def supervise_event_def ev replay_def case_prod_unfold Let_def is_resubscribe_def)
qed



section \<open>After a reconnect\<close>

lemma relive_lookup:
  assumes "\<And>o1 o2 n. answers o1 = Inr n \<Longrightarrow> answers o2 = Inr n \<Longrightarrow> o1 = o2" "distinct (map fst ps)"
  shows "fmlookup (fold (relive answers) ps m) i = Some k \<longleftrightarrow>
    (\<exists>old params. (old, k, params) \<in> set ps \<and> answers old = Inr i)
    \<or> ((\<forall>old \<in> fst ` set ps. answers old \<noteq> Inr i) \<and> fmlookup m i = Some k)"
  using assms(2)
proof (induction ps arbitrary: m)
  case (Cons p ps)
  obtain old k0 params where p: "p = (old, k0, params)" by (cases p) auto
  have old: "old \<notin> fst ` set ps" using Cons.prems p by simp
  have IH: "fmlookup (fold (relive answers) ps (relive answers p m)) i = Some k \<longleftrightarrow>
      (\<exists>old params. (old, k, params) \<in> set ps \<and> answers old = Inr i)
      \<or> ((\<forall>old \<in> fst ` set ps. answers old \<noteq> Inr i) \<and> fmlookup (relive answers p m) i = Some k)"
    by (rule Cons.IH) (use Cons.prems in simp)
  show ?case
  proof (cases "answers old = Inr i")
    case True
    then have others: "answers o1 \<noteq> Inr i" if "o1 \<in> fst ` set ps" for o1 using assms(1) [of old i o1] old that by blast
    then have "(o1, k, params1) \<notin> set ps \<or> answers o1 \<noteq> Inr i" for o1 params1 by force
    moreover have "fmlookup (relive answers p m) i = Some k0" using True by (simp add: relive_def p)
    ultimately show ?thesis using True IH others by (auto simp: p)
  next
    case False
    then have "fmlookup (relive answers p m) i = fmlookup m i" by (simp add: relive_def p split: sum.split)
    then show ?thesis using False IH by (auto simp: p)
  qed
qed simp

lemma drain_reconnect:
  fixes decode :: "str \<Rightarrow> str \<Rightarrow> json list \<Rightarrow> 'e" and answers reason
  assumes "du_open s" "du_supervisor s = SupIdle" "du_queue s = []"
  defines "s' \<equiv> drain decode answers (du_login (du_drop reason s))"
  shows "du_supervisor s' = SupIdle" "du_queue s' = []" "du_up s'"
    and "du_live s' = fold (relive answers) (to_replay (connection_lost (du_registry s))) fmempty"
    and "du_registry s' = fst (replay answers (connection_lost (du_registry s)))"
    and "du_out s' = du_out s @ [CeConnection (EvDisconnected reason), CeConnection (EvReady (epoch_next (du_epoch s))),
      CeResubscribed (epoch_next (du_epoch s)) (snd (replay answers (connection_lost (du_registry s))))]"
  using assms(1-3) unfolding s'_def
  by (simp_all add: drain_event drain_idle_empty supervise_event_def is_resubscribe_def du_login_def du_drop_def
      login_events_def case_prod_unfold Let_def)

lemma reg_abs_lost: "reg_abs (connection_lost r) = reg_abs r"
  using reg_abs_step [of RgConnectionLost r] by simp

text \<open>C6: A reconnect recovers: from any resting state, once the connection is lost and logged in again, the
  supervisor left to run settles; live on the server are then exactly the remembered subscriptions it granted again,
  under their new ids, nothing else is remembered, and the application was told of the loss, of the readiness and of
  the replay with the right count.\<close>

lemma reconnect_recovers:
  assumes "du_open s" "du_supervisor s = SupIdle" "du_queue s = []"
    and "\<forall>o1 o2 n. answers o1 = Inr n \<and> answers o2 = Inr n \<longrightarrow> o1 = o2"
    and "\<forall>old n. answers old = Inr n \<longrightarrow> remembered s n = None"
  shows "settled (drain decode answers (du_login (du_drop reason s)))
    \<and> (\<forall>i k. fmlookup (du_live (drain decode answers (du_login (du_drop reason s)))) i = Some k
         \<longleftrightarrow> (\<exists>old ps. remembered s old = Some (k, ps) \<and> answers old = Inr i))
    \<and> (\<forall>i x. remembered (drain decode answers (du_login (du_drop reason s))) i = Some x
         \<longleftrightarrow> (\<exists>old. remembered s old = Some x \<and> answers old = Inr i))
    \<and> du_out (drain decode answers (du_login (du_drop reason s))) = du_out s @
        [CeConnection (EvDisconnected reason), CeConnection (EvReady (epoch_next (du_epoch s))),
         CeResubscribed (epoch_next (du_epoch s)) (card {old. remembered s old \<noteq> None \<and> \<not> isl (answers old)})]"
proof -
  let ?r = "connection_lost (du_registry s)"
  note d = drain_reconnect [OF assms(1-3), of decode answers reason]
  have live: "fmlookup (fold (relive answers) (to_replay ?r) fmempty) i = Some k
      \<longleftrightarrow> (\<exists>old ps. remembered s old = Some (k, ps) \<and> answers old = Inr i)" for i k
    using relive_lookup [where ps = "to_replay ?r" and m = fmempty and i = i and k = k and answers = answers] assms(4) to_replay_distinct [of ?r]
    by (simp add: to_replay_remembers remembered_def reg_abs_lost)
  have "(\<forall>n x. reg_abs (fst (replay answers ?r)) n = Some x \<longleftrightarrow> (\<exists>old. reg_abs ?r old = Some x \<and> answers old = Inr n))
      \<and> snd (replay answers ?r) = card {old. reg_abs ?r old \<noteq> None \<and> \<not> isl (answers old)}"
    by (rule replay_exact) (use assms(4,5) in \<open>auto simp: remembered_def reg_abs_lost\<close>)
  then show ?thesis
    using d live by (simp add: settled_def told_def remembered_def reg_abs_lost)
qed


section \<open>The supervisor overtaken\<close>

text \<open>C5: The bot is never deaf without knowing: along every run in which no lag swallowed a request to replay and
  every grant of an earlier connection was recorded before that request was taken, whenever the connection is up, no
  request is pending and the supervisor rests, every remembered subscription is live on the server under its key.\<close>

lemma remembered_is_live:
  assumes "guarded (du_step decode) du_guard xs durable_new" "settled (fold (du_step decode) xs durable_new)"
    and "remembered (fold (du_step decode) xs durable_new) i = Some (k, ps)"
  shows "fmlookup (du_live (fold (du_step decode) xs durable_new)) i = Some k"
  using durable.guarded_run [OF du_inv_new assms(1)] assms(2,3)
  by (auto simp: settled_def du_inv_def kept_def)


text \<open>A subscription, a lost connection and its replay, up to the second login.\<close>

definition general :: stream_key where
  "general = \<lparr>sk_stream = ''room-messages'', sk_event = ''GENERAL''\<rparr>"

definition my_rooms :: stream_key where
  "my_rooms = \<lparr>sk_stream = ''room-messages'', sk_event = ''__my_messages__''\<rparr>"

definition first_login :: "durable_op list" where
  "first_login = [DuLogin, DuReceive (RecvOk (EvReady 0)), DuReceive (RecvOk (EvResubscribe 0))]"

definition reconnected :: "u64 \<Rightarrow> durable_op list" where
  "reconnected e = [DuDrop ''gone'', DuReceive (RecvOk (EvDisconnected ''gone'')),
     DuLogin, DuReceive (RecvOk (EvReady e)), DuReceive (RecvOk (EvResubscribe e))]"

abbreviation du_run :: "durable_op list \<Rightarrow> unit durable" where
  "du_run xs \<equiv> fold (du_step (\<lambda>_ _ _. ())) xs durable_new"

lemma remembered_is_live_witness:
  "fmlookup (du_live (du_run (first_login @ [DuGrant ''s0'' general, DuRecord ''s0''] @ reconnected 1
    @ [DuAnswer (Inr ''s1''), DuResume]))) ''s1'' = Some general"
  by (rule remembered_is_live [where ps = "subscribe_params general"]) code_simp+


text \<open>A connection that ends in the middle of a replay: the outstanding subscription is forgotten; the
  replay goes on over the next connection, which then replays what it restored once more, so that
  the server delivers every event of the second one twice.\<close>

lemma overtaken_replay:
  "let s = du_run (first_login @ [DuGrant ''s0'' general, DuRecord ''s0'', DuGrant ''s1'' my_rooms, DuRecord ''s1'']
         @ reconnected 1 @ [DuDrop ''again'', DuAnswer (Inl NotSent), DuResume, DuLogin, DuAnswer (Inr ''s3''), DuResume,
         DuReceive (RecvOk (EvDisconnected ''again'')), DuReceive (RecvOk (EvReady 2)),
         DuReceive (RecvOk (EvResubscribe 2)), DuAnswer (Inr ''s4''), DuResume])
   in settled s \<and> subscribers general (du_registry s) = []
      \<and> fmlookup (du_live s) ''s3'' = Some my_rooms \<and> fmlookup (du_live s) ''s4'' = Some my_rooms
      \<and> remembered s ''s3'' = None"
  by code_simp

text \<open>A grant recorded only after the replay of the next connection was taken: remembered, and dead.\<close>

lemma late_record:
  "let s = du_run (first_login @ [DuGrant ''s0'' general] @ reconnected 1 @ [DuRecord ''s0''])
   in settled s \<and> subscribers general (du_registry s) = [''s0''] \<and> fmlookup (du_live s) ''s0'' = None"
  by code_simp

text \<open>A lag that swallows the request to replay: ready, and deaf.\<close>

lemma lagged_request:
  "let s = du_run (first_login @ [DuGrant ''s0'' general, DuRecord ''s0'', DuDrop ''gone'', DuLogin,
         DuReceive (RecvLagged 3)])
   in settled s \<and> subscribers general (du_registry s) = [''s0''] \<and> fmlookup (du_live s) ''s0'' = None"
  by code_simp


section \<open>Witnesses\<close>

definition granted_again :: "str \<Rightarrow> call_error + str" where
  "granted_again old = (if old = ''s0'' then Inr ''s1'' else Inl NotSent)"

lemma one_subscription:
  "let s = du_run (first_login @ [DuGrant ''s0'' general, DuRecord ''s0'']) in
     du_open s \<and> du_supervisor s = SupIdle \<and> du_queue s = [] \<and> remembered s ''s1'' = None
     \<and> remembered s ''s0'' = Some (general, subscribe_params general)"
  by code_simp

lemma reconnect_recovers_witness:
  "\<forall>k. fmlookup (du_live (drain (\<lambda>_ _ _. ()) granted_again (du_login (du_drop ''gone''
      (du_run (first_login @ [DuGrant ''s0'' general, DuRecord ''s0'']))))))
      ''s1'' = Some k \<longleftrightarrow> k = general"
proof -
  let ?s = "du_run (first_login @ [DuGrant ''s0'' general, DuRecord ''s0''])"
  have s: "du_open ?s" "du_supervisor ?s = SupIdle" "du_queue ?s = []" "remembered ?s ''s1'' = None"
    "remembered ?s ''s0'' = Some (general, subscribe_params general)"
    using one_subscription by (simp_all only: Let_def simp_thms)
  have inj: "\<forall>o1 o2 n. granted_again o1 = Inr n \<and> granted_again o2 = Inr n \<longrightarrow> o1 = o2"
    by (simp add: granted_again_def split: if_splits)
  have fresh: "\<forall>old n. granted_again old = Inr n \<longrightarrow> remembered ?s n = None"
    using s(4) by (simp add: granted_again_def split: if_splits)
  have only: "granted_again old = Inr ''s1'' \<longleftrightarrow> old = ''s0''" for old by (simp add: granted_again_def)
  have "(fmlookup (du_live (drain (\<lambda>_ _ _. ()) granted_again (du_login (du_drop ''gone'' ?s)))) ''s1'' = Some k) =
      (\<exists>old ps. remembered ?s old = Some (k, ps) \<and> granted_again old = Inr ''s1'')" for k
    using reconnect_recovers [of ?s granted_again "\<lambda>_ _ _. ()" "''gone''", OF s(1-3) inj fresh] by blast
  then show ?thesis using s(5) by (auto simp: only)
qed


end
