(* ===== verification/Ddp_Feed.thy ===== *)
theory Ddp_Feed
  imports Ddp_Recovery Ddp_Witnesses
begin

text \<open>
  The connection task feeds the durable client: the events any life of the task of
  \<open>Ddp_Connection\<close> broadcasts are the queue of \<open>Ddp_Durable\<close> after logins, losses and
  notices, with the epochs the task counts.
\<close>

section \<open>Event streams\<close>

inductive fed :: "event list \<Rightarrow> bool \<Rightarrow> u64 \<Rightarrow> bool" where
  fed_start: "fed [] False 0"
| fed_notice: "fed evs up e \<Longrightarrow> \<not> is_resubscribe ev \<Longrightarrow> fed (evs @ [ev]) up e"
| fed_login: "fed evs up e \<Longrightarrow> fed (evs @ login_events e) True e"
| fed_drop: "fed evs up e \<Longrightarrow> fed (evs @ [EvDisconnected reason]) False (epoch_next e)"

fun connection_op :: "durable_op \<Rightarrow> bool" where
  "connection_op (DuNotice ev) = (\<not> is_resubscribe ev)"
| "connection_op DuLogin = True"
| "connection_op (DuDrop reason) = True"
| "connection_op _ = False"

lemma fed_ops:
  "fed evs up e \<Longrightarrow> \<exists>ops. list_all connection_op ops
     \<and> (let s = fold (du_step decode) ops durable_new in du_queue s = evs \<and> du_up s = up \<and> du_epoch s = e)"
proof (induction rule: fed.induct)
  case fed_start
  show ?case by (rule exI [of _ "[]"]) (simp add: durable_new_def)
next
  case (fed_notice evs up e ev)
  then obtain ops where ops: "list_all connection_op ops" "du_queue (fold (du_step decode) ops durable_new) = evs"
    "du_up (fold (du_step decode) ops durable_new) = up" "du_epoch (fold (du_step decode) ops durable_new) = e"
    by (auto simp: Let_def)
  show ?case
    by (rule exI [of _ "ops @ [DuNotice ev]"]) (use ops fed_notice in \<open>simp add: du_notice_def\<close>)
next
  case (fed_login evs up e)
  then obtain ops where ops: "list_all connection_op ops" "du_queue (fold (du_step decode) ops durable_new) = evs"
    "du_epoch (fold (du_step decode) ops durable_new) = e"
    by (auto simp: Let_def)
  show ?case
    by (rule exI [of _ "ops @ [DuLogin]"]) (use ops in \<open>simp add: du_login_def\<close>)
next
  case (fed_drop evs up e reason)
  then obtain ops where ops: "list_all connection_op ops" "du_queue (fold (du_step decode) ops durable_new) = evs"
    "du_epoch (fold (du_step decode) ops durable_new) = e"
    by (auto simp: Let_def)
  show ?case
    by (rule exI [of _ "ops @ [DuDrop reason]"]) (use ops in \<open>simp add: du_drop_def\<close>)
qed

lemma connection_op_guard: "connection_op x \<Longrightarrow> du_guard x s"
  by (cases x) (simp_all add: du_guard_def)

lemma connection_ops_guarded: "list_all connection_op ops \<Longrightarrow> guarded (du_step decode) du_guard ops s"
  by (induction ops arbitrary: s) (simp_all add: connection_op_guard)

section \<open>The task\<close>

definition feeding :: "'g runner \<Rightarrow> bool" where
  "feeding r = (\<exists>up. fed (rn_events r) up (co_epoch (rn_methods r)) \<and> (ss_phase (rn_session r) = Ready \<longrightarrow> up))"

definition feeding_idle :: "'g runner \<Rightarrow> bool" where
  "feeding_idle r = (feeding r \<and> \<not> rn_socket r)"

lemma marks_epoch [simp]: "co_epoch (rn_methods (fold mark_one ms r)) = co_epoch (rn_methods r)"
proof (induction ms arbitrary: r)
  case (Cons m ms)
  then show ?case by (cases m) simp_all
qed simp

lemma mark_unflushed_epoch [simp]: "co_epoch (rn_methods (mark_unflushed r)) = co_epoch (rn_methods r)"
  by (simp add: mark_unflushed_def)

lemma settle_epoch [simp]: "co_epoch (rn_methods (settle live r)) = epoch_next (co_epoch (rn_methods r))"
  by (simp add: settle_def disconnect_def Let_def)

lemma correlate_epoch [simp]: "co_epoch (rn_methods (correlate live x r)) = co_epoch (rn_methods r)"
proof -
  have sub: "rn_methods (resolve_sub live i out r) = rn_methods r" for i out and r :: "'a runner"
    by (simp add: resolve_sub_def deliver_def case_prod_unfold Let_def)
  have "rn_methods (fold (\<lambda>i. resolve_sub live i (Inr JNull)) is r) = rn_methods r" for "is" and r :: "'a runner"
    by (induction "is" arbitrary: r) (simp_all add: sub)
  then show ?thesis
    by (cases x) (simp_all add: resolve_method_def deliver_def case_prod_unfold Let_def sub)
qed

lemma command_epoch [simp]: "co_epoch (rn_methods (handle_command acked c r)) = co_epoch (rn_methods r)"
  by (cases c) (simp_all add: cancel_def case_prod_unfold Let_def)

lemma feeding_notice: "feeding r \<Longrightarrow> \<not> is_resubscribe ev \<Longrightarrow> feeding (emit ev r)"
  by (auto simp: feeding_def emit_def intro: fed_notice)

lemma feeding_text:
  assumes "feeding r"
  shows "feeding (on_text parse now live t r)"
proof (cases rule: on_text_cases [of parse now live t r])
  case nothing
  then show ?thesis using assms by simp
next
  case (frame x as s)
  have corr: "feeding r' \<Longrightarrow> feeding (correlate live y r')" for y and r' :: "'a runner"
    by (simp add: feeding_def)
  have keep: "feeding r' \<Longrightarrow> feeding (publish x (correlate live x r'))" for r' :: "'a runner"
    by (cases x) (simp_all add: corr feeding_notice is_resubscribe_def del: correlate.simps)
  have "feeding (fold (apply_action now) as (r\<lparr>rn_session := s\<rparr>))"
  proof (cases rule: handle_cases [of x "rn_session r"])
    case (accepted i res)
    then have as: "as = [AResubscribe]" using frame(1) by simp
    obtain up where "fed (rn_events r) up (co_epoch (rn_methods r))" using assms by (auto simp: feeding_def)
    then have "fed (rn_events r @ login_events (co_epoch (rn_methods r))) True (co_epoch (rn_methods r))" by (rule fed_login)
    moreover have "rn_events (apply_action now AResubscribe (r\<lparr>rn_session := s\<rparr>)) = rn_events r @ login_events (co_epoch (rn_methods r))"
      "co_epoch (rn_methods (apply_action now AResubscribe (r\<lparr>rn_session := s\<rparr>))) = co_epoch (rn_methods r)"
      by (simp_all add: login_events_emitted del: apply_action.simps) (simp add: Let_def)
    ultimately show ?thesis by (auto simp: as feeding_def simp del: apply_action.simps)
  qed (use frame(1) assms in \<open>auto simp: feeding_def runner_login_eq Let_def expect_login_def\<close>)
  then show ?thesis by (simp add: frame(2) keep)
qed

lemma feeding_iter:
  assumes "feeding r"
  shows "feeding (snd (drive_iter parse env r))"
proof (rule drive_iter_induct [where I = feeding])
  fix r r' :: "'a runner" and x
  assume "feeding r" "pop_outbound r = (x, r')"
  then show "feeding r' \<and> feeding (handed x r') \<and> rn_session r' = rn_session r"
    using pop_outbound_frame [of r] by (simp add: feeding_def handed_def)
next
  fix r :: "'a runner" and c
  assume "feeding r"
  then show "feeding (handle_command (pe_acked env) c r)"
    by (cases c) (auto simp: feeding_def cancel_def case_prod_unfold Let_def)
next
  fix r :: "'a runner"
  assume "feeding r"
  then show "feeding (snd (on_deadline (pe_now env) r))"
    by (auto simp: on_deadline_def feeding_def Let_def split: prod.split liveness.split)
qed (use assms feeding_text in \<open>simp_all add: feeding_def mark_unflushed_def\<close>)

interpretation feed_life: runner_life "\<lambda>k. feeding" "\<lambda>k. feeding_idle"
proof
  fix r :: "'g runner" and acked c
  assume "feeding_idle r"
  then show "feeding_idle (handle_command acked c r)"
    by (cases c) (auto simp: feeding_idle_def feeding_def cancel_def case_prod_unfold Let_def)
next
  fix r r' :: "'g runner" and now
  assume "feeding_idle r" "drive_start now r = Some r'"
  then show "feeding r'"
    by (auto simp: feeding_idle_def feeding_def drive_start_def session_connect_def Let_def)
next
  fix r :: "'g runner" and reason now live
  assume "feeding r" "\<not> rn_socket r"
  then show "feeding_idle (disconnected reason now live r)"
    by (auto simp: feeding_idle_def feeding_def disconnected_def session_disconnected_def set_state_def Let_def intro: fed_drop)
qed (auto simp: feeding_iter feeding_idle_def feeding_notice is_resubscribe_def, auto simp: feeding_def)


lemma stopped_fed:
  assumes "feeding r3" "finish_outcome now live out r3 = (Stop, r1)"
  shows "\<exists>up e. fed (rn_events r1) up e"
proof -
  obtain up where fed: "fed (rn_events r3) up (co_epoch (rn_methods r3))" using assms(1) by (auto simp: feeding_def)
  have "rn_events r1 = rn_events r3 \<or> (\<exists>f. rn_events r1 = rn_events r3 @ [EvFatal f])"
    using assms(2) by (auto simp: finish_outcome_def set_state_def emit_def Let_def split: outcome.splits)
  moreover have "fed (rn_events r3 @ [EvFatal f]) up (co_epoch (rn_methods r3))" for f
    using fed_notice [OF fed] by (simp add: is_resubscribe_def)
  ultimately show ?thesis using fed by metis
qed

lemma life_fed:
  assumes "feeding_idle r0" "run draw parse as r0 = Some (v, r)"
  shows "\<exists>up e. fed (rn_events r) up e \<and> (v = Running \<longrightarrow> e = co_epoch (rn_methods r)
    \<and> (ss_phase (rn_session r) = Ready \<longrightarrow> up))"
proof (cases v)
  case Running
  then have "feeding r" using feed_life.run_life [OF assms(1)] assms(2) by simp
  then show ?thesis by (auto simp: feeding_def)
next
  case Stop
  then obtain live r1 where r: "r = finish live r1" and "feeding_idle r1 \<and> rn_shutdown r1
      \<or> (\<exists>now live' out r3. feeding r3 \<and> finish_outcome now live' out r3 = (Stop, r1))"
    using feed_life.stop_life [OF assms(1)] assms(2) by blast
  then have "feeding r1 \<or> (\<exists>up e. fed (rn_events r1) up e)"
    using stopped_fed unfolding feeding_idle_def by metis
  then have "\<exists>up e. fed (rn_events r1) up e" unfolding feeding_def by metis
  then show ?thesis using Stop r by simp
next
  case GoOn
  then show ?thesis using assms(2) feed_life.run_not_going [of draw parse as r0 r] by simp
qed



end
