(* ===== verification/Bot_Wire.thy ===== *)
theory Bot_Wire
  imports Bot_Handler Ddp_Feed
begin

text \<open>
  From the socket to a handler: a message the server publishes, through the frame codec, the
  connection task, the supervisor, the typed events and the dispatch, to the handlers whose
  filters it passes.
\<close>

section \<open>The frame of a message\<close>

definition message_frame :: "str \<Rightarrow> Model_Message.message \<Rightarrow> json list \<Rightarrow> server_message" where
  "message_frame key x rest = SChanged ''stream-room-messages'' ''id''
     (Some (obj_of [(''eventName'', JString key), (''args'', JArray (message_to_json x # rest))])) None"

definition message_raw :: "str \<Rightarrow> Model_Message.message \<Rightarrow> json list \<Rightarrow> raw_event" where
  "message_raw key x rest =
     \<lparr>re_stream = ''room-messages'', re_event_name = key, re_args = message_to_json x # rest\<rparr>"

lemma message_frame_stream: "as_stream_event (message_frame key x rest) = Some (message_raw key x rest)"
  by (simp add: message_frame_def message_raw_def STREAM_PREFIX_def)

lemma message_frame_broadcast:
  assumes "parse t = Some (server_to_json (message_frame key x rest))"
  shows "rn_events (on_text parse now live t r) = rn_events r @ [EvFrame (message_frame key x rest)]"
proof -
  have "server_of_json (server_to_json (message_frame key x rest)) = Some (message_frame key x rest)"
    unfolding message_frame_def by (rule document_roundtrip)
  then show ?thesis
    using assms by (simp add: on_text_def message_frame_def handle_def emit_def del: server_to_json.simps)
qed

text \<open>The room a message is filtered under: its own for the catch-all key, else the key.\<close>

definition frame_room :: "str \<Rightarrow> Model_Message.message \<Rightarrow> str" where
  "frame_room key x = (if key = ''__my_messages__'' then msg_rid x else key)"

lemma message_decoded:
  assumes "message_ok T x" "key \<noteq> []"
  shows "\<exists>ev mc. Model_Event.decode T ''room-messages'' key (message_to_json x # rest) = ev
    \<and> (\<forall>k args. filterable (CeStream k ev args) = Some (x, frame_room key x)
        \<and> message_create_from_event (CeStream k ev args) = Inr mc) \<and> mc_message mc = x"
proof -
  obtain m where m: "message_to_json x = JObject m" by (simp add: message_to_json_def struct_to_json_def)
  moreover have "message_of_json T (message_to_json x) = Some x" by (rule cmsg.dec_enc [OF assms(1)])
  ultimately have req: "req_at (message_of_json T) (message_to_json x # rest) 0 = Some x"
    by (simp add: req_at_def opt_at_def arg_at_def)
  have bare: "bare_stream ''room-messages'' = ''room-messages''" by (simp add: bare_stream_def)
  show ?thesis
    using assms(2) req
    by (cases "key = ''__my_messages__''")
      (simp_all add: Model_Event.decode_def try_decode_def bare room_messages_def filterable_def
        message_create_from_event_def frame_room_def)
qed

section \<open>Every handler that wants it\<close>

lemma offer_complete:
  assumes "filterable ev = Some (x, room)" "me_is u fw" "j < length hs"
    and "passes (hd_filters (hs ! j)) x room u" "fl_authority (hd_filters (hs ! j)) = AuAnyone"
  shows "(i + j, hd_call (hs ! j) ev) \<in> set (fst (offer pick env (\<lambda>_. u) ev i hs fw))"
  using assms(2-5)
proof (induction hs arbitrary: i j fw)
  case (Cons h hs)
  have known: "fst (get_me u fw) = u" using Cons.prems(1) by (auto simp: get_me_def me_is_def split: option.split)
  show ?case
  proof (cases j)
    case 0
    then have "local_verdict (hd_filters h) x room u = None" "fl_authority (hd_filters h) = AuAnyone"
      using Cons.prems(3,4) by (simp_all add: local_verdict_None)
    then have "fst (filtered_out pick (env i) u h ev fw) = None"
      using known by (simp add: filtered_out_def assms(1) authority_verdict_def verdict_def case_prod_unfold Let_def)
    then show ?thesis using 0 by (simp add: case_prod_unfold Let_def)
  next
    case (Suc k)
    have "(Suc i + k, hd_call (hs ! k) ev) \<in> set (fst (offer pick env (\<lambda>_. u) ev (Suc i) hs (snd (filtered_out pick (env i) u h ev fw))))"
      by (rule Cons.IH [OF me_is_filtered [OF Cons.prems(1)]]) (use Cons.prems Suc in simp_all)
    then show ?thesis using Suc by (auto simp: case_prod_unfold Let_def)
  qed
qed simp

lemma dispatch_complete:
  assumes "filterable ev = Some (x, room)" "me_is u fw" "j < handler_count fw"
    and "passes (hd_filters (fw_handlers fw ! j)) x room u" "fl_authority (hd_filters (fw_handlers fw ! j)) = AuAnyone"
  shows "(j, hd_call (fw_handlers fw ! j) ev) \<in> set (fst (dispatch pick env (\<lambda>_. u) ev fw))"
  using offer_complete [of ev x room u "observe ev fw" j "fw_handlers fw" 0] assms
  by (simp add: dispatch_def handler_count_def me_is_def Let_def)

text \<open>C8: A message on the wire reaches every handler that wants it.  When a text the socket delivers is the frame in
  which the server publishes a message, under a room or the catch-all key and with whatever follows it, the task
  broadcasts that frame, the supervisor forwards it as one typed event from which a handler's parameter is exactly
  the message that was published, and every handler without a role requirement whose filters the message passes is run on it.\<close>

theorem message_reaches_handlers:
  assumes "message_ok T x" "key \<noteq> []" and "parse t = Some (server_to_json (message_frame key x rest))"
    and "me_is u fw" and "j < handler_count fw"
    and "passes (hd_filters (fw_handlers fw ! j)) x (frame_room key x) u"
    and "fl_authority (hd_filters (fw_handlers fw ! j)) = AuAnyone"
  shows "rn_events (on_text parse now live t r) = rn_events r @ [EvFrame (message_frame key x rest)]
    \<and> (\<exists>ev mc. supervise_event (Model_Event.decode T) answers (EvFrame (message_frame key x rest)) reg = (ev, reg, True)
        \<and> message_create_from_event ev = Inr mc \<and> mc_message mc = x
        \<and> (j, hd_call (fw_handlers fw ! j) ev) \<in> set (fst (dispatch pick env (\<lambda>_. u) ev fw)))"
proof -
  obtain mev mc where dec: "Model_Event.decode T ''room-messages'' key (message_to_json x # rest) = mev"
    and mev: "\<And>k args. filterable (CeStream k mev args) = Some (x, frame_room key x)"
      "\<And>k args. message_create_from_event (CeStream k mev args) = Inr mc" "mc_message mc = x"
    using message_decoded [OF assms(1,2), of rest] by blast
  let ?ev = "CeStream (stream_key_of_event (message_raw key x rest)) mev (message_to_json x # rest)"
  have "supervise_event (Model_Event.decode T) answers (EvFrame (message_frame key x rest)) reg = (?ev, reg, True)"
    by (simp add: supervise_event_def message_frame_stream dec message_raw_def)
  moreover have "(j, hd_call (fw_handlers fw ! j) ?ev) \<in> set (fst (dispatch pick env (\<lambda>_. u) ?ev fw))"
    by (rule dispatch_complete [OF mev(1) assms(4-7)])
  ultimately show ?thesis using mev message_frame_broadcast [where parse = parse and t = t and now = now and live = live and r = r, OF assms(3)] by blast
qed

theorem message_reaches_handlers_witness:
  "rn_events (on_text (\<lambda>_. Some (server_to_json (message_frame ''GENERAL'' (blank_message ''m1'') []))) 1 (\<lambda>_. True) ''{}'' sample_runner)
    = rn_events sample_runner @ [EvFrame (message_frame ''GENERAL'' (blank_message ''m1'') [])]"
proof -
  let ?x = "blank_message ''m1''" and ?fw = "add_handlers [declared_echo] framework_new"
  let ?parse = "\<lambda>_. Some (server_to_json (message_frame ''GENERAL'' (blank_message ''m1'') []))"
  have me: "me_is (Some ''u2'') ?fw" and j: "0 < handler_count ?fw"
    by (simp_all add: me_is_def add_handlers_def framework_new_def handler_count_def)
  have h: "fw_handlers ?fw ! 0 = declared_echo" by (simp add: add_handlers_def framework_new_def)
  have f: "hd_filters declared_echo = allow_self True (with_prefix (Some ''hel'') FILTERS_DEFAULT)"
    by (simp add: declared_echo_def macro_handler_def echo_expansion_def)
  have "passes (hd_filters (fw_handlers ?fw ! 0)) ?x (frame_room ''GENERAL'' ?x) (Some ''u2'')"
    unfolding h f local_verdict_None [symmetric]
    by (simp add: local_verdict_def allow_self_def with_prefix_def FILTERS_DEFAULT_def blank_message_def is_system_def
        is_edited_def starts_with_def frame_room_def)
  moreover have "fl_authority (hd_filters (fw_handlers ?fw ! 0)) = AuAnyone"
    unfolding h f by (simp add: allow_self_def with_prefix_def FILTERS_DEFAULT_def)
  ultimately show ?thesis
    using message_reaches_handlers [where T = sample_lib and x = ?x and key = "''GENERAL''" and rest = "[]" and parse = ?parse
        and t = "''{}''" and u = "Some ''u2''" and fw = ?fw and j = 0 and now = 1 and live = "\<lambda>_. True" and r = sample_runner]
      me j by (simp del: server_to_json.simps)
qed

end
