(* ===== verification/Codegen_Scan.thy ===== *)
theory Codegen_Scan
  imports Rest_Text
begin

text \<open>
  The lexical helpers of the code generator, the last part of
  \<open>rocketsocket-codegen/src/parse.rs\<close>.  Text is its bytes and positions are byte offsets, as in the
  code.  A result is an \<open>outcome\<close>: besides a value and the error the parser promises, the panic
  that indexing a string outside its bounds, or between the bytes of a character, is in Rust.
  Depths are integers: the code's 32-bit counters overflow only on sources of gigabytes.
\<close>

section \<open>Outcomes\<close>

record parse_error =
  pe_offset :: nat
  pe_line :: nat
  pe_message :: str
  pe_context :: str

datatype 'a outcome = Done 'a | Failed parse_error | Panicked

primrec and_then :: "'a outcome \<Rightarrow> ('a \<Rightarrow> 'b outcome) \<Rightarrow> 'b outcome" where
  "and_then (Done x) f = f x"
| "and_then (Failed e) f = Failed e"
| "and_then Panicked f = Panicked"

text \<open>\<open>&src[from..to]\<close>.\<close>

definition slice :: "str \<Rightarrow> nat \<Rightarrow> nat \<Rightarrow> str outcome" where
  "slice src from to =
     (if from \<le> to \<and> to \<le> length src \<and> is_char_boundary src from \<and> is_char_boundary src to
      then Done (take (to - from) (drop from src)) else Panicked)"

section \<open>Characters and white space\<close>

definition is_quote :: "char \<Rightarrow> bool" where
  "is_quote c = (c = CHR 0x27 \<or> c = CHR 0x22 \<or> c = CHR 0x60)"

definition is_ascii_whitespace :: "char \<Rightarrow> bool" where
  "is_ascii_whitespace c = (c = CHR '' '' \<or> c = CHR 0x09 \<or> c = CHR 0x0A \<or> c = CHR 0x0C \<or> c = CHR 0x0D)"

definition is_ascii_alphanumeric :: "char \<Rightarrow> bool" where
  "is_ascii_alphanumeric c = (let n = (of_char c :: nat) in
     (48 \<le> n \<and> n \<le> 57) \<or> (65 \<le> n \<and> n \<le> 90) \<or> (97 \<le> n \<and> n \<le> 122))"

definition is_ascii :: "char \<Rightarrow> bool" where
  "is_ascii c = ((of_char c :: nat) < 128)"

fun normalise_from :: "bool \<Rightarrow> bool \<Rightarrow> str \<Rightarrow> str" where
  "normalise_from nothing space [] = []"
| "normalise_from nothing space (c # s) =
     (if is_ascii_whitespace c then normalise_from nothing (\<not> nothing) s
      else (if space then [CHR '' ''] else []) @ c # normalise_from False False s)"

definition normalise :: "str \<Rightarrow> str" where
  "normalise s = normalise_from True False s"

definition ELLIPSIS :: str where
  "ELLIPSIS = map (char_of :: nat \<Rightarrow> char) [226, 128, 166]"

definition truncate_context :: "str \<Rightarrow> nat \<Rightarrow> str" where
  "truncate_context s max_len =
     (if length s \<le> max_len then s else take (boundary_below s max_len) s @ ELLIPSIS)"

text \<open>\<open>err\<close>: the error at an offset, whose line is counted up to there.\<close>

definition err :: "str \<Rightarrow> nat \<Rightarrow> str \<Rightarrow> str \<Rightarrow> 'a outcome" where
  "err src offset msg context = and_then (slice src 0 (min offset (length src))) (\<lambda>head.
     Failed \<lparr>pe_offset = offset, pe_line = length (filter (\<lambda>b. b = CHR 0x0A) head) + 1, pe_message = msg,
       pe_context = truncate_context (normalise context) 120\<rparr>)"

text \<open>An error whose context is a range of the source.\<close>

definition err_at :: "str \<Rightarrow> nat \<Rightarrow> str \<Rightarrow> nat \<Rightarrow> nat \<Rightarrow> 'a outcome" where
  "err_at src offset msg from to = and_then (slice src from to) (err src offset msg)"

function skip_ws :: "str \<Rightarrow> nat \<Rightarrow> nat" where
  "skip_ws src pos = (if pos < length src \<and> is_ascii_whitespace (src ! pos) then skip_ws src (pos + 1) else pos)"
  by pat_completeness auto

termination skip_ws
  by (relation "measure (\<lambda>(src, pos). length src - pos)") auto

function trim_from :: "str \<Rightarrow> nat \<Rightarrow> nat \<Rightarrow> nat" where
  "trim_from src from to = (if from < to \<and> is_ascii_whitespace (src ! from) then trim_from src (from + 1) to else from)"
  by pat_completeness auto

termination trim_from
  by (relation "measure (\<lambda>(src, from, to). to - from)") auto

function trim_to :: "str \<Rightarrow> nat \<Rightarrow> nat \<Rightarrow> nat" where
  "trim_to src from to = (if from < to \<and> is_ascii_whitespace (src ! (to - 1)) then trim_to src from (to - 1) else to)"
  by pat_completeness auto

termination trim_to
  by (relation "measure (\<lambda>(src, from, to). to)") auto

declare skip_ws.simps [simp del] trim_from.simps [simp del] trim_to.simps [simp del]

definition trim_range :: "str \<Rightarrow> nat \<Rightarrow> nat \<Rightarrow> nat \<times> nat" where
  "trim_range src from to = (let f = trim_from src from to in (f, trim_to src f to))"

section \<open>Strings in the source\<close>

function boundary_from :: "str \<Rightarrow> nat \<Rightarrow> nat" where
  "boundary_from src n = (if n < length src \<and> \<not> is_char_boundary src n then boundary_from src (n + 1) else n)"
  by pat_completeness auto

termination boundary_from
  by (relation "measure (\<lambda>(src, n). length src - n)") auto

declare boundary_from.simps [simp del]

definition next_boundary :: "str \<Rightarrow> nat \<Rightarrow> nat" where
  "next_boundary src i = (if length src \<le> i then length src else boundary_from src (i + 1))"

lemma boundary_from_ge: "n \<le> boundary_from src n"
  by (induction src n rule: boundary_from.induct) (subst boundary_from.simps, auto)

lemma boundary_from_le: "n \<le> length src \<Longrightarrow> boundary_from src n \<le> length src"
  by (induction src n rule: boundary_from.induct) (subst boundary_from.simps, auto)

lemma boundary_from_is: "n \<le> length src \<Longrightarrow> is_char_boundary src (boundary_from src n)"
proof (induction src n rule: boundary_from.induct)
  case (1 src n)
  show ?case
  proof (cases "n < length src \<and> \<not> is_char_boundary src n")
    case True
    then have "boundary_from src n = boundary_from src (n + 1)" by (subst boundary_from.simps) simp
    then show ?thesis using 1 True by simp
  next
    case False
    then have "boundary_from src n = n" by (subst boundary_from.simps) (simp only: if_False)
    then show ?thesis using False 1(2) by (cases "n = length src") (auto simp: is_char_boundary_def)
  qed
qed

lemma next_boundary_gt: "i < length src \<Longrightarrow> i < next_boundary src i"
  using boundary_from_ge [of "i + 1" src] by (simp add: next_boundary_def)

lemma next_boundary_le: "next_boundary src i \<le> length src"
  using boundary_from_le [of "i + 1" src] by (simp add: next_boundary_def)

lemma next_boundary_is: "is_char_boundary src (next_boundary src i)"
  using boundary_from_is [of "i + 1" src] by (simp add: next_boundary_def is_char_boundary_def)

lemma escape_progress: "i < length src \<Longrightarrow> i < next_boundary src (i + 1)"
  using boundary_from_ge [of "i + 2" src] by (auto simp: next_boundary_def)

function skip_from :: "str \<Rightarrow> char \<Rightarrow> nat \<Rightarrow> nat" where
  "skip_from src quote i =
     (if i < length src then
        (if src ! i = CHR 0x5C then skip_from src quote (next_boundary src (i + 1))
         else if src ! i = quote then i + 1
         else skip_from src quote (i + 1))
      else i)"
  by pat_completeness auto

termination skip_from
proof (relation "measure (\<lambda>(src, quote, i). length src - i)")
  show "((src, quote, next_boundary src (i + 1)), src, quote, i) \<in> measure (\<lambda>(src, quote, i). length src - i)"
    if "i < length src" for src quote and i :: nat
    using escape_progress [OF that] that by simp
qed auto

declare skip_from.simps [simp del]

definition skip_string :: "str \<Rightarrow> nat \<Rightarrow> nat" where
  "skip_string src start = skip_from src (src ! start) (start + 1)"

lemma skip_from_ge: "i \<le> skip_from src quote i"
proof (induction src quote i rule: skip_from.induct)
  case (1 src quote i)
  then show ?case
    using escape_progress [of i src] by (subst skip_from.simps) auto
qed

lemma skip_from_le: "i \<le> length src \<Longrightarrow> skip_from src quote i \<le> length src"
proof (induction src quote i rule: skip_from.induct)
  case (1 src quote i)
  then show ?case
    using next_boundary_le [of src "i + 1"] by (subst skip_from.simps) auto
qed

lemma skip_string_progress: "start < skip_string src start"
  using skip_from_ge [of "start + 1" src "src ! start"] by (simp add: skip_string_def)

lemma skip_string_le: "start < length src \<Longrightarrow> skip_string src start \<le> length src"
  using skip_from_le [of "start + 1" src "src ! start"] by (simp add: skip_string_def)

section \<open>Comments\<close>

fun find_text :: "str \<Rightarrow> str \<Rightarrow> nat option" where
  "find_text [] p = (if p = [] then Some 0 else None)"
| "find_text (c # s) p = (if starts_with (c # s) p then Some 0 else map_option Suc (find_text s p))"

definition blank :: "char \<Rightarrow> char" where
  "blank b = (if b = CHR 0x0A \<or> \<not> is_ascii b then b else CHR '' '')"

function line_end :: "str \<Rightarrow> nat \<Rightarrow> nat" where
  "line_end src i = (if i < length src \<and> src ! i \<noteq> CHR 0x0A then line_end src (i + 1) else i)"
  by pat_completeness auto

termination line_end
  by (relation "measure (\<lambda>(src, i). length src - i)") auto

declare line_end.simps [simp del]

definition block_end :: "str \<Rightarrow> nat \<Rightarrow> nat" where
  "block_end src i = (case find_text (drop (i + 2) src) ''*/'' of Some p \<Rightarrow> i + 2 + p + 2 | None \<Rightarrow> length src)"

definition bytes_between :: "str \<Rightarrow> nat \<Rightarrow> nat \<Rightarrow> str" where
  "bytes_between src from to = take (to - from) (drop from src)"

lemma line_end_ge: "i \<le> line_end src i"
  by (induction src i rule: line_end.induct) (subst line_end.simps, auto)

lemma find_text_le: "find_text s p = Some n \<Longrightarrow> n + length p \<le> length s"
  by (induction s p arbitrary: n rule: find_text.induct)
    (auto simp: starts_with_iff dest: arg_cong [of _ _ length] split: if_splits)

lemma line_end_le: "i \<le> length src \<Longrightarrow> line_end src i \<le> length src"
  by (induction src i rule: line_end.induct) (subst line_end.simps, auto)

lemma block_end_le: "i + 1 < length src \<Longrightarrow> i < block_end src i \<and> block_end src i \<le> length src"
  using find_text_le [of "drop (i + 2) src" "''*/''"] by (force simp: block_end_def split: option.split)

definition followed_by :: "str \<Rightarrow> nat \<Rightarrow> char \<Rightarrow> bool" where
  "followed_by src i c = (i + 1 < length src \<and> src ! (i + 1) = c)"

text \<open>One item of the source at \<open>i\<close>, as it is written out, and where the next one begins.\<close>

definition strip_item :: "str \<Rightarrow> nat \<Rightarrow> str \<times> nat" where
  "strip_item src i =
     (if is_quote (src ! i) then (bytes_between src i (skip_string src i), skip_string src i)
      else if src ! i = CHR ''/'' \<and> followed_by src i (CHR ''/'') then
        (map blank (bytes_between src i (line_end src i)), line_end src i)
      else if src ! i = CHR ''/'' \<and> followed_by src i (CHR ''*'') then
        (map blank (bytes_between src i (block_end src i)), block_end src i)
      else ([src ! i], i + 1))"

lemma line_end_progress: "i < length src \<Longrightarrow> src ! i \<noteq> CHR 0x0A \<Longrightarrow> i < line_end src i"
  using line_end_ge [of "i + 1" src] by (subst line_end.simps) simp

lemma strip_item_progress: "i < length src \<Longrightarrow> i < snd (strip_item src i) \<and> snd (strip_item src i) \<le> length src"
  using skip_string_progress [of i src] skip_string_le [of i src] line_end_progress [of i src]
    line_end_le [of i src] block_end_le [of i src]
  by (auto simp: strip_item_def followed_by_def)

function strip_from :: "str \<Rightarrow> nat \<Rightarrow> str" where
  "strip_from src i = (if i < length src
     then fst (strip_item src i) @ strip_from src (snd (strip_item src i)) else [])"
  by pat_completeness auto

termination strip_from
  by (relation "measure (\<lambda>(src, i). length src - i)") (auto intro!: diff_less_mono2 simp: strip_item_progress)

declare strip_from.simps [simp del]

definition strip_comments :: "str \<Rightarrow> str outcome" where
  "strip_comments src = (let out = strip_from src 0 in if valid_utf8 out then Done out else Panicked)"

section \<open>Balanced delimiters\<close>

function balance :: "str \<Rightarrow> nat \<Rightarrow> char \<Rightarrow> char \<Rightarrow> nat \<Rightarrow> nat \<Rightarrow> nat outcome" where
  "balance src open_at op cl depth i =
     (if i < length src then
        (let c = src ! i in
         if is_quote c then balance src open_at op cl depth (skip_string src i)
         else if c = op then balance src open_at op cl (depth + 1) (i + 1)
         else if c = cl then
           (if depth = 0 then Panicked
            else if depth = 1 then Done i
            else balance src open_at op cl (depth - 1) (i + 1))
         else balance src open_at op cl depth (i + 1))
      else err_at src open_at (''unbalanced `'' @ [op] @ ''`'') open_at (length src))"
  by pat_completeness auto

termination balance
  by (relation "measure (\<lambda>(src, open_at, op, cl, depth, i). length src - i)")
    (auto intro!: diff_less_mono2 skip_string_progress)

declare balance.simps [simp del]

definition balanced :: "str \<Rightarrow> nat \<Rightarrow> char \<Rightarrow> char \<Rightarrow> nat outcome" where
  "balanced src open_at op cl = balance src open_at op cl 0 open_at"

record split_state =
  sl_from :: nat
  sl_depth :: int
  sl_angle :: int
  sl_prev :: char

text \<open>One byte outside a string: the state after it, and the part that ended there, if one did.\<close>

definition split_byte :: "char list \<Rightarrow> char \<Rightarrow> nat \<Rightarrow> split_state \<Rightarrow> (nat \<times> nat) list \<times> split_state" where
  "split_byte seps c i s =
     (if c \<in> {CHR 0x7B, CHR ''['', CHR ''(''} then ([], s\<lparr>sl_depth := sl_depth s + 1\<rparr>)
      else if c \<in> {CHR 0x7D, CHR '']'', CHR '')''} then ([], s\<lparr>sl_depth := sl_depth s - 1\<rparr>)
      else if c = CHR ''<'' \<and> (is_ascii_alphanumeric (sl_prev s) \<or> sl_prev s = CHR ''_'' \<or> sl_prev s = CHR ''>'')
        then ([], s\<lparr>sl_angle := sl_angle s + 1\<rparr>)
      else if c = CHR ''>'' \<and> 0 < sl_angle s \<and> sl_prev s \<noteq> CHR ''='' then ([], s\<lparr>sl_angle := sl_angle s - 1\<rparr>)
      else if sl_depth s = 0 \<and> sl_angle s = 0 \<and> c \<in> set seps then ([(sl_from s, i)], s\<lparr>sl_from := i + 1\<rparr>)
      else ([], s))"

function split_loop :: "str \<Rightarrow> nat \<Rightarrow> nat \<Rightarrow> char list \<Rightarrow> nat \<Rightarrow> split_state \<Rightarrow> (nat \<times> nat) list outcome" where
  "split_loop src start end_at seps i s =
     (if i < end_at then
        (if length src \<le> i then Panicked
         else let c = src ! i in
           if is_quote c then split_loop src start end_at seps (skip_string src i) (s\<lparr>sl_prev := CHR 0x27\<rparr>)
           else (let (part, s') = split_byte seps c i s in
             if sl_depth s' < 0 then err_at src i ''unbalanced closing delimiter'' start end_at
             else and_then (split_loop src start end_at seps (i + 1)
                 (if is_ascii_whitespace c then s' else s'\<lparr>sl_prev := c\<rparr>))
               (\<lambda>parts. Done (part @ parts))))
      else if sl_depth s \<noteq> 0 then err_at src start ''unbalanced delimiter'' start end_at
      else Done [(sl_from s, end_at)])"
  by pat_completeness auto

termination split_loop
  by (relation "measure (\<lambda>(src, start, end_at, seps, i, s). end_at - i)")
    (auto intro!: diff_less_mono2 skip_string_progress)

declare split_loop.simps [simp del]

definition split_top_level :: "str \<Rightarrow> nat \<Rightarrow> nat \<Rightarrow> char list \<Rightarrow> (nat \<times> nat) list outcome" where
  "split_top_level src start end_at seps = split_loop src start end_at seps start
     \<lparr>sl_from = start, sl_depth = 0, sl_angle = 0, sl_prev = CHR '' ''\<rparr>"

definition find_top_level :: "str \<Rightarrow> nat \<Rightarrow> nat \<Rightarrow> char list \<Rightarrow> nat option outcome" where
  "find_top_level src start end_at seps = and_then (split_top_level src start end_at seps)
     (\<lambda>parts. Done (if 1 < length parts then Some (snd (parts ! 0)) else None))"

section \<open>Names and quotes\<close>

function name_end :: "str \<Rightarrow> nat \<Rightarrow> nat \<Rightarrow> nat" where
  "name_end src i end_at =
     (if i < end_at \<and> (is_ascii_alphanumeric (src ! i) \<or> src ! i = CHR ''_'' \<or> src ! i = CHR 0x24)
      then name_end src (i + 1) end_at else i)"
  by pat_completeness auto

termination name_end
  by (relation "measure (\<lambda>(src, i, end_at). end_at - i)") auto

declare name_end.simps [simp del]

definition property_name :: "str \<Rightarrow> nat \<Rightarrow> nat \<Rightarrow> (str \<times> nat) outcome" where
  "property_name src start end_at =
     (if length src \<le> start then Panicked
      else let c = src ! start in
        if is_quote c then
          (if c = CHR 0x60 then err_at src start ''a stream name must be a plain string'' start end_at
           else (let after = skip_string src start in
             and_then (slice src (start + 1) (after - 1)) (\<lambda>inner.
               if CHR 0x5C \<in> set inner then err src start ''escapes in a stream name are not supported'' inner
               else Done (inner, after))))
        else (let i = name_end src start end_at in
          if i = start then err_at src start ''expected a stream name'' start end_at
          else and_then (slice src start i) (\<lambda>name. Done (name, i))))"

definition strip_quotes :: "str \<Rightarrow> char \<Rightarrow> str option" where
  "strip_quotes s quote = (case s of
       [] \<Rightarrow> None
     | c # r \<Rightarrow>
         if c \<noteq> quote \<or> r = [] \<or> last r \<noteq> quote then None
         else let inner = butlast r in if quote \<in> set inner then None else Some inner)"

end
