(* ===== verification/Codegen_Parse.thy ===== *)
theory Codegen_Parse
  imports Codegen_Scan Model_Catalog
begin

text \<open>
  The reader of \<open>interface StreamerEvents\<close>, \<open>rocketsocket-codegen/src/parse.rs\<close>: keys, argument
  types, entries, streams.  A loop over parts is a recursion over their list; the loop over
  streams is a recursion on the position, which every stream moves forward.
\<close>

section \<open>What is read\<close>

record args_spec =
  ar_source :: str
  ar_arities :: "nat list"
  ar_variadic :: bool

record event =
  ev_key :: key_pattern
  ev_key_source :: str
  ev_args :: args_spec

record stream =
  sr_name :: str
  sr_events :: "event list"

type_synonym catalog = "stream list"

definition event_count :: "catalog \<Rightarrow> nat" where
  "event_count c = sum_list (map (length \<circ> sr_events) c)"

definition catalog_stream :: "catalog \<Rightarrow> str \<Rightarrow> stream option" where
  "catalog_stream c name = find (\<lambda>s. sr_name s = name) c"

section \<open>Keys\<close>

definition HOLE :: str where
  "HOLE = [CHR 0x24, CHR 0x7B] @ ''string'' @ [CHR 0x7D]"

definition OPEN_HOLE :: str where
  "OPEN_HOLE = [CHR 0x24, CHR 0x7B]"

definition strip_suffix :: "str \<Rightarrow> str \<Rightarrow> str option" where
  "strip_suffix p s = map_option rev (strip_prefix (rev p) (rev s))"

definition or_else :: "'a option \<Rightarrow> 'a option \<Rightarrow> 'a option" where
  "or_else a b = (case a of Some x \<Rightarrow> Some x | None \<Rightarrow> b)"

definition template_suffix :: "str \<Rightarrow> str option" where
  "template_suffix inner = Option.bind (strip_prefix HOLE inner) (\<lambda>rest. Option.bind (strip_prefix ''/'' rest)
     (\<lambda>suffix. if suffix \<noteq> [] \<and> \<not> contains suffix OPEN_HOLE then Some suffix else None))"

definition template_prefix :: "str \<Rightarrow> str option" where
  "template_prefix inner = Option.bind (strip_suffix HOLE inner) (\<lambda>head. Option.bind (strip_suffix ''/'' head)
     (\<lambda>prefix. if prefix \<noteq> [] \<and> \<not> contains prefix OPEN_HOLE then Some prefix else None))"

definition TEMPLATE_MESSAGE :: str where
  "TEMPLATE_MESSAGE = ''template-literal key is not one of `'' @ HOLE @ ''`, `'' @ HOLE @ ''/suffix`, `prefix/'' @ HOLE @ ''`''"

definition parse_key :: "str \<Rightarrow> nat \<Rightarrow> nat \<Rightarrow> key_pattern outcome" where
  "parse_key src start end_at = and_then (slice src start end_at) (\<lambda>text.
     case or_else (strip_quotes text (CHR 0x27)) (strip_quotes text (CHR 0x22)) of
       Some inner \<Rightarrow>
         if CHR 0x24 \<in> set inner \<or> CHR 0x5C \<in> set inner then err src start ''quoted key is not a plain literal'' text
         else Done (KpLiteral inner)
     | None \<Rightarrow>
         if text = ''string'' then Done KpAny
         else (case strip_quotes text (CHR 0x60) of
             Some inner \<Rightarrow>
               if inner = HOLE then Done KpAny
               else (case template_suffix inner of
                   Some suffix \<Rightarrow> Done (KpSuffix suffix)
                 | None \<Rightarrow> (case template_prefix inner of
                       Some prefix \<Rightarrow> Done (KpPrefix prefix)
                     | None \<Rightarrow> err src start TEMPLATE_MESSAGE text))
           | None \<Rightarrow> err src start ''key is neither a string literal, a template literal, nor `string`'' text))"

section \<open>Arguments\<close>

definition is_optional_element :: "str \<Rightarrow> nat \<Rightarrow> nat \<Rightarrow> bool outcome" where
  "is_optional_element src from to = and_then (find_top_level src from to '':'') (\<lambda>colon.
     let label_end = (case colon of Some i \<Rightarrow> i | None \<Rightarrow> to);
         (_, stop) = trim_range src from label_end
     in and_then (slice src from stop) (\<lambda>text. Done (ends_with text ''?'')))"

text \<open>The elements of one tuple: how many there are, and up to which they are required.\<close>

fun count_elements :: "str \<Rightarrow> (nat \<times> nat) list \<Rightarrow> nat \<Rightarrow> nat \<Rightarrow> (nat \<times> nat) outcome" where
  "count_elements src [] n required = Done (n, required)"
| "count_elements src ((a, b) # parts) n required =
     (let (ef, et) = trim_range src a b in
      if ef = et then count_elements src parts n required
      else and_then (slice src ef et) (\<lambda>text.
        if starts_with text ''...'' then err_at src ef ''a rest element in an args tuple is not understood'' ef et
        else and_then (is_optional_element src ef et) (\<lambda>optional.
          count_elements src parts (n + 1) (if optional then required else n + 1))))"

definition add_arities :: "nat list \<Rightarrow> nat list \<Rightarrow> nat list" where
  "add_arities new arities = fold (\<lambda>a acc. if a \<in> set acc then acc else acc @ [a]) new arities"

fun read_alternatives :: "str \<Rightarrow> (nat \<times> nat) list \<Rightarrow> nat list \<Rightarrow> bool \<Rightarrow> (nat list \<times> bool) outcome" where
  "read_alternatives src [] arities variadic = Done (arities, variadic)"
| "read_alternatives src ((a, b) # parts) arities variadic =
     (let (from, to) = trim_range src a b in
      if from = to then read_alternatives src parts arities variadic
      else and_then (slice src from to) (\<lambda>text.
        if starts_with text ''['' \<and> ends_with text '']'' then
          and_then (balanced src from (CHR ''['') (CHR '']'')) (\<lambda>cl.
            if cl + 1 \<noteq> to then err src from ''trailing text after an args tuple'' text
            else and_then (split_top_level src (from + 1) (to - 1) '','') (\<lambda>elements.
              and_then (count_elements src elements 0 0) (\<lambda>(n, required).
                read_alternatives src parts (add_arities [required..<n + 1] arities) variadic)))
        else if ends_with text ''[]'' then read_alternatives src parts arities True
        else err src from (''args alternative is neither a tuple `['' @ ELLIPSIS @ '']` nor an array `T[]`'') text))"

definition parse_args :: "str \<Rightarrow> nat \<Rightarrow> nat \<Rightarrow> args_spec outcome" where
  "parse_args src start end_at = and_then (split_top_level src start end_at ''|'') (\<lambda>parts.
     and_then (read_alternatives src parts [] False) (\<lambda>(arities, variadic).
       if arities = [] \<and> \<not> variadic then err_at src start ''args type has no alternatives'' start end_at
       else and_then (slice src start end_at) (\<lambda>text.
         Done \<lparr>ar_source = normalise text, ar_arities = sort arities, ar_variadic = variadic\<rparr>)))"

section \<open>Entries\<close>

type_synonym members = "(key_pattern \<times> str) option \<times> args_spec option"

definition EM_DASH :: str where
  "EM_DASH = map (char_of :: nat \<Rightarrow> char) [226, 128, 148]"

fun read_members :: "str \<Rightarrow> (nat \<times> nat) list \<Rightarrow> members \<Rightarrow> members outcome" where
  "read_members src [] ms = Done ms"
| "read_members src ((a, b) # parts) ms =
     (let (from, to) = trim_range src a b in
      if from = to then read_members src parts ms
      else and_then (find_top_level src from to '':'') (\<lambda>found. case found of
          None \<Rightarrow> err_at src from ''entry member has no `:`'' from to
        | Some colon \<Rightarrow> and_then (slice src from colon) (\<lambda>label.
            let name = trim label; (vf, vt) = trim_range src (colon + 1) to in
            if name = ''key'' then
              (if fst ms \<noteq> None then err_at src from ''duplicate `key` member'' from to
               else and_then (parse_key src vf vt) (\<lambda>key. and_then (slice src vf vt) (\<lambda>text.
                 read_members src parts (Some (key, text), snd ms))))
            else if name = ''args'' then
              (if snd ms \<noteq> None then err_at src from ''duplicate `args` member'' from to
               else and_then (parse_args src vf vt) (\<lambda>args. read_members src parts (fst ms, Some args)))
            else err_at src from (''unexpected member `'' @ name @ ''` '' @ EM_DASH @ '' only `key` and `args` are understood'') from to)))"

definition parse_entry :: "str \<Rightarrow> nat \<Rightarrow> nat \<Rightarrow> event outcome" where
  "parse_entry src start end_at = and_then (split_top_level src start end_at '';,'') (\<lambda>parts.
     and_then (read_members src parts (None, None)) (\<lambda>(key, args). case key of
         None \<Rightarrow> err_at src start ''entry has no `key`'' start end_at
       | Some (k, text) \<Rightarrow> (case args of
             None \<Rightarrow> err_at src start ''entry has no `args`'' start end_at
           | Some a \<Rightarrow> Done \<lparr>ev_key = k, ev_key_source = text, ev_args = a\<rparr>)))"

fun read_entries :: "str \<Rightarrow> (nat \<times> nat) list \<Rightarrow> event list outcome" where
  "read_entries src [] = Done []"
| "read_entries src ((a, b) # parts) =
     (let (from, to) = trim_range src a b in
      if from = to then read_entries src parts
      else and_then (slice src from to) (\<lambda>text.
        if \<not> starts_with text [CHR 0x7B] \<or> \<not> ends_with text [CHR 0x7D] then
          err src from (''expected an entry object `{ key: '' @ ELLIPSIS @ ''; args: '' @ ELLIPSIS @ '' }`'') text
        else and_then (parse_entry src (from + 1) (to - 1)) (\<lambda>e.
          and_then (read_entries src parts) (\<lambda>es. Done (e # es)))))"

definition parse_entries :: "str \<Rightarrow> nat \<Rightarrow> nat \<Rightarrow> event list outcome" where
  "parse_entries src start end_at = and_then (split_top_level src start end_at '','') (\<lambda>parts.
     and_then (read_entries src parts) (\<lambda>events.
       if events = [] then err_at src start ''a stream declared no events'' start end_at else Done events))"

section \<open>Streams\<close>

function skip_semicolons :: "str \<Rightarrow> nat \<Rightarrow> nat \<Rightarrow> nat outcome" where
  "skip_semicolons src pos end_at = (case slice src pos end_at of
       Done text \<Rightarrow> if starts_with text '';'' then skip_semicolons src (skip_ws src (pos + 1)) end_at else Done pos
     | Failed e \<Rightarrow> Failed e
     | Panicked \<Rightarrow> Panicked)"
  by pat_completeness auto

lemma skip_ws_ge: "pos \<le> skip_ws src pos"
  by (induction src pos rule: skip_ws.induct) (subst skip_ws.simps, auto)

lemma slice_Done: "slice src from to = Done text \<longleftrightarrow> from \<le> to \<and> to \<le> length src \<and> is_char_boundary src from
    \<and> is_char_boundary src to \<and> text = take (to - from) (drop from src)"
  by (auto simp: slice_def)

termination skip_semicolons
proof (relation "measure (\<lambda>(src, pos, end_at). end_at - pos)")
  show "((src, skip_ws src (pos + 1), end_at), src, pos, end_at) \<in> measure (\<lambda>(src, pos, end_at). end_at - pos)"
    if "slice src pos end_at = Done t" "starts_with t '';''" for src t and pos end_at :: nat
  proof -
    have "pos \<noteq> end_at" using that by (auto simp: slice_Done starts_with_iff)
    then show ?thesis using that skip_ws_ge [of "pos + 1" src] by (auto simp: slice_Done)
  qed
qed simp

declare skip_semicolons.simps [simp del]

text \<open>One stream at \<open>pos\<close>, and where the next one may begin.\<close>

definition parse_stream :: "str \<Rightarrow> nat \<Rightarrow> nat \<Rightarrow> (stream \<times> nat) outcome" where
  "parse_stream src pos end_at = and_then (property_name src pos end_at) (\<lambda>(name, after).
     let p1 = skip_ws src after in
     and_then (slice src p1 end_at) (\<lambda>text.
       if \<not> starts_with text '':'' then err src p1 ''expected `:` after a stream name'' text
       else (let p2 = skip_ws src (p1 + 1) in
         and_then (slice src p2 end_at) (\<lambda>text2.
           if \<not> starts_with text2 ''['' then
             err src p2 (''expected a `[` '' @ EM_DASH @ '' every StreamerEvents value is an array of entries'') text2
           else and_then (balanced src p2 (CHR ''['') (CHR '']'')) (\<lambda>cl.
             and_then (parse_entries src (p2 + 1) cl) (\<lambda>events.
               Done (\<lparr>sr_name = name, sr_events = events\<rparr>, cl + 1)))))))"

lemma skip_string_ge: "start < length src \<Longrightarrow> start < skip_string src start \<and> skip_string src start \<le> length src"
  using skip_string_progress skip_string_le by blast

lemma and_then_Done: "and_then m f = Done y \<longleftrightarrow> (\<exists>x. m = Done x \<and> f x = Done y)"
  by (cases m) auto

lemma err_not_Done [simp]: "err src i msg ctx \<noteq> Done x"
  by (simp add: err_def and_then_Done)

lemma err_at_not_Done [simp]: "err_at src i msg a b \<noteq> Done x"
  by (simp add: err_at_def and_then_Done)

lemma balance_ge: "balance src open_at op cl depth i = Done j \<Longrightarrow> i \<le> j \<and> j < length src"
proof (induction src open_at op cl depth i rule: balance.induct)
  case (1 src open_at op cl depth i)
  note unfolded = 1(5) [unfolded balance.simps [of src open_at op cl depth i]]
  show ?case
  proof (cases "i < length src")
    case True
    then show ?thesis
      using unfolded 1(1-4) skip_string_progress [of i src]
      by (fastforce simp: Let_def split: if_splits)
  next
    case False
    then show ?thesis using unfolded by simp
  qed
qed

lemma balanced_ge: "balanced src open_at op cl = Done j \<Longrightarrow> open_at \<le> j \<and> j < length src"
  by (simp add: balanced_def balance_ge)

lemma name_end_ge: "i \<le> name_end src i end_at"
  by (induction src i end_at rule: name_end.induct) (subst name_end.simps, auto)

lemma property_name_ge: "property_name src start end_at = Done (name, after) \<Longrightarrow> start < after"
  using name_end_ge [of start src end_at] skip_string_progress [of start src]
  by (auto simp: property_name_def and_then_Done Let_def split: if_splits)

lemma parse_stream_ge:
  assumes "parse_stream src pos end_at = Done (s, next_at)"
  shows "pos < next_at \<and> next_at \<le> length src"
proof -
  from assms obtain name after cl where
    "property_name src pos end_at = Done (name, after)"
    "balanced src (skip_ws src (skip_ws src after + 1)) (CHR ''['') (CHR '']'') = Done cl" "next_at = cl + 1"
    by (auto simp: parse_stream_def and_then_Done Let_def split: if_splits prod.splits)
  with property_name_ge [of src pos end_at name after] balanced_ge
    skip_ws_ge [of after src] skip_ws_ge [of "skip_ws src after + 1" src]
  show ?thesis by fastforce
qed

lemma skip_semicolons_ge: "skip_semicolons src pos end_at = Done p \<Longrightarrow> pos \<le> p"
proof (induction src pos end_at rule: skip_semicolons.induct)
  case (1 src pos end_at)
  note unfolded = 1(2) [unfolded skip_semicolons.simps [of src pos end_at]]
  show ?case
    using unfolded 1(1) skip_ws_ge [of "pos + 1" src] by (fastforce split: outcome.splits if_splits)
qed

function parse_streams :: "str \<Rightarrow> nat \<Rightarrow> nat \<Rightarrow> stream list outcome" where
  "parse_streams src end_at pos = (case skip_semicolons src (skip_ws src pos) end_at of
       Done p \<Rightarrow>
         if end_at \<le> p then Done []
         else (case parse_stream src p end_at of
             Done (s, next_at) \<Rightarrow> and_then (parse_streams src end_at next_at) (\<lambda>ss. Done (s # ss))
           | Failed e \<Rightarrow> Failed e
           | Panicked \<Rightarrow> Panicked)
     | Failed e \<Rightarrow> Failed e
     | Panicked \<Rightarrow> Panicked)"
  by pat_completeness auto

termination parse_streams
proof (relation "measure (\<lambda>(src, end_at, pos). length src - pos)")
  show "((src, end_at, next_at), src, end_at, pos) \<in> measure (\<lambda>(src, end_at, pos). length src - pos)"
    if "skip_semicolons src (skip_ws src pos) end_at = Done p" "parse_stream src p end_at = Done q" "(s, next_at) = q"
    for src end_at pos p q s next_at
    using skip_semicolons_ge [OF that(1)] skip_ws_ge [of pos src] parse_stream_ge [of src p end_at s next_at] that(2,3)
    by auto
qed simp

declare parse_streams.simps [simp del]

definition NEEDLE :: str where
  "NEEDLE = ''interface StreamerEvents''"

definition parse :: "str \<Rightarrow> catalog outcome" where
  "parse source = and_then (strip_comments source) (\<lambda>src.
     case find_text src NEEDLE of
       None \<Rightarrow> err src 0 ''`interface StreamerEvents` not found'' []
     | Some start \<Rightarrow> and_then (slice src start (length src)) (\<lambda>tail.
         case find_text tail [CHR 0x7B] of
           None \<Rightarrow> err src start ''no `{` after `interface StreamerEvents`'' NEEDLE
         | Some i \<Rightarrow> (let brace = start + i in
             and_then (balanced src brace (CHR 0x7B) (CHR 0x7D)) (\<lambda>end_at.
               and_then (parse_streams src end_at (brace + 1)) (\<lambda>streams.
                 if streams = [] then err src (brace + 1) ''`StreamerEvents` parsed as empty'' []
                 else Done streams)))))"

end
