(* ===== verification/Codegen_Positions.thy ===== *)
theory Codegen_Positions
  imports Codegen_Parse
begin

text \<open>
  Blanking comments keeps every position of the source: the parser's offsets and lines are those
  of the file, and the text stays valid.
\<close>

text \<open>A byte of the source and what stands in its place.\<close>

definition blanked :: "char \<Rightarrow> char \<Rightarrow> bool" where
  "blanked b a \<longleftrightarrow> b = a \<or> (b = CHR '' '' \<and> a \<noteq> CHR 0x0A \<and> is_ascii a)"

lemma blanked_blank: "blanked (blank a) a"
  by (auto simp: blanked_def blank_def)

lemma blanked_refl: "list_all2 blanked s s"
  by (simp add: list_all2_same blanked_def)

lemma blanked_map: "list_all2 blanked (map blank s) s"
  by (induction s) (simp_all add: blanked_blank)

lemma bytes_drop: "i \<le> j \<Longrightarrow> drop i s = bytes_between s i j @ drop j s"
  by (metis append_take_drop_id bytes_between_def drop_drop le_add_diff_inverse2)

lemma strip_item_blanked:
  assumes "i < length src"
  shows "list_all2 blanked (fst (strip_item src i)) (bytes_between src i (snd (strip_item src i)))"
proof -
  have "bytes_between src i (Suc i) = [src ! i]"
    using assms by (simp add: bytes_between_def take_Suc_conv_app_nth hd_drop_conv_nth take_Suc)
  then show ?thesis
    by (simp add: strip_item_def blanked_refl blanked_map blanked_def)
qed

lemma strip_from_blanked: "list_all2 blanked (strip_from src i) (drop i src)"
proof (induction src i rule: strip_from.induct)
  case (1 src i)
  show ?case
  proof (cases "i < length src")
    case True
    let ?j = "snd (strip_item src i)"
    have "i \<le> ?j" using strip_item_progress [OF True] by simp
    have "list_all2 blanked (fst (strip_item src i) @ strip_from src ?j) (bytes_between src i ?j @ drop ?j src)"
      by (rule list_all2_appendI [OF strip_item_blanked [OF True] 1 [OF True]])
    moreover have "strip_from src i = fst (strip_item src i) @ strip_from src ?j"
      using True by (subst strip_from.simps) simp
    ultimately show ?thesis by (simp only: bytes_drop [OF \<open>i \<le> ?j\<close>])
  next
    case False
    then show ?thesis by (subst strip_from.simps) simp
  qed
qed

lemma blanked_byte_at:
  assumes "list_all2 blanked xs ys"
  shows "byte_at xs i = byte_at ys i \<or> (byte_at xs i < 128 \<and> byte_at ys i < 128)"
  using list_all2_nthD [OF assms, of i] list_all2_lengthD [OF assms]
  by (auto simp: byte_at_def blanked_def is_ascii_def)

lemma blanked_head:
  assumes "list_all2 blanked xs ys" and "utf8_head ys = (True, n)"
  shows "utf8_head xs = (True, n)"
proof -
  have small: "b < 128 \<Longrightarrow> utf8_width b = 1 \<and> \<not> is_cont b" for b
    by (simp add: utf8_width_def is_cont_def)
  have high: "is_cont (byte_at ys i) \<Longrightarrow> byte_at xs i = byte_at ys i" for i
    using blanked_byte_at [OF assms(1), of i] by (auto simp: is_cont_def)
  show ?thesis
  proof (cases "byte_at xs 0 = byte_at ys 0")
    case True
    from assms(2) show ?thesis
      by (cases rule: head_cases) (use True high [of 1] high [of 2] high [of 3] second_ok_cont in \<open>auto simp: utf8_head_def Let_def\<close>)
  next
    case False
    with blanked_byte_at [OF assms(1), of 0] small have "utf8_width (byte_at xs 0) = 1" "utf8_width (byte_at ys 0) = 1"
      by auto
    then show ?thesis using assms(2) by (simp add: utf8_head_def)
  qed
qed

lemma blanked_valid:
  assumes "valid_utf8 ys" and "list_all2 blanked xs ys"
  shows "valid_utf8 xs"
  using assms
proof (induction ys arbitrary: xs rule: valid_induct)
  case empty
  then show ?case by simp
next
  case (character ys n)
  from character.hyps(1) character.prems have "xs \<noteq> []" by auto
  moreover have "utf8_head xs = (True, n)" by (rule blanked_head [OF character.prems character.hyps(2)])
  moreover have "valid_utf8 (drop n xs)" by (rule character.IH [OF list_all2_dropI [OF character.prems]])
  ultimately show ?case by (simp add: valid_step)
qed

text \<open>Comments are blanked in place.  On any valid source blanking returns, without a panic, a
  valid text of the same length, in which a byte differs only where an ASCII byte other than a
  newline became a space: every offset and line the parser reports is one of the file.\<close>

theorem comments_keep_positions:
  assumes "valid_utf8 src"
  shows "\<exists>out. strip_comments src = Done out \<and> valid_utf8 out \<and> length out = length src
    \<and> (\<forall>i<length src. out ! i = src ! i \<or> (out ! i = CHR '' '' \<and> src ! i \<noteq> CHR 0x0A \<and> is_ascii (src ! i)))"
proof -
  have b: "list_all2 blanked (strip_from src 0) src" using strip_from_blanked [of src 0] by simp
  then have "valid_utf8 (strip_from src 0)" by (rule blanked_valid [OF assms])
  then show ?thesis
    using list_all2_lengthD [OF b] list_all2_nthD [OF b] by (auto simp: strip_comments_def Let_def blanked_def)
qed

theorem comments_keep_positions_witness:
  "\<exists>out. strip_comments ''a//b'' = Done out \<and> length out = 4"
proof -
  have "valid_utf8 ''a//b''"
    by (simp add: valid_utf8_def utf8_chunks.simps utf8_head_def byte_at_def utf8_width_def)
  from comments_keep_positions [OF this] show ?thesis by auto
qed

end
