(* ===== verification/Codegen_Tokens.thy ===== *)
theory Codegen_Tokens
  imports Codegen_Parse
begin

text \<open>
  The scanner over text that is given as tokens, single bytes and whole string literals: positions
  become lengths of what stands before, and each loop of the parser a recursion over tokens.
\<close>

datatype tok = Byte char | Lit char str

primrec tok_text :: "tok \<Rightarrow> str" where
  "tok_text (Byte c) = [c]"
| "tok_text (Lit q b) = q # b @ [q]"

definition flat :: "tok list \<Rightarrow> str" where
  "flat ts = concat (map tok_text ts)"

primrec tok_ok :: "tok \<Rightarrow> bool" where
  "tok_ok (Byte c) = (\<not> is_quote c \<and> is_ascii c \<and> c \<noteq> CHR ''/'' \<and> c \<noteq> CHR 0x0A \<and> \<not> is_ascii_whitespace c)"
| "tok_ok (Lit q b) = (is_quote q \<and> q \<notin> set b \<and> CHR 0x5C \<notin> set b \<and> list_all is_ascii b)"

lemma flat_simps [simp]: "flat [] = []" "flat (t # ts) = tok_text t @ flat ts" "flat (ts @ us) = flat ts @ flat us"
  by (simp_all add: flat_def)

lemma flat_bytes [simp]: "flat (map Byte s) = s"
  by (induction s) simp_all

section \<open>String literals\<close>

lemma skip_from_lit:
  "q \<notin> set b \<Longrightarrow> CHR 0x5C \<notin> set b \<Longrightarrow> q \<noteq> CHR 0x5C \<Longrightarrow> src = pre @ b @ q # post
    \<Longrightarrow> skip_from src q (length pre) = length pre + length b + 1"
proof (induction b arbitrary: pre)
  case Nil
  then show ?case by (subst skip_from.simps) simp
next
  case (Cons c b)
  have "skip_from src q (length pre) = skip_from src q (length (pre @ [c]))"
    using Cons.prems by (subst skip_from.simps) auto
  also have "\<dots> = length (pre @ [c]) + length b + 1"
    using Cons.prems by (intro Cons.IH) simp_all
  finally show ?case by simp
qed

lemma quote_not_backslash: "is_quote q \<Longrightarrow> q \<noteq> CHR 0x5C"
  by (auto simp: is_quote_def)

lemma skip_string_lit:
  assumes "tok_ok (Lit q b)" and "src = pre @ tok_text (Lit q b) @ post"
  shows "skip_string src (length pre) = length pre + length (tok_text (Lit q b))"
proof -
  have "skip_from src q (length (pre @ [q])) = length (pre @ [q]) + length b + 1"
    using assms by (intro skip_from_lit [where post = post]) (simp_all add: quote_not_backslash)
  then show ?thesis using assms(2) by (simp add: skip_string_def)
qed

section \<open>Balanced delimiters\<close>

fun depth_run :: "char \<Rightarrow> char \<Rightarrow> tok list \<Rightarrow> nat \<Rightarrow> nat option" where
  "depth_run op cl [] d = Some d"
| "depth_run op cl (Lit q b # ts) d = depth_run op cl ts d"
| "depth_run op cl (Byte c # ts) d =
     (if c = op then depth_run op cl ts (d + 1)
      else if c = cl then (if d \<le> 1 then None else depth_run op cl ts (d - 1))
      else depth_run op cl ts d)"

lemma depth_run_append: "depth_run op cl (ts @ us) d = Option.bind (depth_run op cl ts d) (depth_run op cl us)"
  by (induction op cl ts d rule: depth_run.induct) simp_all

lemma depth_run_bytes:
  "op \<notin> set s \<Longrightarrow> cl \<notin> set s \<Longrightarrow> depth_run op cl (map Byte s) d = Some d"
  by (induction s) auto

lemma balance_toks:
  "depth_run op cl ts d = Some d' \<Longrightarrow> list_all tok_ok ts \<Longrightarrow> src = pre @ flat ts @ post
    \<Longrightarrow> balance src open_at op cl d (length pre) = balance src open_at op cl d' (length pre + length (flat ts))"
proof (induction ts arbitrary: pre d)
  case Nil
  then show ?case by simp
next
  case (Cons t ts)
  show ?case
  proof (cases t)
    case (Byte c)
    have rest: "balance src open_at op cl e (length (pre @ [c])) = balance src open_at op cl d' (length (pre @ [c]) + length (flat ts))"
      if "depth_run op cl ts e = Some d'" for e
      using that Cons.prems Byte by (intro Cons.IH) simp_all
    show ?thesis
      using Cons.prems Byte rest [of "d + 1"] rest [of d] rest [of "d - 1"]
      by (subst balance.simps) (auto split: if_splits)
  next
    case (Lit q b)
    have "skip_string src (length pre) = length pre + length (tok_text t)"
      using Cons.prems Lit by (intro skip_string_lit [of q b, folded Lit]) auto
    then have "balance src open_at op cl d (length pre) = balance src open_at op cl d (length (pre @ tok_text t))"
      using Cons.prems Lit by (subst balance.simps) simp
    also have "\<dots> = balance src open_at op cl d' (length (pre @ tok_text t) + length (flat ts))"
      using Cons.prems Lit by (intro Cons.IH) simp_all
    finally show ?thesis using Lit by (simp add: add.assoc)
  qed
qed

lemma balanced_toks:
  assumes "depth_run op cl ts 1 = Some 1" and "list_all tok_ok ts" and "src = pre @ op # flat ts @ cl # post"
    and "\<not> is_quote op" and "\<not> is_quote cl" and "op \<noteq> cl"
  shows "balanced src (length pre) op cl = Done (length pre + 1 + length (flat ts))"
proof -
  have "balanced src (length pre) op cl = balance src (length pre) op cl 1 (length (pre @ [op]))"
    using assms unfolding balanced_def by (subst balance.simps) simp
  also have "\<dots> = balance src (length pre) op cl 1 (length (pre @ [op]) + length (flat ts))"
    using assms by (intro balance_toks [where post = "cl # post"]) simp_all
  also have "\<dots> = Done (length pre + 1 + length (flat ts))"
    using assms by (subst balance.simps) (simp add: nth_append)
  finally show ?thesis .
qed

section \<open>Splitting\<close>

fun split_run :: "char list \<Rightarrow> tok list \<Rightarrow> nat \<Rightarrow> split_state \<Rightarrow> ((nat \<times> nat) list \<times> split_state) option" where
  "split_run seps [] i s = Some ([], s)"
| "split_run seps (Lit q b # ts) i s = split_run seps ts (i + length b + 2) (s\<lparr>sl_prev := CHR 0x27\<rparr>)"
| "split_run seps (Byte c # ts) i s = (let (p, s') = split_byte seps c i s in
     if sl_depth s' < 0 then None
     else map_option (\<lambda>(ps, s2). (p @ ps, s2))
       (split_run seps ts (i + 1) (if is_ascii_whitespace c then s' else s'\<lparr>sl_prev := c\<rparr>)))"

lemma split_run_append:
  "split_run seps (ts @ us) i s = Option.bind (split_run seps ts i s)
     (\<lambda>(ps, s'). map_option (\<lambda>(qs, s2). (ps @ qs, s2)) (split_run seps us (i + length (flat ts)) s'))"
proof (induction seps ts i s rule: split_run.induct)
  case (1 seps i s)
  then show ?case by (cases "split_run seps us i s") auto
next
  case (2 seps q b ts i s)
  then show ?case by (simp add: algebra_simps)
next
  case (3 seps c ts i s)
  obtain p s' where sb: "split_byte seps c i s = (p, s')" by force
  show ?case
    using 3 sb by (cases "split_run seps ts (i + 1) (if is_ascii_whitespace c then s' else s'\<lparr>sl_prev := c\<rparr>)")
      (auto simp: option.map_comp comp_def split: prod.splits option.splits intro!: option.map_cong)
qed

lemma and_then_assoc: "and_then (and_then m f) g = and_then m (\<lambda>x. and_then (f x) g)"
  by (cases m) simp_all

lemma and_then_Done_id [simp]: "and_then m Done = m"
  by (cases m) simp_all

lemma split_loop_toks:
  "split_run seps ts (length pre) s = Some (ps, s') \<Longrightarrow> list_all tok_ok ts \<Longrightarrow> src = pre @ flat ts @ post
    \<Longrightarrow> length pre + length (flat ts) \<le> end_at
    \<Longrightarrow> split_loop src start end_at seps (length pre) s
      = and_then (split_loop src start end_at seps (length pre + length (flat ts)) s') (\<lambda>parts. Done (ps @ parts))"
proof (induction ts arbitrary: pre s ps)
  case Nil
  then show ?case by simp
next
  case (Cons t ts)
  show ?case
  proof (cases t)
    case (Byte c)
    obtain p s1 where sb: "split_byte seps c (length pre) s = (p, s1)" by force
    let ?s1 = "if is_ascii_whitespace c then s1 else s1\<lparr>sl_prev := c\<rparr>"
    from Cons.prems(1) Byte sb obtain qs where
      d: "\<not> sl_depth s1 < 0" and r: "split_run seps ts (length (pre @ [c])) ?s1 = Some (qs, s')" and ps: "ps = p @ qs"
      by (auto split: if_splits option.splits prod.splits)
    have "split_loop src start end_at seps (length pre) s
        = and_then (split_loop src start end_at seps (length (pre @ [c])) ?s1) (\<lambda>parts. Done (p @ parts))"
      using Cons.prems Byte sb d by (subst split_loop.simps) (simp add: Let_def)
    also have "split_loop src start end_at seps (length (pre @ [c])) ?s1
        = and_then (split_loop src start end_at seps (length (pre @ [c]) + length (flat ts)) s') (\<lambda>parts. Done (qs @ parts))"
      using Cons.prems Byte by (intro Cons.IH [OF r]) simp_all
    finally show ?thesis using Byte ps by (simp add: and_then_assoc)
  next
    case (Lit q b)
    have "skip_string src (length pre) = length pre + length (tok_text t)"
      using Cons.prems Lit by (intro skip_string_lit [of q b, folded Lit]) auto
    then have "split_loop src start end_at seps (length pre) s
        = split_loop src start end_at seps (length (pre @ tok_text t)) (s\<lparr>sl_prev := CHR 0x27\<rparr>)"
      using Cons.prems Lit by (subst split_loop.simps) simp
    also have "\<dots> = and_then (split_loop src start end_at seps (length (pre @ tok_text t) + length (flat ts)) s') (\<lambda>parts. Done (ps @ parts))"
      using Cons.prems Lit by (intro Cons.IH) (simp_all add: algebra_simps)
    finally show ?thesis using Lit by (simp add: add.assoc)
  qed
qed

definition split_start :: "nat \<Rightarrow> split_state" where
  "split_start start = \<lparr>sl_from = start, sl_depth = 0, sl_angle = 0, sl_prev = CHR '' ''\<rparr>"

lemma split_top_level_toks:
  assumes "split_run seps ts (length pre) (split_start (length pre)) = Some (ps, s')" and "sl_depth s' = 0"
    and "list_all tok_ok ts" and "src = pre @ flat ts @ post" and "end_at = length pre + length (flat ts)"
  shows "split_top_level src (length pre) end_at seps = Done (ps @ [(sl_from s', end_at)])"
proof -
  have "split_top_level src (length pre) end_at seps
      = and_then (split_loop src (length pre) end_at seps end_at s') (\<lambda>parts. Done (ps @ parts))"
    using split_loop_toks [OF assms(1,3,4), of end_at "length pre"] assms(5)
    by (simp add: split_top_level_def split_start_def)
  then show ?thesis using assms(2) by (simp add: split_loop.simps [of src "length pre" end_at seps end_at])
qed

end
