(* ===== verification/Codegen_Pieces.thy ===== *)
theory Codegen_Pieces
  imports Codegen_Tokens
begin

text \<open>
  Token lists the scanner passes over, \<open>piece\<close>: their bytes are none that start a comment, they
  leave no bracket open, and splitting finds no separator in them, nowhere or at least not inside
  a bracket.  Pieces are closed under everything the grammar of the sources builds.
\<close>

section \<open>Characters\<close>

definition name_char :: "char \<Rightarrow> bool" where
  "name_char c = (is_ascii_alphanumeric c \<or> c = CHR ''_'')"

definition wf_name :: "str \<Rightarrow> bool" where
  "wf_name n = (n \<noteq> [] \<and> list_all name_char n)"

lemma name_char_range: "name_char c \<Longrightarrow> (of_char c :: nat) \<in> {48..57} \<union> {65..90} \<union> {95} \<union> {97..122}"
  by (auto simp: name_char_def is_ascii_alphanumeric_def Let_def)

lemma name_char_not:
  assumes "name_char c"
  shows "c \<notin> {CHR 0x7B, CHR ''['', CHR ''('', CHR 0x7D, CHR '']'', CHR '')'', CHR ''<'', CHR ''>'', CHR ''='', CHR '','',
     CHR '';'', CHR '':'', CHR ''|'', CHR ''/'', CHR ''?'', CHR ''.'', CHR 0x27, CHR 0x22, CHR 0x60, CHR 0x5C, CHR 0x24, CHR '' '',
     CHR 0x09, CHR 0x0A, CHR 0x0C, CHR 0x0D}"
  using name_char_range [OF assms] by auto

lemma name_char_ok: "name_char c \<Longrightarrow> tok_ok (Byte c)"
  using name_char_not [of c] name_char_range [of c]
  by (auto simp: is_quote_def is_ascii_def is_ascii_whitespace_def)

lemma last_name: "wf_name n \<Longrightarrow> name_char (last n)"
  by (simp add: wf_name_def list_all_iff)

text \<open>The separators the parser splits at, and the brackets.\<close>

definition SEPARATORS :: "char set" where
  "SEPARATORS = {CHR '','', CHR '';'', CHR '':'', CHR ''|''}"

definition brackets :: "char \<Rightarrow> char \<Rightarrow> bool" where
  "brackets op cl \<longleftrightarrow> (op = CHR 0x7B \<and> cl = CHR 0x7D) \<or> (op = CHR ''['' \<and> cl = CHR '']'') \<or> (op = CHR ''('' \<and> cl = CHR '')'')"

lemma SEPARATORS_cases:
  assumes "c \<in> SEPARATORS" obtains "c = CHR '',''" | "c = CHR '';''" | "c = CHR '':''" | "c = CHR ''|''"
  using assms unfolding SEPARATORS_def by blast

lemma brackets_cases:
  assumes "brackets op cl" obtains "op = CHR 0x7B" "cl = CHR 0x7D" | "op = CHR ''[''" "cl = CHR '']''" | "op = CHR ''(''" "cl = CHR '')''"
  using assms unfolding brackets_def by blast

section \<open>Brackets left as they are\<close>

definition enclosed :: "char \<Rightarrow> char \<Rightarrow> tok list \<Rightarrow> bool" where
  "enclosed op cl ts \<longleftrightarrow> (\<forall>d\<ge>1. depth_run op cl ts d = Some d)"

lemma enclosed_append: "enclosed op cl ts \<Longrightarrow> enclosed op cl us \<Longrightarrow> enclosed op cl (ts @ us)"
  by (simp add: enclosed_def depth_run_append)

lemma enclosed_byte: "c \<noteq> op \<Longrightarrow> c \<noteq> cl \<Longrightarrow> enclosed op cl [Byte c]"
  by (simp add: enclosed_def)

lemma enclosed_bytes: "op \<notin> set s \<Longrightarrow> cl \<notin> set s \<Longrightarrow> enclosed op cl (map Byte s)"
  by (simp add: enclosed_def depth_run_bytes)

lemma enclosed_wrap:
  "enclosed op cl ts \<Longrightarrow> op \<noteq> cl \<Longrightarrow> o2 \<noteq> cl \<Longrightarrow> c2 \<noteq> op \<Longrightarrow> o2 = op \<longleftrightarrow> c2 = cl \<Longrightarrow> enclosed op cl (Byte o2 # ts @ [Byte c2])"
  by (cases "o2 = op") (simp_all add: enclosed_def depth_run_append)

section \<open>Separators not seen\<close>

definition nested :: "split_state \<Rightarrow> bool" where
  "nested s \<longleftrightarrow> 0 < sl_depth s \<or> 0 < sl_angle s"

definition level :: "split_state \<Rightarrow> bool" where
  "level s \<longleftrightarrow> 0 \<le> sl_depth s \<and> 0 \<le> sl_angle s"

text \<open>Text that is split nowhere, and leaves the counters as they are.  It does not end in \<open>=\<close>,
  after which an angle bracket would be read as an arrow.\<close>

definition quiet_at :: "char list \<Rightarrow> tok list \<Rightarrow> split_state \<Rightarrow> bool" where
  "quiet_at seps ts s \<longleftrightarrow> (\<forall>i. \<exists>p. p \<noteq> CHR ''='' \<and> split_run seps ts i s = Some ([], s\<lparr>sl_prev := p\<rparr>))"

definition quiet :: "bool \<Rightarrow> char list \<Rightarrow> tok list \<Rightarrow> bool" where
  "quiet inside seps ts \<longleftrightarrow>
     (\<forall>s. level s \<and> (inside \<longrightarrow> nested s) \<and> sl_prev s \<noteq> CHR ''='' \<longrightarrow> quiet_at seps ts s)"

lemma split_byte_other:
  "c \<noteq> CHR 0x7B \<Longrightarrow> c \<noteq> CHR ''['' \<Longrightarrow> c \<noteq> CHR ''('' \<Longrightarrow> c \<noteq> CHR 0x7D \<Longrightarrow> c \<noteq> CHR '']'' \<Longrightarrow> c \<noteq> CHR '')''
    \<Longrightarrow> c \<noteq> CHR ''<'' \<Longrightarrow> c \<noteq> CHR ''>'' \<Longrightarrow> c \<notin> set seps \<or> nested s \<Longrightarrow> split_byte seps c i s = ([], s)"
  unfolding split_byte_def nested_def by (cases "sl_angle s = 0"; cases "sl_depth s = 0") simp_all

lemma split_byte_name:
  assumes "name_char c" and "set seps \<subseteq> SEPARATORS"
  shows "split_byte seps c i s = ([], s)"
proof (rule split_byte_other)
  have "c \<notin> SEPARATORS" using name_char_not [OF assms(1)] by (simp add: SEPARATORS_def)
  then show "c \<notin> set seps \<or> nested s" using assms(2) by blast
qed (use name_char_not [OF assms(1)] in simp_all)

lemma split_run_name:
  assumes "wf_name n" and "set seps \<subseteq> SEPARATORS" and "level s"
  shows "split_run seps (map Byte n) i s = Some ([], s\<lparr>sl_prev := last n\<rparr>)"
proof -
  have "split_run seps (map Byte n) i s = Some ([], if n = [] then s else s\<lparr>sl_prev := last n\<rparr>)"
    if "list_all name_char n" "level s" for n i s
    using that
  proof (induction n arbitrary: i s)
    case (Cons c n)
    have "\<not> is_ascii_whitespace c" using Cons.prems name_char_not [of c] by (auto simp: is_ascii_whitespace_def)
    then show ?case
      using Cons split_byte_name [of c seps i s] assms(2) by (auto simp: level_def)
  qed simp
  then show ?thesis using assms by (simp add: wf_name_def)
qed

lemma quietI: "(\<And>s. level s \<Longrightarrow> (inside \<Longrightarrow> nested s) \<Longrightarrow> sl_prev s \<noteq> CHR ''='' \<Longrightarrow> quiet_at seps ts s) \<Longrightarrow> quiet inside seps ts"
  by (simp add: quiet_def)

lemma quietD:
  assumes "quiet inside seps ts" and "level s" and "inside \<Longrightarrow> nested s" and "sl_prev s \<noteq> CHR ''=''"
  obtains p where "p \<noteq> CHR ''=''" "split_run seps ts i s = Some ([], s\<lparr>sl_prev := p\<rparr>)"
proof -
  have "quiet_at seps ts s" using assms unfolding quiet_def by simp
  from this [unfolded quiet_at_def, rule_format, of i] that show thesis by (elim exE conjE)
qed

lemma quiet_Nil: "quiet inside seps []"
proof (rule quietI)
  fix s :: split_state assume "sl_prev s \<noteq> CHR ''=''"
  then show "quiet_at seps [] s"
    unfolding quiet_at_def by (intro allI exI [of _ "sl_prev s"]) simp
qed

lemma quiet_append:
  assumes "quiet inside seps ts" and "quiet inside seps us"
  shows "quiet inside seps (ts @ us)"
proof (rule quietI)
  fix s :: split_state assume s: "level s" "inside \<Longrightarrow> nested s" "sl_prev s \<noteq> CHR ''=''"
  show "quiet_at seps (ts @ us) s"
    unfolding quiet_at_def
  proof
    fix i
    obtain p where p: "p \<noteq> CHR ''=''" "split_run seps ts i s = Some ([], s\<lparr>sl_prev := p\<rparr>)"
      by (rule quietD [OF assms(1) s])
    have "level (s\<lparr>sl_prev := p\<rparr>)" "inside \<Longrightarrow> nested (s\<lparr>sl_prev := p\<rparr>)"
      using s by (simp_all add: level_def nested_def)
    moreover have "sl_prev (s\<lparr>sl_prev := p\<rparr>) \<noteq> CHR ''=''" using p(1) by simp
    ultimately obtain q where "q \<noteq> CHR ''=''"
      "split_run seps us (i + length (flat ts)) (s\<lparr>sl_prev := p\<rparr>) = Some ([], s\<lparr>sl_prev := p\<rparr>\<lparr>sl_prev := q\<rparr>)"
      by (rule quietD [OF assms(2)])
    with p(2) show "\<exists>p. p \<noteq> CHR ''='' \<and> split_run seps (ts @ us) i s = Some ([], s\<lparr>sl_prev := p\<rparr>)"
      by (auto simp: split_run_append)
  qed
qed

lemma quiet_name: "wf_name n \<Longrightarrow> set seps \<subseteq> SEPARATORS \<Longrightarrow> quiet inside seps (map Byte n)"
  using last_name [of n] name_char_not [of "last n"] by (auto simp: quiet_def quiet_at_def split_run_name)

lemma quiet_lit: "quiet inside seps [Lit q b]"
  by (auto simp: quiet_def quiet_at_def)

lemma quiet_byte:
  assumes "c \<in> SEPARATORS \<or> c = CHR ''?''" and "inside \<or> c \<notin> set seps"
  shows "quiet inside seps [Byte c]"
proof (rule quietI)
  fix s :: split_state assume s: "level s" "inside \<Longrightarrow> nested s"
  have c: "c \<notin> set seps \<or> nested s" using assms(2) s(2) by blast
  have "split_byte seps c i s = ([], s) \<and> \<not> is_ascii_whitespace c \<and> c \<noteq> CHR ''=''" for i
    using assms(1) c by (elim disjE SEPARATORS_cases) (simp_all add: split_byte_other is_ascii_whitespace_def)
  then show "quiet_at seps [Byte c] s" using s(1) by (auto simp: quiet_at_def level_def)
qed

lemma quiet_arrow:
  assumes "set seps \<subseteq> SEPARATORS"
  shows "quiet inside seps [Byte (CHR ''=''), Byte (CHR ''>'')]"
proof (rule quietI)
  fix s :: split_state assume s: "level s"
  have "CHR ''='' \<notin> SEPARATORS" "CHR ''>'' \<notin> SEPARATORS" by (simp_all add: SEPARATORS_def)
  then have no: "CHR ''='' \<notin> set seps" "CHR ''>'' \<notin> set seps" using assms by blast+
  have "split_byte seps (CHR ''='') i s = ([], s)" for i using no by (intro split_byte_other) simp_all
  moreover have "split_byte seps (CHR ''>'') i (s\<lparr>sl_prev := CHR ''=''\<rparr>) = ([], s\<lparr>sl_prev := CHR ''=''\<rparr>)" for i
    using no by (simp add: split_byte_def)
  ultimately show "quiet_at seps [Byte (CHR ''=''), Byte (CHR ''>'')] s"
    using s by (auto simp: quiet_at_def level_def is_ascii_whitespace_def)
qed

lemma quiet_wrap:
  assumes "brackets c d" and "quiet True seps ts"
  shows "quiet inside seps (Byte c # ts @ [Byte d])"
proof (rule quietI)
  fix s :: split_state assume s: "level s"
  let ?s = "s\<lparr>sl_depth := sl_depth s + 1, sl_prev := c\<rparr>"
  have o: "split_byte seps c i s1 = ([], s1\<lparr>sl_depth := sl_depth s1 + 1\<rparr>)" "\<not> is_ascii_whitespace c" "c \<noteq> CHR ''=''" for i s1
    using assms(1) by (elim brackets_cases; simp add: split_byte_def is_ascii_whitespace_def)+
  have d: "split_byte seps d j s1 = ([], s1\<lparr>sl_depth := sl_depth s1 - 1\<rparr>)" "\<not> is_ascii_whitespace d" "d \<noteq> CHR ''=''" for j s1
    using assms(1) by (elim brackets_cases; simp add: split_byte_def is_ascii_whitespace_def)+
  show "quiet_at seps (Byte c # ts @ [Byte d]) s"
    unfolding quiet_at_def
  proof
    fix i
    have "level ?s" "True \<Longrightarrow> nested ?s" "sl_prev ?s \<noteq> CHR ''=''" using s o(3) by (simp_all add: level_def nested_def)
    then obtain p where p: "split_run seps ts (i + 1) ?s = Some ([], ?s\<lparr>sl_prev := p\<rparr>)"
      by (rule quietD [OF assms(2)])
    have "split_run seps (ts @ [Byte d]) (i + 1) ?s = Some ([], s\<lparr>sl_prev := d\<rparr>)"
      using p d s by (simp add: split_run_append level_def)
    then show "\<exists>p. p \<noteq> CHR ''='' \<and> split_run seps (Byte c # ts @ [Byte d]) i s = Some ([], s\<lparr>sl_prev := p\<rparr>)"
      using o d s by (auto simp: level_def)
  qed
qed

lemma quiet_generic:
  assumes "wf_name n" and "set seps \<subseteq> SEPARATORS" and "quiet True seps ts"
  shows "quiet inside seps (map Byte n @ Byte (CHR ''<'') # ts @ [Byte (CHR ''>'')])"
proof (rule quietI)
  fix s :: split_state assume s: "level s"
  let ?s = "s\<lparr>sl_angle := sl_angle s + 1, sl_prev := CHR ''<''\<rparr>"
  show "quiet_at seps (map Byte n @ Byte (CHR ''<'') # ts @ [Byte (CHR ''>'')]) s"
    unfolding quiet_at_def
  proof
    fix i
    let ?i = "i + length n"
    have n: "split_run seps (map Byte n) i s = Some ([], s\<lparr>sl_prev := last n\<rparr>)"
      by (rule split_run_name [OF assms(1,2) s])
    have lt: "split_byte seps (CHR ''<'') ?i (s\<lparr>sl_prev := last n\<rparr>) = ([], s\<lparr>sl_prev := last n, sl_angle := sl_angle s + 1\<rparr>)"
      using last_name [OF assms(1)] unfolding split_byte_def name_char_def by (elim disjE) simp_all
    have "level ?s" "True \<Longrightarrow> nested ?s" "sl_prev ?s \<noteq> CHR ''=''" using s by (simp_all add: level_def nested_def)
    then obtain p where p: "p \<noteq> CHR ''=''" "split_run seps ts (?i + 1) ?s = Some ([], ?s\<lparr>sl_prev := p\<rparr>)"
      by (rule quietD [OF assms(3)])
    have "split_run seps (ts @ [Byte (CHR ''>'')]) (?i + 1) ?s = Some ([], s\<lparr>sl_prev := CHR ''>''\<rparr>)"
      using p s by (simp add: split_run_append level_def split_byte_def is_ascii_whitespace_def)
    then show "\<exists>p. p \<noteq> CHR ''='' \<and> split_run seps (map Byte n @ Byte (CHR ''<'') # ts @ [Byte (CHR ''>'')]) i s
        = Some ([], s\<lparr>sl_prev := p\<rparr>)"
      using n lt s by (auto simp: split_run_append level_def is_ascii_whitespace_def add.assoc)
  qed
qed

section \<open>Pieces\<close>

definition piece :: "bool \<Rightarrow> char list \<Rightarrow> tok list \<Rightarrow> bool" where
  "piece inside seps ts \<longleftrightarrow> list_all tok_ok ts \<and> enclosed (CHR 0x7B) (CHR 0x7D) ts \<and> enclosed (CHR ''['') (CHR '']'') ts
     \<and> set seps \<subseteq> SEPARATORS \<and> quiet inside seps ts"

lemma piece_inside: "piece False seps ts \<Longrightarrow> piece inside seps ts"
  by (auto simp: piece_def quiet_def)

lemma piece_Nil: "set seps \<subseteq> SEPARATORS \<Longrightarrow> piece inside seps []"
  by (simp add: piece_def enclosed_def quiet_Nil)

lemma piece_append: "piece inside seps ts \<Longrightarrow> piece inside seps us \<Longrightarrow> piece inside seps (ts @ us)"
  by (simp add: piece_def enclosed_append quiet_append)

lemma piece_Cons: "piece inside seps [t] \<Longrightarrow> piece inside seps ts \<Longrightarrow> piece inside seps (t # ts)"
  using piece_append [of inside seps "[t]" ts] by simp

lemma piece_lit: "tok_ok (Lit q b) \<Longrightarrow> set seps \<subseteq> SEPARATORS \<Longrightarrow> piece inside seps [Lit q b]"
  unfolding piece_def by (simp add: enclosed_def quiet_lit del: tok_ok.simps)

lemma piece_byte:
  assumes "c \<in> SEPARATORS \<or> c = CHR ''?''" and "inside \<or> c \<notin> set seps" and "set seps \<subseteq> SEPARATORS"
  shows "piece inside seps [Byte c]"
proof -
  have "tok_ok (Byte c) \<and> enclosed (CHR 0x7B) (CHR 0x7D) [Byte c] \<and> enclosed (CHR ''['') (CHR '']'') [Byte c]"
    using assms(1) by (elim disjE SEPARATORS_cases)
      (simp_all add: enclosed_byte is_quote_def is_ascii_def is_ascii_whitespace_def)
  then show ?thesis using quiet_byte [OF assms(1,2)] assms(3) unfolding piece_def by (simp del: tok_ok.simps)
qed

lemma piece_arrow: "set seps \<subseteq> SEPARATORS \<Longrightarrow> piece inside seps [Byte (CHR ''=''), Byte (CHR ''>'')]"
  by (simp add: piece_def enclosed_def quiet_arrow is_quote_def is_ascii_def is_ascii_whitespace_def)

lemma name_not_in:
  assumes "wf_name n" and "\<not> name_char c" shows "c \<notin> set n"
  using assms by (auto simp: wf_name_def list_all_iff)

lemma piece_name:
  assumes "wf_name n" and "set seps \<subseteq> SEPARATORS"
  shows "piece inside seps (map Byte n)"
proof -
  have "\<not> name_char (CHR 0x7B)" "\<not> name_char (CHR 0x7D)" "\<not> name_char (CHR ''['')" "\<not> name_char (CHR '']'')"
    by (simp_all add: name_char_def is_ascii_alphanumeric_def)
  moreover have "list_all tok_ok (map Byte n)"
    using assms(1) name_char_ok by (simp add: wf_name_def list_all_iff del: tok_ok.simps)
  ultimately show ?thesis
    using assms quiet_name unfolding piece_def by (simp add: enclosed_bytes name_not_in)
qed

lemma piece_wrap:
  assumes "brackets c d" and "piece True seps ts"
  shows "piece inside seps (Byte c # ts @ [Byte d])"
proof -
  have "tok_ok (Byte c) \<and> tok_ok (Byte d) \<and> enclosed (CHR 0x7B) (CHR 0x7D) (Byte c # ts @ [Byte d])
      \<and> enclosed (CHR ''['') (CHR '']'') (Byte c # ts @ [Byte d])"
    using assms by (elim brackets_cases)
      (simp_all add: piece_def enclosed_wrap is_quote_def is_ascii_def is_ascii_whitespace_def)
  then show ?thesis using assms quiet_wrap unfolding piece_def by (simp del: tok_ok.simps)
qed

lemma piece_generic:
  assumes "wf_name n" and "piece True seps ts"
  shows "piece inside seps (map Byte n @ Byte (CHR ''<'') # ts @ [Byte (CHR ''>'')])"
proof -
  have seps: "set seps \<subseteq> SEPARATORS" using assms(2) by (simp add: piece_def)
  have n: "piece inside seps (map Byte n)" by (rule piece_name [OF assms(1) seps])
  have "enclosed op cl (Byte (CHR ''<'') # ts @ [Byte (CHR ''>'')])"
    if "enclosed op cl ts" "CHR ''<'' \<noteq> op" "CHR ''<'' \<noteq> cl" "CHR ''>'' \<noteq> op" "CHR ''>'' \<noteq> cl" for op cl
    using that by (simp add: enclosed_def depth_run_append)
  then have e: "enclosed (CHR 0x7B) (CHR 0x7D) (Byte (CHR ''<'') # ts @ [Byte (CHR ''>'')])"
    "enclosed (CHR ''['') (CHR '']'') (Byte (CHR ''<'') # ts @ [Byte (CHR ''>'')])"
    using assms(2) by (simp_all add: piece_def)
  have "tok_ok (Byte (CHR ''<''))" "tok_ok (Byte (CHR ''>''))"
    by (simp_all add: is_quote_def is_ascii_def is_ascii_whitespace_def)
  then show ?thesis
    using n assms(2) e quiet_generic [OF assms(1) seps] unfolding piece_def
    by (simp add: enclosed_append del: tok_ok.simps)
qed

fun between :: "char \<Rightarrow> tok list list \<Rightarrow> tok list" where
  "between c [] = []"
| "between c [x] = x"
| "between c (x # y # zs) = x @ Byte c # between c (y # zs)"

lemma piece_between:
  assumes "piece inside seps [Byte c]" and "set seps \<subseteq> SEPARATORS" and "\<And>ts. ts \<in> set tss \<Longrightarrow> piece inside seps ts"
  shows "piece inside seps (between c tss)"
  using assms by (induction c tss rule: between.induct) (auto intro: piece_Nil piece_append piece_Cons)

lemma piece_concat:
  assumes "set seps \<subseteq> SEPARATORS" and "\<And>ts. ts \<in> set tss \<Longrightarrow> piece inside seps ts"
  shows "piece inside seps (concat tss)"
  using assms by (induction tss) (auto intro: piece_Nil piece_append)

end
