(* ===== verification/Codegen_Grammar.thy ===== *)
theory Codegen_Grammar
  imports Codegen_Pieces
begin

text \<open>
  The sources the parser is written for, as a grammar: TypeScript types with generics, arrays,
  objects, callbacks, unions and string literals; tuples of labelled and optional elements; keys,
  entries and streams.  Each is printed as tokens, without layout, and means a catalog.
\<close>

section \<open>Sources\<close>

datatype ty =
    TyName str
  | TyApp str "ty list"
  | TyArray ty
  | TyObj "(str \<times> ty) list"
  | TyLit str
  | TyFun "ty list" ty
  | TyUnion ty ty

datatype element = Element "str option" bool ty

datatype alternative = TupleOf "element list" | ArrayOf ty

datatype entry_decl = EntryDecl key_pattern "alternative list"

datatype stream_decl = StreamDecl str "entry_decl list"

section \<open>Printing\<close>

abbreviation word :: "str \<Rightarrow> tok list" where
  "word s \<equiv> map Byte s"

abbreviation mark :: "char \<Rightarrow> tok list" where
  "mark c \<equiv> [Byte c]"

fun ty_toks :: "ty \<Rightarrow> tok list" where
  "ty_toks (TyName n) = word n"
| "ty_toks (TyApp n ts) = word n @ Byte (CHR ''<'') # between (CHR '','') (map ty_toks ts) @ mark (CHR ''>'')"
| "ty_toks (TyArray t) = ty_toks t @ [Byte (CHR ''[''), Byte (CHR '']'')]"
| "ty_toks (TyObj ms) = Byte (CHR 0x7B) # concat (map (\<lambda>(l, t). word l @ Byte (CHR '':'') # ty_toks t @ mark (CHR '';'')) ms)
     @ mark (CHR 0x7D)"
| "ty_toks (TyLit v) = [Lit (CHR 0x27) v]"
| "ty_toks (TyFun ts t) = (Byte (CHR ''('') # between (CHR '','') (map ty_toks ts) @ mark (CHR '')''))
     @ [Byte (CHR ''=''), Byte (CHR ''>'')] @ ty_toks t"
| "ty_toks (TyUnion t u) = ty_toks t @ mark (CHR ''|'') @ ty_toks u"

definition optional_mark :: "bool \<Rightarrow> tok list" where
  "optional_mark optional = (if optional then mark (CHR ''?'') else [])"

fun element_parts :: "element \<Rightarrow> tok list list" where
  "element_parts (Element (Some l) optional t) = [word l @ optional_mark optional, ty_toks t]"
| "element_parts (Element None optional t) = [ty_toks t @ optional_mark optional]"

definition element_toks :: "element \<Rightarrow> tok list" where
  "element_toks e = between (CHR '':'') (element_parts e)"

fun alternative_toks :: "alternative \<Rightarrow> tok list" where
  "alternative_toks (TupleOf es) = Byte (CHR ''['') # between (CHR '','') (map element_toks es) @ mark (CHR '']'')"
| "alternative_toks (ArrayOf t) = ty_toks t @ [Byte (CHR ''[''), Byte (CHR '']'')]"

definition args_toks :: "alternative list \<Rightarrow> tok list" where
  "args_toks as = between (CHR ''|'') (map alternative_toks as)"

fun key_toks :: "key_pattern \<Rightarrow> tok list" where
  "key_toks (KpLiteral v) = [Lit (CHR 0x27) v]"
| "key_toks (KpSuffix v) = [Lit (CHR 0x60) (HOLE @ ''/'' @ v)]"
| "key_toks (KpPrefix v) = [Lit (CHR 0x60) (v @ ''/'' @ HOLE)]"
| "key_toks KpAny = word ''string''"

fun entry_members :: "entry_decl \<Rightarrow> tok list list" where
  "entry_members (EntryDecl k as) = [word ''key'' @ mark (CHR '':'') @ key_toks k, word ''args'' @ mark (CHR '':'') @ args_toks as]"

definition entry_toks :: "entry_decl \<Rightarrow> tok list" where
  "entry_toks e = Byte (CHR 0x7B) # between (CHR '';'') (entry_members e) @ mark (CHR 0x7D)"

fun stream_toks :: "stream_decl \<Rightarrow> tok list" where
  "stream_toks (StreamDecl n es) = [Lit (CHR 0x27) n] @ mark (CHR '':'')
     @ (Byte (CHR ''['') # between (CHR '','') (map entry_toks es) @ mark (CHR '']'')) @ mark (CHR '';'')"

definition print :: "stream_decl list \<Rightarrow> str" where
  "print ss = NEEDLE @ [CHR 0x7B] @ flat (concat (map stream_toks ss)) @ [CHR 0x7D]"

section \<open>Well-formed sources\<close>

definition wf_text :: "str \<Rightarrow> bool" where
  "wf_text v = (list_all is_ascii v \<and> CHR 0x27 \<notin> set v \<and> CHR 0x5C \<notin> set v)"

fun wf_ty :: "ty \<Rightarrow> bool" where
  "wf_ty (TyName n) = wf_name n"
| "wf_ty (TyApp n ts) = (wf_name n \<and> list_all wf_ty ts)"
| "wf_ty (TyArray t) = wf_ty t"
| "wf_ty (TyObj ms) = list_all (\<lambda>(l, t). wf_name l \<and> wf_ty t) ms"
| "wf_ty (TyLit v) = wf_text v"
| "wf_ty (TyFun ts t) = (list_all wf_ty ts \<and> wf_ty t)"
| "wf_ty (TyUnion t u) = (wf_ty t \<and> wf_ty u)"

text \<open>A type that is no union where an enclosing list of alternatives would see it.\<close>

fun plain :: "ty \<Rightarrow> bool" where
  "plain (TyArray t) = plain t"
| "plain (TyFun ts t) = plain t"
| "plain (TyUnion t u) = False"
| "plain _ = True"

fun wf_element :: "element \<Rightarrow> bool" where
  "wf_element (Element l optional t) = ((case l of None \<Rightarrow> True | Some n \<Rightarrow> wf_name n) \<and> wf_ty t)"

fun wf_alternative :: "alternative \<Rightarrow> bool" where
  "wf_alternative (TupleOf es) = list_all wf_element es"
| "wf_alternative (ArrayOf t) = (wf_ty t \<and> plain t)"

definition wf_template :: "str \<Rightarrow> bool" where
  "wf_template v = (v \<noteq> [] \<and> list_all is_ascii v \<and> CHR 0x60 \<notin> set v \<and> CHR 0x5C \<notin> set v \<and> \<not> contains v OPEN_HOLE)"

fun wf_key :: "key_pattern \<Rightarrow> bool" where
  "wf_key (KpLiteral v) = (wf_text v \<and> CHR 0x24 \<notin> set v)"
| "wf_key (KpSuffix v) = wf_template v"
| "wf_key (KpPrefix v) = wf_template v"
| "wf_key KpAny = True"

fun wf_entry :: "entry_decl \<Rightarrow> bool" where
  "wf_entry (EntryDecl k as) = (wf_key k \<and> as \<noteq> [] \<and> list_all wf_alternative as)"

fun wf_stream :: "stream_decl \<Rightarrow> bool" where
  "wf_stream (StreamDecl n es) = (wf_text n \<and> es \<noteq> [] \<and> list_all wf_entry es)"

section \<open>Meaning\<close>

text \<open>A tuple has any length from its last required element on; an array has no fixed length.\<close>

fun is_optional :: "element \<Rightarrow> bool" where
  "is_optional (Element l optional t) = optional"

definition required :: "element list \<Rightarrow> nat" where
  "required es = length (dropWhile is_optional (rev es))"

fun lengths :: "alternative \<Rightarrow> nat set" where
  "lengths (TupleOf es) = {required es..length es}"
| "lengths (ArrayOf t) = {}"

fun is_array :: "alternative \<Rightarrow> bool" where
  "is_array (ArrayOf t) = True"
| "is_array (TupleOf es) = False"

definition args_meaning :: "alternative list \<Rightarrow> args_spec" where
  "args_meaning as = \<lparr>ar_source = normalise (flat (args_toks as)),
     ar_arities = sorted_list_of_set (\<Union> (lengths ` set as)), ar_variadic = list_ex is_array as\<rparr>"

fun entry_meaning :: "entry_decl \<Rightarrow> event" where
  "entry_meaning (EntryDecl k as) = \<lparr>ev_key = k, ev_key_source = flat (key_toks k), ev_args = args_meaning as\<rparr>"

fun stream_meaning :: "stream_decl \<Rightarrow> stream" where
  "stream_meaning (StreamDecl n es) = \<lparr>sr_name = n, sr_events = map entry_meaning es\<rparr>"

section \<open>What is printed are pieces\<close>

lemma separators [simp]:
  "CHR '','' \<in> SEPARATORS" "CHR '';'' \<in> SEPARATORS" "CHR '':'' \<in> SEPARATORS" "CHR ''|'' \<in> SEPARATORS"
  by (simp_all add: SEPARATORS_def)

lemma piece_empty_brackets: "set seps \<subseteq> SEPARATORS \<Longrightarrow> piece inside seps [Byte (CHR ''[''), Byte (CHR '']'')]"
  using piece_wrap [of "CHR ''[''" "CHR '']''" seps "[]" inside] by (simp add: brackets_def piece_Nil)

lemma piece_after_byte:
  "c \<in> SEPARATORS \<or> c = CHR ''?'' \<Longrightarrow> inside \<or> c \<notin> set seps \<Longrightarrow> set seps \<subseteq> SEPARATORS \<Longrightarrow> piece inside seps ts
    \<Longrightarrow> piece inside seps (Byte c # ts)"
  by (rule piece_Cons [OF piece_byte])

lemma commas: "set seps \<subseteq> SEPARATORS \<Longrightarrow> (\<And>x. x \<in> set xs \<Longrightarrow> piece True seps (f x)) \<Longrightarrow> piece True seps (between (CHR '','') (map f xs))"
  by (rule piece_between) (auto intro: piece_byte [OF disjI1])

lemma piece_ty:
  assumes "wf_ty t" and "set seps \<subseteq> SEPARATORS" and "inside \<or> CHR ''|'' \<notin> set seps \<or> plain t"
  shows "piece inside seps (ty_toks t)"
  using assms
proof (induction t arbitrary: inside rule: ty_toks.induct)
  case (1 n)
  then show ?case by (simp add: piece_name)
next
  case (2 n ts)
  have "piece True seps (between (CHR '','') (map ty_toks ts))"
    using 2 by (intro commas) (auto simp: list_all_iff)
  with 2 show ?case by (simp add: piece_generic)
next
  case (3 t)
  then show ?case by (auto intro!: piece_append piece_empty_brackets)
next
  case (4 ms)
  have "piece True seps (word l @ Byte (CHR '':'') # ty_toks t @ mark (CHR '';''))" if m: "(l, t) \<in> set ms" for l t
  proof -
    have "wf_name l" "wf_ty t" using 4(2) m by (auto simp: list_all_iff)
    moreover have "piece True seps (ty_toks t)" using 4(1) [OF m refl] \<open>wf_ty t\<close> 4(3) by simp
    ultimately show ?thesis
      using 4(3) by (intro piece_append piece_name piece_after_byte piece_Nil) simp_all
  qed
  then have "piece True seps (concat (map (\<lambda>(l, t). word l @ Byte (CHR '':'') # ty_toks t @ mark (CHR '';'')) ms))"
    using 4(3) by (intro piece_concat) auto
  then show ?case by (simp add: piece_wrap brackets_def)
next
  case (5 v)
  then show ?case by (simp add: piece_lit wf_text_def is_quote_def)
next
  case (6 ts t)
  have "piece True seps (between (CHR '','') (map ty_toks ts))"
    using 6 by (intro commas) (auto simp: list_all_iff)
  then have "piece inside seps (Byte (CHR ''('') # between (CHR '','') (map ty_toks ts) @ mark (CHR '')''))"
    by (rule piece_wrap [rotated]) (simp add: brackets_def)
  then show ?case
    unfolding ty_toks.simps using 6 by (intro piece_append piece_arrow) auto
next
  case (7 t u)
  have "piece inside seps (mark (CHR ''|''))"
    by (rule piece_byte) (use 7(4,5) in simp_all)
  moreover have "piece inside seps (ty_toks t)" by (rule 7(1)) (use 7(3,4,5) in auto)
  moreover have "piece inside seps (ty_toks u)" by (rule 7(2)) (use 7(3,4,5) in auto)
  ultimately show ?case unfolding ty_toks.simps by (intro piece_append)
qed

lemma piece_optional:
  assumes "piece inside seps ts"
  shows "piece inside seps (ts @ optional_mark optional)"
proof -
  have seps: "set seps \<subseteq> SEPARATORS" using assms by (simp add: piece_def)
  moreover have "CHR ''?'' \<notin> SEPARATORS" by (simp add: SEPARATORS_def)
  ultimately have "CHR ''?'' \<notin> set seps" by blast
  then show ?thesis using assms seps by (auto simp: optional_mark_def intro!: piece_append piece_byte)
qed

lemma piece_element:
  assumes "wf_element e" and "set seps \<subseteq> SEPARATORS" and "inside \<or> (CHR '':'' \<notin> set seps \<and> CHR ''|'' \<notin> set seps)"
  shows "piece inside seps (element_toks e)"
proof (cases e rule: element_parts.cases)
  case (1 l optional t)
  with assms have "piece inside seps (word l @ optional_mark optional)" "piece inside seps (Byte (CHR '':'') # ty_toks t)"
    by (auto intro!: piece_optional piece_name piece_after_byte piece_ty)
  with 1 show ?thesis using piece_append by (fastforce simp: element_toks_def)
next
  case (2 optional t)
  with assms show ?thesis by (auto simp: element_toks_def intro!: piece_optional piece_ty)
qed

lemma piece_alternative:
  assumes "wf_alternative a" and "set seps \<subseteq> SEPARATORS"
  shows "piece inside seps (alternative_toks a)"
proof (cases a)
  case (TupleOf es)
  with assms have "piece True seps (between (CHR '','') (map element_toks es))"
    by (intro commas) (auto simp: list_all_iff piece_element)
  with TupleOf show ?thesis by (simp add: piece_wrap brackets_def)
next
  case (ArrayOf t)
  with assms show ?thesis by (auto intro!: piece_append piece_ty piece_empty_brackets)
qed

lemma piece_args:
  assumes "list_all wf_alternative as" and "set seps \<subseteq> SEPARATORS" and "inside \<or> CHR ''|'' \<notin> set seps"
  shows "piece inside seps (args_toks as)"
  unfolding args_toks_def using assms
  by (intro piece_between piece_byte) (auto simp: list_all_iff piece_alternative)

lemma ascii_HOLE: "list_all is_ascii HOLE" "CHR 0x60 \<notin> set HOLE" "CHR 0x5C \<notin> set HOLE"
  by (simp_all add: HOLE_def is_ascii_def)

lemma wf_name_words: "wf_name ''key''" "wf_name ''args''" "wf_name ''string''"
  by (simp_all add: wf_name_def name_char_def is_ascii_alphanumeric_def)

lemma piece_key: "wf_key k \<Longrightarrow> set seps \<subseteq> SEPARATORS \<Longrightarrow> piece inside seps (key_toks k)"
  by (cases k) (auto simp: wf_text_def wf_template_def is_quote_def ascii_HOLE is_ascii_def [of "CHR ''/''"]
      intro!: piece_lit piece_name [OF wf_name_words(3), simplified])

lemma piece_member:
  assumes "wf_entry e" and "ts \<in> set (entry_members e)" and "set seps \<subseteq> SEPARATORS"
    and "inside \<or> (CHR ''|'' \<notin> set seps \<and> CHR '':'' \<notin> set seps)"
  shows "piece inside seps ts"
proof (cases e)
  case (EntryDecl k as)
  have colon: "piece inside seps (mark (CHR '':''))" using assms(3,4) by (intro piece_byte) auto
  have "piece inside seps (word n @ mark (CHR '':'') @ us)" if "wf_name n" "piece inside seps us" for n us
    using that colon assms(3) by (intro piece_append piece_name) simp_all
  note member = this [OF wf_name_words(1), of "key_toks k"] this [OF wf_name_words(2), of "args_toks as"]
  have "piece inside seps (key_toks k)" "piece inside seps (args_toks as)"
    using EntryDecl assms by (auto intro: piece_key piece_args)
  with member assms(2) EntryDecl show ?thesis by auto
qed

lemma piece_entry:
  assumes "wf_entry e" and "set seps \<subseteq> SEPARATORS"
  shows "piece inside seps (entry_toks e)"
proof -
  have "piece True seps (between (CHR '';'') (entry_members e))"
    using assms by (intro piece_between piece_byte) (simp_all add: piece_member)
  then show ?thesis by (simp add: entry_toks_def piece_wrap brackets_def)
qed

end
