(* ===== verification/Codegen_Places.thy ===== *)
theory Codegen_Places
  imports Codegen_Grammar
begin

text \<open>
  Where a piece stands in the source, and what the scanner makes of it there: slicing, trimming,
  matching brackets and splitting.
\<close>

definition stands :: "str \<Rightarrow> nat \<Rightarrow> tok list \<Rightarrow> nat \<Rightarrow> bool" where
  "stands src a ts b \<longleftrightarrow> list_all is_ascii src \<and> list_all tok_ok ts
     \<and> (\<exists>pre post. src = pre @ flat ts @ post \<and> a = length pre \<and> b = length pre + length (flat ts))"

lemma standsE:
  assumes "stands src a ts b"
  obtains pre post where "list_all is_ascii src" "list_all tok_ok ts" "src = pre @ flat ts @ post"
    "a = length pre" "b = length pre + length (flat ts)"
  using assms unfolding stands_def by (elim conjE exE)

lemma stands_end: "stands src a ts b \<Longrightarrow> b = a + length (flat ts)"
  by (auto simp: stands_def)

lemma stands_left: "stands src a (ts @ us) b \<Longrightarrow> stands src a ts (a + length (flat ts))"
  unfolding stands_def by auto

lemma stands_right: "stands src a (ts @ us) b \<Longrightarrow> stands src (a + length (flat ts)) us b"
proof (elim standsE)
  fix pre post
  assume "list_all is_ascii src" "list_all tok_ok (ts @ us)" "src = pre @ flat (ts @ us) @ post" "a = length pre"
    "b = length pre + length (flat (ts @ us))"
  then have "list_all is_ascii src" "list_all tok_ok us" "src = (pre @ flat ts) @ flat us @ post"
    "a + length (flat ts) = length (pre @ flat ts)" "b = length (pre @ flat ts) + length (flat us)" by simp_all
  then show "stands src (a + length (flat ts)) us b" unfolding stands_def by blast
qed

lemma stands_byte: "stands src a (Byte c # ts) b \<Longrightarrow> stands src (a + 1) ts b"
  using stands_right [of src a "[Byte c]" ts b] by simp

lemma stands_wrap:
  assumes "stands src a (Byte c # ts @ [Byte d]) b"
  shows "stands src (a + 1) ts (b - 1)"
proof -
  have "stands src (a + 1) ts (a + 1 + length (flat ts))"
    by (rule stands_left [OF stands_byte [OF assms]])
  then show ?thesis using stands_end [OF assms] by simp
qed

section \<open>Slices of ASCII text\<close>

lemma ascii_boundary: "list_all is_ascii s \<Longrightarrow> i \<le> length s \<Longrightarrow> is_char_boundary s i"
  by (auto simp: is_char_boundary_def byte_at_def is_cont_def is_ascii_def list_all_length)

lemma stands_slice: "stands src a ts b \<Longrightarrow> slice src a b = Done (flat ts)"
  by (auto elim!: standsE simp: slice_def ascii_boundary)

lemma tok_text_ends:
  assumes "tok_ok t"
  shows "tok_text t \<noteq> [] \<and> \<not> is_ascii_whitespace (hd (tok_text t)) \<and> \<not> is_ascii_whitespace (last (tok_text t))"
  using assms by (cases t) (auto simp: is_quote_def is_ascii_whitespace_def)

lemma flat_ends:
  assumes "list_all tok_ok ts" and "ts \<noteq> []"
  shows "flat ts \<noteq> [] \<and> \<not> is_ascii_whitespace (hd (flat ts)) \<and> \<not> is_ascii_whitespace (last (flat ts))"
proof -
  obtain t us where l: "ts = t # us" using assms(2) by (cases ts) auto
  obtain vs w where r: "ts = vs @ [w]" using assms(2) by (cases ts rule: rev_cases) auto
  have "tok_ok t" "tok_ok w" using assms(1) l by simp (use assms(1) r in simp)
  note ends = tok_text_ends [OF this(1)] tok_text_ends [OF this(2)]
  have "flat ts = tok_text t @ flat us" using l by simp
  then have "flat ts \<noteq> [] \<and> hd (flat ts) = hd (tok_text t)" using ends(1) by simp
  moreover have "flat ts = flat vs @ tok_text w" using r by simp
  then have "last (flat ts) = last (tok_text w)" using ends(2) by simp
  ultimately show ?thesis using ends by simp
qed

lemma stands_trim:
  assumes "stands src a ts b" and "ts \<noteq> []"
  shows "trim_range src a b = (a, b) \<and> a < b"
proof -
  from assms(1) obtain pre post where s: "list_all tok_ok ts" "src = pre @ flat ts @ post" "a = length pre"
    "b = length pre + length (flat ts)" by (elim standsE)
  have e: "flat ts \<noteq> []" "\<not> is_ascii_whitespace (hd (flat ts))" "\<not> is_ascii_whitespace (last (flat ts))"
    using flat_ends [OF s(1) assms(2)] by simp_all
  obtain w us where "flat ts = w # us" using e(1) by (cases "flat ts") auto
  then have "src ! a = hd (flat ts)" "a < b" using s(2,3,4) by simp_all
  moreover obtain vs z where "flat ts = vs @ [z]" using e(1) by (cases "flat ts" rule: rev_cases) auto
  then have "src ! (b - 1) = last (flat ts)" using s(2,3,4) by (simp add: nth_append)
  ultimately have "src ! a = hd (flat ts)" "src ! (b - 1) = last (flat ts)" "a < b" by simp_all
  then show ?thesis
    using e by (simp add: trim_range_def trim_from.simps [of src a b] trim_to.simps [of src a b])
qed

lemma stands_Nil_trim: "stands src a [] b \<Longrightarrow> trim_range src a b = (a, a)"
  using stands_end [of src a "[]" b] by (simp add: trim_range_def trim_from.simps [of src a a] trim_to.simps [of src a a])

lemma stands_balanced:
  assumes "stands src a (Byte op # ts @ [Byte cl]) b" and "enclosed op cl ts" and "op \<noteq> cl"
  shows "balanced src a op cl = Done (b - 1)"
proof -
  from assms(1) obtain pre post where s: "list_all tok_ok (Byte op # ts @ [Byte cl])"
    "src = pre @ flat (Byte op # ts @ [Byte cl]) @ post" "a = length pre"
    "b = length pre + length (flat (Byte op # ts @ [Byte cl]))" by (elim standsE)
  have "balanced src (length pre) op cl = Done (length pre + 1 + length (flat ts))"
  proof (rule balanced_toks)
    show "depth_run op cl ts 1 = Some 1" using assms(2) by (simp add: enclosed_def)
    show "src = pre @ op # flat ts @ cl # post" using s(2) by simp
  qed (use s(1) assms(3) in simp_all)
  then show ?thesis using s(3,4) by simp
qed

section \<open>Splitting at separators\<close>

fun cuts_from :: "nat \<Rightarrow> nat \<Rightarrow> tok list list \<Rightarrow> (nat \<times> nat) list" where
  "cuts_from f a [] = [(f, a)]"
| "cuts_from f a [x] = [(f, a + length (flat x))]"
| "cuts_from f a (x # y # zs) =
     (f, a + length (flat x)) # cuts_from (a + length (flat x) + 1) (a + length (flat x) + 1) (y # zs)"

abbreviation cuts :: "nat \<Rightarrow> tok list list \<Rightarrow> (nat \<times> nat) list" where
  "cuts a \<equiv> cuts_from a a"

lemma split_between:
  assumes "c \<in> SEPARATORS" and "c \<in> set seps" and "list_all (quiet False seps) tss"
    and "sl_depth s = 0" and "sl_angle s = 0" and "sl_prev s \<noteq> CHR ''=''"
  shows "\<exists>ps s'. split_run seps (between c tss) i s = Some (ps, s') \<and> sl_depth s' = 0
    \<and> ps @ [(sl_from s', i + length (flat (between c tss)))] = cuts_from (sl_from s) i tss"
  using assms
proof (induction c tss arbitrary: i s rule: between.induct)
  case (1 c)
  then show ?case by simp
next
  case (2 c x)
  then have "level s" "quiet False seps x" by (simp_all add: level_def)
  then obtain p where "split_run seps x i s = Some ([], s\<lparr>sl_prev := p\<rparr>)"
    using quietD [of False seps x s i] 2(6) by metis
  then show ?case using 2 by simp
next
  case (3 c x y zs)
  let ?j = "i + length (flat x)"
  have "level s" "quiet False seps x" using 3 by (simp_all add: level_def)
  then obtain p where x: "split_run seps x i s = Some ([], s\<lparr>sl_prev := p\<rparr>)"
    using quietD [of False seps x s i] 3(7) by metis
  have c: "\<not> is_ascii_whitespace c" "c \<noteq> CHR ''=''"
    using 3(2) by (auto elim!: SEPARATORS_cases simp: is_ascii_whitespace_def)
  have b: "split_byte seps c ?j (s\<lparr>sl_prev := p\<rparr>) = ([(sl_from s, ?j)], s\<lparr>sl_prev := p, sl_from := ?j + 1\<rparr>)"
    using 3(2) by (elim SEPARATORS_cases) (use 3(3,5,6) in \<open>simp_all add: split_byte_def\<close>)
  let ?s = "s\<lparr>sl_prev := c, sl_from := ?j + 1\<rparr>"
  have swap: "s\<lparr>sl_from := ?j + 1, sl_prev := c\<rparr> = ?s" by simp
  obtain ps s' where ih: "split_run seps (between c (y # zs)) (?j + 1) ?s = Some (ps, s')" "sl_depth s' = 0"
    "ps @ [(sl_from s', ?j + 1 + length (flat (between c (y # zs))))] = cuts_from (?j + 1) (?j + 1) (y # zs)"
    using "3.IH" [of ?s "?j + 1"] 3(2-7) c by auto
  have "split_run seps (between c (x # y # zs)) i s = Some ((sl_from s, ?j) # ps, s')"
    using x b c ih(1) [folded swap] 3(5) by (simp add: split_run_append)
  then show ?case using ih(2,3) by (simp add: add.assoc)
qed

lemma stands_split:
  assumes "stands src a (between c tss) b" and "c \<in> SEPARATORS" and "c \<in> set seps"
    and "\<And>ts. ts \<in> set tss \<Longrightarrow> piece False seps ts"
  shows "split_top_level src a b seps = Done (cuts a tss)"
proof -
  from assms(1) obtain pre post where s: "list_all tok_ok (between c tss)" "src = pre @ flat (between c tss) @ post"
    "a = length pre" "b = length pre + length (flat (between c tss))" by (elim standsE)
  have "list_all (quiet False seps) tss" using assms(4) by (simp add: list_all_iff piece_def)
  then obtain ps s' where r: "split_run seps (between c tss) (length pre) (split_start (length pre)) = Some (ps, s')"
    "sl_depth s' = 0" "ps @ [(sl_from s', b)] = cuts_from (length pre) (length pre) tss"
    using split_between [OF assms(2,3), of tss "split_start (length pre)" "length pre"] s(4) by (auto simp: split_start_def)
  show ?thesis using split_top_level_toks [OF r(1,2) s(1,2,4)] r(3) s(3) by simp
qed

lemma stands_cuts:
  assumes "stands src a (between c tss) b" and "tss \<noteq> []"
  shows "list_all2 (\<lambda>(x, y) ts. stands src x ts y) (cuts a tss) tss"
  using assms
proof (induction c tss arbitrary: a rule: between.induct)
  case (3 c x y zs)
  have "stands src a x (a + length (flat x))" using 3(2) by (auto intro: stands_left)
  moreover have "stands src (a + length (flat x) + 1) (between c (y # zs)) b"
    using stands_byte [OF stands_right [of src a x "Byte c # between c (y # zs)" b]] 3(2) by simp
  ultimately show ?case using "3.IH" by simp
qed (auto dest: stands_end)

lemma stands_find:
  assumes "stands src a (between c (ts # us # tss)) b" and "c \<in> SEPARATORS"
    and "\<And>vs. vs \<in> set (ts # us # tss) \<Longrightarrow> piece False [c] vs"
  shows "find_top_level src a b [c] = Done (Some (a + length (flat ts)))"
  using stands_split [OF assms(1,2), of "[c]"] assms(3) by (cases tss) (auto simp: find_top_level_def)

lemma stands_find_none:
  assumes "stands src a ts b" and "c \<in> SEPARATORS" and "piece False [c] ts"
  shows "find_top_level src a b [c] = Done None"
  using stands_split [of src a c "[ts]" b "[c]"] assms by (simp add: find_top_level_def)

end
