(* ===== verification/Codegen_Reading.thy ===== *)
theory Codegen_Reading
  imports Codegen_Places
begin

text \<open>
  What each reader of the parser returns on a piece of the grammar that stands in the source: the
  key, the lengths of a tuple, the arguments, the entry.
\<close>

lemma stands_ok: "stands src a ts b \<Longrightarrow> list_all tok_ok ts"
  by (elim standsE)

section \<open>Keys\<close>

lemma strip_quotes_quoted: "q \<notin> set v \<Longrightarrow> strip_quotes (q # v @ [q]) q = Some v"
  by (simp add: strip_quotes_def)

lemma strip_quotes_other: "c \<noteq> q \<Longrightarrow> strip_quotes (c # s) q = None"
  by (simp add: strip_quotes_def)

lemma strip_suffix_append: "strip_suffix p (s @ p) = Some s"
  by (simp add: strip_suffix_def)

lemma HOLE_Cons: "HOLE = CHR 0x24 # CHR 0x7B # ''string'' @ [CHR 0x7D]"
  by (simp add: HOLE_def)

lemma template_suffix_print: "wf_template v \<Longrightarrow> template_suffix (HOLE @ ''/'' @ v) = Some v"
  unfolding template_suffix_def wf_template_def by simp

lemma template_prefix_print: "wf_template v \<Longrightarrow> template_prefix (v @ ''/'' @ HOLE) = Some v"
  using strip_suffix_append [of HOLE "v @ ''/''"] strip_suffix_append [of "''/''" v]
  unfolding template_prefix_def wf_template_def by simp

lemma template_prefix_no_suffix:
  assumes "wf_template v" shows "template_suffix (v @ ''/'' @ HOLE) = None"
proof -
  have "v @ ''/'' @ HOLE \<noteq> HOLE @ rest" for rest
  proof
    assume eq: "v @ ''/'' @ HOLE = HOLE @ rest"
    obtain c v' where v: "v = c # v'" using assms by (cases v) (auto simp: wf_template_def)
    show False
    proof (cases v')
      case Nil
      then show False using eq v by (simp add: HOLE_Cons)
    next
      case (Cons d w)
      then have "v = [] @ OPEN_HOLE @ w" using eq v by (simp add: HOLE_Cons OPEN_HOLE_def)
      then show False using assms unfolding wf_template_def contains_iff by blast
    qed
  qed
  then have "strip_prefix HOLE (v @ ''/'' @ HOLE) = None" by (metis not_None_eq strip_prefix_Some)
  then show ?thesis by (simp add: template_suffix_def)
qed

lemma parse_key_text:
  assumes "wf_key k" and "slice src a b = Done (flat (key_toks k))"
  shows "parse_key src a b = Done k"
proof (cases k)
  case (KpLiteral v)
  then show ?thesis
    using assms strip_quotes_quoted [of "CHR 0x27" v] by (auto simp: parse_key_def or_else_def wf_text_def)
next
  case (KpSuffix v)
  let ?inner = "HOLE @ ''/'' @ v"
  have w: "wf_template v" using assms(1) KpSuffix by simp
  have "CHR 0x60 \<notin> set ?inner" using w ascii_HOLE by (simp add: wf_template_def)
  then have "strip_quotes (CHR 0x60 # ?inner @ [CHR 0x60]) (CHR 0x60) = Some ?inner" by (rule strip_quotes_quoted)
  moreover have "?inner \<noteq> HOLE" by simp
  ultimately show ?thesis
    using assms KpSuffix template_suffix_print [OF w] by (simp add: parse_key_def or_else_def strip_quotes_other)
next
  case (KpPrefix v)
  let ?inner = "v @ ''/'' @ HOLE"
  have w: "wf_template v" using assms(1) KpPrefix by simp
  have "CHR 0x60 \<notin> set ?inner" using w ascii_HOLE by (simp add: wf_template_def)
  then have "strip_quotes (CHR 0x60 # ?inner @ [CHR 0x60]) (CHR 0x60) = Some ?inner" by (rule strip_quotes_quoted)
  moreover have "?inner \<noteq> HOLE" using arg_cong [of ?inner HOLE length] by auto
  ultimately show ?thesis
    using assms KpPrefix template_prefix_print [OF w] template_prefix_no_suffix [OF w]
    by (simp add: parse_key_def or_else_def strip_quotes_other)
next
  case KpAny
  then show ?thesis using assms by (simp add: parse_key_def or_else_def strip_quotes_other)
qed

lemma key_toks_not_Nil: "key_toks k \<noteq> []"
  by (cases k) simp_all

lemma args_toks_not_Nil: "as \<noteq> [] \<Longrightarrow> args_toks as \<noteq> []"
proof -
  have "alternative_toks a \<noteq> []" for a by (cases a) simp_all
  then show "as \<noteq> [] \<Longrightarrow> args_toks as \<noteq> []"
    unfolding args_toks_def by (cases as rule: remdups_adj.cases) simp_all
qed

section \<open>Elements of tuples\<close>

lemma name_char_ends: "wf_name n \<Longrightarrow> n \<noteq> [] \<and> name_char (hd n) \<and> name_char (last n)"
  by (simp add: wf_name_def list_all_iff)

lemma not_name_chars: "\<not> name_char (CHR ''['')" "\<not> name_char (CHR ''.'')" "\<not> name_char (CHR ''?'')"
  by (simp_all add: name_char_def is_ascii_alphanumeric_def)

definition plain_ends :: "str \<Rightarrow> bool" where
  "plain_ends s \<longleftrightarrow> s \<noteq> [] \<and> hd s \<noteq> CHR ''['' \<and> hd s \<noteq> CHR ''.'' \<and> last s \<noteq> CHR ''?''"

lemma plain_ends_join: "plain_ends s \<Longrightarrow> plain_ends t \<Longrightarrow> plain_ends (s @ u @ t)"
  by (simp add: plain_ends_def)

lemma plain_ends_name: "wf_name n \<Longrightarrow> plain_ends n"
  using name_char_ends [of n] not_name_chars unfolding plain_ends_def by metis

lemma ty_ends: "wf_ty t \<Longrightarrow> plain_ends (flat (ty_toks t))"
proof (induction t rule: ty_toks.induct)
  case (1 n)
  then show ?case by (simp add: plain_ends_name)
next
  case (2 n ts)
  then show ?case using plain_ends_name [of n] by (simp add: plain_ends_def)
next
  case (6 ts t)
  then show ?case using plain_ends_join [of "''(''" "flat (ty_toks t)"] by (simp add: plain_ends_def)
next
  case (7 t u)
  then show ?case by (simp add: plain_ends_join [where u = "''|''", simplified])
qed (simp_all add: plain_ends_def)

lemma ends_with_snoc: "ends_with (s @ [c]) [c]"
  by (auto simp: ends_with_iff)

lemma ends_with_last: "s \<noteq> [] \<Longrightarrow> last s \<noteq> c \<Longrightarrow> \<not> ends_with s [c]"
  by (auto simp: ends_with_iff)

lemma optional_text: "plain_ends s \<Longrightarrow> ends_with (s @ flat (optional_mark optional)) ''?'' = optional"
  by (simp add: optional_mark_def ends_with_snoc ends_with_last plain_ends_def)

lemma element_head: "wf_element e \<Longrightarrow> flat (element_toks e) \<noteq> [] \<and> hd (flat (element_toks e)) \<noteq> CHR ''.''"
proof (cases e rule: element_parts.cases)
  case (1 l optional t)
  moreover assume "wf_element e"
  ultimately show ?thesis using plain_ends_name [of l] by (simp add: element_toks_def plain_ends_def)
next
  case (2 optional t)
  moreover assume "wf_element e"
  ultimately show ?thesis using ty_ends [of t] by (simp add: element_toks_def plain_ends_def)
qed

lemma optional_read:
  assumes "stands src a (element_toks e) b" and "wf_element e"
  shows "is_optional_element src a b = Done (is_optional e)"
proof (cases e rule: element_parts.cases)
  case (1 l optional t)
  let ?l = "word l @ optional_mark optional"
  have s: "stands src a (between (CHR '':'') [?l, ty_toks t]) b"
    using assms(1) 1 by (simp add: element_toks_def)
  have l: "wf_name l" "wf_ty t" using assms(2) 1 by simp_all
  have pieces: "piece False [CHR '':''] ?l" "piece False [CHR '':''] (ty_toks t)"
    using l by (auto intro!: piece_optional piece_name piece_ty)
  then have "find_top_level src a b [CHR '':''] = Done (Some (a + length (flat ?l)))"
    by (intro stands_find [OF s]) auto
  moreover have here: "stands src a ?l (a + length (flat ?l))"
    using s stands_left [of src a ?l "Byte (CHR '':'') # ty_toks t" b] by simp
  moreover have "?l \<noteq> []" using l(1) by (simp add: wf_name_def)
  ultimately show ?thesis
    using stands_trim [OF here] stands_slice [OF here] 1 plain_ends_name [OF l(1)]
    by (simp add: is_optional_element_def optional_text)
next
  case (2 optional t)
  have s: "stands src a (ty_toks t @ optional_mark optional) b"
    using assms(1) 2 by (simp add: element_toks_def)
  have t: "wf_ty t" using assms(2) 2 by simp
  have "piece False [CHR '':''] (ty_toks t @ optional_mark optional)"
    using t by (auto intro!: piece_optional piece_ty)
  then have "find_top_level src a b [CHR '':''] = Done None"
    by (intro stands_find_none [OF s]) simp_all
  moreover have "ty_toks t @ optional_mark optional \<noteq> []"
    using ty_ends [OF t] by (auto simp: plain_ends_def)
  ultimately show ?thesis
    using stands_trim [OF s] stands_slice [OF s] 2 ty_ends [OF t]
    by (simp add: is_optional_element_def optional_text)
qed

lemma required_Cons:
  "required (e # es) = (if list_all is_optional es then (if is_optional e then 0 else 1) else required es + 1)"
proof (cases "list_all is_optional es")
  case True
  then have "dropWhile is_optional (rev es @ [e]) = dropWhile is_optional [e]"
    by (intro dropWhile_append2) (simp add: list_all_iff)
  then show ?thesis using True by (simp add: required_def)
next
  case False
  then obtain x where "x \<in> set (rev es)" "\<not> is_optional x" by (auto simp: list_all_iff)
  then show ?thesis using False by (simp add: required_def)
qed

lemma required_le: "required es \<le> length es"
  using length_dropWhile_le [of is_optional "rev es"] by (simp add: required_def)

lemma count_read:
  assumes "list_all2 (\<lambda>(x, y) e. stands src x (element_toks e) y) parts es" and "list_all wf_element es"
  shows "count_elements src parts n r = Done (n + length es, if list_all is_optional es then r else n + required es)"
  using assms
proof (induction parts es arbitrary: n r rule: list_all2_induct)
  case (Cons p parts e es)
  obtain a b where p: "p = (a, b)" by force
  have s: "stands src a (element_toks e) b" "wf_element e" using Cons p by simp_all
  have h: "flat (element_toks e) \<noteq> []" "hd (flat (element_toks e)) \<noteq> CHR ''.''" using element_head [OF s(2)] by simp_all
  then have "element_toks e \<noteq> []" by auto
  then have trim: "trim_range src a b = (a, b)" "a \<noteq> b" using stands_trim [OF s(1)] by simp_all
  have "\<not> starts_with (flat (element_toks e)) ''...''" using h by (auto simp: starts_with_iff)
  then have "count_elements src (p # parts) n r
      = count_elements src parts (n + 1) (if is_optional e then r else n + 1)"
    using trim stands_slice [OF s(1)] optional_read [OF s] p by simp
  then show ?case using Cons.IH Cons.prems by (simp add: required_Cons)
qed simp

section \<open>Arguments\<close>

lemma add_arities_set: "set (add_arities new arities) = set new \<union> set arities"
  unfolding add_arities_def by (induction new arbitrary: arities) auto

lemma add_arities_distinct: "distinct arities \<Longrightarrow> distinct (add_arities new arities)"
  unfolding add_arities_def by (induction new arbitrary: arities) auto

lemma sort_is_set: "distinct xs \<Longrightarrow> set xs = A \<Longrightarrow> sort xs = sorted_list_of_set A"
  by (metis sorted_list_of_set_sort_remdups distinct_remdups_id)

lemma alternative_ends:
  assumes "wf_alternative a"
  shows "(case a of TupleOf es \<Rightarrow> starts_with (flat (alternative_toks a)) ''['' \<and> ends_with (flat (alternative_toks a)) '']''
    | ArrayOf t \<Rightarrow> \<not> starts_with (flat (alternative_toks a)) ''['' \<and> ends_with (flat (alternative_toks a)) ''[]'')"
proof (cases a)
  case (TupleOf es)
  then show ?thesis using ends_with_snoc [of "CHR ''['' # flat (between (CHR '','') (map element_toks es))"]
    by (simp add: starts_with_iff)
next
  case (ArrayOf t)
  then have "plain_ends (flat (ty_toks t))" using assms ty_ends by simp
  then obtain c s where "flat (ty_toks t) = c # s" "c \<noteq> CHR ''[''"
    by (cases "flat (ty_toks t)") (simp_all add: plain_ends_def)
  then show ?thesis using ArrayOf by (auto simp: starts_with_iff ends_with_iff)
qed

lemma tuple_read:
  assumes "stands src a (alternative_toks (TupleOf es)) b" and "list_all wf_element es"
  shows "balanced src a (CHR ''['') (CHR '']'') = Done (b - 1) \<and> a + 1 < b
    \<and> and_then (split_top_level src (a + 1) (b - 1) '','') (\<lambda>elements. count_elements src elements 0 0) = Done (length es, required es)"
proof -
  let ?inner = "between (CHR '','') (map element_toks es)"
  have s: "stands src a (Byte (CHR ''['') # ?inner @ mark (CHR '']'')) b" using assms(1) by simp
  have elements: "piece False '','' ts" if "ts \<in> set (map element_toks es)" for ts
    using that assms(2) by (auto simp: list_all_iff intro!: piece_element)
  have "piece True '','' ?inner" using elements piece_inside by (intro piece_between) (auto intro!: piece_byte)
  then have "balanced src a (CHR ''['') (CHR '']'') = Done (b - 1)"
    by (intro stands_balanced [OF s]) (simp_all add: piece_def)
  moreover have inner: "stands src (a + 1) ?inner (b - 1)" by (rule stands_wrap [OF s])
  moreover have "split_top_level src (a + 1) (b - 1) '','' = Done (cuts (a + 1) (map element_toks es))"
    using elements by (intro stands_split [OF inner]) simp_all
  moreover have "count_elements src (cuts (a + 1) (map element_toks es)) 0 0 = Done (length es, required es)"
  proof (cases "es = []")
    case True
    then have "trim_range src (a + 1) (a + 1) = (a + 1, a + 1)"
      using stands_Nil_trim [of src "a + 1" "b - 1"] stands_end [of src "a + 1" "[]" "b - 1"] inner by simp
    then show ?thesis using True by (simp add: required_def)
  next
    case False
    then have "list_all2 (\<lambda>(x, y) e. stands src x (element_toks e) y) (cuts (a + 1) (map element_toks es)) es"
      using stands_cuts [OF inner] by (simp add: list_all2_map2 case_prod_unfold)
    from count_read [OF this assms(2), of 0 0] show ?thesis
      by (auto simp: required_def list_all_iff dropWhile_eq_Nil_conv split: if_splits)
  qed
  ultimately show ?thesis using stands_end [OF s] by simp
qed

lemma alternatives_read:
  assumes "list_all2 (\<lambda>(x, y) alt. stands src x (alternative_toks alt) y) parts alts" and "list_all wf_alternative alts"
  shows "\<exists>found. read_alternatives src parts arities variadic = Done (found, variadic \<or> list_ex is_array alts)
    \<and> set found = set arities \<union> \<Union> (lengths ` set alts) \<and> (distinct arities \<longrightarrow> distinct found)"
  using assms
proof (induction parts alts arbitrary: arities variadic rule: list_all2_induct)
  case (Cons p parts alt alts)
  obtain a b where p: "p = (a, b)" by force
  have s: "stands src a (alternative_toks alt) b" and w: "wf_alternative alt" using Cons p by simp_all
  have "alternative_toks alt \<noteq> []" by (cases alt) simp_all
  then have trim: "trim_range src a b = (a, b)" "a \<noteq> b" using stands_trim [OF s] by simp_all
  let ?ar = "case alt of TupleOf es \<Rightarrow> add_arities [required es..<length es + 1] arities | ArrayOf t \<Rightarrow> arities"
  have step: "read_alternatives src (p # parts) arities variadic = read_alternatives src parts ?ar (variadic \<or> is_array alt)"
  proof (cases alt)
    case (TupleOf es)
    then have "list_all wf_element es" using w by simp
    from tuple_read [OF s [unfolded TupleOf] this]
    show ?thesis using trim stands_slice [OF s] p alternative_ends [OF w] TupleOf
      by (auto simp: and_then_Done)
  next
    case (ArrayOf t)
    then show ?thesis using trim stands_slice [OF s] p alternative_ends [OF w] by simp
  qed
  have ar: "set ?ar = set arities \<union> lengths alt" "distinct arities \<longrightarrow> distinct ?ar"
    by (auto simp: add_arities_set add_arities_distinct split: alternative.split)
  from Cons.IH [of ?ar "variadic \<or> is_array alt"] Cons.prems ar show ?case
    unfolding step by auto
qed simp

lemma lengths_not_empty: "as \<noteq> [] \<Longrightarrow> \<Union> (lengths ` set as) = {} \<Longrightarrow> list_ex is_array as"
  using required_le by (cases as) (auto elim!: is_array.elims lengths.elims)

lemma args_read:
  assumes "stands src a (args_toks as) b" and "list_all wf_alternative as" and "as \<noteq> []"
  shows "parse_args src a b = Done (args_meaning as)"
proof -
  have s: "stands src a (between (CHR ''|'') (map alternative_toks as)) b" using assms(1) by (simp add: args_toks_def)
  have "split_top_level src a b ''|'' = Done (cuts a (map alternative_toks as))"
    using assms(2) by (intro stands_split [OF s]) (auto simp: list_all_iff piece_alternative)
  moreover have "list_all2 (\<lambda>(x, y) alt. stands src x (alternative_toks alt) y) (cuts a (map alternative_toks as)) as"
    using stands_cuts [OF s] assms(3) by (simp add: list_all2_map2 case_prod_unfold)
  then obtain found where f:
    "read_alternatives src (cuts a (map alternative_toks as)) [] False = Done (found, list_ex is_array as)"
    "set found = \<Union> (lengths ` set as)" "distinct found"
    using alternatives_read [OF _ assms(2), of src "cuts a (map alternative_toks as)" "[]" False] by auto
  moreover have "found = [] \<longrightarrow> list_ex is_array as" using f(2) lengths_not_empty [OF assms(3)] by auto
  ultimately show ?thesis
    using stands_slice [OF assms(1)] sort_is_set [OF f(3,2)] by (simp add: parse_args_def args_meaning_def)
qed

end
