(* ===== verification/Codegen_Catalog.thy ===== *)
theory Codegen_Catalog
  imports Codegen_Reading
begin

text \<open>
  Entries, streams and the whole interface: the catalog that is read is the one the source means.
\<close>

section \<open>Entries\<close>

lemma white_space_no_name: "list_all (\<lambda>w. w \<noteq> [] \<and> \<not> name_char (hd w) \<and> \<not> name_char (last w)) WHITE_SPACE"
  by (simp add: WHITE_SPACE_def name_char_def is_ascii_alphanumeric_def char_of_eq_iff)

lemma trim_name:
  assumes "wf_name n" shows "trim n = n"
proof -
  note ends = name_char_ends [OF assms]
  have "white_prefix n = 0"
  proof (cases n rule: white_prefix_cases)
    case (2 w r)
    then show ?thesis using white_space_no_name ends by (auto simp: list_all_iff)
  qed
  moreover have "white_suffix n = 0"
  proof (cases n rule: white_suffix_cases)
    case (2 w r)
    then show ?thesis using white_space_no_name ends by (auto simp: list_all_iff)
  qed
  ultimately show ?thesis by (simp add: trim_def trim_start.simps [of n] trim_stop.simps [of n])
qed

lemmas trim_words = wf_name_words(1,2) [THEN trim_name]

text \<open>A member \<open>name:value\<close> and where its value stands.\<close>

lemma member_read:
  assumes "stands src a (word n @ mark (CHR '':'') @ us) b" and "wf_name n" and "piece False '':'' us" and "us \<noteq> []"
  shows "trim_range src a b = (a, b) \<and> a \<noteq> b \<and> find_top_level src a b '':'' = Done (Some (a + length n))
    \<and> slice src a (a + length n) = Done n \<and> stands src (a + length n + 1) us b
    \<and> trim_range src (a + length n + 1) b = (a + length n + 1, b) \<and> slice src (a + length n + 1) b = Done (flat us)"
proof -
  have n: "word n \<noteq> []" using assms(2) by (simp add: wf_name_def)
  have s: "stands src a (between (CHR '':'') [word n, us]) b" using assms(1) by simp
  have "find_top_level src a b '':'' = Done (Some (a + length (flat (word n))))"
    using assms(2,3) by (intro stands_find [OF s]) (auto intro: piece_name)
  moreover have here: "stands src a (word n) (a + length n)"
    using stands_left [of src a "word n" "mark (CHR '':'') @ us" b] assms(1) by simp
  moreover have there: "stands src (a + length n + 1) us b"
    using stands_byte [of src "a + length n" "CHR '':''" us b] stands_right [of src a "word n" "mark (CHR '':'') @ us" b] assms(1)
    by simp
  ultimately show ?thesis
    using stands_trim [OF assms(1)] n stands_slice [OF here] stands_trim [OF there assms(4)] stands_slice [OF there] by simp
qed

lemma entry_read:
  assumes "stands src a (entry_toks e) b" and "wf_entry e"
  shows "parse_entry src (a + 1) (b - 1) = Done (entry_meaning e)"
proof -
  obtain k as where e: "e = EntryDecl k as" by (cases e)
  have k: "wf_key k" and as: "list_all wf_alternative as" "as \<noteq> []" using assms(2) e by simp_all
  let ?members = "entry_members e"
  have inner: "stands src (a + 1) (between (CHR '';'') ?members) (b - 1)"
    using stands_wrap [OF assms(1) [unfolded entry_toks_def]] .
  have split: "split_top_level src (a + 1) (b - 1) '';,'' = Done (cuts (a + 1) ?members)"
    using assms(2) by (intro stands_split [OF inner]) (simp_all add: piece_member)
  have "list_all2 (\<lambda>(x, y) ts. stands src x ts y) (cuts (a + 1) ?members) ?members"
    using e by (intro stands_cuts [OF inner]) simp
  then obtain p q r s where cut: "cuts (a + 1) ?members = [(p, q), (r, s)]"
    and key: "stands src p (word ''key'' @ mark (CHR '':'') @ key_toks k) q"
    and args: "stands src r (word ''args'' @ mark (CHR '':'') @ args_toks as) s"
    using e by (auto simp: list_all2_Cons2)
  have colon: "piece False '':'' (key_toks k)" "piece False '':'' (args_toks as)"
    using k as by (auto intro: piece_key piece_args)
  note km = member_read [OF key wf_name_words(1) colon(1) key_toks_not_Nil]
  note am = member_read [OF args wf_name_words(2) colon(2) args_toks_not_Nil [OF as(2)]]
  have "parse_key src (p + length ''key'' + 1) q = Done k" by (rule parse_key_text [OF k]) (use km in blast)
  moreover have "parse_args src (r + length ''args'' + 1) s = Done (args_meaning as)"
    by (rule args_read [OF _ as]) (use am in blast)
  ultimately have "read_members src [(p, q), (r, s)] (None, None) = Done (Some (k, flat (key_toks k)), Some (args_meaning as))"
    using km am by (simp add: trim_words)
  then have "and_then (Done (cuts (a + 1) ?members)) (\<lambda>parts. read_members src parts (None, None))
      = Done (Some (k, flat (key_toks k)), Some (args_meaning as))" unfolding cut by simp
  then show ?thesis unfolding parse_entry_def split e by simp
qed

lemma entries_read:
  assumes "list_all2 (\<lambda>(x, y) e. stands src x (entry_toks e) y) parts es" and "list_all wf_entry es"
  shows "read_entries src parts = Done (map entry_meaning es)"
  using assms
proof (induction parts es rule: list_all2_induct)
  case (Cons p parts e es)
  obtain a b where p: "p = (a, b)" by force
  have s: "stands src a (entry_toks e) b" and w: "wf_entry e" using Cons p by simp_all
  have trim: "trim_range src a b = (a, b)" "a \<noteq> b" using stands_trim [OF s] by (simp_all add: entry_toks_def)
  have "starts_with (flat (entry_toks e)) [CHR 0x7B]" "ends_with (flat (entry_toks e)) [CHR 0x7D]"
    using ends_with_snoc [of "CHR 0x7B # flat (between (CHR '';'') (entry_members e))" "CHR 0x7D"]
    by (simp_all add: entry_toks_def starts_with_iff)
  then show ?case
    using Cons p trim stands_slice [OF s] entry_read [OF s w] by simp
qed simp

lemma entry_list_read:
  assumes "stands src a (between (CHR '','') (map entry_toks es)) b" and "list_all wf_entry es" and "es \<noteq> []"
  shows "parse_entries src a b = Done (map entry_meaning es)"
proof -
  have "split_top_level src a b '','' = Done (cuts a (map entry_toks es))"
    using assms(2) by (intro stands_split [OF assms(1)]) (auto simp: list_all_iff intro: piece_entry)
  moreover have "list_all2 (\<lambda>(x, y) e. stands src x (entry_toks e) y) (cuts a (map entry_toks es)) es"
    using stands_cuts [OF assms(1)] assms(3) by (simp add: list_all2_map2 case_prod_unfold)
  from entries_read [OF this assms(2)] have "read_entries src (cuts a (map entry_toks es)) = Done (map entry_meaning es)" .
  ultimately show ?thesis using assms(3) by (simp add: parse_entries_def)
qed

section \<open>Streams\<close>

lemma skip_ws_here: "\<not> is_ascii_whitespace (src ! i) \<Longrightarrow> skip_ws src i = i"
  by (simp add: skip_ws.simps [of src i])

lemma skip_ws_stands:
  assumes "stands src a ts b" and "ts \<noteq> []"
  shows "skip_ws src a = a \<and> src ! a = hd (flat ts)"
proof -
  from assms(1) obtain pre post where s: "list_all tok_ok ts" "src = pre @ flat ts @ post" "a = length pre"
    by (elim standsE)
  note ends = flat_ends [OF s(1) assms(2)]
  then have "src ! a = hd (flat ts)" using s by (cases "flat ts") simp_all
  then show ?thesis using ends skip_ws_here by simp
qed

text \<open>The rest of the source up to the end of the interface, read from a token that stands there.\<close>

lemma rest_slice:
  assumes "stands src a (t # ts) b" and "b \<le> end_at" and "end_at \<le> length src"
  shows "\<exists>rest. slice src a end_at = Done (hd (tok_text t) # rest)"
proof -
  from assms(1) obtain pre post where s: "list_all is_ascii src" "list_all tok_ok (t # ts)"
    "src = pre @ flat (t # ts) @ post" "a = length pre" "b = length pre + length (flat (t # ts))" by (elim standsE)
  have "tok_text t \<noteq> []" using s(2) tok_text_ends [of t] by (simp del: tok_ok.simps)
  then obtain c r where t: "tok_text t = c # r" by (cases "tok_text t") auto
  then have "a < end_at" using s(5,4) assms(2) by simp
  then have "take (end_at - a) (drop a src) = c # take (end_at - a - 1) (r @ flat ts @ post)"
    using s(3,4) t by (simp add: take_Cons')
  then show ?thesis using t assms(3) \<open>a < end_at\<close> by (simp add: slice_def ascii_boundary [OF s(1)])
qed

lemma name_read:
  assumes "stands src a (Lit (CHR 0x27) n # ts) b" and "wf_text n"
  shows "property_name src a end_at = Done (n, a + length n + 2)"
proof -
  from assms(1) obtain pre post where s: "list_all is_ascii src" "list_all tok_ok (Lit (CHR 0x27) n # ts)"
    "src = pre @ flat (Lit (CHR 0x27) n # ts) @ post" "a = length pre" by (elim standsE)
  have "skip_string src a = a + length n + 2"
    using skip_string_lit [of "CHR 0x27" n src pre "flat ts @ post"] s by simp
  moreover have "src ! a = CHR 0x27" "a < length src" using s by simp_all
  moreover have "slice src (a + 1) (a + length n + 1) = Done n"
    using s by (simp add: slice_def ascii_boundary)
  ultimately show ?thesis using assms(2) by (simp add: property_name_def is_quote_def wf_text_def)
qed

lemma stream_read:
  assumes "stands src a (stream_toks d) b" and "wf_stream d" and "b \<le> end_at" and "end_at \<le> length src"
  shows "parse_stream src a end_at = Done (stream_meaning d, b - 1)"
proof -
  obtain n es where d: "d = StreamDecl n es" by (cases d)
  have w: "wf_text n" "es \<noteq> []" "list_all wf_entry es" using assms(2) d by simp_all
  let ?body = "Byte (CHR ''['') # between (CHR '','') (map entry_toks es) @ mark (CHR '']'')"
  let ?p1 = "a + length n + 2" and ?p2 = "a + length n + 3"
  have s: "stands src a (Lit (CHR 0x27) n # Byte (CHR '':'') # ?body @ mark (CHR '';'')) b"
    using assms(1) d by simp
  have s1: "stands src ?p1 (Byte (CHR '':'') # ?body @ mark (CHR '';'')) b"
    using stands_right [of src a "[Lit (CHR 0x27) n]" _ b] s by simp
  have s2: "stands src ?p2 (?body @ mark (CHR '';'')) b"
    using stands_byte [OF s1] by (simp add: numeral_3_eq_3)
  have s3: "stands src ?p2 ?body (b - 1)"
    using stands_left [OF s2] stands_end [OF s2] by simp
  have "enclosed (CHR ''['') (CHR '']'') (between (CHR '','') (map entry_toks es))"
  proof -
    have "piece True '','' (between (CHR '','') (map entry_toks es))"
      using w(3) by (intro commas) (auto simp: list_all_iff intro: piece_entry)
    then show ?thesis by (simp add: piece_def)
  qed
  then have "balanced src ?p2 (CHR ''['') (CHR '']'') = Done (b - 1 - 1)"
    by (intro stands_balanced [OF s3]) simp_all
  moreover have "parse_entries src (?p2 + 1) (b - 1 - 1) = Done (map entry_meaning es)"
    by (rule entry_list_read [OF stands_wrap [OF s3] w(3,2)])
  moreover obtain r1 where "slice src ?p1 end_at = Done (CHR '':'' # r1)" using rest_slice [OF s1 assms(3,4)] by auto
  moreover obtain r2 where "slice src ?p2 end_at = Done (CHR ''['' # r2)"
    using rest_slice [of src ?p2 "Byte (CHR ''['')" _ b] s2 assms(3,4) by auto
  moreover have "skip_ws src ?p1 = ?p1" "skip_ws src (?p1 + 1) = ?p2"
    using skip_ws_stands [OF s1] skip_ws_stands [OF s2] by (simp_all add: numeral_3_eq_3)
  moreover have "b - 1 - 1 + 1 = b - 1" using stands_end [OF s] by simp
  ultimately show ?thesis
    using name_read [OF s w(1), of end_at] d by (simp add: parse_stream_def starts_with_iff)
qed

lemma semicolons_none:
  assumes "stands src p (concat (map stream_toks ss)) end_at" and "end_at < length src" and "src ! end_at = CHR 0x7D"
  shows "skip_semicolons src (skip_ws src p) end_at = Done p"
proof (cases ss)
  case Nil
  then have p: "p = end_at" using stands_end [OF assms(1)] by simp
  have "skip_ws src p = p" using assms(3) p by (intro skip_ws_here) (simp add: is_ascii_whitespace_def)
  moreover have "slice src p end_at = Done []"
    using stands_slice [OF assms(1)] Nil by simp
  ultimately show ?thesis by (simp add: skip_semicolons.simps [of src p] starts_with_iff)
next
  case (Cons d ds)
  obtain n es where d: "d = StreamDecl n es" by (cases d)
  have s: "stands src p (Lit (CHR 0x27) n # Byte (CHR '':'') # (Byte (CHR ''['') # between (CHR '','') (map entry_toks es)
      @ mark (CHR '']'')) @ mark (CHR '';'') @ concat (map stream_toks ds)) end_at"
    using assms(1) Cons d by simp
  obtain r where "slice src p end_at = Done (CHR 0x27 # r)" using rest_slice [OF s order_refl] assms(2) by auto
  then show ?thesis
    using skip_ws_stands [OF s] by (simp add: skip_semicolons.simps [of src p] starts_with_iff)
qed

lemma semicolons_one:
  assumes "stands src p (Byte (CHR '';'') # concat (map stream_toks ss)) end_at" and "end_at < length src"
    and "src ! end_at = CHR 0x7D"
  shows "skip_semicolons src (skip_ws src p) end_at = Done (p + 1)"
proof -
  obtain r where "slice src p end_at = Done (CHR '';'' # r)" using rest_slice [OF assms(1) order_refl] assms(2) by auto
  then have "skip_semicolons src p end_at = skip_semicolons src (skip_ws src (p + 1)) end_at"
    by (subst skip_semicolons.simps) (simp add: starts_with_iff)
  then show ?thesis
    using skip_ws_stands [OF assms(1)] semicolons_none [OF stands_byte [OF assms(1)] assms(2,3)] by simp
qed

lemma streams_read:
  assumes "stands src pos (concat (map stream_toks ss)) end_at \<or> stands src pos (Byte (CHR '';'') # concat (map stream_toks ss)) end_at"
    and "list_all wf_stream ss" and "end_at < length src" and "src ! end_at = CHR 0x7D"
  shows "parse_streams src end_at pos = Done (map stream_meaning ss)"
  using assms
proof (induction ss arbitrary: pos)
  case Nil
  then obtain p where p: "skip_semicolons src (skip_ws src pos) end_at = Done p" "stands src p [] end_at"
    using semicolons_none [of src pos "[]" end_at] semicolons_one [of src pos "[]" end_at] stands_byte by fastforce
  then have "p = end_at" using stands_end [OF p(2)] by simp
  with p(1) show ?case by (subst parse_streams.simps) simp
next
  case (Cons d ds)
  obtain p where p: "skip_semicolons src (skip_ws src pos) end_at = Done p"
    and s: "stands src p (stream_toks d @ concat (map stream_toks ds)) end_at"
    using Cons.prems semicolons_none [of src pos "d # ds" end_at] semicolons_one [of src pos "d # ds" end_at] stands_byte
    by fastforce
  let ?b = "p + length (flat (stream_toks d))"
  obtain n es where d: "d = StreamDecl n es" by (cases d)
  let ?front = "Lit (CHR 0x27) n # Byte (CHR '':'') # Byte (CHR ''['') # between (CHR '','') (map entry_toks es) @ mark (CHR '']'')"
  have b: "?b \<le> end_at" "p < end_at" using stands_end [OF s] d by simp_all
  have "parse_stream src p end_at = Done (stream_meaning d, ?b - 1)"
    using Cons.prems b by (intro stream_read [OF stands_left [OF s]]) simp_all
  moreover have "stands src (?b - 1) (Byte (CHR '';'') # concat (map stream_toks ds)) end_at"
    using stands_right [of src p ?front "Byte (CHR '';'') # concat (map stream_toks ds)" end_at] s d by simp
  then have "parse_streams src end_at (?b - 1) = Done (map stream_meaning ds)"
    using Cons.prems by (intro Cons.IH) simp_all
  ultimately show ?case
    using p b by (simp add: parse_streams.simps [of src end_at pos])
qed

section \<open>The interface\<close>

lemma ascii_valid: "list_all is_ascii s \<Longrightarrow> valid_utf8 s"
proof (induction s)
  case (Cons c s)
  have "utf8_head (c # s) = (True, 1)"
    using Cons.prems by (simp add: utf8_head_def utf8_width_def byte_at_def is_ascii_def Let_def)
  then show ?case using Cons by (simp add: valid_step)
qed simp

lemma strip_from_bytes:
  "list_all (\<lambda>c. \<not> is_quote c \<and> c \<noteq> CHR ''/'') s \<Longrightarrow> src = pre @ s @ post
    \<Longrightarrow> strip_from src (length pre) = s @ strip_from src (length pre + length s)"
proof (induction s arbitrary: pre)
  case (Cons c s)
  have "strip_from src (length pre) = c # strip_from src (length (pre @ [c]))"
    using Cons.prems by (subst strip_from.simps) (simp add: strip_item_def)
  also have "\<dots> = c # s @ strip_from src (length (pre @ [c]) + length s)"
    using Cons.IH [of "pre @ [c]"] Cons.prems by simp
  finally show ?case by simp
qed simp

lemma strip_from_toks:
  "list_all tok_ok ts \<Longrightarrow> src = pre @ flat ts @ post
    \<Longrightarrow> strip_from src (length pre) = flat ts @ strip_from src (length pre + length (flat ts))"
proof (induction ts arbitrary: pre)
  case (Cons t ts)
  have "strip_from src (length pre) = tok_text t @ strip_from src (length (pre @ tok_text t))"
  proof (cases t)
    case (Byte c)
    then show ?thesis using strip_from_bytes [of "[c]" src pre "flat ts @ post"] Cons.prems by simp
  next
    case (Lit q b)
    have "skip_string src (length pre) = length pre + length (tok_text t)"
      using Cons.prems Lit by (intro skip_string_lit [of q b, folded Lit]) auto
    then have "strip_item src (length pre) = (tok_text t, length (pre @ tok_text t))"
      using Cons.prems Lit by (simp add: strip_item_def bytes_between_def)
    then show ?thesis using Cons.prems Lit by (subst strip_from.simps) simp
  qed
  also have "strip_from src (length (pre @ tok_text t)) = flat ts @ strip_from src (length (pre @ tok_text t) + length (flat ts))"
    using Cons.prems by (intro Cons.IH) simp_all
  finally show ?case by (simp add: add.assoc)
qed simp

lemma find_byte: "c \<notin> set pre \<Longrightarrow> find_text (pre @ c # s) [c] = Some (length pre)"
  by (induction pre) (auto simp: starts_with_iff)

lemma tok_ascii: "tok_ok t \<Longrightarrow> list_all is_ascii (tok_text t)"
  by (cases t) (auto simp: is_quote_def is_ascii_def)

lemma flat_ascii: "list_all tok_ok ts \<Longrightarrow> list_all is_ascii (flat ts)"
  by (induction ts) (simp_all add: tok_ascii)

lemma piece_stream:
  assumes "wf_stream d" shows "piece True '','' (stream_toks d)"
proof -
  obtain n es where d: "d = StreamDecl n es" by (cases d)
  have "piece True '','' (between (CHR '','') (map entry_toks es))"
    using assms d by (intro commas) (auto simp: list_all_iff intro: piece_entry)
  then have "piece True '','' (Byte (CHR ''['') # between (CHR '','') (map entry_toks es) @ mark (CHR '']''))"
    by (intro piece_wrap) (simp_all add: brackets_def)
  moreover have "piece True '','' [Lit (CHR 0x27) n]"
    using assms d by (intro piece_lit) (simp_all add: wf_text_def is_quote_def)
  ultimately show ?thesis
    unfolding d stream_toks.simps by (intro piece_append piece_byte) simp_all
qed

text \<open>C16: The catalog that is generated from is the one the interface declares.  Every source of the
  grammar is read without an error or a panic, and as what it means: the streams in order, each
  entry with its key pattern, the lengths its tuples can have (from the last required element on,
  over all alternatives, ascending and each once), and whether it is unbounded.  No comma, colon,
  semicolon or bar inside a generic, an object, a callback or a string is taken for a separator.\<close>

theorem catalog_read_as_declared:
  assumes "list_all wf_stream ss" and "ss \<noteq> []"
  shows "parse (print ss) = Done (map stream_meaning ss)"
proof -
  let ?toks = "concat (map stream_toks ss)" and ?src = "print ss"
  let ?whole = "Byte (CHR 0x7B) # ?toks @ mark (CHR 0x7D)" and ?n = "length NEEDLE"
  have piece: "piece True '','' ?toks"
    using assms(1) by (intro piece_concat) (auto simp: list_all_iff intro: piece_stream)
  then have toks: "list_all tok_ok ?whole"
    by (simp add: piece_def is_quote_def is_ascii_def is_ascii_whitespace_def)
  have src: "?src = NEEDLE @ flat ?whole" by (simp add: print_def)
  have needle: "list_all is_ascii NEEDLE" "list_all (\<lambda>c. \<not> is_quote c \<and> c \<noteq> CHR ''/'') NEEDLE" "CHR 0x7B \<notin> set NEEDLE"
    by (simp_all add: NEEDLE_def is_ascii_def is_quote_def)
  have ascii: "list_all is_ascii ?src" using needle(1) flat_ascii [OF toks] unfolding src by simp
  have "strip_from ?src 0 = ?src"
    using strip_from_bytes [OF needle(2), of ?src "[]" "flat ?whole"] strip_from_toks [OF toks, of ?src NEEDLE "[]"]
      strip_from.simps [of ?src "length ?src"] src by simp
  then have strip: "strip_comments ?src = Done ?src" by (simp add: strip_comments_def ascii_valid [OF ascii])
  have stands: "stands ?src ?n ?whole (length ?src)"
    unfolding stands_def using ascii toks src by (intro conjI exI [of _ NEEDLE] exI [of _ "[]"]) simp_all
  let ?stop = "length ?src - 1"
  have "balanced ?src ?n (CHR 0x7B) (CHR 0x7D) = Done ?stop"
    using piece by (intro stands_balanced [OF stands]) (simp_all add: piece_def)
  moreover have "parse_streams ?src ?stop (?n + 1) = Done (map stream_meaning ss)"
    using assms(1) src by (intro streams_read disjI1 stands_wrap [OF stands]) (simp_all add: nth_append)
  moreover have "find_text ?src NEEDLE = Some 0"
    using src by (cases ?src) (simp_all add: NEEDLE_def starts_with_iff)
  moreover have "find_text ?src [CHR 0x7B] = Some ?n"
    using find_byte [OF needle(3)] src by simp
  moreover have "slice ?src 0 (length ?src) = Done ?src"
    by (simp add: slice_def is_char_boundary_def)
  ultimately show ?thesis using strip assms(2) by (simp add: parse_def)
qed

theorem catalog_read_as_declared_witness:
  "parse (print [StreamDecl ''s'' [EntryDecl (KpLiteral ''k'') [TupleOf [Element None False (TyApp ''Map'' [TyName ''K'', TyName ''V'']),
      Element (Some ''b'') True (TyName ''B'')]]]])
    = Done [\<lparr>sr_name = ''s'', sr_events = [\<lparr>ev_key = KpLiteral ''k'', ev_key_source = CHR 0x27 # ''k'' @ [CHR 0x27],
        ev_args = \<lparr>ar_source = ''[Map<K,V>,b?:B]'', ar_arities = [1, 2], ar_variadic = False\<rparr>\<rparr>]\<rparr>]"
proof -
  let ?e = "[Element None False (TyApp ''Map'' [TyName ''K'', TyName ''V'']), Element (Some ''b'') True (TyName ''B'')]"
  have "wf_name ''Map''" "wf_name ''K''" "wf_name ''V''" "wf_name ''B''" "wf_name ''b''"
    by (simp_all add: wf_name_def name_char_def is_ascii_alphanumeric_def)
  then have wf: "list_all wf_stream [StreamDecl ''s'' [EntryDecl (KpLiteral ''k'') [TupleOf ?e]]]"
    by (simp add: wf_text_def is_ascii_def)
  have "{required ?e..length ?e} = {1, 2}" by (auto simp: required_def)
  then have "sorted_list_of_set {required ?e..length ?e} = [1, 2]" by simp
  moreover have "flat (args_toks [TupleOf ?e]) = ''[Map<K,V>,b?:B]''"
    by (simp add: args_toks_def element_toks_def optional_mark_def)
  moreover have "normalise ''[Map<K,V>,b?:B]'' = ''[Map<K,V>,b?:B]''"
    by (simp add: normalise_def is_ascii_whitespace_def)
  ultimately have "stream_meaning (StreamDecl ''s'' [EntryDecl (KpLiteral ''k'') [TupleOf ?e]])
      = \<lparr>sr_name = ''s'', sr_events = [\<lparr>ev_key = KpLiteral ''k'', ev_key_source = CHR 0x27 # ''k'' @ [CHR 0x27],
        ev_args = \<lparr>ar_source = ''[Map<K,V>,b?:B]'', ar_arities = [1, 2], ar_variadic = False\<rparr>\<rparr>]\<rparr>"
    by (simp only: stream_meaning.simps entry_meaning.simps args_meaning_def list.map) simp
  with catalog_read_as_declared [OF wf] show ?thesis by simp
qed

end
