(* ===== verification/Codegen_Text.thy ===== *)
theory Codegen_Text
  imports Rs_Prelude
begin

text \<open>
  The fixed text of the generated module, \<open>render_catalog\<close> of
  \<open>rocketsocket-codegen/src/render.rs\<close>, line by line, and the constants of \<open>lib.rs\<close> it names.  What is
  not printable ASCII, quotes and braces are given as bytes.
\<close>

definition UPSTREAM_COMMIT :: str where
  "UPSTREAM_COMMIT = ''ea163f56b53b1dd40d49af39e0406397cbd24939''"

definition UPSTREAM_VERSION :: str where
  "UPSTREAM_VERSION = ''8.8.0-develop''"

definition UPSTREAM_PATH :: str where
  "UPSTREAM_PATH = ''packages/ddp-client/src/types/streams.ts''"

definition INTRO_LINES :: "str list" where
  "INTRO_LINES = [
     [],
     ''/// The Rocket.Chat stream surface, read straight out of '' @ [CHR 0x60] @ UPSTREAM_PATH @ [CHR 0x60] @ ''.'',
     ''///'',
     ''/// **Generated. Do not edit by hand** '' @ [CHR 0xE2, CHR 0x80, CHR 0x94] @ '' run '' @ [CHR 0x60] @ ''cargo run -p rocketsocket-codegen'' @ [CHR 0x60] @ '','',
     ''/// which rewrites everything between the '' @ [CHR 0x60] @ ''GENERATED-BEGIN'' @ [CHR 0x60] @ '' and '' @ [CHR 0x60] @ ''GENERATED-END'' @ [CHR 0x60],
     ''/// markers and leaves the rest of this file alone.'',
     ''///'',
     ''/// This is an *index*, not a decoder. It answers '' @ [CHR 0x22] @ ''does this workspace'' @ [CHR 0x27] @ ''s server'',
     ''/// version declare this (stream, event) pair, and how many positional arguments'',
     ''/// does it promise?'' @ [CHR 0x22] @ '' '' @ [CHR 0xE2, CHR 0x80, CHR 0x94] @ '' which is what makes upstream drift visible: a test in'',
     ''/// this module asserts that every '' @ [CHR 0x60] @ ''(stream, event)'' @ [CHR 0x60] @ '' pair ['' @ [CHR 0x60] @ ''StreamEvent'' @ [CHR 0x60] @ ''] types is'',
     ''/// still declared here, so an event that disappears upstream fails the build'',
     ''/// instead of quietly becoming one the bot never receives again.'',
     ''///'',
     ''/// It is *not* the authority on what the server actually sends; see the module'',
     ''/// docs for where the declared types and the emit site disagree.'',
     ''pub mod catalog '' @ [CHR 0x7B]]"

definition TYPE_LINES :: "str list" where
  "TYPE_LINES = [
     [],
     ''    /// One DDP stream. The wire name is this '' @ [CHR 0x60] @ ''name'' @ [CHR 0x60] @ '' with a '' @ [CHR 0x60] @ ''stream-'' @ [CHR 0x60] @ '' prefix.'',
     ''    #[derive(Debug, Clone, Copy, PartialEq, Eq)]'',
     ''    pub struct StreamSpec '' @ [CHR 0x7B],
     ''        /// Stream name as declared upstream, without the '' @ [CHR 0x60] @ ''stream-'' @ [CHR 0x60] @ '' prefix.'',
     ''        pub name: &'' @ [CHR 0x27] @ ''static str,'',
     ''        /// Event entries, in declaration order.'',
     ''        pub events: &'' @ [CHR 0x27] @ ''static [EventSpec],'',
     ''    '' @ [CHR 0x7D],
     [],
     ''    impl StreamSpec '' @ [CHR 0x7B],
     ''        /// The entry matching a concrete '' @ [CHR 0x60] @ ''eventName'' @ [CHR 0x60] @ '', in declaration order.'',
     ''        ///'',
     ''        /// Order is load-bearing: several streams declare a catch-all key after their'',
     ''        /// specific ones, and '' @ [CHR 0x60] @ ''room-messages'' @ [CHR 0x60] @ '' is exactly that case '' @ [CHR 0xE2, CHR 0x80, CHR 0x94] @ '' '' @ [CHR 0x60] @ ''__my_messages__'' @ [CHR 0x60] @ '' is'',
     ''        /// declared before the free-form room-id key, so it must be tried first.'',
     ''        #[must_use]'',
     ''        pub fn event(&self, key: &str) -> Option<&'' @ [CHR 0x27] @ ''static EventSpec> '' @ [CHR 0x7B],
     ''            self.events.iter().find(|event| event.key.matches(key))'',
     ''        '' @ [CHR 0x7D],
     ''    '' @ [CHR 0x7D],
     [],
     ''    /// One '' @ [CHR 0x60, CHR 0x7B] @ '' key; args '' @ [CHR 0x7D, CHR 0x60] @ '' entry of a stream.'',
     ''    #[derive(Debug, Clone, Copy, PartialEq, Eq)]'',
     ''    pub struct EventSpec '' @ [CHR 0x7B],
     ''        /// Shape of the '' @ [CHR 0x60] @ ''eventName'' @ [CHR 0x60] @ '' this entry matches.'',
     ''        pub key: KeyPattern,'',
     ''        /// Declared tuple lengths, ascending. More than one means the declared type is a'',
     ''        /// union of tuples of differing length.'',
     ''        ///'',
     ''        /// Treat these as a hint, never as a validation rule. Arity has changed across'',
     ''        /// server releases '' @ [CHR 0xE2, CHR 0x80, CHR 0x94] @ '' '' @ [CHR 0x60] @ ''user-status'' @ [CHR 0x60] @ '' grew from 3 to 6 to 8 '' @ [CHR 0xE2, CHR 0x80, CHR 0x94] @ '' and the emit site adds'',
     ''        /// elements the declared type does not show.'',
     ''        pub arities: &'' @ [CHR 0x27] @ ''static [usize],'',
     ''        /// Whether an alternative is an unbounded array rather than a fixed tuple.'',
     ''        pub variadic: bool,'',
     ''        /// The declared '' @ [CHR 0x60] @ ''args'' @ [CHR 0x60] @ '' type, verbatim, whitespace collapsed.'',
     ''        pub args: &'' @ [CHR 0x27] @ ''static str,'',
     ''    '' @ [CHR 0x7D],
     [],
     ''    /// The shape of an event key.'',
     ''    ///'',
     ''    /// Rocket.Chat keys are frequently composite '' @ [CHR 0xE2, CHR 0x80, CHR 0x94] @ '' '' @ [CHR 0x60] @ ''<rid>/user-activity'' @ [CHR 0x60] @ '', '' @ [CHR 0x60] @ ''<uid>/message'' @ [CHR 0x60] @ '' '' @ [CHR 0xE2, CHR 0x80, CHR 0x94],
     ''    /// which upstream expresses as a TypeScript template literal type.'',
     ''    #[derive(Debug, Clone, Copy, PartialEq, Eq)]'',
     ''    #[non_exhaustive]'',
     ''    pub enum KeyPattern '' @ [CHR 0x7B],
     ''        /// A fixed key, matched exactly.'',
     ''        Literal(&'' @ [CHR 0x27] @ ''static str),'',
     ''        /// '' @ [CHR 0x60, CHR 0x60] @ '' '' @ [CHR 0x60, CHR 0x24, CHR 0x7B] @ ''string'' @ [CHR 0x7D] @ ''/suffix'' @ [CHR 0x60] @ '' '' @ [CHR 0x60, CHR 0x60] @ '' '' @ [CHR 0xE2, CHR 0x80, CHR 0x94] @ '' free text, a slash, then this suffix.'',
     ''        Suffix(&'' @ [CHR 0x27] @ ''static str),'',
     ''        /// '' @ [CHR 0x60, CHR 0x60] @ '' '' @ [CHR 0x60] @ ''prefix/'' @ [CHR 0x24, CHR 0x7B] @ ''string'' @ [CHR 0x7D, CHR 0x60] @ '' '' @ [CHR 0x60, CHR 0x60] @ '' '' @ [CHR 0xE2, CHR 0x80, CHR 0x94] @ '' this prefix, a slash, then free text.'',
     ''        Prefix(&'' @ [CHR 0x27] @ ''static str),'',
     ''        /// The whole key is free text, typically a room id or a uid.'',
     ''        Any,'',
     ''    '' @ [CHR 0x7D],
     [],
     ''    impl KeyPattern '' @ [CHR 0x7B],
     ''        /// Whether a concrete '' @ [CHR 0x60] @ ''eventName'' @ [CHR 0x60] @ '' matches this pattern.'',
     ''        ///'',
     ''        /// Composite keys are split on the **first** '' @ [CHR 0x60] @ ''/'' @ [CHR 0x60] @ '' only: a suffix such as'',
     ''        /// '' @ [CHR 0x60] @ ''e2e.keyRequest'' @ [CHR 0x60] @ '' contains no slash, but a room id never does either, and'',
     ''        /// splitting from the left is what the server itself does'',
     ''        /// ('' @ [CHR 0x60] @ ''const [rid, e] = eventName.split('' @ [CHR 0x27] @ ''/'' @ [CHR 0x27] @ '')'' @ [CHR 0x60] @ '').'',
     ''        #[must_use]'',
     ''        pub fn matches(&self, key: &str) -> bool '' @ [CHR 0x7B],
     ''            match *self '' @ [CHR 0x7B],
     ''                Self::Literal(value) => key == value,'',
     ''                Self::Suffix(suffix) => '' @ [CHR 0x7B],
     ''                    key.split_once('' @ [CHR 0x27] @ ''/'' @ [CHR 0x27] @ '').is_some_and(|(head, rest)| !head.is_empty() && rest == suffix)'',
     ''                '' @ [CHR 0x7D],
     ''                Self::Prefix(prefix) => '' @ [CHR 0x7B],
     ''                    key.split_once('' @ [CHR 0x27] @ ''/'' @ [CHR 0x27] @ '').is_some_and(|(head, rest)| head == prefix && !rest.is_empty())'',
     ''                '' @ [CHR 0x7D],
     ''                Self::Any => true,'',
     ''            '' @ [CHR 0x7D],
     ''        '' @ [CHR 0x7D],
     ''    '' @ [CHR 0x7D]]"

definition LOOKUP_LINES :: "str list" where
  "LOOKUP_LINES = [
     [],
     ''    /// Looks up a stream by name, with or without the '' @ [CHR 0x60] @ ''stream-'' @ [CHR 0x60] @ '' prefix.'',
     ''    #[must_use]'',
     ''    pub fn stream(name: &str) -> Option<&'' @ [CHR 0x27] @ ''static StreamSpec> '' @ [CHR 0x7B],
     ''        let name = name.strip_prefix('' @ [CHR 0x22] @ ''stream-'' @ [CHR 0x22] @ '').unwrap_or(name);'',
     ''        STREAMS.iter().find(|spec| spec.name == name)'',
     ''    '' @ [CHR 0x7D],
     [],
     ''    /// Looks up the entry a '' @ [CHR 0x60] @ ''(stream, eventName)'' @ [CHR 0x60] @ '' pair resolves to.'',
     ''    #[must_use]'',
     ''    pub fn event(stream_name: &str, key: &str) -> Option<&'' @ [CHR 0x27] @ ''static EventSpec> '' @ [CHR 0x7B],
     ''        stream(stream_name)?.event(key)'',
     ''    '' @ [CHR 0x7D],
     [CHR 0x7D]]"

end
