(* ===== verification/Codegen_Render.thy ===== *)
theory Codegen_Render
  imports Codegen_Parse Codegen_Text
begin

text \<open>
  Where the generated table goes, \<open>rocketsocket-codegen/src/render.rs\<close>: string literals, the rows of
  the table, and the splice between the two markers of a file that also holds hand-written code.
  Then the tool, \<open>main.rs\<close>: what it prints is left out, and the file, the formatter and the vendored
  source are its arguments.
\<close>

section \<open>Rows\<close>

definition quote_char :: "char \<Rightarrow> str" where
  "quote_char c = (if c = CHR 0x22 then [CHR 0x5C, CHR 0x22] else if c = CHR 0x5C then [CHR 0x5C, CHR 0x5C] else [c])"

definition quote :: "str \<Rightarrow> str" where
  "quote v = [CHR 0x22] @ concat (map quote_char v) @ [CHR 0x22]"

fun join_with :: "str \<Rightarrow> str list \<Rightarrow> str" where
  "join_with sep [] = []"
| "join_with sep [x] = x"
| "join_with sep (x # y # zs) = x @ sep @ join_with sep (y # zs)"

definition indented :: "nat \<Rightarrow> str \<Rightarrow> str" where
  "indented n s = replicate n (CHR '' '') @ s @ [CHR 0x0A]"

definition render_key :: "key_pattern \<Rightarrow> str" where
  "render_key k = (case k of
       KpLiteral v \<Rightarrow> ''KeyPattern::Literal('' @ quote v @ '')''
     | KpSuffix v \<Rightarrow> ''KeyPattern::Suffix('' @ quote v @ '')''
     | KpPrefix v \<Rightarrow> ''KeyPattern::Prefix('' @ quote v @ '')''
     | KpAny \<Rightarrow> ''KeyPattern::Any'')"

definition render_event :: "event \<Rightarrow> str" where
  "render_event e =
     indented 16 (''EventSpec '' @ [CHR 0x7B])
     @ indented 20 (''key: '' @ render_key (ev_key e) @ '','')
     @ indented 20 (''arities: &['' @ join_with '', '' (map nat_to_str (ar_arities (ev_args e))) @ ''],'')
     @ indented 20 (''variadic: '' @ (if ar_variadic (ev_args e) then ''true'' else ''false'') @ '','')
     @ indented 20 (''args: '' @ quote (ar_source (ev_args e)) @ '','')
     @ indented 16 ([CHR 0x7D] @ '','')"

definition render_stream :: "stream \<Rightarrow> str" where
  "render_stream s =
     indented 8 (''StreamSpec '' @ [CHR 0x7B])
     @ indented 12 (''name: '' @ quote (sr_name s) @ '','')
     @ indented 12 ''events: &[''
     @ concat (map render_event (sr_events s))
     @ indented 12 ''],''
     @ indented 8 ([CHR 0x7D] @ '','')"

definition render_streams :: "catalog \<Rightarrow> str" where
  "render_streams c =
     indented 4 ''pub const STREAMS: &[StreamSpec] = &['' @ concat (map render_stream c) @ indented 4 ''];''"

definition unlines :: "str list \<Rightarrow> str" where
  "unlines ls = concat (map (\<lambda>l. l @ [CHR 0x0A]) ls)"

definition count_lines :: "catalog \<Rightarrow> str list" where
  "count_lines c = [
     [],
     ''    /// Rocket.Chat commit the catalog was generated from.'',
     ''    pub const UPSTREAM_COMMIT: &str = '' @ [CHR 0x22] @ UPSTREAM_COMMIT @ [CHR 0x22] @ '';'',
     [],
     ''    /// '' @ [CHR 0x60] @ ''apps/meteor'' @ [CHR 0x60] @ '' version at ['' @ [CHR 0x60] @ ''UPSTREAM_COMMIT'' @ [CHR 0x60] @ ''].'',
     ''    pub const UPSTREAM_VERSION: &str = '' @ [CHR 0x22] @ UPSTREAM_VERSION @ [CHR 0x22] @ '';'',
     [],
     ''    /// Number of streams declared upstream.'',
     ''    pub const STREAM_COUNT: usize = '' @ nat_to_str (length c) @ '';'',
     [],
     ''    /// Number of '' @ [CHR 0x60, CHR 0x7B] @ '' key; args '' @ [CHR 0x7D, CHR 0x60] @ '' entries declared upstream, across all streams.'',
     ''    pub const EVENT_COUNT: usize = '' @ nat_to_str (event_count c) @ '';'']"

definition render_catalog :: "catalog \<Rightarrow> str" where
  "render_catalog c =
     unlines INTRO_LINES @ unlines TYPE_LINES @ unlines (count_lines c)
     @ unlines [[], ''    /// Every stream, in upstream declaration order.''] @ render_streams c @ unlines LOOKUP_LINES"

section \<open>The splice\<close>

definition BEGIN_MARKER :: str where
  "BEGIN_MARKER = ''// ---------- GENERATED-BEGIN ----------''"

definition END_MARKER :: str where
  "END_MARKER = ''// ---------- GENERATED-END ----------''"

definition splice :: "str \<Rightarrow> str \<Rightarrow> (str, str) result" where
  "splice existing generated = (case find_text existing BEGIN_MARKER of
       None \<Rightarrow> Inl (''target file has no `'' @ BEGIN_MARKER @ ''` marker'')
     | Some begin_at \<Rightarrow> (case find_text existing END_MARKER of
           None \<Rightarrow> Inl (''target file has no `'' @ END_MARKER @ ''` marker'')
         | Some end_at \<Rightarrow>
             if end_at < begin_at then Inl ''generated-region markers are in the wrong order''
             else Inr (take (begin_at + length BEGIN_MARKER) existing @ [CHR 0x0A] @ generated @ [CHR 0x0A] @ drop end_at existing)))"

section \<open>The tool\<close>

datatype exit_code = ExSuccess | ExFailure | ExPanic

text \<open>How the tool ends, and the text it writes to the target file, if it writes one.  \<open>fmt\<close> is the
  formatter and \<open>writable\<close> whether the file can be written.\<close>

definition codegen_main :: "str list \<Rightarrow> str \<Rightarrow> (str, str) result \<Rightarrow> (str \<Rightarrow> (str, str) result) \<Rightarrow> bool
    \<Rightarrow> exit_code \<times> str option" where
  "codegen_main args vendored target fmt writable =
     (if \<not> set args \<subseteq> {''--check'', ''--report-only''} then (ExFailure, None)
      else case parse vendored of
        Failed e \<Rightarrow> (ExFailure, None)
      | Panicked \<Rightarrow> (ExPanic, None)
      | Done catalog \<Rightarrow>
          if ''--report-only'' \<in> set args then (ExSuccess, None)
          else (case target of
              Inl e \<Rightarrow> (ExFailure, None)
            | Inr existing \<Rightarrow> (case splice existing (render_catalog catalog) of
                Inl e \<Rightarrow> (ExFailure, None)
              | Inr spliced \<Rightarrow> (case fmt spliced of
                  Inl e \<Rightarrow> (ExFailure, None)
                | Inr updated \<Rightarrow>
                    if updated = existing then (ExSuccess, None)
                    else if ''--check'' \<in> set args then (ExFailure, None)
                    else if writable then (ExSuccess, Some updated)
                    else (ExFailure, None)))))"

text \<open>A check never writes, and it succeeds exactly when a run would find nothing to write.\<close>

lemma check_is_dry_run:
  "snd (codegen_main [''--check''] vendored target fmt writable) = None"
  "fst (codegen_main [''--check''] vendored target fmt writable) = ExSuccess
    \<longleftrightarrow> codegen_main [] vendored target fmt writable = (ExSuccess, None)"
  by (auto simp: codegen_main_def split: outcome.split sum.split)

section \<open>A literal reads back\<close>

text \<open>What a Rust string literal with these two escapes denotes.\<close>

fun unquote_from :: "str \<Rightarrow> str option" where
  "unquote_from [] = None"
| "unquote_from [c] = (if c = CHR 0x22 then Some [] else None)"
| "unquote_from (c # d # s) =
     (if c = CHR 0x22 then None
      else if c = CHR 0x5C then
        (if d = CHR 0x22 \<or> d = CHR 0x5C then map_option (Cons d) (unquote_from s) else None)
      else map_option (Cons c) (unquote_from (d # s)))"

lemma unquote_char: "unquote_from s = Some r \<Longrightarrow> unquote_from (quote_char c @ s) = Some (c # r)"
  by (cases s) (auto simp: quote_char_def)

lemma quote_read_back: "unquote_from (concat (map quote_char v) @ [CHR 0x22]) = Some v"
  by (induction v) (simp_all add: unquote_char)

section \<open>Occurrences\<close>

lemma find_text_at:
  "find_text s p = Some n \<longleftrightarrow> starts_with (drop n s) p \<and> n \<le> length s \<and> (\<forall>m<n. \<not> starts_with (drop m s) p)"
proof (induction s p arbitrary: n rule: find_text.induct)
  case (1 p)
  then show ?case by (auto simp: starts_with_iff)
next
  case (2 c s p)
  show ?case
  proof (cases "starts_with (c # s) p")
    case True
    then show ?thesis by (cases n) auto
  next
    case False
    have split: "(\<forall>m<Suc k. \<not> starts_with (drop m (c # s)) p) \<longleftrightarrow> \<not> starts_with (c # s) p \<and> (\<forall>m<k. \<not> starts_with (drop m s) p)" for k
      by (auto simp: less_Suc_eq_0_disj)
    show ?thesis
      using 2 [OF False] False by (cases n) (auto simp only: find_text.simps if_False map_option_eq_Some split drop_Suc_Cons
          length_Cons Suc_le_mono drop0 nat.inject simp_thms)
  qed
qed

lemma occurrence_nth: "starts_with (drop m s) p \<Longrightarrow> k < length p \<Longrightarrow> m + k < length s \<and> s ! (m + k) = p ! k"
proof -
  assume "starts_with (drop m s) p" and k: "k < length p"
  then obtain r where r: "drop m s = p @ r" by (auto simp: starts_with_iff)
  then have "length (drop m s) = length p + length r" by simp
  then have "m + k < length s" using k by simp
  moreover have "drop m s ! k = p ! k" using r k by (simp add: nth_append)
  ultimately show ?thesis by simp
qed

lemma occurrence_prefix:
  assumes "starts_with (drop m (h @ x)) p" and "m + length p \<le> length h"
  shows "starts_with (drop m (h @ y)) p"
proof -
  obtain r where r: "drop m h @ x = p @ r" using assms by (auto simp: starts_with_iff)
  then have "p = take (length p) (drop m h @ x)" by simp
  also have "\<dots> = take (length p) (drop m h)" using assms(2) by simp
  finally have "drop m h = p @ drop (length p) (drop m h)" by (metis append_take_drop_id)
  then have "drop m (h @ y) = p @ drop (length p) (drop m h) @ y" using assms(2) by (metis add_leD1 append_assoc drop_append diff_is_0_eq drop0)
  then show ?thesis by (auto simp: starts_with_iff)
qed

lemma occurrence_suffix: "length u \<le> m \<Longrightarrow> starts_with (drop m (u @ v)) p = starts_with (drop (m - length u) v) p"
  by simp

lemma occurrence_apart:
  assumes "starts_with (drop m (u @ c # v)) p" and "c \<notin> set p" and "p \<noteq> []"
  shows "m + length p \<le> length u \<or> length u < m"
proof (rule ccontr)
  assume "\<not> ?thesis"
  then have "length u < m + length p" "m \<le> length u" by simp_all
  then have k: "length u - m < length p" "m + (length u - m) = length u" by arith+
  from occurrence_nth [OF assms(1) k(1)] k(2) have "p ! (length u - m) = c" by (simp add: nth_append)
  then show False using assms(2) k(1) nth_mem by fastforce
qed

section \<open>What is written by hand stays\<close>

lemma markers_apart_at: "list_all (\<lambda>k. BEGIN_MARKER ! k \<noteq> CHR ''/'' \<or> BEGIN_MARKER ! (k + 1) \<noteq> CHR ''/'') [1..<39]"
  by code_simp

lemma marker_shape: "length BEGIN_MARKER = 40" "length END_MARKER = 38" "BEGIN_MARKER ! 24 = CHR ''B''" "END_MARKER ! 24 = CHR ''E''"
  "END_MARKER ! 0 = CHR ''/''" "END_MARKER ! 1 = CHR ''/''" "BEGIN_MARKER ! 39 = CHR ''-''"
  "CHR 0x0A \<notin> set BEGIN_MARKER" "CHR 0x0A \<notin> set END_MARKER"
  by (simp_all add: BEGIN_MARKER_def END_MARKER_def)

lemma markers_apart:
  assumes "starts_with (drop b s) BEGIN_MARKER" and "starts_with (drop e s) END_MARKER" and "b \<le> e"
  shows "b + length BEGIN_MARKER \<le> e"
proof (rule ccontr)
  assume "\<not> ?thesis"
  then obtain k where k: "e = b + k" "k < 40" using assms(3) marker_shape(1) by (metis le_Suc_ex nat_add_left_cancel_less not_le)
  note at_begin = occurrence_nth [OF assms(1)] and at_end = occurrence_nth [OF assms(2)]
  show False
  proof (cases "k = 0")
    case True
    then show False using at_begin [of 24] at_end [of 24] k marker_shape by simp
  next
    case False
    have c0: "BEGIN_MARKER ! k = CHR ''/''" using at_begin [of k] at_end [of 0] k marker_shape by simp
    then have "k \<noteq> 39" using marker_shape(7) by auto
    then have "k + 1 < 40" "k \<in> set [1..<39]" using k(2) False by auto
    moreover from this have "BEGIN_MARKER ! (k + 1) = CHR ''/''" using at_begin [of "k + 1"] at_end [of 1] k marker_shape by simp
    ultimately show False using markers_apart_at c0 unfolding list_all_iff by blast
  qed
qed

text \<open>A file in its parts: up to the first begin marker, the old table, from the first end marker on.\<close>

definition spliceable :: "str \<Rightarrow> str \<Rightarrow> str \<Rightarrow> bool" where
  "spliceable head old tail \<longleftrightarrow> (\<exists>b. find_text (head @ old @ tail) BEGIN_MARKER = Some b \<and> length head = b + length BEGIN_MARKER
     \<and> find_text (head @ old @ tail) END_MARKER = Some (length head + length old))"

lemma spliceable_splice: "spliceable head old tail \<Longrightarrow> splice (head @ old @ tail) new = Inr (head @ [CHR 0x0A] @ new @ [CHR 0x0A] @ tail)"
  by (auto simp: spliceable_def splice_def)

lemma splice_shape:
  assumes "splice existing generated = Inr out"
  obtains head old tail where "existing = head @ old @ tail" "spliceable head old tail"
proof -
  obtain b e where f: "find_text existing BEGIN_MARKER = Some b" "find_text existing END_MARKER = Some e" "b \<le> e"
    using assms by (auto simp: splice_def split: option.splits if_splits)
  let ?n = "b + length BEGIN_MARKER"
  note at = f(1,2) [unfolded find_text_at]
  have "?n \<le> e" using markers_apart at f(3) by blast
  let ?head = "take ?n existing" and ?old = "take (e - ?n) (drop ?n existing)" and ?tail = "drop e existing"
  have parts: "existing = ?head @ ?old @ ?tail"
    using \<open>?n \<le> e\<close> by (metis append_take_drop_id drop_drop le_add_diff_inverse2)
  have "length ?head = ?n" "length ?head + length ?old = e" using \<open>?n \<le> e\<close> at by auto
  then have "spliceable ?head ?old ?tail" using f(1,2) by (simp only: spliceable_def parts [symmetric]) blast
  with parts show thesis by (rule that)
qed

lemma spliceable_ends:
  assumes "spliceable head old tail" shows "ends_with head BEGIN_MARKER \<and> starts_with tail END_MARKER"
proof -
  obtain b where b: "length head = b + length BEGIN_MARKER" "starts_with (drop b (head @ old @ tail)) BEGIN_MARKER"
    and e: "starts_with (drop (length head + length old) (head @ old @ tail)) END_MARKER"
    using assms by (auto simp: spliceable_def find_text_at)
  from occurrence_prefix [OF b(2), of "[]"] b(1) obtain r where r: "drop b head = BEGIN_MARKER @ r"
    by (auto simp: starts_with_iff)
  moreover have "r = []" using arg_cong [OF r, of length] b(1) by simp
  ultimately have "head = take b head @ BEGIN_MARKER" by (metis append_Nil2 append_take_drop_id)
  then show ?thesis using e by (auto simp: ends_with_iff)
qed

lemma begin_stays:
  assumes "spliceable head old tail"
  shows "\<exists>b. find_text (head @ rest) BEGIN_MARKER = Some b \<and> length head = b + length BEGIN_MARKER"
proof -
  obtain b where b: "length head = b + length BEGIN_MARKER" "starts_with (drop b (head @ old @ tail)) BEGIN_MARKER"
    and first: "\<forall>m<b. \<not> starts_with (drop m (head @ old @ tail)) BEGIN_MARKER"
    using assms by (auto simp: spliceable_def find_text_at)
  have "starts_with (drop b (head @ rest)) BEGIN_MARKER" using occurrence_prefix [OF b(2)] b(1) by simp
  moreover have "\<not> starts_with (drop m (head @ rest)) BEGIN_MARKER" if "m < b" for m
    using occurrence_prefix [of m head rest BEGIN_MARKER "old @ tail"] first that b(1) by auto
  ultimately show ?thesis using b(1) by (auto simp: find_text_at)
qed

lemma end_stays:
  assumes "spliceable head old tail" and "\<not> contains generated END_MARKER"
  shows "find_text (head @ CHR 0x0A # generated @ CHR 0x0A # tail) END_MARKER = Some (length head + length generated + 2)"
proof -
  let ?out = "head @ CHR 0x0A # generated @ CHR 0x0A # tail"
  have e: "starts_with tail END_MARKER"
    and first: "\<forall>m<length head + length old. \<not> starts_with (drop m (head @ old @ tail)) END_MARKER"
    using assms(1) by (auto simp: spliceable_def find_text_at)
  have "END_MARKER \<noteq> []" using marker_shape(2) by auto
  note apart = occurrence_apart [OF _ marker_shape(9) this]
  have "\<not> starts_with (drop m ?out) END_MARKER" if m: "m < length head + length generated + 2" for m
  proof
    assume occ: "starts_with (drop m ?out) END_MARKER"
    from apart [OF occ] show False
    proof
      assume "m + length END_MARKER \<le> length head"
      then have "starts_with (drop m (head @ old @ tail)) END_MARKER" "m < length head"
        using occurrence_prefix [OF occ] marker_shape(2) by simp_all
      then show False using first [rule_format, of m] by simp
    next
      assume "length head < m"
      then obtain k where k: "m = length head + 1 + k" by (metis Suc_eq_plus1 add.assoc add.commute less_iff_Suc_add)
      have later: "starts_with (drop k (generated @ CHR 0x0A # tail)) END_MARKER" using occ k by simp
      have "k + length END_MARKER \<le> length generated" using apart [OF later] m k by simp
      from occurrence_prefix [OF later this, of "[]"] have "contains generated END_MARKER"
        unfolding contains_iff starts_with_iff by (metis append_Nil2 append_take_drop_id)
      then show False using assms(2) by simp
    qed
  qed
  then show ?thesis using e by (simp add: find_text_at)
qed

text \<open>C17: Regenerating touches nothing that is written by hand.  A splice that succeeds replaces what
  is between the first markers and keeps everything before and after, markers included; and as
  long as the generated text has no end marker of its own, the result is spliced again exactly as
  the original: running the generator twice is running it once, and no old table survives.\<close>

theorem splice_keeps_handwritten:
  assumes "splice existing generated = Inr out" and "\<not> contains generated END_MARKER"
  shows "\<exists>head old tail. existing = head @ old @ tail \<and> out = head @ [CHR 0x0A] @ generated @ [CHR 0x0A] @ tail
    \<and> ends_with head BEGIN_MARKER \<and> starts_with tail END_MARKER
    \<and> (\<forall>other. splice out other = splice existing other)"
proof -
  obtain head old tail where parts: "existing = head @ old @ tail" and s: "spliceable head old tail"
    by (rule splice_shape [OF assms(1)])
  have out: "out = head @ [CHR 0x0A] @ generated @ [CHR 0x0A] @ tail"
    using spliceable_splice [OF s] assms(1) parts by simp
  have "spliceable head ([CHR 0x0A] @ generated @ [CHR 0x0A]) tail"
    using begin_stays [OF s] end_stays [OF s assms(2)] by (simp add: spliceable_def)
  then have "splice out other = splice existing other" for other
    using spliceable_splice [of head "[CHR 0x0A] @ generated @ [CHR 0x0A]" tail other] spliceable_splice [OF s, of other]
    by (simp add: out parts)
  then show ?thesis using parts out spliceable_ends [OF s] by blast
qed

theorem splice_keeps_handwritten_witness:
  "\<exists>out. splice (BEGIN_MARKER @ ''old'' @ END_MARKER @ ''kept'') ''new'' = Inr out \<and> splice out ''new'' = Inr out"
proof -
  have "find_text (BEGIN_MARKER @ ''old'' @ END_MARKER @ ''kept'') BEGIN_MARKER = Some 0"
    "find_text (BEGIN_MARKER @ ''old'' @ END_MARKER @ ''kept'') END_MARKER = Some 43"
    by code_simp+
  then obtain out where out: "splice (BEGIN_MARKER @ ''old'' @ END_MARKER @ ''kept'') ''new'' = Inr out"
    by (simp add: splice_def)
  have "\<not> contains ''new'' END_MARKER" by (simp add: END_MARKER_def starts_with_iff)
  from splice_keeps_handwritten [OF out this] out show ?thesis by metis
qed

end
