(* ===== verification/Spec2Isabelle.thy ===== *)
theory Spec2Isabelle
  imports Ddp_Witnesses Ddp_Standby Cache_Witnesses Bot_Witnesses Bot_Role_Properties Rest_Refusals Rest_Pagination Rest_Grants Bot_Wire Codegen_Positions Codegen_Catalog Codegen_Render
begin

text \<open>
  A verification library for \<open>rocketsocket\<close>, a Rust client for Rocket.Chat.

  The program.  A client holds one websocket to a server and speaks DDP over it, JSON frames that
  call methods, subscribe to streams and report changes.  \<open>rocketsocket-model\<close> has the wire types:
  the frames of the protocol and the documents (rooms, users, subscriptions, messages) they carry.
  \<open>rocketsocket-realtime\<close> has the connection: a task that owns the socket and drives a session
  state machine, a liveness policy, a reconnect backoff and two call correlators, and a client
  above it that keeps subscriptions alive across reconnects.  \<open>rocketsocket-cache\<close> keeps the
  documents that were seen.  \<open>rocketsocket-rest\<close> is the HTTP client, \<open>rocketsocket\<close> the bot framework
  above them: it dispatches decoded events to handlers whose filters accept them and looks the
  roles of an author up over HTTP.

  The theories, each named after its source file:

  \<^item> \<open>Rs_Prelude\<close>: machine types, strings, decimal numbers, finite maps for \<open>HashMap\<close> and
    \<open>DashMap\<close>, and the interfaces the components share: \<open>op_invariant\<close> and \<open>guarded_invariant\<close>
    (a component whose operations keep an invariant, always or under a condition the callers meet)
    and \<open>keyed_store\<close> (a map).  \<open>Json_Value\<close>: \<open>serde_json::Value\<close>, its ordered objects, and the
    reading of members; it interprets \<open>keyed_store\<close> for objects.
  \<^item> \<open>Ddp_Protocol\<close> (\<open>model/protocol.rs\<close>): the frames of both directions, their codecs, the
    catch-all for frames no variant fits, malformed frames, stream events and errors.  Its lemmas
    are the round trips of every frame and the exactness of the recognisers.
  \<^item> \<open>Ddp_Backoff\<close>, \<open>Ddp_Liveness\<close>, \<open>Ddp_Session\<close>, \<open>Ddp_Correlate\<close>, \<open>Ddp_Registry\<close>,
    \<open>Ddp_Standby\<close> (the files of \<open>realtime/\<close> with those names; the registry is
    \<open>subscription.rs\<close>): one record, its operations, its invariant by an interpretation of
    \<open>op_invariant\<close> or \<open>guarded_invariant\<close>, and the theorems about runs.
  \<^item> \<open>Ddp_Connection\<close> (\<open>realtime/connection.rs\<close>): the runner, a record that holds the state of the
    parts above and the two outgoing lanes.  What the environment does in one poll of the task
    (how the sink answers, what arrives, what time it is, which callers still listen) is the
    argument \<open>poll_env\<close>; an attempt and a life of the task are lists of polls and attempts, so
    every interleaving of traffic, commands and timers is some list.  \<open>Ddp_Runner\<close> has the
    interface \<open>runner_life\<close>: an invariant kept by the steps holds in every life; \<open>Ddp_Lifetime\<close>,
    \<open>Ddp_Calls\<close> and \<open>Ddp_Ending\<close> interpret it for the order of login and application frames, for
    the exactness of what callers are told, and for the end of the task.
  \<^item> \<open>Ddp_Client\<close> (\<open>realtime/client.rs\<close>): subscribing, the replay after a reconnect and the
    supervisor that forwards events.  \<open>Ddp_Durable\<close>: the same client step by step, beside the
    connection that feeds it and the application tasks that subscribe; its invariants, by
    interpretation of \<open>guarded_invariant\<close>, say when what is remembered is live.  \<open>Ddp_Recovery\<close>:
    the supervisor left to run is the loop of \<open>Ddp_Client\<close>, a reconnect recovers, and what goes
    wrong when the supervisor is overtaken.  \<open>Ddp_Feed\<close>: the events of any life of the task are
    those the durable client is modelled with.  \<open>Ddp_Witnesses\<close>: a sample task, and the hypotheses of the
    theorems met by it.
  \<^item> \<open>Model_Codec\<close>: what the derive attributes ask of \<open>serde\<close>, with the interfaces \<open>codec0\<close> and
    \<open>codec\<close> (an encoder and a decoder that reads it back) and \<open>wire_enum\<close> (a string enum that
    keeps unknown values).  \<open>Model_Time\<close> (\<open>model/datetime.rs\<close>), \<open>Model_Enums\<close>, \<open>Model_Message\<close>,
    \<open>Model_Room\<close>, \<open>Model_Subscription\<close>, \<open>Model_User\<close> (\<open>model/entity.rs\<close>): every struct as a
    record with its members in order, every enum with its table, all interpreting those
    interfaces.  \<open>Model_Laws\<close>: their round trips as a whole.
  \<^item> \<open>Cache_Resource\<close>, \<open>Cache_Config\<close>, \<open>Cache_Merge\<close>, \<open>Cache_Store\<close> (\<open>cache/resource.rs\<close>,
    \<open>config.rs\<close>, \<open>merge.rs\<close>, \<open>cache.rs\<close> with \<open>update.rs\<close>): the cache as a record of finite maps and
    one definition per method.  \<open>Cache_Merge\<close> has the interface \<open>document\<close> and interprets it for
    the four documents: merging through JSON is member-wise assignment.  \<open>Cache_Keys\<close>,
    \<open>Cache_Index\<close>, \<open>Cache_Steps\<close>: the invariant and that every operation keeps it, by
    interpretation of \<open>op_invariant\<close>; \<open>Cache_Laws\<close>: what the cache promises; \<open>Cache_Witnesses\<close>:
    sample documents and the hypotheses met by them.
  \<^item> \<open>Model_Payload\<close>, \<open>Model_Catalog\<close>, \<open>Model_Event\<close> (\<open>model/event.rs\<close>): the payload structs and
    their codecs, the catalog of declared streams as one table, and \<open>decode\<close>, which reads the
    positional arguments of a stream event; an event is typed exactly when its stream is declared
    and its arguments fit the declared shape.
  \<^item> \<open>Rest_Text\<close> (UTF-8, trimming and truncation), \<open>Rest_Error\<close> (\<open>rest/error.rs\<close>),
    \<open>Rest_Pagination\<close> (\<open>pagination.rs\<close>), \<open>Rest_Bodies\<close> (\<open>chat.rs\<close>, \<open>upload.rs\<close>), \<open>Rest_Roles\<close>
    (\<open>roles.rs\<close>), \<open>Rest_Client\<close> (\<open>client.rs\<close>, \<open>auth.rs\<close>): the HTTP client as functions on the
    shared credential slot and the log of requests, over a network that answers the n-th request.
    \<open>Rest_Refusals\<close>, \<open>Rest_Calls\<close>, \<open>Rest_Sessions\<close>: what refusals and answers mean, logins,
    logouts and uploads as transactions, and, by interpretation of \<open>guarded_invariant\<close>, where
    credentials go in any run.  \<open>Rest_Grants\<close>: the role directory over this client.
  \<^item> \<open>Bot_Filter\<close> (\<open>filter.rs\<close>) and \<open>Bot_Roles\<close> (\<open>roles.rs\<close>): the filters and the role
    directory.  A slot is an address, its mutex a lock on that address, and a lookup a task that
    waits for the lock, asks the server and stores the answer; every interleaving of lookups,
    invalidations and dropped futures is a list of \<open>role_op\<close>.  \<open>Bot_Role_Laws\<close>,
    \<open>Bot_Role_Safety\<close>, \<open>Bot_Role_Fresh\<close> have its invariants (where an answer comes from, single
    flight, the ceiling, what an invalidation cuts off) by interpretation of \<open>op_invariant\<close> and
    \<open>guarded_invariant\<close>; \<open>Bot_Role_Properties\<close> the theorems over its runs.
  \<^item> \<open>Bot_Framework\<close>, \<open>Bot_Dispatch\<close>, \<open>Bot_Witnesses\<close> (\<open>framework.rs\<close>, \<open>bot.rs\<close>): a dispatch as
    one step over the framework's record, the extractors of handler arguments, the endpoint, and
    what the handlers that run are guaranteed.
  \<^item> \<open>Bot_Connect\<close> (the builder of \<open>rest/client.rs\<close>, \<open>bot.rs\<close>): connecting, which ties the REST
    login to the token the connection task presents.
  \<^item> \<open>Bot_Macro\<close> (\<open>macros/lib.rs\<close>): the attribute \<open>#[event(..)]\<close>, on the parts of the syntax trees
    it looks at: what its arguments mean, when it accepts, the filters it renders.
    \<open>Bot_Handler\<close> (the closure it generates; contexts and errors of \<open>framework.rs\<close>): the handler it
    makes, and that its declared filters hold in a connected bot.  \<open>Bot_Wire\<close>: from the frame of
    a message, through the task, the supervisor, the decoder and the dispatch, to the handlers.
  \<^item> \<open>Codegen_Scan\<close>, \<open>Codegen_Parse\<close> (\<open>codegen/parse.rs\<close>): the scanner and the reader of
    \<open>interface StreamerEvents\<close> over bytes, whose results are a value, the promised error or the panic
    of an index.  \<open>Codegen_Positions\<close>: blanking comments keeps every position of the source.
    \<open>Codegen_Grammar\<close> has the abstract sources, how they are printed as tokens and what they mean;
    \<open>Codegen_Tokens\<close>, \<open>Codegen_Pieces\<close>, \<open>Codegen_Places\<close> what the scanner makes of token lists,
    \<open>Codegen_Reading\<close>, \<open>Codegen_Catalog\<close> that each reader, and so the parser, returns the meaning.
    \<open>Codegen_Text\<close>, \<open>Codegen_Render\<close> (\<open>render.rs\<close>, \<open>main.rs\<close>): the generated text, the splice, the tool.

  Bounds.  Loops over what the environment provides are recursions on its list, so a run is as
  long as the environment makes it and nothing is cut short by fuel; the eviction loop of the
  cache is a \<open>while\<close>, proved to return.  Counters of ids are 64-bit words: theorems about
  exactness of ids assume fewer than 2 to the 64 calls.  Attempts of the backoff are 32-bit words
  that saturate as the code's do.  Durations and instants are natural numbers of nanoseconds.

  Parameters, for code that is not in the repository: the JSON text parser and printer, the random
  generator of the backoff, the decoder of stream events in the client, and the date library,
  whose RFC 3339 parser and range are a record \<open>time_lib\<close>,
  the order in which a \<open>HashMap\<close> lists equally cold rooms (\<open>pick\<close>), the bodies of handlers and
  the extractors the compiler selects for their parameters, what the syntax library of the macro and a
  receive on the broadcast channel answer,
  and, under the REST client, the network and the URL, HTTP header and MIME libraries (record
  \<open>client_libs\<close>).

  Not modelled.  Logging and \<open>Debug\<close> output, except that of \<open>ResourceType\<close>; the broadcast channel
  and the async runtime themselves (their observable answers are the environment's); writers of
  the cache interleaving between their locks, since each method is one step; the positional form of frames in the protocol codecs (the
  documents have it); rounding of fractions beyond what JSON numbers hold, since a fraction is a
  rational.  In the REST client, parsing the workspace URL, and bodies
  whose JSON repeats a member, which a derived decoder refuses and a value merges; each of its
  calls is one step, except in the two lemmas on overlapping logins.  The report the code generator
  prints, and layout (white space, comments, trailing separators) in the grammar of its sources,
  which the parser's model reads but the theorem on meanings does not print.  Of the procedural
  macro, the spans of its errors and the text of the function it moves.
\<close>

end
